(* ===== verification/Prelude.thy ===== *)
theory Prelude
  imports Main "HOL-Library.Word" "HOL-Library.Char_ord"
begin

text \<open>
  Prelude of the development: the machine integers of the firmware by name, the collections
  of facts the component theories extend (\<open>wf_simps\<close> for the well-formedness predicates,
  \<open>codec_simps\<close> for the byte codecs), little-endian encoding of words as the
  ESP32 stores them in memory, and generic lemmas on lists that several components use.
\<close>

unbundle bit_operations_syntax

type_synonym u8 = "8 word"
type_synonym u16 = "16 word"
type_synonym u32 = "32 word"
type_synonym i8 = "8 word"
type_synonym i16 = "16 word"
type_synonym i32 = "32 word"
type_synonym bytes = "8 word list"

text \<open>The collections every component theory adds to.\<close>

named_theorems wf_simps \<open>unfolding rules for the well-formedness predicates\<close>
named_theorems codec_simps \<open>unfolding rules for the byte-level codecs\<close>
named_theorems op_simps \<open>unfolding rules for the operations of the model\<close>

section \<open>Boolean bytes and little-endian words\<close>

definition b8 :: "bool \<Rightarrow> u8" where
  "b8 b = (if b then 1 else 0)"

definition un_b8 :: "u8 \<Rightarrow> bool" where
  "un_b8 w = (w \<noteq> 0)"

lemma un_b8_b8 [simp]: "un_b8 (b8 b) = b"
  by (simp add: un_b8_def b8_def)

text \<open>Bytes of a word, least significant first: the in-memory layout of the target.\<close>

definition le16 :: "u16 \<Rightarrow> bytes" where
  "le16 w = [ucast w, ucast (drop_bit 8 w)]"

definition le32 :: "u32 \<Rightarrow> bytes" where
  "le32 w = [ucast w, ucast (drop_bit 8 w), ucast (drop_bit 16 w), ucast (drop_bit 24 w)]"

definition un_le16 :: "bytes \<Rightarrow> u16" where
  "un_le16 bs = ucast (bs ! 0) OR push_bit 8 (ucast (bs ! 1))"

definition un_le32 :: "bytes \<Rightarrow> u32" where
  "un_le32 bs = ucast (bs ! 0) OR push_bit 8 (ucast (bs ! 1)) OR
     push_bit 16 (ucast (bs ! 2)) OR push_bit 24 (ucast (bs ! 3))"

lemma length_le16 [simp]: "length (le16 w) = 2"
  by (simp add: le16_def)

lemma length_le32 [simp]: "length (le32 w) = 4"
  by (simp add: le32_def)

lemma un_le16_le16 [simp]: "un_le16 (le16 w) = w"
  unfolding un_le16_def le16_def
  by (rule bit_word_eqI) (auto simp: bit_simps nth_Cons')

lemma un_le32_le32 [simp]: "un_le32 (le32 w) = w"
proof (rule bit_word_eqI)
  fix n
  assume "n < LENGTH(32)"
  then consider "n < 8" | "8 \<le> n \<and> n < 16" | "16 \<le> n \<and> n < 24" | "24 \<le> n \<and> n < 32"
    by fastforce
  then show "bit (un_le32 (le32 w)) n = bit w n"
    by cases (auto simp: un_le32_def le32_def bit_simps nth_Cons')
qed

lemma un_le16_append [simp]: "2 \<le> length xs \<Longrightarrow> un_le16 (xs @ ys) = un_le16 xs"
  by (auto simp: un_le16_def nth_append)

lemma un_le32_append [simp]: "4 \<le> length xs \<Longrightarrow> un_le32 (xs @ ys) = un_le32 xs"
  by (auto simp: un_le32_def nth_append)

text \<open>A segment of a byte buffer: \<open>n\<close> bytes at offset \<open>off\<close>.\<close>

definition seg :: "nat \<Rightarrow> nat \<Rightarrow> 'a list \<Rightarrow> 'a list" where
  "seg off n xs = take n (drop off xs)"

lemma length_seg [simp]: "length (seg off n xs) = min n (length xs - off)"
  by (simp add: seg_def)

section \<open>Fixed-size buffers\<close>

text \<open>\<open>fit n z xs\<close> is what \<open>memset\<close> followed by \<open>memcpy\<close> of a bounded prefix leaves in
  a buffer of \<open>n\<close> elements: the data cut at \<open>n\<close> and the rest filled with \<open>z\<close>.\<close>

definition fit :: "nat \<Rightarrow> 'a \<Rightarrow> 'a list \<Rightarrow> 'a list" where
  "fit n z xs = take n xs @ replicate (n - length xs) z"

lemma length_fit [simp]: "length (fit n z xs) = n"
  by (simp add: fit_def)

lemma fit_same [simp]: "length xs = n \<Longrightarrow> fit n z xs = xs"
  by (simp add: fit_def)

lemma fit_fit: "m \<le> n \<Longrightarrow> fit m z (fit n z xs) = fit m z xs"
  by (auto simp: fit_def min_def)

lemma nth_fit: "i < n \<Longrightarrow> fit n z xs ! i = (if i < length xs then xs ! i else z)"
  by (auto simp: fit_def nth_append)

section \<open>Generic list lemmas\<close>

lemma list_all_update:
  "\<lbrakk> list_all P xs; P v \<rbrakk> \<Longrightarrow> list_all P (xs[i := v])"
  by (auto simp: list_all_iff dest: set_update_subset_insert [THEN subsetD])

lemma list_all_nth: "\<lbrakk> list_all P xs; i < length xs \<rbrakk> \<Longrightarrow> P (xs ! i)"
  by (simp add: list_all_iff)

lemma list_all_take: "list_all P xs \<Longrightarrow> list_all P (take n xs)"
  by (auto simp: list_all_iff dest: in_set_takeD)

lemma list_all_drop: "list_all P xs \<Longrightarrow> list_all P (drop n xs)"
  by (auto simp: list_all_iff dest: in_set_dropD)

section \<open>Small sums of bytes\<close>

lemma unat_add_small: "unat a + unat b < 256 \<Longrightarrow> unat (a + b :: u8) = unat a + unat b"
  by (subst unat_add_lem [THEN iffD1]) simp_all

lemma unat_of_nat_u8: "n < 256 \<Longrightarrow> unat (of_nat n :: u8) = n"
  by (simp add: unat_of_nat)

lemma of_nat_u8_inj: "\<lbrakk> a < 256; b < 256; (of_nat a :: u8) = of_nat b \<rbrakk> \<Longrightarrow> a = b"
  by (drule arg_cong [where f = unat]) (simp only: unat_of_nat_u8)

section \<open>Wrapping 32-bit clock\<close>

text \<open>\<open>millis()\<close> is a \<open>uint32_t\<close> that wraps after about 49.7 days. The elapsed time the
  code computes by unsigned subtraction is exact as long as less than \<open>2^32\<close>
  milliseconds have passed, wherever the wrap falls.\<close>

definition elapsed :: "u32 \<Rightarrow> u32 \<Rightarrow> u32" where
  "elapsed now start = now - start"

lemma elapsed_wrap: "d < 2 ^ 32 \<Longrightarrow> unat (elapsed (start + of_nat d) start) = d"
  by (simp add: elapsed_def unat_of_nat take_bit_nat_eq_self)

lemma elapsed_self [simp]: "elapsed t t = 0"
  by (simp add: elapsed_def)

end
