(* ===== verification/F32.thy ===== *)
theory F32
  imports Prelude
begin

text \<open>
  IEEE-754 binary32, the \<open>float\<close> of the firmware (\<open>readf\<close>, \<open>BatteryState\<close>, the
  settings blobs). A value is its 32 bits, so that storing a float and reading it back is the
  identity by construction. Every finite magnitude is an integral multiple of \<open>2^-149\<close>, so
  the exact value of a float is the integer \<open>ival\<close> in that unit, and an operation is the exact
  result on integers followed by one rounding to nearest, ties to even (\<open>rne\<close>). The infinities take
  the next integer of the scale, \<open>2^277\<close>, so that comparisons need no case distinction
  beside NaN.
\<close>

type_synonym f32 = u32

section \<open>Decoding\<close>

definition f_sign :: "f32 \<Rightarrow> bool" where
  "f_sign x = (2 ^ 31 \<le> uint x)"

definition f_mag :: "f32 \<Rightarrow> int" where
  "f_mag x = uint x mod 2 ^ 31"

definition mag_val :: "int \<Rightarrow> int" where
  "mag_val n = (let e = n div 2 ^ 23; f = n mod 2 ^ 23 in
     if e = 0 then f else (2 ^ 23 + f) * 2 ^ nat (e - 1))"

definition ival :: "f32 \<Rightarrow> int" where
  "ival x = (if f_sign x then - mag_val (f_mag x) else mag_val (f_mag x))"

definition f_isnan :: "f32 \<Rightarrow> bool" where
  "f_isnan x = (0x7F800000 < f_mag x)"

definition f_isinf :: "f32 \<Rightarrow> bool" where
  "f_isinf x = (f_mag x = 0x7F800000)"

definition f_finite :: "f32 \<Rightarrow> bool" where
  "f_finite x = (f_mag x < 0x7F800000)"

section \<open>Rounding\<close>

text \<open>Number of binary digits.\<close>

function blen :: "int \<Rightarrow> int" where
  "blen n = (if n \<le> 0 then 0 else 1 + blen (n div 2))"
  by auto
termination by (relation "measure nat") auto

declare blen.simps [simp del]

text \<open>Magnitude bits of the float nearest to \<open>p / q\<close> units of \<open>2^-149\<close>. The carry of a mantissa
  that rounds up to \<open>2^24\<close> runs into the exponent field, as the bits of the format want.\<close>

definition rne_div :: "int \<Rightarrow> int \<Rightarrow> int" where
  "rne_div p d = (let m = p div d; r = p mod d in
     if d < 2 * r \<or> (2 * r = d \<and> odd m) then m + 1 else m)"

definition rne :: "int \<Rightarrow> int \<Rightarrow> int" where
  "rne p q = (let e = max 0 (blen (p div q) - 24) in
     min (e * 2 ^ 23 + rne_div p (q * 2 ^ nat e)) 0x7F800000)"

definition f_make :: "bool \<Rightarrow> int \<Rightarrow> f32" where
  "f_make s m = word_of_int (if s then 2 ^ 31 + m else m)"

definition f_nan :: f32 where "f_nan = 0x7FC00000"
definition f_inf :: "bool \<Rightarrow> f32" where "f_inf s = f_make s 0x7F800000"

section \<open>Operations\<close>

definition f_neg :: "f32 \<Rightarrow> f32" where
  "f_neg x = f_make (\<not> f_sign x) (f_mag x)"

definition f_abs :: "f32 \<Rightarrow> f32" where
  "f_abs x = f_make False (f_mag x)"

definition f_add :: "f32 \<Rightarrow> f32 \<Rightarrow> f32" where
  "f_add x y =
    (if f_isnan x \<or> f_isnan y then f_nan
     else if f_isinf x then (if f_isinf y \<and> f_sign x \<noteq> f_sign y then f_nan else x)
     else if f_isinf y then y
     else let s = ival x + ival y in
       if s = 0 then f_make (f_sign x \<and> f_sign y) 0
       else f_make (s < 0) (rne \<bar>s\<bar> 1))"

definition f_sub :: "f32 \<Rightarrow> f32 \<Rightarrow> f32" where
  "f_sub x y = (if f_isnan y then f_nan else f_add x (f_neg y))"

definition f_mul :: "f32 \<Rightarrow> f32 \<Rightarrow> f32" where
  "f_mul x y = (let s = (f_sign x \<noteq> f_sign y) in
     if f_isnan x \<or> f_isnan y then f_nan
     else if f_isinf x \<or> f_isinf y then (if f_mag x = 0 \<or> f_mag y = 0 then f_nan else f_inf s)
     else f_make s (rne (mag_val (f_mag x) * mag_val (f_mag y)) (2 ^ 149)))"

definition f_div :: "f32 \<Rightarrow> f32 \<Rightarrow> f32" where
  "f_div x y = (let s = (f_sign x \<noteq> f_sign y) in
     if f_isnan x \<or> f_isnan y then f_nan
     else if f_isinf x then (if f_isinf y then f_nan else f_inf s)
     else if f_isinf y then f_make s 0
     else if f_mag y = 0 then (if f_mag x = 0 then f_nan else f_inf s)
     else f_make s (rne (mag_val (f_mag x) * 2 ^ 149) (mag_val (f_mag y))))"

definition f_lt :: "f32 \<Rightarrow> f32 \<Rightarrow> bool" where
  "f_lt x y = (\<not> f_isnan x \<and> \<not> f_isnan y \<and> ival x < ival y)"

definition f_le :: "f32 \<Rightarrow> f32 \<Rightarrow> bool" where
  "f_le x y = (\<not> f_isnan x \<and> \<not> f_isnan y \<and> ival x \<le> ival y)"

definition f_eq :: "f32 \<Rightarrow> f32 \<Rightarrow> bool" where
  "f_eq x y = (\<not> f_isnan x \<and> \<not> f_isnan y \<and> ival x = ival y)"

abbreviation f_gt :: "f32 \<Rightarrow> f32 \<Rightarrow> bool" where "f_gt x y \<equiv> f_lt y x"
abbreviation f_ge :: "f32 \<Rightarrow> f32 \<Rightarrow> bool" where "f_ge x y \<equiv> f_le y x"

text \<open>Literals and conversions: a C literal \<open>n / d\<close>, an integer converted to float, and the
  conversion back, which truncates toward zero.\<close>

definition f_lit :: "int \<Rightarrow> int \<Rightarrow> f32" where
  "f_lit n d = f_make False (rne (n * 2 ^ 149) d)"

definition f_of_int :: "int \<Rightarrow> f32" where
  "f_of_int i = f_make (i < 0) (rne (\<bar>i\<bar> * 2 ^ 149) 1)"

definition f_trunc :: "f32 \<Rightarrow> int" where
  "f_trunc x = (let m = mag_val (f_mag x) div 2 ^ 149 in if f_sign x then - m else m)"

text \<open>\<open>lroundf\<close>: to nearest, halves away from zero.\<close>

definition f_lround :: "f32 \<Rightarrow> int" where
  "f_lround x = (let m = (mag_val (f_mag x) + 2 ^ 148) div 2 ^ 149 in
     if f_sign x then - m else m)"


section \<open>Facts about the format\<close>

lemma f_mag_bounds [simp]: "0 \<le> f_mag x" "f_mag x < 2147483648"
  by (auto simp: f_mag_def)

lemma f_sign_make [simp]: "\<lbrakk> 0 \<le> m; m < 2147483648 \<rbrakk> \<Longrightarrow> f_sign (f_make s m) = s"
  by (simp add: f_sign_def f_make_def uint_word_of_int)

lemma f_mag_make [simp]: "\<lbrakk> 0 \<le> m; m < 2147483648 \<rbrakk> \<Longrightarrow> f_mag (f_make s m) = m"
  by (simp add: f_mag_def f_make_def uint_word_of_int mod_mod_cancel)

lemma f_make_decode [simp]: "f_make (f_sign x) (f_mag x) = x"
proof -
  have u: "0 \<le> uint x" "uint x < 2 ^ 32" using uint_bounded [of x] by simp_all
  have "(uint x - 2 ^ 31) mod 2 ^ 31 = uint x mod 2 ^ 31" by simp
  with u have "2 ^ 31 \<le> uint x \<Longrightarrow> uint x mod 2 ^ 31 = uint x - 2 ^ 31"
    using mod_pos_pos_trivial [of "uint x - 2 ^ 31" "2 ^ 31"] by simp
  moreover have "uint x < 2 ^ 31 \<Longrightarrow> uint x mod 2 ^ 31 = uint x" using u by simp
  ultimately have "uint x = (if f_sign x then 2 ^ 31 + f_mag x else f_mag x)"
    unfolding f_sign_def f_mag_def by (auto simp: not_le)
  then have "word_of_int (if f_sign x then 2 ^ 31 + f_mag x else f_mag x) = (word_of_int (uint x) :: u32)"
    by metis
  then show ?thesis by (simp add: f_make_def)
qed

lemma f_class_cases: "f_isnan x \<or> f_isinf x \<or> f_finite x"
  by (auto simp: f_isnan_def f_isinf_def f_finite_def)

lemma f_finite_not [simp]: "f_finite x \<Longrightarrow> \<not> f_isnan x" "f_finite x \<Longrightarrow> \<not> f_isinf x"
  by (auto simp: f_isnan_def f_isinf_def f_finite_def)

lemma f_neg_parts [simp]: "f_sign (f_neg x) = (\<not> f_sign x)" "f_mag (f_neg x) = f_mag x"
  by (simp_all add: f_neg_def)

lemma f_abs_parts [simp]: "\<not> f_sign (f_abs x)" "f_mag (f_abs x) = f_mag x"
  by (simp_all add: f_abs_def)

lemma ival_neg [simp]: "ival (f_neg x) = - ival x"
  by (simp add: ival_def)

lemma f_neg_class [simp]: "f_isnan (f_neg x) = f_isnan x" "f_isinf (f_neg x) = f_isinf x"
    "f_finite (f_neg x) = f_finite x"
  by (simp_all add: f_isnan_def f_isinf_def f_finite_def)

lemma f_abs_class [simp]: "f_isnan (f_abs x) = f_isnan x" "f_isinf (f_abs x) = f_isinf x"
    "f_finite (f_abs x) = f_finite x"
  by (simp_all add: f_isnan_def f_isinf_def f_finite_def)

lemma mag_val_nonneg [simp]: "0 \<le> n \<Longrightarrow> 0 \<le> mag_val n"
  by (simp add: mag_val_def Let_def)

lemma ival_abs [simp]: "ival (f_abs x) = \<bar>ival x\<bar>"
  by (simp add: ival_def)

lemma f_neg_neg [simp]: "f_neg (f_neg x) = x"
  unfolding f_neg_def [of "f_neg x"] by simp

text \<open>Comparisons are a total preorder on the values that are not NaN.\<close>

lemma f_le_refl [simp]: "f_le x x = (\<not> f_isnan x)"
  by (auto simp: f_le_def)

lemma f_le_trans [trans]: "\<lbrakk> f_le x y; f_le y z \<rbrakk> \<Longrightarrow> f_le x z"
  by (auto simp: f_le_def)

lemma f_lt_imp_le: "f_lt x y \<Longrightarrow> f_le x y"
  by (auto simp: f_lt_def f_le_def)

lemma f_lt_le_trans: "\<lbrakk> f_lt x y; f_le y z \<rbrakk> \<Longrightarrow> f_lt x z"
  by (auto simp: f_lt_def f_le_def)

lemma f_le_lt_trans: "\<lbrakk> f_le x y; f_lt y z \<rbrakk> \<Longrightarrow> f_lt x z"
  by (auto simp: f_lt_def f_le_def)

lemma f_not_lt: "\<lbrakk> \<not> f_isnan x; \<not> f_isnan y \<rbrakk> \<Longrightarrow> (\<not> f_lt x y) = f_le y x"
  by (auto simp: f_lt_def f_le_def)

lemma f_lt_irrefl [simp]: "\<not> f_lt x x"
  by (simp add: f_lt_def)

lemma f_lt_asym: "f_lt x y \<Longrightarrow> \<not> f_le y x"
  by (auto simp: f_lt_def f_le_def)

lemma f_cmp_nan [simp]: "f_isnan x \<Longrightarrow> \<not> f_lt x y" "f_isnan y \<Longrightarrow> \<not> f_lt x y"
    "f_isnan x \<Longrightarrow> \<not> f_le x y" "f_isnan y \<Longrightarrow> \<not> f_le x y"
  by (auto simp: f_lt_def f_le_def)

section \<open>Digits\<close>

lemma blen_0 [simp]: "n \<le> 0 \<Longrightarrow> blen n = 0"
  by (simp add: blen.simps)

lemma blen_nonneg [simp]: "0 \<le> blen n"
  by (induction n rule: blen.induct) (subst blen.simps, simp)

lemma blen_pos: "0 < n \<Longrightarrow> 1 \<le> blen n"
  by (subst blen.simps) simp

lemma blen_bounds: "0 < n \<Longrightarrow> 2 ^ nat (blen n - 1) \<le> n \<and> n < 2 ^ nat (blen n)"
proof (induction n rule: blen.induct)
  case (1 n)
  show ?case
  proof (cases "n = 1")
    case True
    then show ?thesis by (simp add: blen.simps)
  next
    case False
    with 1 have pos: "0 < n div 2" by simp
    from 1 pos have IH: "2 ^ nat (blen (n div 2) - 1) \<le> n div 2" "n div 2 < 2 ^ nat (blen (n div 2))"
      by auto
    have b: "blen n = 1 + blen (n div 2)" using 1 by (subst blen.simps) simp
    have e1: "nat (blen n - 1) = Suc (nat (blen (n div 2) - 1))"
      using b blen_pos [OF pos] by simp
    have e2: "nat (blen n) = Suc (nat (blen (n div 2)))"
      using b blen_pos [OF pos] by simp
    define A :: int where "A = 2 ^ nat (blen (n div 2) - 1)"
    define B :: int where "B = 2 ^ nat (blen (n div 2))"
    have "A \<le> n div 2" "n div 2 < B" using IH by (simp_all add: A_def B_def)
    then have "2 * A \<le> n \<and> n < 2 * B" by presburger
    then show ?thesis unfolding e1 e2 by (simp add: A_def B_def)
  qed
qed

lemma blen_le:
  assumes "0 \<le> n" "n < 2 ^ k"
  shows "blen n \<le> int k"
proof (rule ccontr)
  assume c: "\<not> blen n \<le> int k"
  then have "0 < n" using assms by (cases "n = 0") auto
  from blen_bounds [OF this] have "2 ^ nat (blen n - 1) \<le> n" by simp
  moreover have "(2::int) ^ k \<le> 2 ^ nat (blen n - 1)" using c by (intro power_increasing) auto
  ultimately show False using assms by simp
qed

lemma blen_mono: "\<lbrakk> m \<le> n \<rbrakk> \<Longrightarrow> blen m \<le> blen n"
proof (cases "0 < m")
  case True
  assume "m \<le> n"
  with True have "m < 2 ^ nat (blen n)" using blen_bounds [of n] by simp
  with True have "blen m \<le> int (nat (blen n))" by (intro blen_le) auto
  then show ?thesis by simp
qed simp

section \<open>Rounding is monotone and fixes every float\<close>

lemma rne_div_ge: "\<lbrakk> 0 < d; k * d \<le> p \<rbrakk> \<Longrightarrow> k \<le> rne_div p d"
proof -
  assume "0 < d" "k * d \<le> p"
  then have "k \<le> p div d" using zdiv_mono1 [of "k * d" p d] by simp
  then show ?thesis by (auto simp: rne_div_def Let_def)
qed

lemma rne_div_le: "\<lbrakk> 0 < d; p \<le> k * d \<rbrakk> \<Longrightarrow> rne_div p d \<le> k"
proof -
  assume d: "0 < d" and p: "p \<le> k * d"
  have pd: "p = p div d * d + p mod d" by simp
  show ?thesis
  proof (cases "p mod d = 0")
    case True
    then have "p div d * d \<le> k * d" using p pd by simp
    then have "p div d \<le> k" using d by simp
    then show ?thesis using True d by (simp add: rne_div_def)
  next
    case False
    then have "0 < p mod d" using d by (simp add: order_less_le)
    then have "p div d * d < k * d" using p pd by linarith
    then have "p div d < k" using d by simp
    then show ?thesis by (auto simp: rne_div_def Let_def)
  qed
qed

lemma rne_div_exact [simp]: "0 < d \<Longrightarrow> rne_div (k * d) d = k"
  by (simp add: rne_div_def)

lemma rne_div_mono:
  assumes "0 < d" "p \<le> p'"
  shows "rne_div p d \<le> rne_div p' d"
proof (cases "p div d = p' div d")
  case True
  have "p mod d \<le> p' mod d"
    using assms True by (metis add_le_cancel_left mult_div_mod_eq)
  then show ?thesis using True by (auto simp: rne_div_def Let_def)
next
  case False
  then have lt: "p div d < p' div d" using assms by (simp add: order_less_le zdiv_mono1)
  have "p' div d * d \<le> p'" using assms by (simp add: minus_mod_eq_div_mult [symmetric])
  then have "p' div d \<le> rne_div p' d" using assms by (intro rne_div_ge) auto
  moreover have "rne_div p d \<le> p div d + 1" by (simp add: rne_div_def Let_def)
  ultimately show ?thesis using lt by simp
qed

lemma rne_bounds [simp]: "\<lbrakk> 0 \<le> p; 0 < q \<rbrakk> \<Longrightarrow> 0 \<le> rne p q" "rne p q \<le> 2139095040"
proof -
  assume "0 \<le> p" "0 < q"
  then have "0 \<le> rne_div p (q * 2 ^ nat e)" for e by (intro rne_div_ge) auto
  then show "0 \<le> rne p q" by (simp add: rne_def Let_def)
qed (simp add: rne_def Let_def)

lemma rne_lt [simp]: "rne p q < 2147483648"
  by (rule le_less_trans [OF rne_bounds(2)]) simp

lemma rne_not_nan [simp]: "\<not> 2139095040 < rne p q"
  by (simp add: not_less)

text \<open>The exponent of the result, with the mantissa in the range the exponent field expects.\<close>

lemma rne_mantissa:
  assumes "0 \<le> p" "0 < q" and e: "e = max 0 (blen (p div q) - 24)"
  shows "rne_div p (q * 2 ^ nat e) \<le> 2 ^ 24"
    and "0 < e \<Longrightarrow> 2 ^ 23 \<le> rne_div p (q * 2 ^ nat e)"
proof -
  let ?n = "p div q"
  have n0: "0 \<le> ?n" using assms by (simp add: pos_imp_zdiv_nonneg_iff)
  have up: "?n + 1 \<le> 2 ^ 24 * 2 ^ nat e"
  proof (cases "0 < ?n")
    case True
    have "?n < 2 ^ nat (blen ?n)" using blen_bounds [OF True] by simp
    also have "\<dots> \<le> 2 ^ (24 + nat e)" using e by (intro power_increasing) auto
    finally show ?thesis by (simp add: power_add)
  next
    case False
    then have "?n = 0" using n0 by simp
    then show ?thesis by (smt (verit) one_le_power mult_le_cancel_right1 zero_less_power)
  qed
  have "p \<le> (?n + 1) * q" using assms(2)
    by (metis dual_order.strict_implies_order int_distrib(1) mult.commute mult_1 add.commute
        add_le_cancel_left mult_div_mod_eq pos_mod_bound)
  also have "\<dots> \<le> 2 ^ 24 * 2 ^ nat e * q" using up assms(2) by (intro mult_right_mono) auto
  finally show "rne_div p (q * 2 ^ nat e) \<le> 2 ^ 24"
    using assms(2) by (intro rne_div_le) (auto simp: mult.commute mult.left_commute)
  assume "0 < e"
  then have b: "24 < blen ?n" "e = blen ?n - 24" using e by auto
  then have "0 < ?n" using blen_0 [of ?n] by (cases "?n \<le> 0") auto
  from blen_bounds [OF this] have "2 ^ nat (blen ?n - 1) \<le> ?n" by simp
  moreover have "nat (blen ?n - 1) = 23 + nat e" using b by simp
  ultimately have "2 ^ 23 * 2 ^ nat e \<le> ?n" by (simp add: power_add)
  then have "2 ^ 23 * 2 ^ nat e * q \<le> ?n * q" using assms(2) by (intro mult_right_mono) auto
  also have "\<dots> \<le> p" using assms(1,2) by (simp add: minus_mod_eq_div_mult [symmetric])
  finally show "2 ^ 23 \<le> rne_div p (q * 2 ^ nat e)"
    using assms(2) by (intro rne_div_ge) (auto simp: mult.commute mult.left_commute)
qed

lemma rne_mono:
  assumes "0 \<le> p" "p \<le> p'" "0 < q"
  shows "rne p q \<le> rne p' q"
proof -
  define e where "e = max 0 (blen (p div q) - 24)"
  define e' where "e' = max 0 (blen (p' div q) - 24)"
  have le: "e \<le> e'" "0 \<le> e"
    using blen_mono [OF zdiv_mono1 [OF assms(2,3)]] by (auto simp: e_def e'_def)
  have "e * 2 ^ 23 + rne_div p (q * 2 ^ nat e) \<le> e' * 2 ^ 23 + rne_div p' (q * 2 ^ nat e')"
  proof (cases "e = e'")
    case True
    then show ?thesis using assms by (auto intro: rne_div_mono)
  next
    case False
    then have "e + 1 \<le> e'" using le by simp
    moreover have "rne_div p (q * 2 ^ nat e) \<le> 2 ^ 24"
      using assms e_def by (intro rne_mantissa) auto
    moreover have "2 ^ 23 \<le> rne_div p' (q * 2 ^ nat e')"
      using assms e'_def False le by (intro rne_mantissa) auto
    ultimately show ?thesis by simp
  qed
  then show ?thesis unfolding rne_def Let_def e_def e'_def by (intro min.mono) auto
qed

text \<open>Decoding: magnitudes are ordered as their values, and the format's own values are fixed
  points of rounding.\<close>

lemma mag_val_split:
  "\<lbrakk> 0 \<le> f; f < 8388608; 0 \<le> e \<rbrakk> \<Longrightarrow>
    mag_val (e * 8388608 + f) = (if e = 0 then f else (8388608 + f) * 2 ^ nat (e - 1))"
  by (simp add: mag_val_def Let_def)

lemma mag_val_sum:
  assumes "0 \<le> e" "8388608 \<le> m" "m \<le> 16777216"
  shows "mag_val (e * 8388608 + m) = m * 2 ^ nat e"
proof (cases "m = 16777216")
  case True
  have "mag_val ((e + 2) * 8388608 + 0) = 8388608 * 2 ^ nat (e + 1)"
    using assms by (subst mag_val_split) auto
  moreover have "nat (e + 1) = Suc (nat e)" using assms by simp
  ultimately show ?thesis using True by (simp add: algebra_simps)
next
  case False
  have "mag_val ((e + 1) * 8388608 + (m - 8388608)) = m * 2 ^ nat e"
    using assms False by (subst mag_val_split) auto
  then show ?thesis by (simp add: algebra_simps)
qed

lemma blen_eqI:
  assumes "2 ^ k \<le> n" "n < 2 ^ Suc k"
  shows "blen n = int k + 1"
proof -
  have pos: "0 < n" using assms(1) by (smt (verit) zero_less_power)
  have "blen n \<le> int (Suc k)" using assms pos by (intro blen_le) auto
  moreover have "\<not> blen n \<le> int k"
  proof
    assume "blen n \<le> int k"
    then have "(2::int) ^ nat (blen n) \<le> 2 ^ k" by (intro power_increasing) auto
    then show False using blen_bounds [OF pos] assms(1) by linarith
  qed
  ultimately show ?thesis by simp
qed

lemma rne_mag_val:
  assumes "0 \<le> n" "n \<le> 2139095040"
  shows "rne (mag_val n) 1 = n"
proof -
  define e where "e = n div 8388608"
  define f where "f = n mod 8388608"
  have n: "n = e * 8388608 + f" by (simp add: e_def f_def)
  have ef: "0 \<le> e" "0 \<le> f" "f < 8388608"
    using assms by (auto simp: e_def f_def pos_imp_zdiv_nonneg_iff)
  show ?thesis
  proof (cases "e = 0")
    case True
    then have "mag_val n = f" using ef n mag_val_split [of f e] by simp
    moreover have "blen f \<le> 24" using blen_le [of f 24] ef by simp
    ultimately show ?thesis using assms True n rne_div_exact [of 1 f]
      by (simp add: rne_def Let_def)
  next
    case False
    then have e1: "1 \<le> e" using ef by simp
    have mv: "mag_val n = (8388608 + f) * 2 ^ nat (e - 1)"
      using ef n mag_val_split [of f e] False by simp
    have "blen (mag_val n) = int (23 + nat (e - 1)) + 1"
      using ef unfolding mv by (intro blen_eqI) (auto simp: power_add)
    then have x: "max 0 (blen (mag_val n) - 24) = e - 1" using e1 by simp
    have "rne_div (mag_val n) (2 ^ nat (e - 1)) = 8388608 + f"
      unfolding mv by (rule rne_div_exact) simp
    then show ?thesis using assms x n by (simp add: rne_def Let_def)
  qed
qed

text \<open>The value of a rounded result is exact whenever the exact result fits 24 significant bits:
  integers up to \<open>2^24\<close> in particular.\<close>

lemma mag_val_rne_small:
  assumes "0 \<le> p" "p \<le> 16777216"
  shows "mag_val (rne p 1) = p"
proof (cases "p = 16777216")
  case True
  have "blen 16777216 = int 24 + 1" by (rule blen_eqI) auto
  then have "rne p 1 = 16777216"
    using True rne_div_exact [of 2 8388608] by (simp add: rne_def)
  moreover have "mag_val (1 * 8388608 + 8388608) = 8388608 * 2 ^ nat 1"
    using mag_val_sum [of 1 8388608] by simp
  ultimately show ?thesis using True by simp
next
  case False
  then have "blen p \<le> 24" using blen_le [of p 24] assms by simp
  then have r: "rne p 1 = p" using assms rne_div_exact [of 1 p] by (simp add: rne_def Let_def)
  show ?thesis
  proof (cases "p < 8388608")
    case True
    then show ?thesis using r mag_val_split [of p 0] assms by simp
  next
    case f: False
    then show ?thesis using r mag_val_sum [of 0 p] assms by simp
  qed
qed

lemma mag_val_0 [simp]: "mag_val 0 = 0"
  by (simp add: mag_val_def)

lemma mag_val_mono_inv:
  assumes "0 \<le> m" "0 \<le> n" "m \<le> 2139095040" "n \<le> 2139095040" "mag_val m \<le> mag_val n"
  shows "m \<le> n"
proof -
  have "rne (mag_val m) 1 \<le> rne (mag_val n) 1" using assms by (intro rne_mono) auto
  then show ?thesis using rne_mag_val [of m] rne_mag_val [of n] assms by linarith
qed

lemma mag_val_mono:
  assumes "0 \<le> m" "m \<le> n" "n \<le> 2139095040"
  shows "mag_val m \<le> mag_val n"
proof (rule ccontr)
  assume "\<not> ?thesis"
  then have lt: "mag_val n < mag_val m" by simp
  then have "n \<le> m" using mag_val_mono_inv [of n m] assms by linarith
  then have "m = n" using assms by simp
  then show False using lt by simp
qed

section \<open>Classes and signs of results\<close>

text \<open>A value that is a number (or an infinity) and not negative; what the accumulators
  and the percentages of the firmware are meant to be.\<close>

definition f_nonneg :: "f32 \<Rightarrow> bool" where
  "f_nonneg x = (\<not> f_isnan x \<and> 0 \<le> ival x)"

lemma f_isnan_make [simp]:
  "\<lbrakk> 0 \<le> m; m < 2147483648 \<rbrakk> \<Longrightarrow> f_isnan (f_make s m) = (0x7F800000 < m)"
  by (simp add: f_isnan_def)

lemma f_isinf_make [simp]:
  "\<lbrakk> 0 \<le> m; m < 2147483648 \<rbrakk> \<Longrightarrow> f_isinf (f_make s m) = (m = 0x7F800000)"
  by (simp add: f_isinf_def)

lemma ival_make [simp]:
  "\<lbrakk> 0 \<le> m; m < 2147483648 \<rbrakk> \<Longrightarrow> ival (f_make s m) = (if s then - mag_val m else mag_val m)"
  by (simp add: ival_def)

lemma f_isnan_rne [simp]: "\<lbrakk> 0 \<le> p; 0 < q \<rbrakk> \<Longrightarrow> \<not> f_isnan (f_make s (rne p q))"
  by (subst f_isnan_make) (use rne_bounds in \<open>auto simp: not_less\<close>)

lemma ival_eq_mag: "0 \<le> ival x \<Longrightarrow> ival x = mag_val (f_mag x)"
proof -
  assume "0 \<le> ival x"
  moreover have "0 \<le> mag_val (f_mag x)" by simp
  ultimately show ?thesis by (smt (verit) ival_def)
qed

lemma f_isnan_lit [simp]: "\<lbrakk> 0 \<le> n; 0 < d \<rbrakk> \<Longrightarrow> \<not> f_isnan (f_lit n d)"
  by (simp add: f_lit_def)

lemma f_nonneg_lit [simp]: "\<lbrakk> 0 \<le> n; 0 < d \<rbrakk> \<Longrightarrow> f_nonneg (f_lit n d)"
  by (simp add: f_lit_def f_nonneg_def)

lemma f_isnan_of_int [simp]: "\<not> f_isnan (f_of_int i)"
  by (simp add: f_of_int_def)

lemma f_nonneg_of_int [simp]: "0 \<le> i \<Longrightarrow> f_nonneg (f_of_int i)"
  by (simp add: f_of_int_def f_nonneg_def)

lemma f_nonneg_0 [simp]: "f_nonneg 0"
  by (simp add: f_nonneg_def f_isnan_def f_mag_def ival_def)

lemma ival_0 [simp]: "ival 0 = 0" "\<not> f_isnan 0" "f_finite 0"
  by (simp_all add: f_isnan_def f_finite_def f_mag_def ival_def)

lemma f_gt_0_nonneg: "f_gt x 0 \<Longrightarrow> f_nonneg x"
  by (simp add: f_lt_def f_nonneg_def)

lemma f_nonneg_not_nan: "f_nonneg x \<Longrightarrow> \<not> f_isnan x"
  by (simp add: f_nonneg_def)

lemma f_nonneg_abs [simp]: "f_nonneg (f_abs x) = (\<not> f_isnan x)"
  by (auto simp: f_nonneg_def)

lemma ival_inf: "f_isinf x \<Longrightarrow> \<bar>ival x\<bar> = 2 ^ 277"
  by (simp add: f_isinf_def ival_def mag_val_def Let_def)

lemma ival_not_nan_le: "\<not> f_isnan x \<Longrightarrow> \<bar>ival x\<bar> \<le> 2 ^ 277"
proof -
  assume "\<not> f_isnan x"
  then have "mag_val (f_mag x) \<le> mag_val 2139095040"
    by (intro mag_val_mono) (auto simp: f_isnan_def not_less)
  also have "mag_val 2139095040 = 2 ^ 277" by (simp add: mag_val_def Let_def)
  finally show ?thesis using mag_val_nonneg [of "f_mag x"] by (auto simp: ival_def)
qed

lemma f_add_not_nan:
  "\<lbrakk> \<not> f_isnan x; \<not> f_isnan y; f_finite x \<or> f_finite y \<rbrakk> \<Longrightarrow> \<not> f_isnan (f_add x y)"
  by (auto simp: f_add_def Let_def)

lemma f_sub_not_nan:
  "\<lbrakk> \<not> f_isnan x; \<not> f_isnan y; f_finite x \<or> f_finite y \<rbrakk> \<Longrightarrow> \<not> f_isnan (f_sub x y)"
  using f_add_not_nan [of x "f_neg y"] by (auto simp: f_sub_def)

lemma f_mul_not_nan:
  "\<lbrakk> f_finite x; f_finite y \<rbrakk> \<Longrightarrow> \<not> f_isnan (f_mul x y)"
  by (simp add: f_mul_def Let_def)

lemma f_div_not_nan:
  assumes "f_finite x" "f_finite y" "0 < f_mag y"
  shows "\<not> f_isnan (f_div x y)"
proof -
  have "0 < mag_val (f_mag y)"
  proof (rule ccontr)
    assume "\<not> ?thesis"
    then have "mag_val (f_mag y) \<le> mag_val 0" by simp
    then have "f_mag y \<le> 0"
      using assms mag_val_mono_inv [of "f_mag y" 0] by (simp add: f_finite_def)
    then show False using assms by simp
  qed
  then show ?thesis using assms by (simp add: f_div_def Let_def)
qed

text \<open>Adding a nonnegative amount never lowers a nonnegative value, whatever the rounding.\<close>

lemma f_add_increasing:
  assumes "f_nonneg x" "f_nonneg d"
  shows "f_le x (f_add x d)"
proof -
  have nn: "\<not> f_isnan x" "\<not> f_isnan d" "0 \<le> ival x" "0 \<le> ival d"
    using assms by (auto simp: f_nonneg_def)
  consider (xi) "f_isinf x" | (di) "\<not> f_isinf x" "f_isinf d" | (fin) "\<not> f_isinf x" "\<not> f_isinf d"
    by blast
  then show ?thesis
  proof cases
    case xi
    then have "f_isinf d \<Longrightarrow> f_sign x = f_sign d"
      using nn ival_inf [of x] ival_inf [of d]
      by (auto simp: ival_def f_isinf_def mag_val_def Let_def split: if_splits)
    then show ?thesis using xi nn by (auto simp: f_add_def)
  next
    case di
    have "ival d = 2 ^ 277" using ival_inf [OF di(2)] nn by simp
    then show ?thesis using di nn ival_not_nan_le [of x] by (simp add: f_add_def f_le_def)
  next
    case fin
    show ?thesis
    proof (cases "ival x + ival d = 0")
      case True
      then have "ival x = 0" using nn by simp
      then show ?thesis using True fin nn by (simp add: f_add_def f_le_def)
    next
      case False
      have "rne (ival x) 1 \<le> rne (ival x + ival d) 1" using nn by (intro rne_mono) auto
      moreover have "rne (ival x) 1 = f_mag x"
        using nn ival_eq_mag [of x] by (simp add: rne_mag_val f_isnan_def not_less)
      ultimately have "mag_val (f_mag x) \<le> mag_val (rne (ival x + ival d) 1)"
        by (intro mag_val_mono) auto
      moreover have "f_add x d = f_make False (rne (ival x + ival d) 1)"
        using False fin nn by (simp add: f_add_def Let_def)
      ultimately show ?thesis using nn ival_eq_mag [OF nn(3)] by (simp add: f_le_def)
    qed
  qed
qed

lemma f_nonneg_trans: "\<lbrakk> f_nonneg x; f_le x y \<rbrakk> \<Longrightarrow> f_nonneg y"
  by (auto simp: f_nonneg_def f_le_def)

lemma f_nonneg_add [simp]: "\<lbrakk> f_nonneg x; f_nonneg d \<rbrakk> \<Longrightarrow> f_nonneg (f_add x d)"
  using f_add_increasing f_nonneg_trans by blast

text \<open>Products and quotients of nonnegative values.\<close>

lemma mag_val_pos: "\<lbrakk> 0 < n; n \<le> 2139095040 \<rbrakk> \<Longrightarrow> 0 < mag_val n"
proof (rule ccontr)
  assume a: "0 < n" "n \<le> 2139095040" "\<not> 0 < mag_val n"
  then have "mag_val n \<le> mag_val 0" by simp
  then have "n \<le> 0" using a mag_val_mono_inv [of n 0] by linarith
  then show False using a by simp
qed

lemma f_nonneg_cases: "f_nonneg x \<longleftrightarrow> \<not> f_isnan x \<and> (f_sign x \<longrightarrow> f_mag x = 0)"
proof -
  have "\<not> f_isnan x \<Longrightarrow> 0 < f_mag x \<Longrightarrow> 0 < mag_val (f_mag x)"
    by (intro mag_val_pos) (auto simp: f_isnan_def)
  moreover have "0 < f_mag x \<or> f_mag x = 0" using f_mag_bounds(1) [of x] by linarith
  ultimately show ?thesis by (auto simp: f_nonneg_def ival_def)
qed

lemma f_inf_parts [simp]: "f_sign (f_inf s) = s" "f_mag (f_inf s) = 2139095040" "\<not> f_isnan (f_inf s)"
  by (simp_all add: f_inf_def)

lemma rne_0 [simp]: "0 < q \<Longrightarrow> rne 0 q = 0"
  by (simp add: rne_def rne_div_def)

lemma f_nan_isnan [simp]: "f_isnan f_nan"
  by (simp add: f_isnan_def f_nan_def f_mag_def)

lemma f_nonneg_mul:
  "\<lbrakk> f_nonneg x; f_nonneg y; \<not> f_isnan (f_mul x y) \<rbrakk> \<Longrightarrow> f_nonneg (f_mul x y)"
  unfolding f_nonneg_cases
  by (auto simp: f_mul_def Let_def f_isinf_def split: if_splits)

lemma f_nonneg_div:
  "\<lbrakk> f_nonneg x; \<not> f_sign y; \<not> f_isnan (f_div x y) \<rbrakk> \<Longrightarrow> f_nonneg (f_div x y)"
proof -
  assume a: "f_nonneg x" "\<not> f_sign y" "\<not> f_isnan (f_div x y)"
  have "\<not> f_isnan y \<Longrightarrow> 0 < f_mag y \<Longrightarrow> 0 < mag_val (f_mag y)"
    by (intro mag_val_pos) (auto simp: f_isnan_def)
  moreover have "0 < f_mag y \<or> f_mag y = 0" using f_mag_bounds(1) [of y] by linarith
  ultimately show ?thesis using a unfolding f_nonneg_cases
    by (auto simp: f_div_def Let_def f_isinf_def split: if_splits)
qed

section \<open>Sums as rounded integers\<close>

definition rnd_int :: "int \<Rightarrow> int" where
  "rnd_int s = (if s < 0 then - mag_val (rne (- s) 1) else mag_val (rne s 1))"

lemma rnd_int_mono: "s \<le> t \<Longrightarrow> rnd_int s \<le> rnd_int t"
proof -
  assume st: "s \<le> t"
  have m: "0 \<le> a \<Longrightarrow> a \<le> b \<Longrightarrow> mag_val (rne a 1) \<le> mag_val (rne b 1)" for a b
    by (intro mag_val_mono rne_mono) auto
  have z: "0 \<le> mag_val (rne a 1)" if "0 \<le> a" for a
    using that by simp
  consider "0 \<le> s" | "s < 0" "0 \<le> t" | "t < 0" by linarith
  then show ?thesis
  proof cases
    case 2
    then show ?thesis using z [of t] z [of "- s"] unfolding rnd_int_def by (smt (verit))
  qed (use st m [of s t] m [of "- t" "- s"] in \<open>auto simp: rnd_int_def\<close>)
qed

lemma rnd_int_ival: "\<not> f_isnan x \<Longrightarrow> rnd_int (ival x) = ival x"
proof -
  assume "\<not> f_isnan x"
  then have r: "rne (mag_val (f_mag x)) 1 = f_mag x"
    by (intro rne_mag_val) (auto simp: f_isnan_def not_less)
  have "0 \<le> mag_val (f_mag x)" by simp
  then have "ival x < 0 \<Longrightarrow> f_sign x" "\<not> ival x < 0 \<Longrightarrow> ival x = mag_val (f_mag x)"
    using ival_eq_mag [of x] by (smt (verit) ival_def)+
  then show ?thesis using r by (auto simp: rnd_int_def ival_def)
qed

lemma ival_f_add:
  "\<lbrakk> f_finite x; f_finite y \<rbrakk> \<Longrightarrow> ival (f_add x y) = rnd_int (ival x + ival y)"
  by (auto simp: f_add_def rnd_int_def Let_def)

text \<open>Adding a nonnegative amount to a finite value never lowers it, adding a nonpositive one never
  raises it.\<close>

lemma f_add_ge: "\<lbrakk> f_finite x; f_nonneg d; f_finite d \<rbrakk> \<Longrightarrow> f_le x (f_add x d)"
  using rnd_int_mono [of "ival x" "ival x + ival d"] rnd_int_ival [of x]
  by (simp add: f_le_def ival_f_add f_nonneg_def f_add_not_nan)

lemma f_sub_le: "\<lbrakk> f_finite x; f_nonneg d; f_finite d \<rbrakk> \<Longrightarrow> f_le (f_sub x d) x"
  using rnd_int_mono [of "ival x + ival (f_neg d)" "ival x"] rnd_int_ival [of x]
  by (simp add: f_le_def f_sub_def ival_f_add f_nonneg_def f_add_not_nan)

text \<open>Evaluation of float terms on numerals.\<close>

lemmas f_eval = f_sign_def f_mag_def ival_def mag_val_def f_isnan_def f_isinf_def f_finite_def
  rne_def rne_div_def f_make_def f_nan_def f_inf_def f_neg_def f_abs_def f_add_def f_sub_def
  f_mul_def f_div_def f_lt_def f_le_def f_eq_def f_lit_def f_of_int_def f_trunc_def f_lround_def
  blen.simps

end
