(* ===== verification/Nvs.thy ===== *)
theory Nvs
  imports Prelude
begin

text \<open>
  Non-volatile storage. \<open>kv\<close> is the content of one namespace as the host build's
  \<open>Preferences\<close> keeps it (\<open>sim/hal/preferences_stub.cpp\<close>: a map from key to raw
  bytes), \<open>nvs\<close> the whole partition, one \<open>kv\<close> per namespace (a namespace never opened and an
  empty one answer every accessor alike). The accessors are those of the stub, each with the
  default it returns for a missing key or a value of another size. \<open>battery_nvs.cpp\<close>
  follows on top. The locale \<open>cell\<close> is the interface the settings are proved against: a
  setting is a load/save pair that reads some keys and writes some keys.
\<close>

type_synonym kv = "string \<Rightarrow> bytes option"
type_synonym nvs = "string \<Rightarrow> kv"

section \<open>Strings as bytes\<close>

definition char_byte :: "char \<Rightarrow> u8" where
  "char_byte c = of_nat (of_char c)"

definition byte_char :: "u8 \<Rightarrow> char" where
  "byte_char w = char_of (unat w)"

definition str_bytes :: "string \<Rightarrow> bytes" where
  "str_bytes s = map char_byte s"

definition bytes_str :: "bytes \<Rightarrow> string" where
  "bytes_str bs = map byte_char bs"

lemma byte_char_byte [simp]: "byte_char (char_byte c) = c"
  by (simp add: byte_char_def char_byte_def unat_of_nat)

lemma char_byte_char [simp]: "char_byte (byte_char w) = w"
proof -
  have "unat w < 256" using unsigned_less [of w, where ?'a = nat] by simp
  then show ?thesis by (simp add: byte_char_def char_byte_def)
qed

lemma bytes_str_str_bytes [simp]: "bytes_str (str_bytes s) = s"
  by (simp add: bytes_str_def str_bytes_def comp_def)

lemma str_bytes_bytes_str [simp]: "str_bytes (bytes_str bs) = bs"
  by (simp add: bytes_str_def str_bytes_def comp_def)

lemma length_str_bytes [simp]: "length (str_bytes s) = length s"
  by (simp add: str_bytes_def)

lemma str_bytes_take: "take n (str_bytes s) = str_bytes (take n s)"
  by (simp add: str_bytes_def take_map)

text \<open>C strings: the bytes up to the first NUL.\<close>

definition c_str :: "bytes \<Rightarrow> bytes" where
  "c_str bs = takeWhile (\<lambda>b. b \<noteq> 0) bs"

section \<open>Preferences accessors\<close>

definition pf_isKey :: "kv \<Rightarrow> string \<Rightarrow> bool" where
  "pf_isKey s k = (s k \<noteq> None)"

definition pf_getBytesLength :: "kv \<Rightarrow> string \<Rightarrow> nat" where
  "pf_getBytesLength s k = (case s k of None \<Rightarrow> 0 | Some v \<Rightarrow> length v)"

text \<open>The bytes copied into the caller's buffer (their number is the C return value).\<close>

definition pf_getBytes :: "kv \<Rightarrow> string \<Rightarrow> nat \<Rightarrow> bytes" where
  "pf_getBytes s k maxLen = (case s k of None \<Rightarrow> [] | Some v \<Rightarrow> take maxLen v)"

definition pf_putBytes :: "string \<Rightarrow> bytes \<Rightarrow> kv \<Rightarrow> kv" where
  "pf_putBytes k v s = s(k := Some v)"

text \<open>\<open>getString(key, buf, maxLen)\<close>: the string left in the buffer.\<close>

definition pf_getString :: "kv \<Rightarrow> string \<Rightarrow> nat \<Rightarrow> bytes" where
  "pf_getString s k maxLen = (case s k of None \<Rightarrow> []
     | Some v \<Rightarrow> if maxLen = 0 then [] else take (if maxLen \<le> length v then maxLen - 1 else length v) v)"

text \<open>\<open>getString(key, defaultVal)\<close>, which returns a \<open>String\<close> built from the C string.\<close>

definition pf_getStringD :: "kv \<Rightarrow> string \<Rightarrow> bytes \<Rightarrow> bytes" where
  "pf_getStringD s k d = (case s k of None \<Rightarrow> d | Some v \<Rightarrow> c_str v)"

definition pf_putString :: "string \<Rightarrow> bytes \<Rightarrow> kv \<Rightarrow> kv" where
  "pf_putString k v s = s(k := Some v)"

definition pf_getUShort :: "kv \<Rightarrow> string \<Rightarrow> u16 \<Rightarrow> u16" where
  "pf_getUShort s k d = (case s k of None \<Rightarrow> d
     | Some v \<Rightarrow> if length v \<noteq> 2 then d else un_le16 v)"

definition pf_putUShort :: "string \<Rightarrow> u16 \<Rightarrow> kv \<Rightarrow> kv" where
  "pf_putUShort k v s = s(k := Some (le16 v))"

definition pf_getBool :: "kv \<Rightarrow> string \<Rightarrow> bool \<Rightarrow> bool" where
  "pf_getBool s k d = (case s k of None \<Rightarrow> d
     | Some v \<Rightarrow> if length v \<noteq> 1 then d else un_b8 (v ! 0))"

definition pf_putBool :: "string \<Rightarrow> bool \<Rightarrow> kv \<Rightarrow> kv" where
  "pf_putBool k v s = s(k := Some [b8 v])"

definition pf_getUChar :: "kv \<Rightarrow> string \<Rightarrow> u8 \<Rightarrow> u8" where
  "pf_getUChar s k d = (case s k of None \<Rightarrow> d
     | Some v \<Rightarrow> if length v \<noteq> 1 then d else v ! 0)"

definition pf_putUChar :: "string \<Rightarrow> u8 \<Rightarrow> kv \<Rightarrow> kv" where
  "pf_putUChar k v s = s(k := Some [v])"

text \<open>A float is its four bytes, so \<open>getFloat\<close> and \<open>getUInt\<close> read alike.\<close>

definition pf_getUInt :: "kv \<Rightarrow> string \<Rightarrow> u32 \<Rightarrow> u32" where
  "pf_getUInt s k d = (case s k of None \<Rightarrow> d
     | Some v \<Rightarrow> if length v \<noteq> 4 then d else un_le32 v)"

definition pf_putUInt :: "string \<Rightarrow> u32 \<Rightarrow> kv \<Rightarrow> kv" where
  "pf_putUInt k v s = s(k := Some (le32 v))"

definition pf_getFloat :: "kv \<Rightarrow> string \<Rightarrow> u32 \<Rightarrow> u32" where
  "pf_getFloat s k d = (case s k of None \<Rightarrow> d
     | Some v \<Rightarrow> if length v \<noteq> 4 then d else un_le32 v)"

definition pf_putFloat :: "string \<Rightarrow> u32 \<Rightarrow> kv \<Rightarrow> kv" where
  "pf_putFloat k v s = s(k := Some (le32 v))"

definition pf_clear :: "kv \<Rightarrow> kv" where
  "pf_clear s = (\<lambda>_. None)"

definition pf_remove :: "string \<Rightarrow> kv \<Rightarrow> kv" where
  "pf_remove k s = s(k := None)"

text \<open>The accessors of the whole library unfold together.\<close>

lemmas pf_put_defs = pf_putBytes_def pf_putString_def pf_putUShort_def pf_putBool_def
  pf_putUChar_def pf_putUInt_def pf_putFloat_def pf_remove_def pf_clear_def

lemmas pf_get_defs = pf_isKey_def pf_getBytesLength_def pf_getBytes_def pf_getString_def
  pf_getStringD_def pf_getUShort_def pf_getBool_def pf_getUChar_def pf_getUInt_def pf_getFloat_def

lemmas pf_defs = pf_put_defs pf_get_defs

section \<open>Keys\<close>

text \<open>\<open>%d\<close> of a nonnegative number, and \<open>snprintf(key, size, "prefix%d", idx)\<close>, which cuts
  at \<open>size - 1\<close> characters.\<close>

definition digit_char :: "nat \<Rightarrow> char" where
  "digit_char d = char_of (48 + d)"

fun dec :: "nat \<Rightarrow> string" where
  "dec n = (if n < 10 then [digit_char n] else dec (n div 10) @ [digit_char (n mod 10)])"

declare dec.simps [simp del]

definition key_idx :: "nat \<Rightarrow> string \<Rightarrow> u8 \<Rightarrow> string" where
  "key_idx sz prefix i = take (sz - 1) (prefix @ dec (unat i))"

definition is_digit :: "char \<Rightarrow> bool" where
  "is_digit c = (48 \<le> (of_char c :: nat) \<and> (of_char c :: nat) \<le> 57)"

lemma digit_char_inj: "\<lbrakk> digit_char a = digit_char b; a < 10; b < 10 \<rbrakk> \<Longrightarrow> a = b"
proof -
  assume "digit_char a = digit_char b" "a < 10" "b < 10"
  then have "(of_char (digit_char a) :: nat) = of_char (digit_char b)" by simp
  with \<open>a < 10\<close> \<open>b < 10\<close> show ?thesis by (simp add: digit_char_def)
qed

lemma is_digit_digit_char: "d < 10 \<Longrightarrow> is_digit (digit_char d)"
  by (simp add: is_digit_def digit_char_def)

lemma dec_nonempty [simp]: "dec n \<noteq> []" "[] \<noteq> dec n"
  by (subst dec.simps, simp)+

lemma dec_digits: "c \<in> set (dec n) \<Longrightarrow> is_digit c"
proof (induction n rule: dec.induct)
  case (1 n)
  then show ?case
    by (subst (asm) (2) dec.simps) (auto split: if_splits intro: is_digit_digit_char)
qed

lemma dec_inj: "dec m = dec n \<Longrightarrow> m = n"
proof (induction m arbitrary: n rule: dec.induct)
  case (1 m)
  consider "m < 10" "n < 10" | "m < 10" "\<not> n < 10" | "\<not> m < 10" "n < 10" | "\<not> m < 10" "\<not> n < 10"
    by blast
  then show ?case
  proof cases
    case 1
    then show ?thesis using \<open>dec m = dec n\<close> digit_char_inj
      by (simp add: dec.simps [of m] dec.simps [of n])
  next
    case 4
    then have "dec (m div 10) = dec (n div 10)" "m mod 10 = n mod 10"
      using \<open>dec m = dec n\<close> digit_char_inj [of "m mod 10" "n mod 10"]
      by (simp_all add: dec.simps [of m] dec.simps [of n])
    then show ?thesis using 1 4 by (metis div_mult_mod_eq)
  qed (use \<open>dec m = dec n\<close> in \<open>simp_all add: dec.simps [of m] dec.simps [of n]\<close>)
qed

lemma dec_eq_iff [simp]: "dec m = dec n \<longleftrightarrow> m = n"
  using dec_inj by blast

lemma dec_neq_alpha: "\<not> is_digit c \<Longrightarrow> dec n \<noteq> c # cs"
  using dec_digits [of c n] by auto

lemma length_dec: "n < 1000 \<Longrightarrow> length (dec n) \<le> 3"
proof -
  assume n: "n < 1000"
  have a: "length (dec (n div 10 div 10)) = 1" using n by (subst dec.simps) simp
  have b: "length (dec (n div 10)) \<le> 2" using a by (subst dec.simps) simp
  show ?thesis using b by (subst dec.simps) simp
qed

lemma length_dec_u8: "length (dec (unat (i :: u8))) \<le> 3"
proof -
  have "unat i < 256" using unsigned_less [of i, where ?'a = nat] by simp
  then show ?thesis by (intro length_dec) simp
qed

text \<open>With room for the prefix and three digits nothing is cut, so distinct indices get
  distinct keys.\<close>

lemma key_idx_full: "length prefix + 3 < sz \<Longrightarrow> key_idx sz prefix i = prefix @ dec (unat i)"
  using length_dec_u8 [of i] by (simp add: key_idx_def)

lemma key_idx_inj:
  "\<lbrakk> length prefix + 3 < sz; key_idx sz prefix i = key_idx sz prefix j \<rbrakk> \<Longrightarrow> i = j"
  by (simp add: key_idx_full word_unat_eq_iff)

section \<open>The interface of a setting\<close>

text \<open>A setting is a pair of operations on a store: \<open>load\<close> depends only on the keys in
  \<open>rkeys\<close>, \<open>save\<close> changes only the keys in \<open>wkeys\<close>, and a value within \<open>ok\<close> comes
  back as \<open>ret\<close> says.\<close>

locale cell =
  fixes load :: "kv \<Rightarrow> 'b"
    and save :: "'a \<Rightarrow> kv \<Rightarrow> kv"
    and ok :: "'a \<Rightarrow> bool"
    and ret :: "'a \<Rightarrow> 'b"
    and rkeys :: "string set"
    and wkeys :: "string set"
  assumes load_save: "ok v \<Longrightarrow> load (save v s) = ret v"
    and save_frame: "k \<notin> wkeys \<Longrightarrow> save v s k = s k"
    and load_local: "(\<And>k. k \<in> rkeys \<Longrightarrow> s k = t k) \<Longrightarrow> load s = load t"
begin

lemma load_other: "k \<notin> rkeys \<Longrightarrow> load (s(k := x)) = load s"
  by (rule load_local) auto

lemma save_twice: "ok v \<Longrightarrow> load (save v (save u s)) = ret v"
  by (rule load_save)

lemma reload: "ok v \<Longrightarrow> load (save v s) = load (save v t)"
  by (simp add: load_save)

end

text \<open>Two settings that share no key do not interfere.\<close>

locale two_cells = a: cell loada savea oka reta ra wa + b: cell loadb saveb okb retb rb wb
  for loada :: "kv \<Rightarrow> 'b" and savea :: "'a \<Rightarrow> kv \<Rightarrow> kv" and oka reta ra wa
    and loadb :: "kv \<Rightarrow> 'd" and saveb :: "'c \<Rightarrow> kv \<Rightarrow> kv" and okb retb rb wb +
  assumes disjoint: "ra \<inter> wb = {}" "rb \<inter> wa = {}"
begin

lemma load_after_other: "loada (saveb v s) = loada s" "loadb (savea u s) = loadb s"
  using disjoint by (auto intro!: a.load_local b.load_local a.save_frame b.save_frame)

lemma both_survive:
  "\<lbrakk> oka u; okb v \<rbrakk> \<Longrightarrow> loada (saveb v (savea u s)) = reta u \<and> loadb (savea u (saveb v s)) = retb v"
  by (simp add: load_after_other a.load_save b.load_save)

end

end
