(* ===== verification/Layout.thy ===== *)
theory Layout
  imports F32 Nvs
begin

text \<open>
  The structs the firmware persists as raw memory (\<open>switch_controller.h\<close>,
  \<open>settings_manager.h\<close>), each as a record with the C fields, an encoder to the bytes of the struct
  on the target (little-endian, natural alignment, padding written as zero) and the
  decoder that reads the fields back at their offsets. The lemma \<open>dec_enc_\<dots>\<close> of a struct is its
  round trip for values whose arrays have the declared lengths, \<open>length_enc_\<dots>\<close> its
  \<open>sizeof\<close>, which the header asserts for the switch structs.
\<close>

section \<open>Reading a buffer at an offset\<close>

lemma seg_app_skip [codec_simps]:
  "length xs \<le> off \<Longrightarrow> seg off n (xs @ ys) = seg (off - length xs) n ys"
  by (simp add: seg_def)

lemma seg_Cons_skip [codec_simps]: "0 < off \<Longrightarrow> seg off n (x # xs) = seg (off - 1) n xs"
  by (simp add: seg_def drop_Cons')

lemma seg_Cons_hit [codec_simps]: "seg 0 (Suc n) (x # xs) = x # seg 0 n xs"
  by (simp add: seg_def)

lemma seg_0 [codec_simps]: "seg off 0 xs = []"
  by (simp add: seg_def)

lemma seg_app_hit [codec_simps]: "length xs = n \<Longrightarrow> seg 0 n (xs @ ys) = xs"
  by (simp add: seg_def)

lemma seg_all [codec_simps]: "length xs \<le> n \<Longrightarrow> seg 0 n xs = xs"
  by (simp add: seg_def)

lemma seg_blocks:
  "\<lbrakk> \<forall>x \<in> set xs. length (e x) = w; i < length xs \<rbrakk> \<Longrightarrow>
    seg (w * i) w (concat (map e xs)) = e (xs ! i)"
proof (induction xs arbitrary: i)
  case (Cons x xs)
  then show ?case
    by (cases i) (auto simp: seg_app_hit seg_app_skip)
qed simp

lemma length_blocks:
  "(\<And>x. x \<in> set xs \<Longrightarrow> length (e x) = w) \<Longrightarrow> length (concat (map e xs)) = w * length xs"
  by (induction xs) auto

text \<open>Arrays of floats.\<close>

definition f32s_bytes :: "f32 list \<Rightarrow> bytes" where
  "f32s_bytes xs = concat (map le32 xs)"

definition un_f32s :: "nat \<Rightarrow> bytes \<Rightarrow> f32 list" where
  "un_f32s n bs = map (\<lambda>i. un_le32 (seg (4 * i) 4 bs)) [0..<n]"

lemma length_f32s_bytes [simp]: "length (f32s_bytes xs) = 4 * length xs"
  unfolding f32s_bytes_def by (rule length_blocks) simp

lemma length_un_f32s [simp]: "length (un_f32s n bs) = n"
  by (simp add: un_f32s_def)

lemma un_f32s_bytes [simp]: "length xs = n \<Longrightarrow> un_f32s n (f32s_bytes xs) = xs"
  unfolding un_f32s_def f32s_bytes_def
  by (rule nth_equalityI) (simp_all add: seg_blocks)

section \<open>Switch structs\<close>

record SwitchChannel =
  ch_idx :: u8
  ch_type :: u8
  ch_gpio_pin :: u8
  ch_active_high :: bool
  ch_enabled :: bool
  ch_is_energized :: bool
  ch_name :: bytes

definition enc_channel :: "SwitchChannel \<Rightarrow> bytes" where
  "enc_channel c = [ch_idx c, ch_type c, ch_gpio_pin c, b8 (ch_active_high c), b8 (ch_enabled c),
     b8 (ch_is_energized c)] @ ch_name c"

definition dec_channel :: "bytes \<Rightarrow> SwitchChannel" where
  "dec_channel bs = \<lparr> ch_idx = bs ! 0, ch_type = bs ! 1, ch_gpio_pin = bs ! 2,
     ch_active_high = un_b8 (bs ! 3), ch_enabled = un_b8 (bs ! 4),
     ch_is_energized = un_b8 (bs ! 5), ch_name = seg 6 24 bs \<rparr>"

definition wf_channel :: "SwitchChannel \<Rightarrow> bool" where
  "wf_channel c = (length (ch_name c) = 24)"

lemma length_enc_channel [simp]: "wf_channel c \<Longrightarrow> length (enc_channel c) = 30"
  by (simp add: enc_channel_def wf_channel_def)

lemma dec_enc_channel [simp]: "wf_channel c \<Longrightarrow> dec_channel (enc_channel c) = c"
  by (simp add: dec_channel_def enc_channel_def wf_channel_def codec_simps)

record SwitchCondition =
  cd_kind :: u8
  cd_op :: u8
  cd_ref_channel :: i8
  cd_value :: f32
  cd_schedule_mask :: bytes

definition enc_cond :: "SwitchCondition \<Rightarrow> bytes" where
  "enc_cond c = [cd_kind c, cd_op c, cd_ref_channel c, 0] @ le32 (cd_value c) @
     cd_schedule_mask c @ [0, 0, 0]"

definition dec_cond :: "bytes \<Rightarrow> SwitchCondition" where
  "dec_cond bs = \<lparr> cd_kind = bs ! 0, cd_op = bs ! 1, cd_ref_channel = bs ! 2,
     cd_value = un_le32 (seg 4 4 bs), cd_schedule_mask = seg 8 21 bs \<rparr>"

definition wf_cond :: "SwitchCondition \<Rightarrow> bool" where
  "wf_cond c = (length (cd_schedule_mask c) = 21)"

lemma length_enc_cond [simp]: "wf_cond c \<Longrightarrow> length (enc_cond c) = 32"
  by (simp add: enc_cond_def wf_cond_def)

lemma dec_enc_cond [simp]: "wf_cond c \<Longrightarrow> dec_cond (enc_cond c) = c"
  by (simp add: dec_cond_def enc_cond_def wf_cond_def codec_simps)

record SwitchRule =
  sr_switch_idx :: u8
  sr_channel :: u8
  sr_trip_delay_ms :: u16
  sr_reset_delay_ms :: u16
  sr_logic :: u8
  sr_min_conditions :: u8
  sr_condition_count :: u8
  sr_enabled :: u8
  sr_hysteresis :: f32
  sr_condition_latched :: "bool list"
  sr_conditions :: "SwitchCondition list"

definition enc_rule :: "SwitchRule \<Rightarrow> bytes" where
  "enc_rule r = [sr_switch_idx r, sr_channel r] @ le16 (sr_trip_delay_ms r) @
     le16 (sr_reset_delay_ms r) @
     [sr_logic r, sr_min_conditions r, sr_condition_count r, sr_enabled r, 0, 0] @
     le32 (sr_hysteresis r) @ map b8 (sr_condition_latched r) @
     concat (map enc_cond (sr_conditions r))"

definition dec_rule :: "bytes \<Rightarrow> SwitchRule" where
  "dec_rule bs = \<lparr> sr_switch_idx = bs ! 0, sr_channel = bs ! 1,
     sr_trip_delay_ms = un_le16 (seg 2 2 bs), sr_reset_delay_ms = un_le16 (seg 4 2 bs),
     sr_logic = bs ! 6, sr_min_conditions = bs ! 7, sr_condition_count = bs ! 8,
     sr_enabled = bs ! 9, sr_hysteresis = un_le32 (seg 12 4 bs),
     sr_condition_latched = map un_b8 (seg 16 4 bs),
     sr_conditions = map (\<lambda>i. dec_cond (seg (32 * i) 32 (seg 20 128 bs))) [0..<4] \<rparr>"

definition wf_rule :: "SwitchRule \<Rightarrow> bool" where
  "wf_rule r = (length (sr_condition_latched r) = 4 \<and> length (sr_conditions r) = 4 \<and>
     list_all wf_cond (sr_conditions r))"

lemma length_enc_conds:
  "list_all wf_cond cs \<Longrightarrow> length (concat (map enc_cond cs)) = 32 * length cs"
  by (rule length_blocks) (simp add: list_all_iff)

lemma length_enc_rule [simp]: "wf_rule r \<Longrightarrow> length (enc_rule r) = 148"
  by (simp add: enc_rule_def wf_rule_def length_enc_conds del: length_concat)

lemma dec_conds:
  assumes "list_all wf_cond cs" "length cs = n"
  shows "map (\<lambda>i. dec_cond (seg (32 * i) 32 (concat (map enc_cond cs)))) [0..<n] = cs"
  using assms by (intro nth_equalityI) (auto simp: seg_blocks list_all_iff)

lemma un_b8_list [simp]: "map un_b8 (map b8 bs) = bs"
  by (simp add: comp_def)

lemma dec_enc_rule [simp]: "wf_rule r \<Longrightarrow> dec_rule (enc_rule r) = r"
  by (cases r) (simp add: dec_rule_def enc_rule_def wf_rule_def codec_simps length_enc_conds dec_conds
      nth_append nth_Cons' del: length_concat map_map)

lemma wf_dec_channel: "length bs = 30 \<Longrightarrow> wf_channel (dec_channel bs)"
  by (simp add: dec_channel_def wf_channel_def)

lemma wf_dec_rule: "length bs = 148 \<Longrightarrow> wf_rule (dec_rule bs)"
  by (simp add: dec_rule_def wf_rule_def list_all_iff wf_cond_def dec_cond_def)

section \<open>Settings structs\<close>

record RelayRule =
  rl_channel :: u8
  rl_overcurrent_A :: f32
  rl_undervoltage_V :: f32
  rl_soc_low_pct :: f32
  rl_soc_high_pct :: f32
  rl_trip_delay_ms :: u16
  rl_reset_delay_ms :: u16
  rl_gpio_pin :: u8
  rl_active_high :: bool
  rl_enabled :: bool
  rl_is_energized :: bool

definition enc_relay :: "RelayRule \<Rightarrow> bytes" where
  "enc_relay r = [rl_channel r, 0, 0, 0] @ le32 (rl_overcurrent_A r) @ le32 (rl_undervoltage_V r) @
     le32 (rl_soc_low_pct r) @ le32 (rl_soc_high_pct r) @ le16 (rl_trip_delay_ms r) @
     le16 (rl_reset_delay_ms r) @
     [rl_gpio_pin r, b8 (rl_active_high r), b8 (rl_enabled r), b8 (rl_is_energized r)]"

definition dec_relay :: "bytes \<Rightarrow> RelayRule" where
  "dec_relay bs = \<lparr> rl_channel = bs ! 0, rl_overcurrent_A = un_le32 (seg 4 4 bs),
     rl_undervoltage_V = un_le32 (seg 8 4 bs), rl_soc_low_pct = un_le32 (seg 12 4 bs),
     rl_soc_high_pct = un_le32 (seg 16 4 bs), rl_trip_delay_ms = un_le16 (seg 20 2 bs),
     rl_reset_delay_ms = un_le16 (seg 22 2 bs), rl_gpio_pin = seg 24 1 bs ! 0,
     rl_active_high = un_b8 (seg 25 1 bs ! 0), rl_enabled = un_b8 (seg 26 1 bs ! 0),
     rl_is_energized = un_b8 (seg 27 1 bs ! 0) \<rparr>"

lemma length_enc_relay [simp]: "length (enc_relay r) = 28"
  by (simp add: enc_relay_def)

lemma dec_enc_relay [simp]: "dec_relay (enc_relay r) = r"
  by (simp add: dec_relay_def enc_relay_def codec_simps)

text \<open>\<open>ChannelCalibration\<close>: five arrays of \<open>MAX_LOGICAL_CHANNELS = 16\<close>.\<close>

abbreviation MAX_LOGICAL_CHANNELS :: nat where "MAX_LOGICAL_CHANNELS \<equiv> 16"

record ChannelCalibration =
  cal_volt_offset_mv :: "f32 list"
  cal_volt_gain :: "f32 list"
  cal_curr_offset_ma :: "f32 list"
  cal_curr_gain :: "f32 list"
  cal_invert_curr :: "bool list"

definition enc_cal :: "ChannelCalibration \<Rightarrow> bytes" where
  "enc_cal c = f32s_bytes (cal_volt_offset_mv c) @ f32s_bytes (cal_volt_gain c) @
     f32s_bytes (cal_curr_offset_ma c) @ f32s_bytes (cal_curr_gain c) @ map b8 (cal_invert_curr c)"

definition dec_cal :: "bytes \<Rightarrow> ChannelCalibration" where
  "dec_cal bs = \<lparr> cal_volt_offset_mv = un_f32s 16 (seg 0 64 bs),
     cal_volt_gain = un_f32s 16 (seg 64 64 bs), cal_curr_offset_ma = un_f32s 16 (seg 128 64 bs),
     cal_curr_gain = un_f32s 16 (seg 192 64 bs), cal_invert_curr = map un_b8 (seg 256 16 bs) \<rparr>"

definition wf_cal :: "ChannelCalibration \<Rightarrow> bool" where
  "wf_cal c = (length (cal_volt_offset_mv c) = 16 \<and> length (cal_volt_gain c) = 16 \<and>
     length (cal_curr_offset_ma c) = 16 \<and> length (cal_curr_gain c) = 16 \<and>
     length (cal_invert_curr c) = 16)"

lemma length_enc_cal [simp]: "wf_cal c \<Longrightarrow> length (enc_cal c) = 272"
  by (simp add: enc_cal_def wf_cal_def)

lemma dec_enc_cal [simp]: "wf_cal c \<Longrightarrow> dec_cal (enc_cal c) = c"
  by (simp add: dec_cal_def enc_cal_def wf_cal_def codec_simps del: map_map)

lemma wf_dec_cal: "length bs = 272 \<Longrightarrow> wf_cal (dec_cal bs)"
  by (simp add: dec_cal_def wf_cal_def)

text \<open>The legacy three-channel blob: four \<open>float[3]\<close>, no inversion flags.\<close>

definition dec_cal_v1 :: "bytes \<Rightarrow> f32 list \<times> f32 list \<times> f32 list \<times> f32 list" where
  "dec_cal_v1 bs = (un_f32s 3 (seg 0 12 bs), un_f32s 3 (seg 12 12 bs),
     un_f32s 3 (seg 24 12 bs), un_f32s 3 (seg 36 12 bs))"

record BatteryConfig =
  bc_channel :: u8
  bc_capacity_mAh :: f32
  bc_initial_soc_pct :: f32

definition enc_batcfg :: "BatteryConfig \<Rightarrow> bytes" where
  "enc_batcfg b = [bc_channel b, 0, 0, 0] @ le32 (bc_capacity_mAh b) @ le32 (bc_initial_soc_pct b)"

definition dec_batcfg :: "bytes \<Rightarrow> BatteryConfig" where
  "dec_batcfg bs = \<lparr> bc_channel = bs ! 0, bc_capacity_mAh = un_le32 (seg 4 4 bs),
     bc_initial_soc_pct = un_le32 (seg 8 4 bs) \<rparr>"

lemma length_enc_batcfg [simp]: "length (enc_batcfg b) = 12"
  by (simp add: enc_batcfg_def)

lemma dec_enc_batcfg [simp]: "dec_batcfg (enc_batcfg b) = b"
  by (simp add: dec_batcfg_def enc_batcfg_def codec_simps)

record BatteryProfile =
  bp_channel :: u8
  bp_name :: bytes
  bp_chemistry :: u8
  bp_system_voltage :: f32
  bp_capacity_mAh :: f32
  bp_initial_soc_pct :: f32
  bp_cell_count :: f32
  bp_full_voltage :: f32
  bp_cutoff_voltage :: f32
  bp_float_voltage :: f32

definition enc_batprof :: "BatteryProfile \<Rightarrow> bytes" where
  "enc_batprof b = [bp_channel b] @ bp_name b @ [bp_chemistry b, 0, 0] @
     le32 (bp_system_voltage b) @ le32 (bp_capacity_mAh b) @ le32 (bp_initial_soc_pct b) @
     le32 (bp_cell_count b) @ le32 (bp_full_voltage b) @ le32 (bp_cutoff_voltage b) @
     le32 (bp_float_voltage b)"

definition dec_batprof :: "bytes \<Rightarrow> BatteryProfile" where
  "dec_batprof bs = \<lparr> bp_channel = bs ! 0, bp_name = seg 1 24 bs,
     bp_chemistry = seg 25 1 bs ! 0, bp_system_voltage = un_le32 (seg 28 4 bs),
     bp_capacity_mAh = un_le32 (seg 32 4 bs), bp_initial_soc_pct = un_le32 (seg 36 4 bs),
     bp_cell_count = un_le32 (seg 40 4 bs), bp_full_voltage = un_le32 (seg 44 4 bs),
     bp_cutoff_voltage = un_le32 (seg 48 4 bs), bp_float_voltage = un_le32 (seg 52 4 bs) \<rparr>"

definition wf_batprof :: "BatteryProfile \<Rightarrow> bool" where
  "wf_batprof b = (length (bp_name b) = 24)"

lemma length_enc_batprof [simp]: "wf_batprof b \<Longrightarrow> length (enc_batprof b) = 56"
  by (simp add: enc_batprof_def wf_batprof_def)

lemma dec_enc_batprof [simp]: "wf_batprof b \<Longrightarrow> dec_batprof (enc_batprof b) = b"
  by (simp add: dec_batprof_def enc_batprof_def wf_batprof_def codec_simps)

record ChannelGroup =
  cg_group_id :: u8
  cg_name :: bytes
  cg_icon :: u8
  cg_channel_mask :: u8

definition enc_group :: "ChannelGroup \<Rightarrow> bytes" where
  "enc_group g = [cg_group_id g] @ cg_name g @ [cg_icon g, cg_channel_mask g]"

definition dec_group :: "bytes \<Rightarrow> ChannelGroup" where
  "dec_group bs = \<lparr> cg_group_id = bs ! 0, cg_name = seg 1 24 bs, cg_icon = seg 25 1 bs ! 0,
     cg_channel_mask = seg 26 1 bs ! 0 \<rparr>"

definition wf_group :: "ChannelGroup \<Rightarrow> bool" where
  "wf_group g = (length (cg_name g) = 24)"

lemma length_enc_group [simp]: "wf_group g \<Longrightarrow> length (enc_group g) = 27"
  by (simp add: enc_group_def wf_group_def)

lemma dec_enc_group [simp]: "wf_group g \<Longrightarrow> dec_group (enc_group g) = g"
  by (simp add: dec_group_def enc_group_def wf_group_def codec_simps)

record VirtualChannelConfig =
  vc_voltage_src :: u8
  vc_voltage_idx :: u8
  vc_current_src :: u8
  vc_current_idx :: u8

definition enc_vc :: "VirtualChannelConfig \<Rightarrow> bytes" where
  "enc_vc v = [vc_voltage_src v, vc_voltage_idx v, vc_current_src v, vc_current_idx v]"

definition dec_vc :: "bytes \<Rightarrow> VirtualChannelConfig" where
  "dec_vc bs = \<lparr> vc_voltage_src = bs ! 0, vc_voltage_idx = bs ! 1, vc_current_src = bs ! 2,
     vc_current_idx = bs ! 3 \<rparr>"

lemma length_enc_vc [simp]: "length (enc_vc v) = 4"
  by (simp add: enc_vc_def)

lemma dec_enc_vc [simp]: "dec_vc (enc_vc v) = v"
  by (simp add: dec_vc_def enc_vc_def)

end
