(* ===== verification/Settings.thy ===== *)
theory Settings
  imports Layout
begin

text \<open>
  \<open>settings_manager.cpp\<close>: every setting of the \<open>pm-settings\<close> namespace as a load and a save
  on its \<open>kv\<close>, with the keys, defaults, size checks and migrations of the code; the OTA settings on
  the \<open>pm-ota\<close> namespace. A load that returns
  \<open>false\<close> is \<open>None\<close>. Each struct setting is shown to be a \<open>cell\<close> (what is saved is
  what is loaded, and no other key is touched), and the pairs of settings the firmware
  updates independently are \<open>two_cells\<close>.
\<close>

section \<open>The two size disciplines of a blob\<close>

text \<open>Exact: any other size is refused. Growing: a shorter blob of an older firmware is read over
  a zeroed struct, a longer one is refused.\<close>

definition load_exact :: "nat \<Rightarrow> (bytes \<Rightarrow> 'a) \<Rightarrow> string \<Rightarrow> kv \<Rightarrow> 'a option" where
  "load_exact n d key s =
    (if \<not> pf_isKey s key then None
     else if pf_getBytesLength s key \<noteq> n then None
     else Some (d (pf_getBytes s key n)))"

definition load_grow :: "nat \<Rightarrow> (bytes \<Rightarrow> 'a) \<Rightarrow> string \<Rightarrow> kv \<Rightarrow> 'a option" where
  "load_grow n d key s =
    (if \<not> pf_isKey s key then None
     else let len = pf_getBytesLength s key in
       if len \<noteq> n then
         (if len < n then Some (d (fit n 0 (pf_getBytes s key len))) else None)
       else Some (d (pf_getBytes s key n)))"

section \<open>Connection settings\<close>

definition settings_load_wifi :: "nat \<Rightarrow> kv \<Rightarrow> (bytes \<times> bytes) option" where
  "settings_load_wifi buf_len s =
    (if \<not> pf_isKey s ''wifi_ssid'' then None
     else Some (pf_getString s ''wifi_ssid'' buf_len, pf_getString s ''wifi_pass'' buf_len))"

definition settings_save_wifi :: "bytes \<Rightarrow> bytes \<Rightarrow> kv \<Rightarrow> kv" where
  "settings_save_wifi ssid pass s =
    pf_putString ''wifi_pass'' pass (pf_putString ''wifi_ssid'' ssid s)"

definition settings_load_mqtt :: "nat \<Rightarrow> kv \<Rightarrow> (bytes \<times> u16 \<times> bytes) option" where
  "settings_load_mqtt buf_len s =
    (if \<not> pf_isKey s ''mqtt_broker'' then None
     else Some (pf_getString s ''mqtt_broker'' buf_len, pf_getUShort s ''mqtt_port'' 1883,
                pf_getString s ''mqtt_topic'' buf_len))"

definition settings_save_mqtt :: "bytes \<Rightarrow> u16 \<Rightarrow> bytes \<Rightarrow> kv \<Rightarrow> kv" where
  "settings_save_mqtt broker port topic s =
    pf_putString ''mqtt_topic'' topic
      (pf_putUShort ''mqtt_port'' port (pf_putString ''mqtt_broker'' broker s))"

definition settings_load_http_endpoint :: "nat \<Rightarrow> kv \<Rightarrow> (bytes \<times> bytes) option" where
  "settings_load_http_endpoint buf_len s =
    (if \<not> pf_isKey s ''http_url'' then None
     else Some (pf_getString s ''http_url'' buf_len, pf_getString s ''http_token'' buf_len))"

definition settings_save_http_endpoint :: "bytes \<Rightarrow> bytes \<Rightarrow> kv \<Rightarrow> kv" where
  "settings_save_http_endpoint url token s =
    pf_putString ''http_token'' token (pf_putString ''http_url'' url s)"

definition settings_load_http_enabled :: "kv \<Rightarrow> bool" where
  "settings_load_http_enabled s = pf_getBool s ''http_en'' False"

definition settings_save_http_enabled :: "bool \<Rightarrow> kv \<Rightarrow> kv" where
  "settings_save_http_enabled v = pf_putBool ''http_en'' v"

text \<open>The four Supabase strings, one key each.\<close>

definition load_key_string :: "string \<Rightarrow> nat \<Rightarrow> kv \<Rightarrow> bytes option" where
  "load_key_string key buf_len s =
    (if \<not> pf_isKey s key then None else Some (pf_getString s key buf_len))"

definition settings_load_supabase_url :: "nat \<Rightarrow> kv \<Rightarrow> bytes option" where
  "settings_load_supabase_url = load_key_string ''supa_url''"
definition settings_save_supabase_url :: "bytes \<Rightarrow> kv \<Rightarrow> kv" where
  "settings_save_supabase_url = pf_putString ''supa_url''"
definition settings_load_supabase_anon_key :: "nat \<Rightarrow> kv \<Rightarrow> bytes option" where
  "settings_load_supabase_anon_key = load_key_string ''supa_anon''"
definition settings_save_supabase_anon_key :: "bytes \<Rightarrow> kv \<Rightarrow> kv" where
  "settings_save_supabase_anon_key = pf_putString ''supa_anon''"
definition settings_load_supabase_api_key :: "nat \<Rightarrow> kv \<Rightarrow> bytes option" where
  "settings_load_supabase_api_key = load_key_string ''supa_api''"
definition settings_save_supabase_api_key :: "bytes \<Rightarrow> kv \<Rightarrow> kv" where
  "settings_save_supabase_api_key = pf_putString ''supa_api''"
definition settings_load_supabase_device_key :: "nat \<Rightarrow> kv \<Rightarrow> bytes option" where
  "settings_load_supabase_device_key = load_key_string ''supa_dev''"
definition settings_save_supabase_device_key :: "bytes \<Rightarrow> kv \<Rightarrow> kv" where
  "settings_save_supabase_device_key = pf_putString ''supa_dev''"

section \<open>Relays, switches and rules\<close>

text \<open>A save of a counted blob raises the count when the index is new. The count is a
  \<open>uint8_t\<close>: \<open>idx + 1\<close> is stored modulo 256.\<close>

definition save_counted :: "string \<Rightarrow> string \<Rightarrow> u8 \<Rightarrow> bytes \<Rightarrow> kv \<Rightarrow> kv" where
  "save_counted key countkey idx blob s =
    (let s1 = pf_putBytes key blob s; count = pf_getUChar s1 countkey 0 in
     if count \<le> idx then pf_putUChar countkey (idx + 1) s1 else s1)"

definition settings_load_relay_count :: "kv \<Rightarrow> u8" where
  "settings_load_relay_count s = pf_getUChar s ''relay_count'' 0"

text \<open>The migration of a shorter relay blob forces the last field off.\<close>

definition settings_load_relay :: "u8 \<Rightarrow> kv \<Rightarrow> RelayRule option" where
  "settings_load_relay idx s =
    (let key = key_idx 16 ''relay_'' idx in
     if \<not> pf_isKey s key then None
     else let len = pf_getBytesLength s key in
       if len \<noteq> 28 then
         (if len < 28
          then Some ((dec_relay (fit 28 0 (pf_getBytes s key len)))\<lparr> rl_is_energized := False \<rparr>)
          else None)
       else Some (dec_relay (pf_getBytes s key 28)))"

definition settings_save_relay :: "u8 \<Rightarrow> RelayRule \<Rightarrow> kv \<Rightarrow> kv" where
  "settings_save_relay idx r = save_counted (key_idx 16 ''relay_'' idx) ''relay_count'' idx (enc_relay r)"

definition settings_load_switch_count :: "kv \<Rightarrow> u8" where
  "settings_load_switch_count s = pf_getUChar s ''switch_count'' 0"

definition settings_load_switch :: "u8 \<Rightarrow> kv \<Rightarrow> SwitchChannel option" where
  "settings_load_switch idx = load_grow 30 dec_channel (key_idx 24 ''sw_ch_'' idx)"

definition settings_save_switch :: "u8 \<Rightarrow> SwitchChannel \<Rightarrow> kv \<Rightarrow> kv" where
  "settings_save_switch idx c =
    save_counted (key_idx 24 ''sw_ch_'' idx) ''switch_count'' idx (enc_channel c)"

definition settings_load_switch_rule :: "u8 \<Rightarrow> kv \<Rightarrow> SwitchRule option" where
  "settings_load_switch_rule idx = load_grow 148 dec_rule (key_idx 24 ''sw_rule_'' idx)"

definition settings_save_switch_rule :: "u8 \<Rightarrow> SwitchRule \<Rightarrow> kv \<Rightarrow> kv" where
  "settings_save_switch_rule idx r = pf_putBytes (key_idx 24 ''sw_rule_'' idx) (enc_rule r)"

definition settings_load_switch_auto_enabled :: "kv \<Rightarrow> bool" where
  "settings_load_switch_auto_enabled s = pf_getBool s ''sw_auto'' False"

definition settings_save_switch_auto_enabled :: "bool \<Rightarrow> kv \<Rightarrow> kv" where
  "settings_save_switch_auto_enabled v = pf_putBool ''sw_auto'' v"

section \<open>Calibration\<close>

text \<open>The versioned blob. A 48-byte blob is migrated field by field and stamped with the version,
  so the load returns the store too.\<close>

definition cal_of_v1 :: "f32 list \<times> f32 list \<times> f32 list \<times> f32 list \<Rightarrow> ChannelCalibration" where
  "cal_of_v1 l = (case l of (vo, vg, co, cg) \<Rightarrow>
     \<lparr> cal_volt_offset_mv = fit 16 0 vo, cal_volt_gain = fit 16 0 vg,
       cal_curr_offset_ma = fit 16 0 co, cal_curr_gain = fit 16 0 cg,
       cal_invert_curr = replicate 16 False \<rparr>)"

definition settings_load_channel_calibration :: "kv \<Rightarrow> ChannelCalibration option \<times> kv" where
  "settings_load_channel_calibration s =
    (if \<not> pf_isKey s ''chan_cal'' then (None, s)
     else let bs = pf_getBytes s ''chan_cal'' 272; len = length bs in
       if len = 272 then
         (if pf_getUChar s ''chan_cal_ver'' 0 \<noteq> 2 then (None, s) else (Some (dec_cal bs), s))
       else if len = 48 then
         (Some (cal_of_v1 (dec_cal_v1 (pf_getBytes s ''chan_cal'' len))),
          pf_putUChar ''chan_cal_ver'' 2 s)
       else (None, s))"

definition settings_save_channel_calibration :: "ChannelCalibration \<Rightarrow> kv \<Rightarrow> kv" where
  "settings_save_channel_calibration c s =
    pf_putUChar ''chan_cal_ver'' 2 (pf_putBytes ''chan_cal'' (enc_cal c) s)"

section \<open>Per-channel values\<close>

definition settings_load_coulomb_mAh :: "u8 \<Rightarrow> kv \<Rightarrow> f32" where
  "settings_load_coulomb_mAh ch s = pf_getFloat s (key_idx 16 ''coul_'' ch) 0"
definition settings_save_coulomb_mAh :: "u8 \<Rightarrow> f32 \<Rightarrow> kv \<Rightarrow> kv" where
  "settings_save_coulomb_mAh ch v = pf_putFloat (key_idx 16 ''coul_'' ch) v"

definition settings_load_energy_Wh :: "u8 \<Rightarrow> kv \<Rightarrow> f32" where
  "settings_load_energy_Wh ch s = pf_getFloat s (key_idx 16 ''enwh_'' ch) 0"
definition settings_save_energy_Wh :: "u8 \<Rightarrow> f32 \<Rightarrow> kv \<Rightarrow> kv" where
  "settings_save_energy_Wh ch v = pf_putFloat (key_idx 16 ''enwh_'' ch) v"

definition settings_load_battery :: "u8 \<Rightarrow> kv \<Rightarrow> BatteryConfig option" where
  "settings_load_battery ch = load_exact 12 dec_batcfg (key_idx 16 ''bat_'' ch)"
definition settings_save_battery :: "u8 \<Rightarrow> BatteryConfig \<Rightarrow> kv \<Rightarrow> kv" where
  "settings_save_battery ch b = pf_putBytes (key_idx 16 ''bat_'' ch) (enc_batcfg b)"

definition settings_load_battery_profile :: "u8 \<Rightarrow> kv \<Rightarrow> BatteryProfile option" where
  "settings_load_battery_profile ch = load_exact 56 dec_batprof (key_idx 16 ''bat_prof_'' ch)"
definition settings_save_battery_profile :: "u8 \<Rightarrow> BatteryProfile \<Rightarrow> kv \<Rightarrow> kv" where
  "settings_save_battery_profile ch b = pf_putBytes (key_idx 16 ''bat_prof_'' ch) (enc_batprof b)"

definition settings_load_channel_group_count :: "kv \<Rightarrow> u8" where
  "settings_load_channel_group_count s = pf_getUChar s ''chan_grp_count'' 0"
definition settings_load_channel_group :: "u8 \<Rightarrow> kv \<Rightarrow> ChannelGroup option" where
  "settings_load_channel_group idx = load_exact 27 dec_group (key_idx 16 ''chan_grp_'' idx)"
definition settings_save_channel_group :: "u8 \<Rightarrow> ChannelGroup \<Rightarrow> kv \<Rightarrow> kv" where
  "settings_save_channel_group idx g =
    save_counted (key_idx 16 ''chan_grp_'' idx) ''chan_grp_count'' idx (enc_group g)"

definition settings_load_channel_name :: "u8 \<Rightarrow> nat \<Rightarrow> kv \<Rightarrow> bytes option" where
  "settings_load_channel_name ch = load_key_string (key_idx 16 ''chan_name_'' ch)"
definition settings_save_channel_name :: "u8 \<Rightarrow> bytes \<Rightarrow> kv \<Rightarrow> kv" where
  "settings_save_channel_name ch v = pf_putString (key_idx 16 ''chan_name_'' ch) v"

text \<open>The loads that return a value and whether it is usable (\<open>> 0\<close>).\<close>

definition settings_load_shunt :: "u8 \<Rightarrow> kv \<Rightarrow> f32 option" where
  "settings_load_shunt ch s = (let key = key_idx 16 ''shunt_'' ch; v = pf_getFloat s key 0 in
     if \<not> pf_isKey s key then None else if f_gt v 0 then Some v else None)"
definition settings_save_shunt :: "u8 \<Rightarrow> f32 \<Rightarrow> kv \<Rightarrow> kv" where
  "settings_save_shunt ch v = pf_putFloat (key_idx 16 ''shunt_'' ch) v"

definition settings_load_volt_ratio :: "u8 \<Rightarrow> kv \<Rightarrow> f32 option" where
  "settings_load_volt_ratio ch s = (let key = key_idx 16 ''volt_ratio_'' ch; v = pf_getFloat s key 0 in
     if \<not> pf_isKey s key then None else if f_gt v 0 then Some v else None)"
definition settings_save_volt_ratio :: "u8 \<Rightarrow> f32 \<Rightarrow> kv \<Rightarrow> kv" where
  "settings_save_volt_ratio ch v = pf_putFloat (key_idx 16 ''volt_ratio_'' ch) v"

definition f_one :: f32 where "f_one = 0x3F800000"

definition settings_load_resistors :: "u8 \<Rightarrow> kv \<Rightarrow> (f32 \<times> f32) option" where
  "settings_load_resistors ch s =
    (let kh = key_idx 16 ''r_high_'' ch; kl = key_idx 16 ''r_low_'' ch in
     if \<not> pf_isKey s kh \<or> \<not> pf_isKey s kl then None
     else let h = pf_getFloat s kh 0; l = pf_getFloat s kl f_one in
       if f_gt h 0 \<and> f_gt l 0 then Some (h, l) else None)"
definition settings_save_resistors :: "u8 \<Rightarrow> f32 \<Rightarrow> f32 \<Rightarrow> kv \<Rightarrow> kv" where
  "settings_save_resistors ch h l s =
    pf_putFloat (key_idx 16 ''r_low_'' ch) l (pf_putFloat (key_idx 16 ''r_high_'' ch) h s)"

definition settings_load_ble_pin :: "kv \<Rightarrow> u32" where
  "settings_load_ble_pin s = pf_getUInt s ''ble_pin'' 123456"
definition settings_save_ble_pin :: "u32 \<Rightarrow> kv \<Rightarrow> kv" where
  "settings_save_ble_pin v = pf_putUInt ''ble_pin'' v"
definition settings_load_ble_fail_count :: "kv \<Rightarrow> u16" where
  "settings_load_ble_fail_count s = pf_getUShort s ''ble_fail'' 0"
definition settings_save_ble_fail_count :: "u16 \<Rightarrow> kv \<Rightarrow> kv" where
  "settings_save_ble_fail_count v = pf_putUShort ''ble_fail'' v"

definition settings_load_virtual_channel :: "u8 \<Rightarrow> kv \<Rightarrow> VirtualChannelConfig option" where
  "settings_load_virtual_channel ch = load_exact 4 dec_vc (key_idx 16 ''vc_'' ch)"
definition settings_save_virtual_channel :: "u8 \<Rightarrow> VirtualChannelConfig \<Rightarrow> kv \<Rightarrow> kv" where
  "settings_save_virtual_channel ch v = pf_putBytes (key_idx 16 ''vc_'' ch) (enc_vc v)"

section \<open>Discovered sensors\<close>

definition settings_load_discovered_ina_count :: "kv \<Rightarrow> u8" where
  "settings_load_discovered_ina_count s = pf_getUChar s ''disc_ina_cnt'' 0"
definition settings_save_discovered_ina_count :: "u8 \<Rightarrow> kv \<Rightarrow> kv" where
  "settings_save_discovered_ina_count v = pf_putUChar ''disc_ina_cnt'' v"

definition load_key_u8 :: "string \<Rightarrow> kv \<Rightarrow> u8 option" where
  "load_key_u8 key s = (if \<not> pf_isKey s key then None else Some (pf_getUChar s key 0))"
definition load_key_float :: "string \<Rightarrow> f32 \<Rightarrow> kv \<Rightarrow> f32 option" where
  "load_key_float key d s = (if \<not> pf_isKey s key then None else Some (pf_getFloat s key d))"

definition settings_load_discovered_ina_addr :: "u8 \<Rightarrow> kv \<Rightarrow> u8 option" where
  "settings_load_discovered_ina_addr idx = load_key_u8 (key_idx 16 ''dina_a_'' idx)"
definition settings_save_discovered_ina_addr :: "u8 \<Rightarrow> u8 \<Rightarrow> kv \<Rightarrow> kv" where
  "settings_save_discovered_ina_addr idx v = pf_putUChar (key_idx 16 ''dina_a_'' idx) v"
definition settings_load_discovered_ina_shunt :: "u8 \<Rightarrow> kv \<Rightarrow> f32 option" where
  "settings_load_discovered_ina_shunt idx = load_key_float (key_idx 16 ''dina_sh_'' idx) (f_lit 5 1000)"
definition settings_save_discovered_ina_shunt :: "u8 \<Rightarrow> f32 \<Rightarrow> kv \<Rightarrow> kv" where
  "settings_save_discovered_ina_shunt idx v = pf_putFloat (key_idx 16 ''dina_sh_'' idx) v"
definition settings_load_discovered_ina_vratio :: "u8 \<Rightarrow> kv \<Rightarrow> f32 option" where
  "settings_load_discovered_ina_vratio idx = load_key_float (key_idx 16 ''dina_vr_'' idx) f_one"
definition settings_save_discovered_ina_vratio :: "u8 \<Rightarrow> f32 \<Rightarrow> kv \<Rightarrow> kv" where
  "settings_save_discovered_ina_vratio idx v = pf_putFloat (key_idx 16 ''dina_vr_'' idx) v"
definition settings_load_discovered_bl_count :: "kv \<Rightarrow> u8" where
  "settings_load_discovered_bl_count s = pf_getUChar s ''disc_bl_cnt'' 0"
definition settings_save_discovered_bl_count :: "u8 \<Rightarrow> kv \<Rightarrow> kv" where
  "settings_save_discovered_bl_count v = pf_putUChar ''disc_bl_cnt'' v"
definition settings_load_discovered_bl_addr :: "u8 \<Rightarrow> kv \<Rightarrow> u8 option" where
  "settings_load_discovered_bl_addr idx = load_key_u8 (key_idx 16 ''dbl_a_'' idx)"
definition settings_save_discovered_bl_addr :: "u8 \<Rightarrow> u8 \<Rightarrow> kv \<Rightarrow> kv" where
  "settings_save_discovered_bl_addr idx v = pf_putUChar (key_idx 16 ''dbl_a_'' idx) v"

definition settings_clear_discovered :: "kv \<Rightarrow> kv" where
  "settings_clear_discovered s =
    (let s1 = pf_remove ''disc_bl_cnt'' (pf_remove ''disc_ina_cnt'' s);
         s2 = fold (\<lambda>i t. pf_remove (key_idx 16 ''dina_vr_'' i)
                (pf_remove (key_idx 16 ''dina_sh_'' i) (pf_remove (key_idx 16 ''dina_a_'' i) t)))
                (map of_nat [0..<8]) s1
     in fold (\<lambda>i t. pf_remove (key_idx 16 ''dbl_a_'' i) t) (map of_nat [0..<4]) s2)"

section \<open>Generic helpers\<close>

definition settings_load_str :: "string \<Rightarrow> nat \<Rightarrow> kv \<Rightarrow> bytes option" where
  "settings_load_str key buf_len s =
    (if buf_len = 0 then None
     else let v = pf_getStringD s key [] in if length v = 0 then None else Some (take (buf_len - 1) v))"
definition settings_save_str :: "string \<Rightarrow> bytes \<Rightarrow> kv \<Rightarrow> kv" where
  "settings_save_str key v = pf_putString key v"
definition settings_load_u32 :: "string \<Rightarrow> kv \<Rightarrow> u32 option" where
  "settings_load_u32 key s = (if \<not> pf_isKey s key then None else Some (pf_getUInt s key 0))"
definition settings_save_u32 :: "string \<Rightarrow> u32 \<Rightarrow> kv \<Rightarrow> kv" where
  "settings_save_u32 key v = pf_putUInt key v"
definition settings_load_bool :: "string \<Rightarrow> kv \<Rightarrow> bool option" where
  "settings_load_bool key s = (if \<not> pf_isKey s key then None else Some (pf_getBool s key False))"
definition settings_save_bool :: "string \<Rightarrow> bool \<Rightarrow> kv \<Rightarrow> kv" where
  "settings_save_bool key v = pf_putBool key v"

section \<open>OTA settings\<close>

text \<open>Default, minimum and maximum of the poll interval, in seconds (\<open>config.h\<close>).\<close>

abbreviation OTA_POLL_INTERVAL_S :: u32 where "OTA_POLL_INTERVAL_S \<equiv> 300"
abbreviation OTA_POLL_INTERVAL_MIN_S :: u32 where "OTA_POLL_INTERVAL_MIN_S \<equiv> 60"
abbreviation OTA_POLL_INTERVAL_MAX_S :: u32 where "OTA_POLL_INTERVAL_MAX_S \<equiv> 86400"

definition clamp_poll :: "u32 \<Rightarrow> u32" where
  "clamp_poll v = (let v1 = (if v < OTA_POLL_INTERVAL_MIN_S then OTA_POLL_INTERVAL_MIN_S else v) in
     if OTA_POLL_INTERVAL_MAX_S < v1 then OTA_POLL_INTERVAL_MAX_S else v1)"

definition settings_load_ota_poll_interval :: "nvs \<Rightarrow> u32" where
  "settings_load_ota_poll_interval n =
    clamp_poll (pf_getUInt (n ''pm-ota'') ''poll_interval'' OTA_POLL_INTERVAL_S)"
definition settings_save_ota_poll_interval :: "u32 \<Rightarrow> nvs \<Rightarrow> nvs" where
  "settings_save_ota_poll_interval v n =
    n(''pm-ota'' := pf_putUInt ''poll_interval'' (clamp_poll v) (n ''pm-ota''))"
definition settings_load_ota_backend_url :: "nat \<Rightarrow> nvs \<Rightarrow> bytes option" where
  "settings_load_ota_backend_url buf_len n =
    (let v = pf_getStringD (n ''pm-ota'') ''backend_url'' [] in
     if length v = 0 then None else Some (take (buf_len - 1) v))"
definition settings_save_ota_backend_url :: "bytes \<Rightarrow> nvs \<Rightarrow> nvs" where
  "settings_save_ota_backend_url v n =
    n(''pm-ota'' := pf_putString ''backend_url'' v (n ''pm-ota''))"

section \<open>The settings are cells\<close>

lemma load_exact_put [simp]:
  "length b = n \<Longrightarrow> load_exact n d k (pf_putBytes k b s) = Some (d b)"
  by (simp add: load_exact_def pf_defs)

lemma load_grow_put [simp]:
  "length b = n \<Longrightarrow> load_grow n d k (pf_putBytes k b s) = Some (d b)"
  by (simp add: load_grow_def pf_defs)

lemma load_exact_cong: "s k = t k \<Longrightarrow> load_exact n d k s = load_exact n d k t"
  by (simp add: load_exact_def pf_get_defs)

lemma load_grow_cong: "s k = t k \<Longrightarrow> load_grow n d k s = load_grow n d k t"
  by (simp add: load_grow_def pf_get_defs Let_def)

lemma save_counted_frame: "\<lbrakk> x \<noteq> k; x \<noteq> ck \<rbrakk> \<Longrightarrow> save_counted k ck i b s x = s x"
  by (simp add: save_counted_def pf_defs Let_def)

lemma save_counted_key: "k \<noteq> ck \<Longrightarrow> save_counted k ck i b s k = Some b"
  by (simp add: save_counted_def pf_defs Let_def)

lemma save_counted_count:
  "k \<noteq> ck \<Longrightarrow> pf_getUChar (save_counted k ck i b s) ck 0 =
     (if pf_getUChar s ck 0 \<le> i then i + 1 else pf_getUChar s ck 0)"
  by (simp add: save_counted_def pf_defs Let_def)

lemma cell_exact:
  assumes "\<And>v. ok v \<Longrightarrow> length (e v) = n" "\<And>v. ok v \<Longrightarrow> d (e v) = v"
  shows "cell (load_exact n d k) (\<lambda>v. pf_putBytes k (e v)) ok Some {k} {k}"
proof
  fix s t :: kv assume "\<And>j. j \<in> {k} \<Longrightarrow> s j = t j"
  then show "load_exact n d k s = load_exact n d k t" by (intro load_exact_cong) simp
qed (use assms in \<open>auto simp: pf_put_defs load_exact_put [unfolded pf_put_defs]\<close>)

lemma cell_grow:
  assumes "\<And>v. ok v \<Longrightarrow> length (e v) = n" "\<And>v. ok v \<Longrightarrow> d (e v) = v"
  shows "cell (load_grow n d k) (\<lambda>v. pf_putBytes k (e v)) ok Some {k} {k}"
proof
  fix s t :: kv assume "\<And>j. j \<in> {k} \<Longrightarrow> s j = t j"
  then show "load_grow n d k s = load_grow n d k t" by (intro load_grow_cong) simp
qed (use assms in \<open>auto simp: pf_put_defs load_grow_put [unfolded pf_put_defs]\<close>)

lemma cell_counted:
  assumes "\<And>v. ok v \<Longrightarrow> length (e v) = n" "\<And>v. ok v \<Longrightarrow> d (e v) = v" "k \<noteq> ck"
  shows "cell (load_grow n d k) (\<lambda>v. save_counted k ck i (e v)) ok Some {k} {k, ck}"
proof
  fix v and s :: kv assume "ok v"
  have "load_grow n d k (save_counted k ck i (e v) s) = load_grow n d k (pf_putBytes k (e v) s)"
    using assms(3) by (intro load_grow_cong) (simp add: save_counted_key pf_put_defs)
  then show "load_grow n d k (save_counted k ck i (e v) s) = Some v"
    using assms \<open>ok v\<close> by simp
next
  fix s t :: kv assume "\<And>j. j \<in> {k} \<Longrightarrow> s j = t j"
  then show "load_grow n d k s = load_grow n d k t" by (intro load_grow_cong) simp
qed (simp add: save_counted_frame)

lemma cell_float: "cell (\<lambda>s. pf_getFloat s k d) (pf_putFloat k) (\<lambda>_. True) id {k} {k}"
  by unfold_locales (simp_all add: pf_defs)

lemma cell_uint: "cell (\<lambda>s. pf_getUInt s k d) (pf_putUInt k) (\<lambda>_. True) id {k} {k}"
  by unfold_locales (simp_all add: pf_defs)

lemma cell_bool: "cell (\<lambda>s. pf_getBool s k d) (pf_putBool k) (\<lambda>_. True) id {k} {k}"
  by unfold_locales (simp_all add: pf_defs)

lemma cell_ushort: "cell (\<lambda>s. pf_getUShort s k d) (pf_putUShort k) (\<lambda>_. True) id {k} {k}"
  by unfold_locales (simp_all add: pf_defs)

abbreviation sw_key :: "u8 \<Rightarrow> string" where "sw_key i \<equiv> ''sw_ch_'' @ dec (unat i)"
abbreviation rule_key :: "u8 \<Rightarrow> string" where "rule_key i \<equiv> ''sw_rule_'' @ dec (unat i)"

lemma key_forms [simp]:
  "key_idx 24 ''sw_ch_'' i = sw_key i" "key_idx 24 ''sw_rule_'' i = rule_key i"
  "key_idx 16 ''coul_'' i = ''coul_'' @ dec (unat i)" "key_idx 16 ''enwh_'' i = ''enwh_'' @ dec (unat i)"
  "key_idx 16 ''bat_'' i = ''bat_'' @ dec (unat i)" "key_idx 16 ''relay_'' i = ''relay_'' @ dec (unat i)"
  "key_idx 16 ''bat_prof_'' i = ''bat_prof_'' @ dec (unat i)"
  "key_idx 16 ''chan_grp_'' i = ''chan_grp_'' @ dec (unat i)"
  "key_idx 16 ''vc_'' i = ''vc_'' @ dec (unat i)"
  by (simp_all add: key_idx_full)

lemma not_digit_alpha [simp]:
  "\<not> is_digit CHR ''p''" "\<not> is_digit CHR ''c''" "\<not> is_digit CHR ''_''" "\<not> is_digit CHR ''u''"
  by (simp_all add: is_digit_def)

lemma dec_neq_word [simp]:
  "dec n \<noteq> CHR ''p'' # cs" "dec n \<noteq> CHR ''c'' # cs" "CHR ''p'' # cs \<noteq> dec n" "CHR ''c'' # cs \<noteq> dec n"
  using dec_neq_alpha [of "CHR ''p''" n cs] dec_neq_alpha [of "CHR ''c''" n cs] by auto

interpretation switch_cell: cell "settings_load_switch i" "settings_save_switch i" wf_channel Some
    "{sw_key i}" "{sw_key i, ''switch_count''}" for i
  unfolding settings_load_switch_def settings_save_switch_def key_forms by (rule cell_counted) auto

interpretation rule_cell: cell "settings_load_switch_rule i" "settings_save_switch_rule i" wf_rule
    Some "{rule_key i}" "{rule_key i}" for i
  unfolding settings_load_switch_rule_def settings_save_switch_rule_def key_forms
  by (rule cell_grow) auto

interpretation battery_cell: cell "settings_load_battery c" "settings_save_battery c" "\<lambda>_. True"
    Some "{''bat_'' @ dec (unat c)}" "{''bat_'' @ dec (unat c)}" for c
  unfolding settings_load_battery_def settings_save_battery_def key_forms
  by (rule cell_exact) auto

interpretation profile_cell: cell "settings_load_battery_profile c" "settings_save_battery_profile c"
    wf_batprof Some "{''bat_prof_'' @ dec (unat c)}" "{''bat_prof_'' @ dec (unat c)}" for c
  unfolding settings_load_battery_profile_def settings_save_battery_profile_def key_forms
  by (rule cell_exact) auto

interpretation vc_cell: cell "settings_load_virtual_channel c" "settings_save_virtual_channel c"
    "\<lambda>_. True" Some "{''vc_'' @ dec (unat c)}" "{''vc_'' @ dec (unat c)}" for c
  unfolding settings_load_virtual_channel_def settings_save_virtual_channel_def key_forms
  by (rule cell_exact) auto

interpretation coulomb_cell: cell "settings_load_coulomb_mAh c" "settings_save_coulomb_mAh c"
    "\<lambda>_. True" id "{''coul_'' @ dec (unat c)}" "{''coul_'' @ dec (unat c)}" for c
  unfolding settings_load_coulomb_mAh_def settings_save_coulomb_mAh_def key_forms by (rule cell_float)

interpretation energy_cell: cell "settings_load_energy_Wh c" "settings_save_energy_Wh c"
    "\<lambda>_. True" id "{''enwh_'' @ dec (unat c)}" "{''enwh_'' @ dec (unat c)}" for c
  unfolding settings_load_energy_Wh_def settings_save_energy_Wh_def key_forms by (rule cell_float)

interpretation pin_cell: cell settings_load_ble_pin settings_save_ble_pin "\<lambda>_. True" id
    "{''ble_pin''}" "{''ble_pin''}"
  unfolding settings_load_ble_pin_def settings_save_ble_pin_def by (rule cell_uint)

interpretation fail_cell: cell settings_load_ble_fail_count settings_save_ble_fail_count "\<lambda>_. True" id
    "{''ble_fail''}" "{''ble_fail''}"
  unfolding settings_load_ble_fail_count_def settings_save_ble_fail_count_def by (rule cell_ushort)

interpretation auto_cell: cell settings_load_switch_auto_enabled settings_save_switch_auto_enabled
    "\<lambda>_. True" id "{''sw_auto''}" "{''sw_auto''}"
  unfolding settings_load_switch_auto_enabled_def settings_save_switch_auto_enabled_def
  by (rule cell_bool)

text \<open>Settings that the firmware updates independently do not disturb each other.\<close>

interpretation switch_rule_cells: two_cells "settings_load_switch i" "settings_save_switch i"
    wf_channel Some "{sw_key i}" "{sw_key i, ''switch_count''}"
    "settings_load_switch_rule j" "settings_save_switch_rule j" wf_rule Some "{rule_key j}" "{rule_key j}"
    for i j
  by unfold_locales auto

interpretation pin_cells: two_cells settings_load_ble_pin settings_save_ble_pin "\<lambda>_. True" id
    "{''ble_pin''}" "{''ble_pin''}" settings_load_ble_fail_count settings_save_ble_fail_count
    "\<lambda>_. True" id "{''ble_fail''}" "{''ble_fail''}"
  by unfold_locales auto

section \<open>Facts for the users of the switch settings\<close>

lemma load_switch_save [simp]:
  "wf_channel c \<Longrightarrow> settings_load_switch i (settings_save_switch j c s) =
     (if i = j then Some c else settings_load_switch i s)"
proof (cases "i = j")
  case True
  then show "wf_channel c \<Longrightarrow> ?thesis" by (simp add: switch_cell.load_save)
next
  case False
  then have "settings_load_switch i (settings_save_switch j c s) = settings_load_switch i s"
    by (intro switch_cell.load_local switch_cell.save_frame) (auto simp: word_unat_eq_iff)
  then show ?thesis using False by simp
qed

lemma load_rule_save_rule [simp]:
  "wf_rule r \<Longrightarrow> settings_load_switch_rule i (settings_save_switch_rule j r s) =
     (if i = j then Some r else settings_load_switch_rule i s)"
proof (cases "i = j")
  case True
  then show "wf_rule r \<Longrightarrow> ?thesis" by (simp add: rule_cell.load_save)
next
  case False
  then have "settings_load_switch_rule i (settings_save_switch_rule j r s) = settings_load_switch_rule i s"
    by (intro rule_cell.load_local rule_cell.save_frame) (auto simp: word_unat_eq_iff)
  then show ?thesis using False by simp
qed

lemmas switch_rule_frames [simp] = switch_rule_cells.load_after_other

lemma switch_count_save [simp]:
  "settings_load_switch_count (settings_save_switch i c s) =
     (if settings_load_switch_count s \<le> i then i + 1 else settings_load_switch_count s)"
  by (simp add: settings_load_switch_count_def settings_save_switch_def save_counted_count)

lemma switch_count_frames [simp]:
  "settings_load_switch_count (settings_save_switch_rule i r s) = settings_load_switch_count s"
  "settings_load_switch_count (settings_save_switch_auto_enabled b s) = settings_load_switch_count s"
  by (simp_all add: settings_load_switch_count_def settings_save_switch_rule_def
      settings_save_switch_auto_enabled_def pf_defs)

lemma switch_auto_frames [simp]:
  "settings_load_switch i (settings_save_switch_auto_enabled b s) = settings_load_switch i s"
  "settings_load_switch_rule i (settings_save_switch_auto_enabled b s) = settings_load_switch_rule i s"
  "settings_load_switch_auto_enabled (settings_save_switch_auto_enabled b s) = b"
  using auto_cell.load_save [of b s]
  by (auto intro!: switch_cell.load_local rule_cell.load_local auto_cell.save_frame)

lemma switch_frames_other [simp]:
  "settings_load_switch_auto_enabled (settings_save_switch i c s) = settings_load_switch_auto_enabled s"
  "settings_load_switch_auto_enabled (settings_save_switch_rule i r s) = settings_load_switch_auto_enabled s"
  "settings_load_battery ch (settings_save_switch i c s) = settings_load_battery ch s"
  "settings_load_battery ch (settings_save_switch_rule i r s) = settings_load_battery ch s"
  by (auto intro!: auto_cell.load_local battery_cell.load_local switch_cell.save_frame rule_cell.save_frame)

lemma load_grow_wf:
  assumes "load_grow n d k s = Some v" "\<And>bs. length bs = n \<Longrightarrow> P (d bs)"
  shows "P v"
  using assms by (auto simp: load_grow_def pf_get_defs Let_def split: if_splits)

lemma load_switch_wf: "settings_load_switch i s = Some c \<Longrightarrow> wf_channel c"
  unfolding settings_load_switch_def by (erule load_grow_wf) (rule wf_dec_channel)

lemma load_switch_rule_wf: "settings_load_switch_rule i s = Some r \<Longrightarrow> wf_rule r"
  unfolding settings_load_switch_rule_def by (erule load_grow_wf) (rule wf_dec_rule)

section \<open>Properties\<close>

text \<open>C30: What is saved is loaded, field for field, and nothing else moves: after saving a switch and its rule
  both come back, the count covers the index, and every other switch, rule, battery configuration and
  the auto flag read as before.\<close>

theorem switch_settings_roundtrip:
  assumes "wf_channel c" "wf_rule r" "i < 255"
  shows "let s' = settings_save_switch_rule i r (settings_save_switch i c s) in
    settings_load_switch i s' = Some c \<and> settings_load_switch_rule i s' = Some r \<and>
    i < settings_load_switch_count s' \<and>
    (\<forall>j. j \<noteq> i \<longrightarrow> settings_load_switch j s' = settings_load_switch j s \<and>
         settings_load_switch_rule j s' = settings_load_switch_rule j s) \<and>
    settings_load_battery b s' = settings_load_battery b s \<and>
    settings_load_switch_auto_enabled s' = settings_load_switch_auto_enabled s"
proof -
  have "i < i + 1"
    using assms(3) unat_add_small [of i 1] by (simp add: word_less_nat_alt)
  then show ?thesis using assms by (auto simp: Let_def)
qed

theorem switch_settings_roundtrip_witness:
  "settings_load_switch 2 (settings_save_switch_rule 2 (dec_rule (replicate 148 1))
     (settings_save_switch 2 (dec_channel (replicate 30 1)) (\<lambda>_. None))) =
   Some (dec_channel (replicate 30 1))"
  using switch_settings_roundtrip [of "dec_channel (replicate 30 1)" "dec_rule (replicate 148 1)" 2
      "\<lambda>_. None"] wf_dec_channel [of "replicate 30 1"] wf_dec_rule [of "replicate 148 1"]
  by (simp add: Let_def del: load_switch_save switch_rule_frames)

text \<open>A switch record of an older, shorter layout is read over a zeroed struct: the fields it holds keep
  their value, the missing ones are zero. A longer record is refused.\<close>

theorem switch_blob_migration:
  "settings_load_switch i (pf_putBytes (key_idx 24 ''sw_ch_'' i) blob s) =
    (if length blob \<le> 30 then Some (dec_channel (blob @ replicate (30 - length blob) 0)) else None)"
  by (auto simp: settings_load_switch_def load_grow_def pf_defs fit_def Let_def)

text \<open>The legacy 48-byte calibration is migrated field by field: channel \<open>i < 3\<close> keeps its
  offset and gain of voltage and current, every other channel is zero, and the next load refuses nothing.\<close>

theorem calibration_v1_migration:
  assumes "st ''chan_cal'' = Some (f32s_bytes (vo @ vg @ co @ cg))"
    "length vo = 3" "length vg = 3" "length co = 3" "length cg = 3" "i < 16"
  shows "\<exists>c st'. settings_load_channel_calibration st = (Some c, st') \<and> wf_cal c \<and>
    cal_volt_offset_mv c ! i = (if i < 3 then vo ! i else 0) \<and>
    cal_volt_gain c ! i = (if i < 3 then vg ! i else 0) \<and>
    cal_curr_offset_ma c ! i = (if i < 3 then co ! i else 0) \<and>
    cal_curr_gain c ! i = (if i < 3 then cg ! i else 0) \<and>
    \<not> cal_invert_curr c ! i \<and> pf_getUChar st' ''chan_cal_ver'' 0 = 2"
proof -
  have app: "f32s_bytes (xs @ ys) = f32s_bytes xs @ f32s_bytes ys" for xs ys
    by (simp add: f32s_bytes_def)
  show ?thesis using assms
    by (simp add: settings_load_channel_calibration_def pf_defs cal_of_v1_def dec_cal_v1_def
        wf_cal_def app codec_simps nth_fit Let_def)
qed

theorem calibration_v1_migration_witness:
  "\<exists>c st'. settings_load_channel_calibration
     [''chan_cal'' \<mapsto> f32s_bytes ([1, 2, 3] @ [4, 5, 6] @ [7, 8, 9] @ [10, 11, 12])] = (Some c, st') \<and>
     cal_curr_gain c ! 1 = 11"
  using calibration_v1_migration [of "[''chan_cal'' \<mapsto> f32s_bytes ([1, 2, 3] @ [4, 5, 6] @ [7, 8, 9] @ [10, 11, 12])]"
      "[1, 2, 3]" "[4, 5, 6]" "[7, 8, 9]" "[10, 11, 12]" 1] by auto

text \<open>The OTA poll interval the firmware uses is always between one minute and one day, whatever the
  store holds; saving then loading clamps exactly the values outside.\<close>

theorem ota_poll_interval_bounds:
  "60 \<le> settings_load_ota_poll_interval n \<and> settings_load_ota_poll_interval n \<le> 86400 \<and>
   settings_load_ota_poll_interval (settings_save_ota_poll_interval v n) =
     (if v < 60 then 60 else if 86400 < v then 86400 else v)"
  by (auto simp: settings_load_ota_poll_interval_def settings_save_ota_poll_interval_def
      clamp_poll_def pf_defs Let_def)

end
