(* ===== verification/Sensors.thy ===== *)
theory Sensors
  imports Settings
begin

text \<open>
  \<open>sensor_manager.cpp\<close> as built for the DC boards (\<open>ENABLE_INA226\<close>): the pod registry, the
  INA226 discovery and its restore from the NVS cache, the read of all pods into a
  \<open>SensorSnapshot\<close>, the logical-channel accessors and the calibration API. The I2C bus and the INA226
  driver are third-party code: \<open>probe addr\<close> says whether the address acknowledges and the
  device starts (the three tests of the scan), \<open>begins addr\<close> whether \<open>begin()\<close> succeeds,
  \<open>ina addr\<close> gives the bus voltage and current it reads. Arrays of pods and of
  snapshots are lists of the entries in use, so \<open>g_pod_count\<close> and \<open>num_pods\<close> are their length.
\<close>

record SampleMeta =
  sm_stddev :: f32
  sm_spike :: bool

record PhysicalChannel =
  pc_pod_id :: u8
  pc_pod_channel :: u8
  pc_voltage :: f32
  pc_current :: f32
  pc_power :: f32
  pc_energy_Wh :: f32
  pc_coulomb_mAh :: f32
  pc_meta :: SampleMeta

datatype PodType = POD_INA226 | POD_BL0939

record PodState =
  ps_id :: u8
  ps_type :: PodType
  ps_name :: string
  ps_num_channels :: u8
  ps_channels :: "PhysicalChannel list"

record SensorSnapshot =
  sn_timestamp_ms :: u32
  sn_pods :: "PodState list"
  sn_total_logical_channels :: u8

text \<open>An INA226 driver object: its address and the range set on it.\<close>

record ina_dev =
  dev_addr :: u8
  dev_max_current :: f32
  dev_shunt :: f32

record sensors =
  se_pods :: "PodState list"
  se_logical_count :: u8
  se_devices :: "ina_dev option list"
  se_device_for_pod :: "u8 list"
  se_cal :: ChannelCalibration
  se_volt_ratios :: "f32 list"

abbreviation MAX_PODS :: nat where "MAX_PODS \<equiv> 8"
abbreviation MAX_INA226 :: nat where "MAX_INA226 \<equiv> 8"
abbreviation INA226_COUNT :: nat where "INA226_COUNT \<equiv> 4"

section \<open>Registry\<close>

definition meta0 :: SampleMeta where "meta0 = \<lparr> sm_stddev = 0, sm_spike = False \<rparr>"

definition channel0 :: "u8 \<Rightarrow> u8 \<Rightarrow> PhysicalChannel" where
  "channel0 pid c = \<lparr> pc_pod_id = pid, pc_pod_channel = c, pc_voltage = 0, pc_current = 0,
     pc_power = 0, pc_energy_Wh = 0, pc_coulomb_mAh = 0, pc_meta = meta0 \<rparr>"

definition register_pod :: "PodType \<Rightarrow> string \<Rightarrow> u8 \<Rightarrow> sensors \<Rightarrow> bool \<times> sensors" where
  "register_pod ty name n s =
    (if MAX_PODS \<le> length (se_pods s) \<or> n = 0 \<or> 2 < n then (False, s)
     else let pid = of_nat (length (se_pods s));
              pod = \<lparr> ps_id = pid, ps_type = ty, ps_name = take 15 name, ps_num_channels = n,
                      ps_channels = map (\<lambda>c. if c < unat n then channel0 pid (of_nat c)
                                            else channel0 0 0) [0..<2] \<rparr>
          in (True, s\<lparr> se_pods := se_pods s @ [pod],
                       se_logical_count := se_logical_count s + n \<rparr>))"

definition clear_pods :: "sensors \<Rightarrow> sensors" where
  "clear_pods s = s\<lparr> se_pods := [], se_logical_count := 0 \<rparr>"

text \<open>The registry invariant: at most eight pods, numbered in order, each of one or two
  channels, and the logical count is their sum.\<close>

definition pod_ok :: "PodState \<Rightarrow> bool" where
  "pod_ok p = (ps_num_channels p \<noteq> 0 \<and> ps_num_channels p \<le> 2 \<and> length (ps_channels p) = 2)"

definition wf_sensors :: "sensors \<Rightarrow> bool" where
  "wf_sensors s = (length (se_pods s) \<le> MAX_PODS \<and> list_all pod_ok (se_pods s) \<and>
     unat (se_logical_count s) = sum_list (map (unat \<circ> ps_num_channels) (se_pods s)) \<and>
     length (se_devices s) = MAX_INA226 \<and> length (se_device_for_pod s) = MAX_INA226 \<and>
     wf_cal (se_cal s) \<and> length (se_volt_ratios s) = 3)"

lemma u8_le_2: "(n :: u8) \<noteq> 0 \<Longrightarrow> n \<le> 2 \<Longrightarrow> unat n = 1 \<or> unat n = 2"
proof -
  assume a: "n \<noteq> 0" "n \<le> 2"
  then have "unat n \<le> 2" by (simp add: word_le_nat_alt)
  moreover have "unat n \<noteq> 0" using a(1) by (simp add: word_unat_eq_iff)
  ultimately show ?thesis by auto
qed

lemma sum_pods_le:
  "list_all pod_ok ps \<Longrightarrow> sum_list (map (unat \<circ> ps_num_channels) ps) \<le> 2 * length ps"
proof (induction ps)
  case (Cons p ps)
  then have "unat (ps_num_channels p) \<le> 2"
    using u8_le_2 [of "ps_num_channels p"] by (auto simp: pod_ok_def)
  with Cons show ?case by simp
qed simp

lemma register_pod_wf:
  assumes "wf_sensors s"
  shows "wf_sensors (snd (register_pod ty name n s))"
proof (cases "MAX_PODS \<le> length (se_pods s) \<or> n = 0 \<or> 2 < n")
  case True
  then show ?thesis using assms by (auto simp: register_pod_def)
next
  case False
  then have n: "n \<noteq> 0" "n \<le> 2" "length (se_pods s) < 8" by (auto simp: not_less)
  have "unat (se_logical_count s) \<le> 16"
    using assms sum_pods_le [of "se_pods s"] n by (auto simp: wf_sensors_def)
  moreover have "unat n \<le> 2" using u8_le_2 [OF n(1,2)] by auto
  ultimately have "unat (se_logical_count s + n) = unat (se_logical_count s) + unat n"
    by (intro unat_add_small) simp
  then show ?thesis using assms n False
    by (simp add: register_pod_def wf_sensors_def pod_ok_def Let_def)
qed

lemma clear_pods_wf: "wf_sensors s \<Longrightarrow> wf_sensors (clear_pods s)"
  by (simp add: clear_pods_def wf_sensors_def)

section \<open>Logical channels\<close>

text \<open>The loop of \<open>logical_channel_from_snapshot\<close> and \<open>sensor_get_logical_channel\<close>, with its
  \<open>uint8_t\<close> running total.\<close>

fun find_logical :: "PodState list \<Rightarrow> u8 \<Rightarrow> u8 \<Rightarrow> PhysicalChannel option" where
  "find_logical [] logical ch = None"
| "find_logical (p # ps) logical ch =
    (if unat ch < unat logical + unat (ps_num_channels p)
     then Some (ps_channels p ! (unat ch - unat logical))
     else find_logical ps (logical + ps_num_channels p) ch)"

definition sensor_get_logical_channel :: "sensors \<Rightarrow> u8 \<Rightarrow> PhysicalChannel option" where
  "sensor_get_logical_channel s ch =
    (if se_logical_count s \<le> ch then None else find_logical (se_pods s) 0 ch)"

definition logical_channel_from_snapshot :: "SensorSnapshot \<Rightarrow> u8 \<Rightarrow> PhysicalChannel option" where
  "logical_channel_from_snapshot sn ch =
    (if sn_total_logical_channels sn \<le> ch then None else find_logical (sn_pods sn) 0 ch)"

definition opt_field :: "('a \<Rightarrow> f32) \<Rightarrow> 'a option \<Rightarrow> f32" where
  "opt_field f x = (case x of None \<Rightarrow> 0 | Some c \<Rightarrow> f c)"

definition get_channel_voltage :: "sensors \<Rightarrow> u8 \<Rightarrow> f32" where
  "get_channel_voltage s ch = opt_field pc_voltage (sensor_get_logical_channel s ch)"
definition get_channel_current :: "sensors \<Rightarrow> u8 \<Rightarrow> f32" where
  "get_channel_current s ch = opt_field pc_current (sensor_get_logical_channel s ch)"
definition get_channel_power :: "sensors \<Rightarrow> u8 \<Rightarrow> f32" where
  "get_channel_power s ch = opt_field pc_power (sensor_get_logical_channel s ch)"

definition snap_channel_voltage :: "SensorSnapshot \<Rightarrow> u8 \<Rightarrow> f32" where
  "snap_channel_voltage sn ch = opt_field pc_voltage (logical_channel_from_snapshot sn ch)"
definition snap_channel_current :: "SensorSnapshot \<Rightarrow> u8 \<Rightarrow> f32" where
  "snap_channel_current sn ch = opt_field pc_current (logical_channel_from_snapshot sn ch)"
definition snap_channel_power :: "SensorSnapshot \<Rightarrow> u8 \<Rightarrow> f32" where
  "snap_channel_power sn ch = opt_field pc_power (logical_channel_from_snapshot sn ch)"

definition sensor_get_meta :: "sensors \<Rightarrow> u8 \<Rightarrow> SampleMeta" where
  "sensor_get_meta s ch = (case sensor_get_logical_channel s ch of None \<Rightarrow> meta0 | Some c \<Rightarrow> pc_meta c)"

text \<open>What the numbering means: the channels of all pods in order.\<close>

definition flat_channels :: "PodState list \<Rightarrow> PhysicalChannel list" where
  "flat_channels ps = concat (map (\<lambda>p. take (unat (ps_num_channels p)) (ps_channels p)) ps)"

lemma length_flat_channels:
  "list_all pod_ok ps \<Longrightarrow> length (flat_channels ps) = sum_list (map (unat \<circ> ps_num_channels) ps)"
proof (induction ps)
  case (Cons p ps)
  then have "unat (ps_num_channels p) \<le> 2"
    using u8_le_2 [of "ps_num_channels p"] by (auto simp: pod_ok_def)
  with Cons show ?case by (simp add: flat_channels_def pod_ok_def)
qed (simp add: flat_channels_def)

lemma find_logical_flat:
  assumes "list_all pod_ok ps" "unat logical + 2 * length ps < 256" "logical \<le> ch"
  shows "find_logical ps logical ch =
    (if unat ch - unat logical < length (flat_channels ps)
     then Some (flat_channels ps ! (unat ch - unat logical)) else None)"
  using assms
proof (induction ps arbitrary: logical)
  case Nil
  then show ?case by (simp add: flat_channels_def)
next
  case (Cons p ps)
  let ?n = "unat (ps_num_channels p)"
  have n: "?n \<le> 2" "length (ps_channels p) = 2"
    using Cons.prems u8_le_2 [of "ps_num_channels p"] by (auto simp: pod_ok_def)
  have l: "unat logical \<le> unat ch" using Cons.prems by (simp add: word_le_nat_alt)
  have add: "unat (logical + ps_num_channels p) = unat logical + ?n"
    using Cons.prems n by (intro unat_add_small) simp
  show ?case
  proof (cases "unat ch < unat logical + ?n")
    case True
    then show ?thesis using n l by (simp add: flat_channels_def nth_append less_diff_conv2)
  next
    case False
    then have "logical + ps_num_channels p \<le> ch" by (simp add: word_le_nat_alt add)
    then have "find_logical ps (logical + ps_num_channels p) ch =
      (if unat ch - (unat logical + ?n) < length (flat_channels ps)
       then Some (flat_channels ps ! (unat ch - (unat logical + ?n))) else None)"
      using Cons.IH [of "logical + ps_num_channels p"] Cons.prems n add by auto
    then show ?thesis using False n l
      by (auto simp: flat_channels_def nth_append less_diff_conv2)
  qed
qed

lemma find_logical_count:
  assumes "list_all pod_ok ps" "length ps \<le> 8" "unat n = sum_list (map (unat \<circ> ps_num_channels) ps)"
    "ch < n"
  shows "find_logical ps 0 ch = Some (flat_channels ps ! unat ch)"
  using assms find_logical_flat [of ps 0 ch] length_flat_channels [of ps]
  by (simp add: word_less_nat_alt)

section \<open>INA226 discovery, restore and read\<close>

definition hex_digit :: "nat \<Rightarrow> char" where
  "hex_digit d = (if d < 10 then char_of (48 + d) else char_of (55 + d))"

definition hex2 :: "u8 \<Rightarrow> string" where
  "hex2 b = [hex_digit (unat b div 16), hex_digit (unat b mod 16)]"

text \<open>The range set on a device: shunt from NVS when positive, else 5 mOhm; the full-scale
  current \<open>0.08192 / shunt\<close>, at least 1 mA.\<close>

definition ina_configure :: "kv \<Rightarrow> u8 \<Rightarrow> u8 \<Rightarrow> ina_dev" where
  "ina_configure st idx addr =
    (let shunt = (case settings_load_shunt idx st of
                    Some sh \<Rightarrow> if f_gt sh 0 then sh else f_lit 5 1000 | None \<Rightarrow> f_lit 5 1000);
         mc = f_div (f_lit 8192 100000) shunt
     in \<lparr> dev_addr = addr,
          dev_max_current = (if f_lt mc (f_lit 1 1000) then f_lit 1 1000 else mc),
          dev_shunt = shunt \<rparr>)"

definition ina_name :: "u8 \<Rightarrow> string" where
  "ina_name addr = ''INA226@0x'' @ hex2 addr"

fun scan_ina226 :: "(u8 \<Rightarrow> bool) \<Rightarrow> u8 list \<Rightarrow> u8 \<Rightarrow> kv \<times> sensors \<Rightarrow> u8 \<times> kv \<times> sensors" where
  "scan_ina226 probe [] found w = (found, w)"
| "scan_ina226 probe (addr # as) found w =
    (if \<not> probe addr then scan_ina226 probe as found w
     else let st = fst w; s = snd w; f = unat found;
              s1 = s\<lparr> se_devices := (se_devices s)[f := Some (ina_configure st found addr)],
                      se_device_for_pod := (se_device_for_pod s)[f := found] \<rparr>;
              st1 = settings_save_discovered_ina_addr found addr st;
              s2 = snd (register_pod POD_INA226 (ina_name addr) 1 s1)
          in if INA226_COUNT \<le> f + 1 then (found + 1, st1, s2)
             else scan_ina226 probe as (found + 1) (st1, s2))"

definition discover_ina226 :: "(u8 \<Rightarrow> bool) \<Rightarrow> kv \<times> sensors \<Rightarrow> kv \<times> sensors" where
  "discover_ina226 probe w =
    (case scan_ina226 probe (map of_nat [0x40..<0x50]) 0 w of
       (found, st, s) \<Rightarrow> (settings_save_discovered_ina_count found st, s))"

definition discover_sensors :: "(u8 \<Rightarrow> bool) \<Rightarrow> kv \<times> sensors \<Rightarrow> kv \<times> sensors" where
  "discover_sensors probe w =
    (let st = settings_clear_discovered (fst w);
         s = clear_pods ((snd w)\<lparr> se_devices := replicate MAX_INA226 None \<rparr>)
     in discover_ina226 probe (st, s))"

text \<open>The divider ratio of the three legacy channels: a stored ratio, else stored resistors,
  else the ratio in use.\<close>

definition load_volt_ratio_for :: "kv \<Rightarrow> u8 \<Rightarrow> f32 \<Rightarrow> f32" where
  "load_volt_ratio_for st ch old =
    (case settings_load_volt_ratio ch st of
       Some r \<Rightarrow> r
     | None \<Rightarrow> (case settings_load_resistors ch st of
          Some (h, l) \<Rightarrow> f_div (f_add h l) l | None \<Rightarrow> old))"

definition reinit_sensors :: "kv \<Rightarrow> sensors \<Rightarrow> sensors" where
  "reinit_sensors st s = s\<lparr> se_volt_ratios :=
     map (\<lambda>i. load_volt_ratio_for st (of_nat i) (se_volt_ratios s ! i)) [0..<3] \<rparr>"

text \<open>The restore of the cached addresses. A device that does not start is skipped; the next ones
  keep their index in \<open>ina226_devices\<close> but get the next pod number.\<close>

definition restore_one :: "(u8 \<Rightarrow> bool) \<Rightarrow> kv \<Rightarrow> nat \<Rightarrow> sensors \<Rightarrow> sensors" where
  "restore_one begins st i s =
    (case settings_load_discovered_ina_addr (of_nat i) st of
       None \<Rightarrow> s
     | Some addr \<Rightarrow>
         if \<not> begins addr then s\<lparr> se_devices := (se_devices s)[i := None] \<rparr>
         else snd (register_pod POD_INA226 (ina_name addr) 1
                (s\<lparr> se_devices := (se_devices s)[i := Some (ina_configure st (of_nat i) addr)],
                    se_device_for_pod := (se_device_for_pod s)[i := of_nat i] \<rparr>)))"

definition init_sensors ::
  "(u8 \<Rightarrow> bool) \<Rightarrow> (u8 \<Rightarrow> bool) \<Rightarrow> kv \<times> sensors \<Rightarrow> kv \<times> sensors" where
  "init_sensors probe begins w =
    (let (c, st) = settings_load_channel_calibration (fst w);
         s1 = (case c of Some saved \<Rightarrow> (snd w)\<lparr> se_cal := saved \<rparr> | None \<Rightarrow> snd w);
         s2 = reinit_sensors st s1;
         n = settings_load_discovered_ina_count st
     in if 0 < n
        then (st, fold (restore_one begins st) [0..<min (unat n) MAX_INA226] s2)
        else discover_ina226 probe (st, s2))"

text \<open>One read: the constants \<open>ina226_volt_ratios\<close>, \<open>v_offsets\<close> and \<open>i_gains\<close> of the board.\<close>

record ina_cal =
  ic_volt_ratio :: f32
  ic_v_offset :: f32
  ic_i_gain :: f32

definition upd_first :: "(PhysicalChannel \<Rightarrow> PhysicalChannel) \<Rightarrow> PodState \<Rightarrow> PodState" where
  "upd_first f p = p\<lparr> ps_channels := (ps_channels p)[0 := f (ps_channels p ! 0)] \<rparr>"

definition pod_ina226_read ::
  "(u8 \<Rightarrow> f32 \<times> f32) \<Rightarrow> (nat \<Rightarrow> ina_cal) \<Rightarrow> sensors \<Rightarrow> PodState \<Rightarrow> PodState" where
  "pod_ina226_read ina k s p =
    (let d = unat (se_device_for_pod s ! unat (ps_id p)) in
     case (if INA226_COUNT \<le> d then None else se_devices s ! d) of
       None \<Rightarrow> upd_first (\<lambda>c. c\<lparr> pc_voltage := 0, pc_current := 0, pc_power := 0 \<rparr>) p
     | Some dev \<Rightarrow>
         let v = f_add (f_mul (fst (ina (dev_addr dev))) (ic_volt_ratio (k d))) (ic_v_offset (k d));
             i = f_mul (snd (ina (dev_addr dev))) (ic_i_gain (k d))
         in upd_first (\<lambda>c. c\<lparr> pc_voltage := v, pc_current := i, pc_power := f_mul v i,
                              pc_meta := meta0 \<rparr>) p)"

text \<open>\<open>read_sensors\<close>: every pod's own read function in turn, then the snapshot. \<open>bl\<close> is the read
  function of the BL0939 pods.\<close>

definition read_pod ::
  "(u8 \<Rightarrow> f32 \<times> f32) \<Rightarrow> (nat \<Rightarrow> ina_cal) \<Rightarrow> (PodState \<Rightarrow> PodState) \<Rightarrow> sensors \<Rightarrow> PodState \<Rightarrow> PodState" where
  "read_pod ina k bl s p = (case ps_type p of POD_INA226 \<Rightarrow> pod_ina226_read ina k s p | POD_BL0939 \<Rightarrow> bl p)"

definition read_sensors ::
  "(u8 \<Rightarrow> f32 \<times> f32) \<Rightarrow> (nat \<Rightarrow> ina_cal) \<Rightarrow> (PodState \<Rightarrow> PodState) \<Rightarrow> u32 \<Rightarrow> sensors \<Rightarrow>
     SensorSnapshot \<times> sensors" where
  "read_sensors ina k bl now s =
    (let ps = map (read_pod ina k bl s) (se_pods s) in
     (\<lparr> sn_timestamp_ms = now, sn_pods = ps, sn_total_logical_channels = se_logical_count s \<rparr>,
      s\<lparr> se_pods := ps \<rparr>))"

section \<open>Calibration API\<close>

definition sensor_set_calibration :: "u8 \<Rightarrow> u8 \<Rightarrow> f32 \<Rightarrow> kv \<times> sensors \<Rightarrow> kv \<times> sensors" where
  "sensor_set_calibration ch ty v w =
    (let s = snd w; c = se_cal s; i = unat ch;
         put = (\<lambda>c'. (settings_save_channel_calibration c' (fst w), s\<lparr> se_cal := c' \<rparr>))
     in if MAX_LOGICAL_CHANNELS \<le> i then w
        else if ty = 0 then put (c\<lparr> cal_volt_offset_mv := (cal_volt_offset_mv c)[i := v] \<rparr>)
        else if ty = 1 then put (c\<lparr> cal_volt_gain := (cal_volt_gain c)[i := v] \<rparr>)
        else if ty = 2 then put (c\<lparr> cal_curr_offset_ma := (cal_curr_offset_ma c)[i := v] \<rparr>)
        else if ty = 3 then put (c\<lparr> cal_curr_gain := (cal_curr_gain c)[i := v] \<rparr>)
        else w)"

definition sensor_get_calibration :: "u8 \<Rightarrow> sensors \<Rightarrow> f32 \<times> f32 \<times> f32 \<times> f32" where
  "sensor_get_calibration ch s =
    (let i = (if MAX_LOGICAL_CHANNELS \<le> unat ch then 0 else unat ch); c = se_cal s in
     (cal_volt_offset_mv c ! i, cal_volt_gain c ! i, cal_curr_offset_ma c ! i, cal_curr_gain c ! i))"

definition sensor_reset_calibration :: "u8 \<Rightarrow> kv \<times> sensors \<Rightarrow> kv \<times> sensors" where
  "sensor_reset_calibration ch w =
    (let s = snd w; c = se_cal s; i = unat ch in
     if MAX_LOGICAL_CHANNELS \<le> i then w
     else let c' = c\<lparr> cal_volt_offset_mv := (cal_volt_offset_mv c)[i := 0],
                      cal_volt_gain := (cal_volt_gain c)[i := f_one],
                      cal_curr_offset_ma := (cal_curr_offset_ma c)[i := 0],
                      cal_curr_gain := (cal_curr_gain c)[i := f_one],
                      cal_invert_curr := (cal_invert_curr c)[i := False] \<rparr>
          in (settings_save_channel_calibration c' (fst w), s\<lparr> se_cal := c' \<rparr>))"

definition sensor_set_invert_curr :: "u8 \<Rightarrow> bool \<Rightarrow> kv \<times> sensors \<Rightarrow> kv \<times> sensors" where
  "sensor_set_invert_curr ch flag w =
    (let s = snd w; c = se_cal s; i = unat ch in
     if MAX_LOGICAL_CHANNELS \<le> i then w
     else let c' = c\<lparr> cal_invert_curr := (cal_invert_curr c)[i := flag] \<rparr>
          in (settings_save_channel_calibration c' (fst w), s\<lparr> se_cal := c' \<rparr>))"

definition sensor_reset_invert_curr :: "u8 \<Rightarrow> kv \<times> sensors \<Rightarrow> kv \<times> sensors" where
  "sensor_reset_invert_curr ch = sensor_set_invert_curr ch False"

section \<open>Every operation keeps the registry well formed\<close>

lemma upd_first_ok [simp]: "pod_ok (upd_first f p) = pod_ok p"
    "ps_num_channels (upd_first f p) = ps_num_channels p" "ps_id (upd_first f p) = ps_id p"
    "ps_name (upd_first f p) = ps_name p" "ps_type (upd_first f p) = ps_type p"
  by (simp_all add: upd_first_def pod_ok_def)

lemma pod_ina226_read_ok [simp]: "pod_ok (pod_ina226_read ina k s p) = pod_ok p"
    "ps_num_channels (pod_ina226_read ina k s p) = ps_num_channels p"
  by (simp_all add: pod_ina226_read_def Let_def split: option.split)

text \<open>What a pod driver may do to the pod it is given.\<close>

definition driver_ok :: "(PodState \<Rightarrow> PodState) \<Rightarrow> bool" where
  "driver_ok bl = (\<forall>p. pod_ok p \<longrightarrow> pod_ok (bl p) \<and> ps_num_channels (bl p) = ps_num_channels p)"

lemma read_pod_ok:
  "\<lbrakk> driver_ok bl; pod_ok p \<rbrakk> \<Longrightarrow>
    pod_ok (read_pod ina k bl s p) \<and> ps_num_channels (read_pod ina k bl s p) = ps_num_channels p"
  by (simp add: read_pod_def driver_ok_def split: PodType.split)

lemma read_pods_ok:
  assumes "driver_ok bl" "list_all pod_ok ps"
  shows "list_all pod_ok (map (read_pod ina k bl s) ps)"
    and "map (unat \<circ> ps_num_channels) (map (read_pod ina k bl s) ps) = map (unat \<circ> ps_num_channels) ps"
  using assms read_pod_ok [OF assms(1)] by (auto simp: list_all_iff)

lemma read_sensors_wf:
  "\<lbrakk> wf_sensors s; driver_ok bl \<rbrakk> \<Longrightarrow> wf_sensors (snd (read_sensors ina k bl now s))"
  using read_pods_ok [of bl "se_pods s" ina k s]
  by (simp add: wf_sensors_def read_sensors_def Let_def del: map_map list.map_comp)

lemma set_devices_wf:
  "wf_sensors s \<Longrightarrow> wf_sensors (s\<lparr> se_devices := (se_devices s)[i := d],
     se_device_for_pod := (se_device_for_pod s)[j := v] \<rparr>)"
  "wf_sensors s \<Longrightarrow> wf_sensors (s\<lparr> se_devices := (se_devices s)[i := d] \<rparr>)"
  by (simp_all add: wf_sensors_def)

lemma scan_ina226_wf:
  "wf_sensors (snd w) \<Longrightarrow> wf_sensors (snd (snd (scan_ina226 probe as found w)))"
proof (induction probe as found w rule: scan_ina226.induct)
  case (2 probe addr as found w)
  then show ?case by (simp add: Let_def register_pod_wf set_devices_wf)
qed simp

lemma discover_ina226_wf: "wf_sensors (snd w) \<Longrightarrow> wf_sensors (snd (discover_ina226 probe w))"
proof -
  assume w: "wf_sensors (snd w)"
  obtain found st s where e: "scan_ina226 probe (map of_nat [0x40..<0x50]) 0 w = (found, st, s)"
    by (metis surj_pair)
  have "wf_sensors (snd (snd (scan_ina226 probe (map of_nat [0x40..<0x50]) 0 w)))"
    using w by (rule scan_ina226_wf)
  then show ?thesis unfolding discover_ina226_def e by simp
qed

lemma discover_sensors_wf: "wf_sensors (snd w) \<Longrightarrow> wf_sensors (snd (discover_sensors probe w))"
  unfolding discover_sensors_def Let_def
  by (intro discover_ina226_wf) (simp add: clear_pods_def wf_sensors_def)

lemma reinit_sensors_wf: "wf_sensors s \<Longrightarrow> wf_sensors (reinit_sensors st s)"
  by (simp add: reinit_sensors_def wf_sensors_def)

lemma restore_one_wf: "wf_sensors s \<Longrightarrow> wf_sensors (restore_one begins st i s)"
  by (simp add: restore_one_def set_devices_wf register_pod_wf split: option.split)

lemma fold_wf: "(\<And>i x. P x \<Longrightarrow> P (f i x)) \<Longrightarrow> P x \<Longrightarrow> P (fold f is x)"
  by (induction "is" arbitrary: x) auto

lemma length_fit_f32s [simp]: "length (fit n (0::f32) xs) = n"
  by simp

lemma load_calibration_wf:
  "fst (settings_load_channel_calibration s) = Some c \<Longrightarrow> wf_cal c"
  by (auto simp: settings_load_channel_calibration_def Let_def cal_of_v1_def wf_cal_def
      dec_cal_v1_def dec_cal_def split: if_splits)

lemma init_sensors_wf:
  assumes "wf_sensors (snd w)"
  shows "wf_sensors (snd (init_sensors probe begins w))"
proof -
  obtain c st where cs: "settings_load_channel_calibration (fst w) = (c, st)" by fastforce
  define s1 where "s1 = (case c of Some saved \<Rightarrow> (snd w)\<lparr> se_cal := saved \<rparr> | None \<Rightarrow> snd w)"
  have "wf_sensors s1"
    using assms load_calibration_wf [of "fst w"] cs
    by (auto simp: s1_def wf_sensors_def split: option.split)
  then have "wf_sensors (reinit_sensors st s1)" by (rule reinit_sensors_wf)
  then show ?thesis
    using fold_wf [of wf_sensors "restore_one begins st"] restore_one_wf
      discover_ina226_wf [of "(st, reinit_sensors st s1)" probe]
    unfolding init_sensors_def cs Let_def s1_def by simp
qed

lemma calibration_ops_wf:
  assumes "wf_sensors (snd w)"
  shows "wf_sensors (snd (sensor_set_calibration ch ty v w))"
    "wf_sensors (snd (sensor_reset_calibration ch w))"
    "wf_sensors (snd (sensor_set_invert_curr ch flag w))"
  using assms
  by (simp_all add: sensor_set_calibration_def sensor_reset_calibration_def
      sensor_set_invert_curr_def wf_sensors_def wf_cal_def Let_def)

section \<open>Reading\<close>

text \<open>A snapshot's logical channels are the channels of its pods in order, and no index below the
  count misses.\<close>

lemma snapshot_lookup_wf:
  assumes "wf_sensors s" "driver_ok bl"
  shows "logical_channel_from_snapshot (fst (read_sensors ina k bl now s)) ch =
    (if ch < se_logical_count s
     then Some (flat_channels (map (read_pod ina k bl s) (se_pods s)) ! unat ch) else None)"
proof -
  have ok: "list_all pod_ok (map (read_pod ina k bl s) (se_pods s))"
    "map (unat \<circ> ps_num_channels) (map (read_pod ina k bl s) (se_pods s)) =
      map (unat \<circ> ps_num_channels) (se_pods s)"
    using read_pods_ok [OF assms(2), of "se_pods s"] assms(1) by (auto simp: wf_sensors_def)
  show ?thesis
  proof (cases "ch < se_logical_count s")
    case True
    then have "find_logical (map (read_pod ina k bl s) (se_pods s)) 0 ch =
        Some (flat_channels (map (read_pod ina k bl s) (se_pods s)) ! unat ch)"
      using ok assms(1) by (intro find_logical_count) (auto simp: wf_sensors_def simp del: map_map)
    then show ?thesis using True
      by (simp add: logical_channel_from_snapshot_def read_sensors_def Let_def linorder_not_le [symmetric])
  qed (simp add: logical_channel_from_snapshot_def read_sensors_def Let_def not_less)
qed

section \<open>Routing of pods to devices\<close>

text \<open>Pod \<open>k\<close> is numbered \<open>k\<close>, is read from device \<open>k\<close>, and is named after that
  device's address, which answered the probe.\<close>

definition routed :: "(u8 \<Rightarrow> bool) \<Rightarrow> sensors \<Rightarrow> nat \<Rightarrow> bool" where
  "routed probe s k =
    (ps_id (se_pods s ! k) = of_nat k \<and> ps_type (se_pods s ! k) = POD_INA226 \<and>
     se_device_for_pod s ! k = of_nat k \<and>
     (case se_devices s ! k of None \<Rightarrow> False
      | Some dev \<Rightarrow> probe (dev_addr dev) \<and> ps_name (se_pods s ! k) = ina_name (dev_addr dev)))"

lemma ina_name_15 [simp]: "take 15 (ina_name a) = ina_name a"
  by (simp add: ina_name_def hex2_def)

lemma routed_register:
  assumes "wf_sensors s" "length (se_pods s) < INA226_COUNT" "probe addr"
    and "\<forall>k < length (se_pods s). routed probe s k"
    and s2: "s2 = snd (register_pod POD_INA226 (ina_name addr) 1
      (s\<lparr> se_devices := (se_devices s)[length (se_pods s) := Some (ina_configure st found addr)],
         se_device_for_pod := (se_device_for_pod s)[length (se_pods s) := of_nat (length (se_pods s))] \<rparr>))"
  shows "length (se_pods s2) = Suc (length (se_pods s))" "\<forall>k < length (se_pods s2). routed probe s2 k"
proof -
  have len: "length (se_devices s) = 8" "length (se_device_for_pod s) = 8"
    using assms(1) by (auto simp: wf_sensors_def)
  show l: "length (se_pods s2) = Suc (length (se_pods s))"
    using assms(2) by (simp add: s2 register_pod_def Let_def)
  have "routed probe s2 k" if "k < Suc (length (se_pods s))" for k
  proof (cases "k = length (se_pods s)")
    case True
    then show ?thesis using assms(2,3) len
      by (simp add: s2 register_pod_def Let_def routed_def ina_configure_def)
  next
    case False
    then have "routed probe s k" "k < length (se_pods s)" using that assms(4) by auto
    then show ?thesis using assms(2) len
      by (auto simp: s2 register_pod_def Let_def routed_def nth_append split: option.splits)
  qed
  then show "\<forall>k < length (se_pods s2). routed probe s2 k" using l by simp
qed

lemma scan_routed:
  assumes "wf_sensors (snd w)" "unat found = length (se_pods (snd w))" "unat found < INA226_COUNT"
    "\<forall>k < length (se_pods (snd w)). routed probe (snd w) k"
  shows "let r = snd (snd (scan_ina226 probe as found w)) in
    length (se_pods r) \<le> INA226_COUNT \<and> (\<forall>k < length (se_pods r). routed probe r k)"
  using assms
proof (induction probe as found w rule: scan_ina226.induct)
  case (2 probe addr as found w)
  show ?case
  proof (cases "probe addr")
    case True
    define s where "s = snd w"
    define s1 where "s1 = s\<lparr> se_devices := (se_devices s)[unat found := Some (ina_configure (fst w) found addr)],
       se_device_for_pod := (se_device_for_pod s)[unat found := found] \<rparr>"
    define s2 where "s2 = snd (register_pod POD_INA226 (ina_name addr) 1 s1)"
    have f: "found = of_nat (length (se_pods s))" by (simp add: s_def flip: 2(4))
    have r: "length (se_pods s2) = Suc (length (se_pods s))" "\<forall>k < length (se_pods s2). routed probe s2 k"
      using routed_register [of s probe addr s2 "fst w" found] 2(3-6) True f
      by (simp_all add: s2_def s1_def s_def)
    have u: "unat (found + 1) = Suc (length (se_pods s))"
      using 2(4,5) unat_add_small [of found 1] by (simp add: s_def)
    show ?thesis
    proof (cases "INA226_COUNT \<le> unat found + 1")
      case True
      then show ?thesis using r \<open>probe addr\<close> 2(4,5)
        by (simp add: Let_def s2_def s1_def s_def)
    next
      case False
      have "wf_sensors s2" unfolding s2_def s1_def s_def
        by (intro register_pod_wf set_devices_wf 2(3))
      then have "let r = snd (snd (scan_ina226 probe as (found + 1)
          (settings_save_discovered_ina_addr found addr (fst w), s2))) in
        length (se_pods r) \<le> INA226_COUNT \<and> (\<forall>k < length (se_pods r). routed probe r k)"
        using 2(2) [OF _ refl refl refl refl refl refl] True False r u 2(4)
        by (simp add: s2_def s1_def s_def Let_def)
      then show ?thesis using True False by (simp add: Let_def s2_def s1_def s_def)
    qed
  next
    case False
    then show ?thesis using 2 by simp
  qed
qed (auto simp: Let_def)

section \<open>Runs of the component\<close>

text \<open>The static initial state, and the states the public operations lead to.\<close>

definition sensors0 :: sensors where
  "sensors0 = \<lparr> se_pods = [], se_logical_count = 0, se_devices = replicate 8 None,
     se_device_for_pod = replicate 8 0,
     se_cal = \<lparr> cal_volt_offset_mv = replicate 16 0, cal_volt_gain = replicate 16 f_one,
                cal_curr_offset_ma = replicate 16 0, cal_curr_gain = replicate 16 f_one,
                cal_invert_curr = replicate 16 False \<rparr>,
     se_volt_ratios = [f_lit 35210 10000, f_lit 142353 10000, f_lit 142353 10000] \<rparr>"

inductive sensors_step :: "kv \<times> sensors \<Rightarrow> kv \<times> sensors \<Rightarrow> bool" where
  s_init: "sensors_step w (init_sensors probe begins w)"
| s_discover: "sensors_step w (discover_sensors probe w)"
| s_reinit: "sensors_step (st, s) (st, reinit_sensors st s)"
| s_read: "driver_ok bl \<Longrightarrow> sensors_step (st, s) (st, snd (read_sensors ina k bl now s))"
| s_set_cal: "sensors_step w (sensor_set_calibration ch ty v w)"
| s_reset_cal: "sensors_step w (sensor_reset_calibration ch w)"
| s_invert: "sensors_step w (sensor_set_invert_curr ch flag w)"
| s_store: "sensors_step (st, s) (st', s)"

inductive_cases sensors_stepE: "sensors_step w w'"

lemma sensors_step_wf: "\<lbrakk> sensors_step w w'; wf_sensors (snd w) \<rbrakk> \<Longrightarrow> wf_sensors (snd w')"
  by (induction rule: sensors_step.induct)
     (auto intro: init_sensors_wf discover_sensors_wf reinit_sensors_wf read_sensors_wf
        calibration_ops_wf)

inductive sensors_reachable :: "kv \<times> sensors \<Rightarrow> bool" where
  r_boot: "sensors_reachable (st, sensors0)"
| r_step: "\<lbrakk> sensors_reachable w; sensors_step w w' \<rbrakk> \<Longrightarrow> sensors_reachable w'"

lemma sensors0_wf: "wf_sensors sensors0"
  by (simp add: sensors0_def wf_sensors_def wf_cal_def)

lemma reachable_wf: "sensors_reachable w \<Longrightarrow> wf_sensors (snd w)"
proof (induction rule: sensors_reachable.induct)
  case (r_boot st)
  then show ?case by (simp add: sensors0_wf)
next
  case (r_step w w')
  then show ?case using sensors_step_wf by blast
qed

lemma u8_le_3: "(n :: u8) \<le> 3 \<Longrightarrow> n = 0 \<or> n = 1 \<or> n = 2 \<or> n = 3"
  by (simp add: word_le_nat_alt word_unat_eq_iff) linarith

lemma load_saved_calibration:
  "wf_cal c \<Longrightarrow> settings_load_channel_calibration (settings_save_channel_calibration c st) =
     (Some c, settings_save_channel_calibration c st)"
  by (simp add: settings_load_channel_calibration_def settings_save_channel_calibration_def pf_defs)

lemma restore_one_cal [simp]: "se_cal (restore_one begins st i s) = se_cal s"
  by (simp add: restore_one_def register_pod_def Let_def split: option.split)

lemma fold_restore_cal [simp]: "se_cal (fold (restore_one begins st) is s) = se_cal s"
  by (induction "is" arbitrary: s) auto

lemma scan_cal: "se_cal (snd (snd (scan_ina226 probe as found w))) = se_cal (snd w)"
  by (induction probe as found w rule: scan_ina226.induct) (simp_all add: register_pod_def Let_def)

lemma discover_cal: "se_cal (snd (discover_ina226 probe w)) = se_cal (snd w)"
  unfolding discover_ina226_def case_prod_beta snd_conv by (rule scan_cal)

lemma init_sensors_cal:
  "wf_cal c \<Longrightarrow>
    se_cal (snd (init_sensors probe begins (settings_save_channel_calibration c st, s))) = c"
  by (simp add: init_sensors_def load_saved_calibration discover_cal reinit_sensors_def Let_def)

section \<open>Properties\<close>

text \<open>In every reachable state a snapshot resolves exactly the logical channels below the count, and
  channel \<open>ch\<close> is the \<open>ch\<close>-th channel of the pods taken in registration order; above
  the count every lookup fails and the flat accessors read zero.\<close>

theorem snapshot_lookup:
  assumes "sensors_reachable (st, s)" "driver_ok bl"
  shows "logical_channel_from_snapshot (fst (read_sensors ina k bl now s)) ch =
    (if ch < se_logical_count s
     then Some (flat_channels (map (read_pod ina k bl s) (se_pods s)) ! unat ch) else None)
    \<and> (\<not> ch < se_logical_count s \<longrightarrow> snap_channel_voltage (fst (read_sensors ina k bl now s)) ch = 0
         \<and> snap_channel_current (fst (read_sensors ina k bl now s)) ch = 0
         \<and> snap_channel_power (fst (read_sensors ina k bl now s)) ch = 0)"
  using snapshot_lookup_wf [of s bl ina k now ch] reachable_wf [OF assms(1)] assms(2)
  by (simp add: snap_channel_voltage_def snap_channel_current_def snap_channel_power_def opt_field_def)

theorem snapshot_lookup_witness:
  "logical_channel_from_snapshot (fst (read_sensors (\<lambda>_. (f_one, 0)) (\<lambda>_. \<lparr> ic_volt_ratio = f_one,
     ic_v_offset = 0, ic_i_gain = f_one \<rparr>) id 5
     (snd (discover_sensors (\<lambda>a. a = 0x41) (\<lambda>_. None, sensors0))))) 0 \<noteq> None"
proof -
  let ?w = "discover_sensors (\<lambda>a. a = 0x41) (\<lambda>_. None, sensors0)"
  have "sensors_reachable (fst ?w, snd ?w)"
    using r_step [OF r_boot s_discover] by (simp only: prod.collapse)
  moreover have "0 < se_logical_count (snd ?w)" by code_simp
  ultimately show ?thesis
    using snapshot_lookup [of "fst ?w" "snd ?w" id "\<lambda>_. (f_one, 0)" "\<lambda>_. \<lparr> ic_volt_ratio = f_one,
     ic_v_offset = 0, ic_i_gain = f_one \<rparr>" 5 0] by (simp add: driver_ok_def)
qed

text \<open>After a discovery pod \<open>k\<close> is read from the device it is named after: the device answered the
  probe, and a read sets voltage, current and their product from that device's address.\<close>

theorem discover_routes:
  assumes "wf_sensors (snd w)" "k < length (se_pods (snd (discover_sensors probe w)))"
  shows "let s = snd (discover_sensors probe w); p = se_pods s ! k in
    \<exists>dev. se_devices s ! k = Some dev \<and> probe (dev_addr dev) \<and> ps_name p = ina_name (dev_addr dev) \<and>
      (ps_channels p \<noteq> [] \<longrightarrow>
       (let c = ps_channels (read_pod ina cal bl s p) ! 0;
            v = f_add (f_mul (fst (ina (dev_addr dev))) (ic_volt_ratio (cal k))) (ic_v_offset (cal k));
            i = f_mul (snd (ina (dev_addr dev))) (ic_i_gain (cal k))
        in pc_voltage c = v \<and> pc_current c = i \<and> pc_power c = f_mul v i))"
proof -
  define s0 where "s0 = clear_pods ((snd w)\<lparr> se_devices := replicate 8 None \<rparr>)"
  have "wf_sensors s0" using assms(1) by (simp add: s0_def clear_pods_def wf_sensors_def)
  moreover have "se_pods s0 = []" by (simp add: s0_def clear_pods_def)
  ultimately have r: "let r = snd (snd (scan_ina226 probe as 0 (settings_clear_discovered (fst w), s0)))
      in length (se_pods r) \<le> INA226_COUNT \<and> (\<forall>k < length (se_pods r). routed probe r k)" for as
    by (intro scan_routed) auto
  define s where "s = snd (discover_sensors probe w)"
  have "length (se_pods s) \<le> INA226_COUNT \<and> (\<forall>k < length (se_pods s). routed probe s k)"
    using r unfolding s_def discover_sensors_def discover_ina226_def Let_def s0_def case_prod_beta snd_conv
    by blast
  then have k4: "k < 4" and rk: "routed probe s k"
    using assms(2) unfolding s_def [symmetric] by auto
  have "unat (of_nat k :: u8) = k" using k4 by (simp add: unat_of_nat)
  then show ?thesis using rk k4 unfolding s_def [symmetric]
    by (auto simp: routed_def read_pod_def pod_ina226_read_def upd_first_def Let_def
        split: option.splits)
qed

theorem discover_routes_witness:
  "\<exists>dev. se_devices (snd (discover_sensors (\<lambda>a. a = 0x44) (\<lambda>_. None, sensors0))) ! 0 = Some dev \<and>
     dev_addr dev = 0x44"
proof -
  have "(0::nat) < length (se_pods (snd (discover_sensors (\<lambda>a. a = 0x44) (\<lambda>_. None, sensors0))))"
    by code_simp
  then show ?thesis
    using discover_routes [of "(\<lambda>_. None, sensors0)" 0 "\<lambda>a. a = 0x44" "\<lambda>_. (0, 0)"
        "\<lambda>_. \<lparr> ic_volt_ratio = 0, ic_v_offset = 0, ic_i_gain = 0 \<rparr>" id]
    by (auto simp: sensors0_wf Let_def)
qed

text \<open>Restoring the cached sensors with the first one missing misroutes the second: the only pod carries
  the name of the device that started, but every read of it takes the slot of the dead device and
  reports zero volts, amperes and watts, whatever the live device measures.\<close>

theorem restore_misroutes:
  assumes "st ''chan_cal'' = None" "settings_load_discovered_ina_count st = 2"
    and "settings_load_discovered_ina_addr 0 st = Some a" "\<not> begins a"
    and "settings_load_discovered_ina_addr 1 st = Some b" "begins b"
  shows "let s = snd (init_sensors probe begins (st, sensors0));
             r = fst (read_sensors ina cal bl now s) in
    map ps_name (se_pods s) = [ina_name b] \<and> se_devices s ! 1 \<noteq> None \<and>
    snap_channel_voltage r 0 = 0 \<and> snap_channel_current r 0 = 0 \<and> snap_channel_power r 0 = 0"
proof -
  have up: "[0..<2] = [0::nat, 1]" by (simp add: upt_rec)
  show ?thesis
    using assms
    unfolding init_sensors_def settings_load_channel_calibration_def pf_isKey_def Let_def
    by (simp add: up restore_one_def register_pod_def sensors0_def reinit_sensors_def
        read_sensors_def read_pod_def pod_ina226_read_def upd_first_def Let_def
        snap_channel_voltage_def snap_channel_current_def snap_channel_power_def
        logical_channel_from_snapshot_def opt_field_def)
qed

theorem restore_misroutes_witness:
  "map ps_name (se_pods (snd (init_sensors (\<lambda>_. True) (\<lambda>a. a \<noteq> 0x40)
     (settings_save_discovered_ina_count 2 (settings_save_discovered_ina_addr 1 0x41
        (settings_save_discovered_ina_addr 0 0x40 (\<lambda>_. None))), sensors0)))) = [ina_name 0x41]"
  using restore_misroutes [of "settings_save_discovered_ina_count 2 (settings_save_discovered_ina_addr 1 0x41
        (settings_save_discovered_ina_addr 0 0x40 (\<lambda>_. None)))" "0x40" "\<lambda>a. a \<noteq> 0x40" "0x41" "\<lambda>_. True"]
  by (simp add: settings_save_discovered_ina_count_def settings_load_discovered_ina_count_def
      settings_save_discovered_ina_addr_def settings_load_discovered_ina_addr_def load_key_u8_def
      pf_defs key_idx_def dec.simps digit_char_def Let_def)

text \<open>C31: A calibration written through the API survives a reboot: from the store it leaves, the boot of a
  fresh firmware loads exactly the calibration in use before the power loss.\<close>

theorem calibration_survives_reboot:
  assumes "wf_sensors s" "unat ch < MAX_LOGICAL_CHANNELS" "ty \<le> 3"
  shows "let (st', s') = sensor_set_calibration ch ty v (st, s) in
    se_cal (snd (init_sensors probe begins (st', sensors0))) = se_cal s'"
proof -
  let ?w = "sensor_set_calibration ch ty v (st, s)"
  have t: "ty = 0 \<or> ty = 1 \<or> ty = 2 \<or> ty = 3" using assms(3) by (rule u8_le_3)
  then have st: "fst ?w = settings_save_channel_calibration (se_cal (snd ?w)) st"
    using assms(2) by (auto simp: sensor_set_calibration_def Let_def)
  have "wf_cal (se_cal (snd ?w))"
    using calibration_ops_wf(1) [of "(st, s)" ch ty v] assms(1) by (simp add: wf_sensors_def)
  then show ?thesis
    using init_sensors_cal [of "se_cal (snd ?w)" probe begins st sensors0] st
    by (simp add: case_prod_beta)
qed

theorem calibration_survives_reboot_witness:
  "se_cal (snd (init_sensors (\<lambda>_. False) (\<lambda>_. False)
     (fst (sensor_set_calibration 3 1 0x40000000 (\<lambda>_. None, sensors0)), sensors0))) =
   se_cal (snd (sensor_set_calibration 3 1 0x40000000 (\<lambda>_. None, sensors0)))"
  using calibration_survives_reboot [of sensors0 3 1 "0x40000000" "\<lambda>_. None" "\<lambda>_. False" "\<lambda>_. False"]
  by (simp add: sensors0_wf case_prod_beta)

end
