(* ===== verification/Pcf8574.thy ===== *)
theory Pcf8574
  imports Prelude
begin

text \<open>
  \<open>pcf8574at.cpp\<close>, the I2C output expander that drives relays. The state holds the driver's
  shadow byte and, beside it, the byte the chip outputs; a bus transaction takes the
  next acknowledge from \<open>pcf_acks\<close> (an empty list acknowledges), and a refused one leaves the
  chip's outputs alone. The invariant is that the shadow is what the chip outputs.
\<close>

record pcf =
  pcf_addr :: u8
  pcf_inited :: bool
  pcf_shadow :: u8
  pcf_out :: u8
  pcf_acks :: "bool list"

text \<open>Power-on: every output high, driver not initialised.\<close>

definition pcf0 :: pcf where
  "pcf0 = \<lparr> pcf_addr = 0x3F, pcf_inited = False, pcf_shadow = 0, pcf_out = 0xFF, pcf_acks = [] \<rparr>"

text \<open>\<open>beginTransmission\<close>, \<open>write\<close>, \<open>endTransmission\<close>: the error code is zero on acknowledge.\<close>

definition bus_write :: "u8 \<Rightarrow> pcf \<Rightarrow> bool \<times> pcf" where
  "bus_write v p = (case pcf_acks p of
      [] \<Rightarrow> (True, p\<lparr> pcf_out := v \<rparr>)
    | a # as \<Rightarrow> (a, p\<lparr> pcf_acks := as, pcf_out := (if a then v else pcf_out p) \<rparr>))"

definition pcf8574at_init :: "u8 \<Rightarrow> pcf \<Rightarrow> bool \<times> pcf" where
  "pcf8574at_init addr p =
    (let (ok, p1) = bus_write 0 (p\<lparr> pcf_addr := addr, pcf_shadow := 0 \<rparr>) in
     (ok, p1\<lparr> pcf_inited := ok \<rparr>))"

definition pcf8574at_write_byte :: "u8 \<Rightarrow> pcf \<Rightarrow> bool \<times> pcf" where
  "pcf8574at_write_byte v p =
    (if \<not> pcf_inited p then (False, p)
     else let (ok, p1) = bus_write v p in
       if \<not> ok then (False, p1) else (True, p1\<lparr> pcf_shadow := v \<rparr>))"

definition pcf8574at_set_pin :: "u8 \<Rightarrow> bool \<Rightarrow> pcf \<Rightarrow> bool \<times> pcf" where
  "pcf8574at_set_pin pin state p =
    (if \<not> pcf_inited p \<or> 7 < pin then (False, p)
     else let bitp = push_bit (unat pin) (1 :: u8);
              next_byte = (if state then pcf_shadow p OR bitp else pcf_shadow p AND NOT bitp)
          in pcf8574at_write_byte next_byte p)"

text \<open>\<open>rx\<close> is the byte the bus returns, if any.\<close>

definition pcf8574at_read :: "u8 option \<Rightarrow> pcf \<Rightarrow> u8" where
  "pcf8574at_read rx p = (if \<not> pcf_inited p then 0xFF else case rx of Some b \<Rightarrow> b | None \<Rightarrow> 0xFF)"

definition wf_pcf :: "pcf \<Rightarrow> bool" where
  "wf_pcf p = (pcf_inited p \<longrightarrow> pcf_shadow p = pcf_out p)"

lemma pcf8574at_init_wf: "wf_pcf (snd (pcf8574at_init addr p))"
  by (auto simp: pcf8574at_init_def bus_write_def wf_pcf_def Let_def split: list.split)

lemma pcf8574at_write_byte_wf: "wf_pcf p \<Longrightarrow> wf_pcf (snd (pcf8574at_write_byte v p))"
  by (auto simp: pcf8574at_write_byte_def bus_write_def wf_pcf_def split: list.split)

lemma pcf8574at_set_pin_wf: "wf_pcf p \<Longrightarrow> wf_pcf (snd (pcf8574at_set_pin pin b p))"
  by (auto simp: pcf8574at_set_pin_def Let_def intro: pcf8574at_write_byte_wf)

text \<open>The bit arithmetic of the read-modify-write.\<close>

lemma pin_lt_8: "\<not> 7 < (pin :: u8) \<Longrightarrow> unat pin < 8"
  by (simp add: word_less_nat_alt)

lemma bit_next_byte:
  assumes "\<not> 7 < (pin :: u8)" "q < 8"
  shows "bit (if b then s OR push_bit (unat pin) (1 :: u8) else s AND NOT (push_bit (unat pin) 1)) q =
    (if q = unat pin then b else bit s q)"
  using pin_lt_8 [OF assms(1)] assms(2) by (auto simp: bit_simps)

lemma write_byte_cases:
  assumes "pcf_inited p"
  obtains "pcf8574at_write_byte v p = (True, p\<lparr> pcf_acks := tl (pcf_acks p), pcf_out := v, pcf_shadow := v \<rparr>)"
  | "pcf8574at_write_byte v p = (False, p\<lparr> pcf_acks := tl (pcf_acks p) \<rparr>)"
proof (cases "pcf_acks p")
  case Nil
  then have "p\<lparr> pcf_acks := tl (pcf_acks p) \<rparr> = p" by simp
  then show ?thesis using Nil assms that(1) by (simp add: pcf8574at_write_byte_def bus_write_def)
next
  case (Cons a as)
  show ?thesis
  proof (cases a)
    case True
    then show ?thesis using Cons assms that(1) by (simp add: pcf8574at_write_byte_def bus_write_def)
  next
    case False
    then show ?thesis using Cons assms that(2) by (simp add: pcf8574at_write_byte_def bus_write_def)
  qed
qed

text \<open>C35: Setting one expander pin moves that pin only: on success the chip outputs the commanded level there,
  on a refused transfer, an unknown pin or a driver not initialised the chip keeps every output,
  and in all cases the other seven pins keep theirs and the shadow stays equal to the outputs.\<close>

theorem pcf_set_pin_isolated:
  assumes "wf_pcf p" "q < 8"
  shows "let (ok, p') = pcf8574at_set_pin pin b p in
    (ok \<longrightarrow> bit (pcf_out p') (unat pin) = b) \<and>
    (\<not> ok \<longrightarrow> pcf_out p' = pcf_out p \<and> pcf_shadow p' = pcf_shadow p) \<and>
    (q \<noteq> unat pin \<longrightarrow> bit (pcf_out p') q = bit (pcf_out p) q) \<and> wf_pcf p'"
proof (cases "\<not> pcf_inited p \<or> 7 < pin")
  case True
  then show ?thesis using assms by (auto simp: pcf8574at_set_pin_def)
next
  case False
  define nb where "nb = (if b then pcf_shadow p OR push_bit (unat pin) (1 :: u8)
    else pcf_shadow p AND NOT (push_bit (unat pin) 1))"
  have bits: "\<And>k. k < 8 \<Longrightarrow> bit nb k = (if k = unat pin then b else bit (pcf_out p) k)"
    using bit_next_byte [of pin _ b "pcf_shadow p"] False assms(1) by (simp add: nb_def wf_pcf_def)
  have e: "pcf8574at_set_pin pin b p = pcf8574at_write_byte nb p"
    using False by (simp add: pcf8574at_set_pin_def nb_def)
  have "pcf_inited p" using False by simp
  then show ?thesis
    using bits assms pin_lt_8 [of pin] False unfolding e
    by (cases rule: write_byte_cases [where v = nb]) (simp_all add: wf_pcf_def)
qed

theorem pcf_set_pin_isolated_witness:
  "wf_pcf (snd (pcf8574at_set_pin 3 True (snd (pcf8574at_init 0x3F pcf0))))"
  using pcf_set_pin_isolated [of "snd (pcf8574at_init 0x3F pcf0)" 0 3 True]
  by (simp add: pcf8574at_init_wf case_prod_beta)

end
