(* ===== verification/Counters.thy ===== *)
theory Counters
  imports Sensors
begin

text \<open>
  \<open>coulomb_counter.cpp\<close> and \<open>energy_counter.cpp\<close>: the per-channel integrals of current (mAh)
  and power (Wh), restored from NVS at boot and persisted every five minutes. The two
  counters keep the same state, so one record serves both. \<open>millis()\<close> is read twice by a persisting
  update, hence two clock arguments. The virtual channel sources of
  \<open>connectivity_manager.cpp\<close> that the energy counter reads are here too.
\<close>

record counter =
  cn_acc :: "f32 list"
  cn_last_persist_ms :: u32

definition counter0 :: counter where
  "counter0 = \<lparr> cn_acc = replicate 16 0, cn_last_persist_ms = 0 \<rparr>"

definition wf_counter :: "counter \<Rightarrow> bool" where
  "wf_counter c = (length (cn_acc c) = MAX_LOGICAL_CHANNELS)"

text \<open>\<open>lcount\<close>: the logical channel count, at most 16.\<close>

definition lcount :: "sensors \<Rightarrow> nat" where
  "lcount s = (if MAX_LOGICAL_CHANNELS < unat (se_logical_count s) then MAX_LOGICAL_CHANNELS
     else unat (se_logical_count s))"

text \<open>The three loops: load the first \<open>n\<close> channels, add to them, save them.\<close>

definition load_acc :: "(u8 \<Rightarrow> kv \<Rightarrow> f32) \<Rightarrow> kv \<Rightarrow> nat \<Rightarrow> f32 list \<Rightarrow> f32 list" where
  "load_acc ld st n xs = map (\<lambda>i. if i < n then ld (of_nat i) st else xs ! i) [0..<length xs]"

definition add_acc :: "(nat \<Rightarrow> f32) \<Rightarrow> nat \<Rightarrow> f32 list \<Rightarrow> f32 list" where
  "add_acc inc n xs = map (\<lambda>i. if i < n then f_add (xs ! i) (inc i) else xs ! i) [0..<length xs]"

definition save_acc :: "(u8 \<Rightarrow> f32 \<Rightarrow> kv \<Rightarrow> kv) \<Rightarrow> nat \<Rightarrow> f32 list \<Rightarrow> kv \<Rightarrow> kv" where
  "save_acc sv n xs st = fold (\<lambda>i. sv (of_nat i) (xs ! i)) [0..<n] st"

definition persist_due :: "u32 \<Rightarrow> counter \<Rightarrow> bool" where
  "persist_due now c = (300000 \<le> elapsed now (cn_last_persist_ms c))"

section \<open>Coulomb counter\<close>

definition init_coulomb_counter :: "kv \<Rightarrow> sensors \<Rightarrow> u32 \<Rightarrow> counter \<Rightarrow> counter" where
  "init_coulomb_counter st s now c =
    \<lparr> cn_acc = load_acc settings_load_coulomb_mAh st (lcount s) (cn_acc c), cn_last_persist_ms = now \<rparr>"

definition coulomb_inc :: "sensors \<Rightarrow> f32 \<Rightarrow> nat \<Rightarrow> f32" where
  "coulomb_inc s dt i =
    f_mul (f_div (f_mul (get_channel_current s (of_nat i)) dt) (f_lit 3600 1)) (f_lit 1000 1)"

definition update_coulomb_counter ::
  "sensors \<Rightarrow> f32 \<Rightarrow> u32 \<Rightarrow> u32 \<Rightarrow> kv \<times> counter \<Rightarrow> kv \<times> counter" where
  "update_coulomb_counter s dt now now' w =
    (let n = lcount s; c = (snd w)\<lparr> cn_acc := add_acc (coulomb_inc s dt) n (cn_acc (snd w)) \<rparr> in
     if persist_due now c
     then (save_acc settings_save_coulomb_mAh n (cn_acc c) (fst w), c\<lparr> cn_last_persist_ms := now' \<rparr>)
     else (fst w, c))"

definition get_coulomb_mAh :: "counter \<Rightarrow> u8 \<Rightarrow> f32" where
  "get_coulomb_mAh c ch = (if MAX_LOGICAL_CHANNELS \<le> unat ch then 0 else cn_acc c ! unat ch)"

definition reset_coulomb_counter :: "u8 \<Rightarrow> kv \<times> counter \<Rightarrow> kv \<times> counter" where
  "reset_coulomb_counter ch w =
    (if MAX_LOGICAL_CHANNELS \<le> unat ch then w
     else (settings_save_coulomb_mAh ch 0 (fst w), (snd w)\<lparr> cn_acc := (cn_acc (snd w))[unat ch := 0] \<rparr>))"

section \<open>Energy counter\<close>

definition get_sensor_voltage :: "u8 \<Rightarrow> u8 \<Rightarrow> sensors \<Rightarrow> f32" where
  "get_sensor_voltage src idx s =
    (if src = 1 \<or> src = 2 then get_channel_voltage s (if idx < 4 then idx else 0)
     else if src = 3 then get_channel_voltage s 3
     else 0)"

definition get_sensor_current :: "u8 \<Rightarrow> u8 \<Rightarrow> sensors \<Rightarrow> f32" where
  "get_sensor_current src idx s =
    (if src = 1 \<or> src = 2 then get_channel_current s (if idx < 4 then idx else 0)
     else if src = 3 then get_channel_current s 3
     else 0)"

definition get_sensor_power :: "u8 \<Rightarrow> u8 \<Rightarrow> sensors \<Rightarrow> f32" where
  "get_sensor_power src idx s = (if src = 3 then get_channel_power s 3 else 0)"

definition energy_power :: "kv \<Rightarrow> sensors \<Rightarrow> nat \<Rightarrow> f32" where
  "energy_power st s i =
    (case settings_load_virtual_channel (of_nat i) st of
       None \<Rightarrow> get_channel_power s (of_nat i)
     | Some vc \<Rightarrow>
         if 0 < vc_voltage_src vc \<or> 0 < vc_current_src vc
         then f_mul (get_sensor_voltage (vc_voltage_src vc) (vc_voltage_idx vc) s)
                    (get_sensor_current (vc_current_src vc) (vc_current_idx vc) s)
         else get_channel_power s (of_nat i))"

definition init_energy_counter :: "kv \<Rightarrow> sensors \<Rightarrow> u32 \<Rightarrow> counter \<Rightarrow> counter" where
  "init_energy_counter st s now c =
    \<lparr> cn_acc = load_acc settings_load_energy_Wh st (lcount s) (cn_acc c), cn_last_persist_ms = now \<rparr>"

definition energy_inc :: "kv \<Rightarrow> sensors \<Rightarrow> f32 \<Rightarrow> nat \<Rightarrow> f32" where
  "energy_inc st s dt i = f_div (f_mul (energy_power st s i) dt) (f_lit 3600 1)"

definition update_energy_counter ::
  "sensors \<Rightarrow> f32 \<Rightarrow> u32 \<Rightarrow> u32 \<Rightarrow> kv \<times> counter \<Rightarrow> kv \<times> counter" where
  "update_energy_counter s dt now now' w =
    (let n = lcount s;
         c = (snd w)\<lparr> cn_acc := add_acc (energy_inc (fst w) s dt) n (cn_acc (snd w)) \<rparr> in
     if persist_due now c
     then (save_acc settings_save_energy_Wh n (cn_acc c) (fst w), c\<lparr> cn_last_persist_ms := now' \<rparr>)
     else (fst w, c))"

definition get_energy_Wh :: "counter \<Rightarrow> u8 \<Rightarrow> f32" where
  "get_energy_Wh c ch = (if MAX_LOGICAL_CHANNELS \<le> unat ch then 0 else cn_acc c ! unat ch)"

definition reset_energy_counter :: "u8 \<Rightarrow> kv \<times> counter \<Rightarrow> kv \<times> counter" where
  "reset_energy_counter ch w =
    (if MAX_LOGICAL_CHANNELS \<le> unat ch then w
     else (settings_save_energy_Wh ch 0 (fst w), (snd w)\<lparr> cn_acc := (cn_acc (snd w))[unat ch := 0] \<rparr>))"

section \<open>The interface both counters implement\<close>

text \<open>An accumulating store: one float cell per channel, saved by index.\<close>

locale persisted_counter =
  fixes ld :: "u8 \<Rightarrow> kv \<Rightarrow> f32" and sv :: "u8 \<Rightarrow> f32 \<Rightarrow> kv \<Rightarrow> kv"
  assumes load_saved: "ld i (sv i v st) = v"
    and load_other: "i \<noteq> j \<Longrightarrow> ld i (sv j v st) = ld i st"
begin

lemma load_save_acc_aux:
  assumes "\<forall>j \<in> set js. j < 256" "distinct js" "i < 256"
  shows "ld (of_nat i) (fold (\<lambda>j. sv (of_nat j) (xs ! j)) js st) =
    (if i \<in> set js then xs ! i else ld (of_nat i) st)"
  using assms
proof (induction js arbitrary: st)
  case (Cons j js)
  have "(of_nat i :: u8) \<noteq> of_nat j" if "i \<noteq> j"
    using of_nat_u8_inj [of i j] Cons.prems that by auto
  then show ?case using Cons by (auto simp: load_saved load_other)
qed simp

lemma load_save_acc:
  "\<lbrakk> n \<le> 256; i < n \<rbrakk> \<Longrightarrow> ld (of_nat i) (save_acc sv n xs st) = xs ! i"
  unfolding save_acc_def by (subst load_save_acc_aux) auto

lemma reload_acc:
  assumes "n \<le> length xs" "n \<le> 256" "length ys = length xs"
  shows "take n (load_acc ld (save_acc sv n xs st) n ys) = take n xs"
  using assms by (intro nth_equalityI) (auto simp: load_acc_def load_save_acc)

end

interpretation coulomb_store: persisted_counter settings_load_coulomb_mAh settings_save_coulomb_mAh
  by unfold_locales
     (auto simp: settings_load_coulomb_mAh_def settings_save_coulomb_mAh_def pf_defs word_unat_eq_iff)

interpretation energy_store: persisted_counter settings_load_energy_Wh settings_save_energy_Wh
  by unfold_locales
     (auto simp: settings_load_energy_Wh_def settings_save_energy_Wh_def pf_defs word_unat_eq_iff)

section \<open>Properties\<close>

lemma length_add_acc [simp]: "length (add_acc inc n xs) = length xs"
  by (simp add: add_acc_def)

lemma lcount_le: "lcount s \<le> 16"
  by (simp add: lcount_def)

lemma f_sign_3600 [simp]: "\<not> f_sign (f_lit 3600 1)"
  by (simp add: f_eval)

text \<open>A power loss right after a persisting tick costs nothing: when five minutes have passed, the
  update stores every channel's total, and a boot from that store resumes with the same totals of
  charge and of energy.\<close>

theorem counters_persist_roundtrip:
  assumes "wf_counter c" "wf_counter fresh" "300000 \<le> elapsed now (cn_last_persist_ms c)"
  shows "(let (st', c') = update_coulomb_counter s dt now now' (st, c) in
      take (lcount s) (cn_acc (init_coulomb_counter st' s t fresh)) = take (lcount s) (cn_acc c')) \<and>
    (let (st', c') = update_energy_counter s dt now now' (st, c) in
      take (lcount s) (cn_acc (init_energy_counter st' s t fresh)) = take (lcount s) (cn_acc c'))"
  using assms lcount_le [of s]
  by (simp_all add: update_coulomb_counter_def update_energy_counter_def init_coulomb_counter_def
      init_energy_counter_def persist_due_def wf_counter_def Let_def
      coulomb_store.reload_acc energy_store.reload_acc)

theorem counters_persist_roundtrip_witness:
  "let (st', c') = update_coulomb_counter sensors0 f_one 300000 300000 (\<lambda>_. None, counter0) in
     take (lcount sensors0) (cn_acc (init_coulomb_counter st' sensors0 300000 counter0)) =
     take (lcount sensors0) (cn_acc c')"
  using counters_persist_roundtrip [of counter0 counter0 300000 sensors0 f_one 300000 "\<lambda>_. None" 300000]
  by (simp add: wf_counter_def counter0_def elapsed_def)


text \<open>A one-channel sensor state with a given power on channel 0.\<close>

definition one_pod :: "f32 \<Rightarrow> sensors" where
  "one_pod p = (let s = snd (register_pod POD_INA226 ''x'' 1 sensors0) in
     s\<lparr> se_pods := map (upd_first (\<lambda>c. c\<lparr> pc_power := p \<rparr>)) (se_pods s) \<rparr>)"

lemma dec_0: "dec 0 = ''0''"
  by code_simp

lemma one_pod_power: "st ''vc_0'' = None \<Longrightarrow> energy_power st (one_pod p) 0 = p"
  by (simp add: one_pod_def register_pod_def sensors0_def upd_first_def energy_power_def
      settings_load_virtual_channel_def load_exact_def pf_defs get_channel_power_def
      sensor_get_logical_channel_def opt_field_def dec_0 Let_def)

lemma one_pod_lcount: "lcount (one_pod p) = 1"
  by (simp add: one_pod_def register_pod_def sensors0_def lcount_def Let_def)


text \<open>The energy total stalls: from 8192 Wh on, a steady load of one watt sampled once per second adds
  nothing any more, because one watt-second is below half the spacing of a \<open>float\<close> there.\<close>

theorem energy_total_stalls:
  assumes "st ''vc_0'' = None"
  shows "((\<lambda>w. update_energy_counter (one_pod f_one) f_one now now (st, snd w)) ^^ n)
     (st, \<lparr> cn_acc = f_of_int 8192 # replicate 15 0, cn_last_persist_ms = now \<rparr>) =
     (st, \<lparr> cn_acc = f_of_int 8192 # replicate 15 0, cn_last_persist_ms = now \<rparr>)"
proof (induction n)
  case (Suc n)
  have inc: "f_add (f_of_int 8192) (energy_inc st (one_pod f_one) f_one 0) = f_of_int 8192"
    using assms by (simp add: energy_inc_def one_pod_power f_one_def f_eval)
  have "add_acc (energy_inc st (one_pod f_one) f_one) 1 (f_of_int 8192 # replicate 15 0) =
      f_of_int 8192 # replicate 15 0"
    by (rule nth_equalityI) (use inc in \<open>simp_all add: add_acc_def nth_Cons'\<close>)
  then show ?case using Suc
    by (simp add: update_energy_counter_def one_pod_lcount persist_due_def Let_def)
qed simp

theorem energy_total_stalls_witness:
  "snd (update_energy_counter (one_pod f_one) f_one 7 7
     (\<lambda>_. None, \<lparr> cn_acc = f_of_int 8192 # replicate 15 0, cn_last_persist_ms = 7 \<rparr>)) =
   \<lparr> cn_acc = f_of_int 8192 # replicate 15 0, cn_last_persist_ms = 7 \<rparr>"
  using energy_total_stalls [of "\<lambda>_. None" 1 7] by simp

end
