(* ===== verification/Switches.thy ===== *)
theory Switches
  imports Sensors Pcf8574
begin

text \<open>
  \<open>switch_controller.cpp\<close>: the switches, their rules, the automatic trip/reset engine, pulses and
  the boot sequence. The world the component writes is the record \<open>sw\<close>: its NVS namespace,
  the runtime mirror \<open>switch_states\<close>, the auto flag, the expander, the GPIO output levels and
  the states published to the remote table, latest first. A board gives the legal GPIO range, the denied
  pins and the relay pins. The clock, the coulomb totals and the local time (\<open>None\<close> while the epoch is
  not trusted, else hour and weekday) are arguments. Log output and \<open>pinMode\<close> are left out.
\<close>

section \<open>Boards and state\<close>

record board =
  bd_gpio_max :: int
  bd_bad_pins :: "int list"
  bd_relay_pins :: "u8 list"

definition esp32c3 :: board where
  "esp32c3 = \<lparr> bd_gpio_max = 21, bd_bad_pins = [0, 2, 8, 9, 18, 19, 20, 21], bd_relay_pins = [1, 3, 4, 7] \<rparr>"

definition esp32dev :: board where
  "esp32dev = \<lparr> bd_gpio_max = 39, bd_bad_pins = [0, 1, 3, 6, 7, 8, 9, 10, 11, 12, 15],
     bd_relay_pins = [25, 26, 27, 14] \<rparr>"

definition esp32s3 :: board where
  "esp32s3 = \<lparr> bd_gpio_max = 48,
     bd_bad_pins = [0, 3, 19, 20, 26, 27, 28, 29, 30, 31, 32, 33, 34, 35, 36, 37, 45, 46],
     bd_relay_pins = [10, 11, 12, 13] \<rparr>"

record SwitchState =
  ss_energized :: bool
  ss_was_energized :: bool
  ss_condition_start_ms :: u32
  ss_condition_active :: bool
  ss_pulse_active :: bool
  ss_pulse_off_at_ms :: u32

definition ss0 :: SwitchState where
  "ss0 = \<lparr> ss_energized = False, ss_was_energized = False, ss_condition_start_ms = 0,
     ss_condition_active = False, ss_pulse_active = False, ss_pulse_off_at_ms = 0 \<rparr>"

abbreviation MAX_SWITCHES :: nat where "MAX_SWITCHES \<equiv> 8"
abbreviation SW_RELAY :: u8 where "SW_RELAY \<equiv> 0"
abbreviation SW_EXPANDER :: u8 where "SW_EXPANDER \<equiv> 4"

record sw =
  sw_kv :: kv
  sw_states :: "SwitchState list"
  sw_auto :: bool
  sw_pcf :: pcf
  sw_gpio :: "u8 \<Rightarrow> bool"
  sw_pub :: "(u8 \<times> bool) list"

definition wf_sw :: "sw \<Rightarrow> bool" where
  "wf_sw w = (length (sw_states w) = MAX_SWITCHES)"

definition upd_state :: "nat \<Rightarrow> (SwitchState \<Rightarrow> SwitchState) \<Rightarrow> sw \<Rightarrow> sw" where
  "upd_state i f w = w\<lparr> sw_states := (sw_states w)[i := f (sw_states w ! i)] \<rparr>"

definition upd_kv :: "(kv \<Rightarrow> kv) \<Rightarrow> sw \<Rightarrow> sw" where
  "upd_kv f w = w\<lparr> sw_kv := f (sw_kv w) \<rparr>"

definition publish_switch_state :: "u8 \<Rightarrow> bool \<Rightarrow> sw \<Rightarrow> sw" where
  "publish_switch_state i b w = w\<lparr> sw_pub := (i, b) # sw_pub w \<rparr>"

section \<open>Driving a pin\<close>

text \<open>The pin goes through an \<open>int8_t\<close> parameter.\<close>

definition gpio_in_range :: "board \<Rightarrow> i8 \<Rightarrow> bool" where
  "gpio_in_range b pin =
    (if sint pin < 0 \<or> bd_gpio_max b < sint pin then False else \<not> list_ex (\<lambda>p. sint pin = p) (bd_bad_pins b))"

definition switch_gpio_allowed :: "board \<Rightarrow> i8 \<Rightarrow> bool" where
  "switch_gpio_allowed b pin = gpio_in_range b pin"

definition pin_level :: "SwitchChannel \<Rightarrow> bool \<Rightarrow> bool" where
  "pin_level ch energized = (if ch_active_high ch then energized else \<not> energized)"

definition set_switch_pin :: "board \<Rightarrow> SwitchChannel \<Rightarrow> bool \<Rightarrow> sw \<Rightarrow> sw" where
  "set_switch_pin b ch energized w =
    (if ch_type ch = SW_EXPANDER then
       (if 7 < ch_gpio_pin ch then w
        else w\<lparr> sw_pcf := snd (pcf8574at_set_pin (ch_gpio_pin ch) (pin_level ch energized) (sw_pcf w)) \<rparr>)
     else if \<not> gpio_in_range b (ch_gpio_pin ch) then w
     else w\<lparr> sw_gpio := (sw_gpio w)(ch_gpio_pin ch := pin_level ch energized) \<rparr>)"

section \<open>Conditions\<close>

definition ELEC_EPS :: f32 where "ELEC_EPS = f_lit 1 1000000"
definition SOC_EPS :: f32 where "SOC_EPS = f_lit 1 1000"
definition POWER_EPS :: f32 where "POWER_EPS = f_lit 1 1000"

abbreviation SCK_DISABLED :: u8 where "SCK_DISABLED \<equiv> 0"
abbreviation SCK_OVERCURRENT :: u8 where "SCK_OVERCURRENT \<equiv> 1"
abbreviation SCK_UNDERVOLTAGE :: u8 where "SCK_UNDERVOLTAGE \<equiv> 2"
abbreviation SCK_SOC_LOW :: u8 where "SCK_SOC_LOW \<equiv> 3"
abbreviation SCK_SOC_HIGH :: u8 where "SCK_SOC_HIGH \<equiv> 4"
abbreviation SCK_CHANNEL_ABOVE :: u8 where "SCK_CHANNEL_ABOVE \<equiv> 5"
abbreviation SCK_CHANNEL_BELOW :: u8 where "SCK_CHANNEL_BELOW \<equiv> 6"
abbreviation SCK_SCHEDULE_WINDOW :: u8 where "SCK_SCHEDULE_WINDOW \<equiv> 7"
abbreviation SCO_GT :: u8 where "SCO_GT \<equiv> 0"
abbreviation SCO_LT :: u8 where "SCO_LT \<equiv> 1"
abbreviation SCO_GTE :: u8 where "SCO_GTE \<equiv> 2"
abbreviation SCO_LTE :: u8 where "SCO_LTE \<equiv> 3"
abbreviation SCO_EQ :: u8 where "SCO_EQ \<equiv> 4"
abbreviation SL_AND :: u8 where "SL_AND \<equiv> 1"

definition f_100 :: f32 where "f_100 = f_lit 100 1"

definition compute_soc :: "kv \<Rightarrow> (u8 \<Rightarrow> f32) \<Rightarrow> u8 \<Rightarrow> f32 option" where
  "compute_soc st coul ch =
    (case settings_load_battery ch st of None \<Rightarrow> None
     | Some bat \<Rightarrow>
        if f_le (bc_capacity_mAh bat) ELEC_EPS then None
        else let soc = f_add (bc_initial_soc_pct bat) (f_mul (f_div (coul ch) (bc_capacity_mAh bat)) f_100);
                 soc1 = (if f_lt soc 0 then 0 else soc)
             in Some (if f_gt soc1 f_100 then f_100 else soc1))"

definition read_condition_value ::
  "kv \<Rightarrow> (u8 \<Rightarrow> f32) \<Rightarrow> SwitchCondition \<Rightarrow> u8 \<Rightarrow> SensorSnapshot \<Rightarrow> f32 option" where
  "read_condition_value st coul c rule_channel snap =
    (if cd_kind c = SCK_DISABLED then None
     else if cd_kind c = SCK_SOC_LOW \<or> cd_kind c = SCK_SOC_HIGH then compute_soc st coul rule_channel
     else if cd_kind c = SCK_SCHEDULE_WINDOW then None
     else let ch = (if 0 \<le> sint (cd_ref_channel c) then cd_ref_channel c else rule_channel) in
       if sn_total_logical_channels snap \<le> ch then None
       else case logical_channel_from_snapshot snap ch of None \<Rightarrow> None
         | Some pc \<Rightarrow>
            if cd_kind c = SCK_OVERCURRENT then Some (pc_current pc)
            else if cd_kind c = SCK_UNDERVOLTAGE then Some (pc_voltage pc)
            else if cd_kind c = SCK_CHANNEL_ABOVE \<or> cd_kind c = SCK_CHANNEL_BELOW then Some (pc_current pc)
            else None)"

datatype EvalDir = DIR_RISING | DIR_FALLING

text \<open>The trip and reset thresholds with the hysteresis applied.\<close>

definition trip_reset :: "SwitchCondition \<Rightarrow> f32 \<Rightarrow> f32 \<times> f32" where
  "trip_reset c hyst = (let v = cd_value c; k = cd_kind c in
     if f_gt hyst 0 then
       (if k = SCK_OVERCURRENT \<or> k = SCK_CHANNEL_ABOVE \<or> k = SCK_SOC_HIGH then (f_add v hyst, v)
        else if k = SCK_UNDERVOLTAGE \<or> k = SCK_CHANNEL_BELOW \<or> k = SCK_SOC_LOW then (v, f_add v hyst)
        else (v, v))
     else (v, v))"

definition eval_condition :: "SwitchCondition \<Rightarrow> f32 \<Rightarrow> EvalDir \<Rightarrow> f32 \<Rightarrow> bool" where
  "eval_condition c reading dir hyst =
    (let (trip_v, reset_v) = trip_reset c hyst in
     if cd_op c = SCO_GT then
       (if dir = DIR_RISING then f_gt reading (f_add trip_v ELEC_EPS)
        else f_lt reading (f_sub reset_v ELEC_EPS))
     else if cd_op c = SCO_GTE then
       (if dir = DIR_RISING then f_ge reading (f_sub trip_v ELEC_EPS)
        else f_le reading (f_add reset_v ELEC_EPS))
     else if cd_op c = SCO_LT then
       (if dir = DIR_RISING then f_lt reading (f_sub trip_v ELEC_EPS)
        else f_gt reading (f_add reset_v ELEC_EPS))
     else if cd_op c = SCO_LTE then
       (if dir = DIR_RISING then f_le reading (f_add trip_v ELEC_EPS)
        else f_ge reading (f_sub reset_v ELEC_EPS))
     else if cd_op c = SCO_EQ then
       (let eps = (if cd_kind c = SCK_SOC_LOW \<or> cd_kind c = SCK_SOC_HIGH then SOC_EPS
                   else if cd_kind c = SCK_CHANNEL_ABOVE \<or> cd_kind c = SCK_CHANNEL_BELOW then POWER_EPS
                   else ELEC_EPS)
        in f_lt (f_abs (f_sub reading (cd_value c))) eps)
     else False)"

text \<open>Bit \<open>dow * 24 + hour\<close> of the mask.\<close>

definition eval_schedule :: "(u8 \<times> u8) option \<Rightarrow> SwitchCondition \<Rightarrow> bool" where
  "eval_schedule lt c =
    (if cd_kind c \<noteq> SCK_SCHEDULE_WINDOW then False
     else case lt of None \<Rightarrow> False
       | Some (hour, dow) \<Rightarrow>
          let bit_index = unat dow * 24 + unat hour in
          if 168 \<le> bit_index then False
          else bit (cd_schedule_mask c ! (bit_index div 8)) (bit_index mod 8))"

section \<open>Evaluating a rule\<close>

text \<open>What one tick reads from outside: coulomb totals, local time, the snapshot.\<close>

record env =
  en_coul :: "u8 \<Rightarrow> f32"
  en_lt :: "(u8 \<times> u8) option"
  en_snap :: SensorSnapshot

text \<open>One pass of the condition loop at index \<open>j\<close>, on (latched, satisfied, active count).\<close>

definition cond_step ::
  "kv \<Rightarrow> env \<Rightarrow> SwitchRule \<Rightarrow> nat \<Rightarrow> bool list \<times> bool list \<times> nat \<Rightarrow> bool list \<times> bool list \<times> nat" where
  "cond_step st e rule j acc =
    (case acc of (latched, sat, n) \<Rightarrow>
      let c = sr_conditions rule ! j in
      if cd_kind c = SCK_DISABLED then (latched[j := False], sat, n)
      else if cd_kind c = SCK_SCHEDULE_WINDOW then
        (if eval_schedule (en_lt e) c then (latched[j := True], sat[j := True], n + 1)
         else (latched[j := False], sat, n + 1))
      else case read_condition_value st (en_coul e) c (sr_channel rule) (en_snap e) of
          None \<Rightarrow> (latched, sat, n + 1)
        | Some reading \<Rightarrow>
            let dir = (if latched ! j then DIR_FALLING else DIR_RISING);
                b = eval_condition c reading dir (sr_hysteresis rule)
            in (latched[j := b], sat[j := b], n + 1))"

definition n_conds :: "SwitchRule \<Rightarrow> nat" where
  "n_conds rule = min (unat (sr_condition_count rule)) 4"

definition combine :: "SwitchRule \<Rightarrow> bool list \<Rightarrow> nat \<Rightarrow> bool" where
  "combine rule sat active =
    (let true_count = length (filter id (take (n_conds rule) sat)) in
     if sr_logic rule = SL_AND then 0 < active \<and> active \<le> true_count
     else (if sr_min_conditions rule = 0 then 1 else unat (sr_min_conditions rule)) \<le> true_count)"

text \<open>The rule with its updated latches, and whether it is met.\<close>

definition eval_rule :: "kv \<Rightarrow> env \<Rightarrow> SwitchRule \<Rightarrow> SwitchRule \<times> bool" where
  "eval_rule st e rule =
    (case fold (cond_step st e rule) [0..<n_conds rule]
            (sr_condition_latched rule, replicate 4 False, 0) of
       (latched, sat, active) \<Rightarrow> (rule\<lparr> sr_condition_latched := latched \<rparr>, combine rule sat active))"

section \<open>The trip/reset state machine\<close>

text \<open>The new runtime state and the level the pin is driven to, if it is.\<close>

definition switch_fsm :: "SwitchRule \<Rightarrow> bool \<Rightarrow> u32 \<Rightarrow> SwitchState \<Rightarrow> SwitchState \<times> bool option" where
  "switch_fsm rule met now st =
    (if met then
       (if \<not> ss_condition_active st then
          (st\<lparr> ss_condition_active := True, ss_condition_start_ms := now \<rparr>, None)
        else if \<not> ss_energized st \<and>
             uint (sr_trip_delay_ms rule) \<le> sint (now - ss_condition_start_ms st) then
          (st\<lparr> ss_energized := True, ss_was_energized := True \<rparr>, Some True)
        else (st, None))
     else
       (if ss_condition_active st then
          (st\<lparr> ss_condition_active := False, ss_condition_start_ms := now \<rparr>, None)
        else if ss_energized st \<and>
             uint (sr_reset_delay_ms rule) \<le> sint (now - ss_condition_start_ms st) then
          (st\<lparr> ss_energized := False, ss_was_energized := False \<rparr>, Some False)
        else (st, None)))"

text \<open>The effects of a trip or reset: publish when the state differs from the last
  published one, then drive the pin.\<close>

definition apply_drive :: "board \<Rightarrow> SwitchChannel \<Rightarrow> nat \<Rightarrow> bool \<Rightarrow> bool option \<Rightarrow> sw \<Rightarrow> sw" where
  "apply_drive b ch i was drv w =
    (case drv of None \<Rightarrow> w
     | Some v \<Rightarrow> set_switch_pin b ch v (if was = v then w else publish_switch_state (of_nat i) v w))"

definition eval_switch :: "board \<Rightarrow> env \<Rightarrow> u32 \<Rightarrow> nat \<Rightarrow> sw \<Rightarrow> sw" where
  "eval_switch b e now i w =
    (if ss_pulse_active (sw_states w ! i) then w
     else case settings_load_switch (of_nat i) (sw_kv w) of None \<Rightarrow> w
     | Some ch \<Rightarrow> if \<not> ch_enabled ch then w
       else case settings_load_switch_rule (of_nat i) (sw_kv w) of None \<Rightarrow> w
       | Some rule \<Rightarrow> if sr_enabled rule = 0 then w
         else if sn_total_logical_channels (en_snap e) \<le> sr_channel rule then w
         else let (rule', met) = eval_rule (sw_kv w) e rule;
                  st = sw_states w ! i;
                  (st', drv) = switch_fsm rule met now st;
                  w1 = apply_drive b ch i (ss_was_energized st) drv (upd_state i (\<lambda>_. st') w);
                  w2 = (if ch_is_energized ch \<noteq> ss_energized st'
                        then upd_kv (settings_save_switch (of_nat i)
                               (ch\<lparr> ch_is_energized := ss_energized st' \<rparr>)) w1
                        else w1)
              in if rule' \<noteq> rule then upd_kv (settings_save_switch_rule (of_nat i) rule') w2 else w2)"

section \<open>Manual control and pulses\<close>

definition switch_set :: "board \<Rightarrow> u8 \<Rightarrow> bool \<Rightarrow> sw \<Rightarrow> sw" where
  "switch_set b idx v w =
    (if MAX_SWITCHES \<le> unat idx then w
     else case settings_load_switch idx (sw_kv w) of None \<Rightarrow> w
     | Some ch \<Rightarrow>
        let w1 = set_switch_pin b ch v w;
            w2 = upd_state (unat idx) (\<lambda>st. st\<lparr> ss_energized := v, ss_was_energized := v \<rparr>) w1;
            w3 = upd_kv (settings_save_switch idx (ch\<lparr> ch_is_energized := v \<rparr>)) w2
        in publish_switch_state idx v w3)"

text \<open>\<open>now\<close> is the clock when the end of the pulse is computed.\<close>

definition switch_pulse :: "board \<Rightarrow> u8 \<Rightarrow> u32 \<Rightarrow> u32 \<Rightarrow> sw \<Rightarrow> sw" where
  "switch_pulse b idx duration_ms now w =
    (if MAX_SWITCHES \<le> unat idx then w
     else case settings_load_switch idx (sw_kv w) of None \<Rightarrow> w
     | Some ch \<Rightarrow> upd_state (unat idx)
         (\<lambda>st. st\<lparr> ss_pulse_active := True, ss_pulse_off_at_ms := now + duration_ms \<rparr>)
         (switch_set b idx True w))"

definition switch_pulse_active :: "sw \<Rightarrow> u8 \<Rightarrow> bool" where
  "switch_pulse_active w idx =
    (if MAX_SWITCHES \<le> unat idx then False else ss_pulse_active (sw_states w ! unat idx))"

definition pulse_tick_one :: "board \<Rightarrow> u32 \<Rightarrow> nat \<Rightarrow> sw \<Rightarrow> sw" where
  "pulse_tick_one b now i w =
    (if \<not> ss_pulse_active (sw_states w ! i) then w
     else if 0 \<le> sint (now - ss_pulse_off_at_ms (sw_states w ! i)) then
       upd_state i (\<lambda>st. st\<lparr> ss_pulse_active := False \<rparr>) (switch_set b (of_nat i) False w)
     else w)"

definition switch_pulse_tick :: "board \<Rightarrow> u32 \<Rightarrow> sw \<Rightarrow> sw" where
  "switch_pulse_tick b now w = fold (pulse_tick_one b now) [0..<MAX_SWITCHES] w"

definition n_switches :: "sw \<Rightarrow> nat" where
  "n_switches w = min (unat (settings_load_switch_count (sw_kv w))) MAX_SWITCHES"

definition evaluate_switches :: "board \<Rightarrow> env \<Rightarrow> u32 \<Rightarrow> sw \<Rightarrow> sw" where
  "evaluate_switches b e now w =
    (let w1 = switch_pulse_tick b now w in
     if \<not> sw_auto w1 then w1 else fold (eval_switch b e now) [0..<n_switches w1] w1)"

definition force_reset :: "board \<Rightarrow> nat \<Rightarrow> sw \<Rightarrow> sw" where
  "force_reset b i w =
    (case settings_load_switch (of_nat i) (sw_kv w) of None \<Rightarrow> w
     | Some ch \<Rightarrow> (case settings_load_switch_rule (of_nat i) (sw_kv w) of None \<Rightarrow> w
       | Some rule \<Rightarrow>
         if sr_enabled rule = 0 then w
         else if \<not> ss_energized (sw_states w ! i) then w
         else publish_switch_state (of_nat i) False
           (upd_kv (settings_save_switch (of_nat i) (ch\<lparr> ch_is_energized := False \<rparr>))
             (upd_state i (\<lambda>st. st\<lparr> ss_energized := False, ss_was_energized := False \<rparr>)
               (set_switch_pin b ch False w)))))"

definition switch_set_auto :: "board \<Rightarrow> bool \<Rightarrow> sw \<Rightarrow> sw" where
  "switch_set_auto b enabled w =
    (let w1 = upd_kv (settings_save_switch_auto_enabled enabled) (w\<lparr> sw_auto := enabled \<rparr>) in
     if enabled then w1 else fold (force_reset b) [0..<n_switches w1] w1)"

definition switch_get_auto_enabled :: "sw \<Rightarrow> bool" where
  "switch_get_auto_enabled w = sw_auto w"

definition get_switch_state :: "sw \<Rightarrow> u8 \<Rightarrow> bool" where
  "get_switch_state w idx =
    (if MAX_SWITCHES \<le> unat idx then False
     else case settings_load_switch idx (sw_kv w) of None \<Rightarrow> False
     | Some ch \<Rightarrow> if \<not> ch_enabled ch then False
       else let pin_high = sw_gpio w (ch_gpio_pin ch) in
         if ch_active_high ch then pin_high else \<not> pin_high)"

section \<open>Boot\<close>

definition cond0 :: SwitchCondition where
  "cond0 = \<lparr> cd_kind = 0, cd_op = 0, cd_ref_channel = 0, cd_value = 0,
     cd_schedule_mask = replicate 21 0 \<rparr>"

definition switch_rule_default_init :: "u8 \<Rightarrow> u8 \<Rightarrow> SwitchRule" where
  "switch_rule_default_init switch_idx channel =
    \<lparr> sr_switch_idx = switch_idx, sr_channel = channel, sr_trip_delay_ms = 1000,
      sr_reset_delay_ms = 5000, sr_logic = 0, sr_min_conditions = 1, sr_condition_count = 1,
      sr_enabled = 1, sr_hysteresis = 0, sr_condition_latched = replicate 4 False,
      sr_conditions = cond0\<lparr> cd_kind := SCK_OVERCURRENT, cd_op := SCO_GT, cd_ref_channel := - 1,
        cd_value := f_lit 5 1 \<rparr> # replicate 3 cond0 \<rparr>"

definition default_switch :: "board \<Rightarrow> nat \<Rightarrow> SwitchChannel" where
  "default_switch b i = \<lparr> ch_idx = of_nat i, ch_type = SW_RELAY, ch_gpio_pin = bd_relay_pins b ! i,
     ch_active_high = True, ch_enabled = True, ch_is_energized = False,
     ch_name = fit 24 0 (str_bytes (''Relay '' @ dec i)) \<rparr>"

definition init_default :: "board \<Rightarrow> nat \<Rightarrow> sw \<Rightarrow> sw" where
  "init_default b i w =
    (let ch = default_switch b i;
         w1 = upd_kv (settings_save_switch_rule (of_nat i) (switch_rule_default_init (of_nat i) (of_nat i)))
                (upd_kv (settings_save_switch (of_nat i) ch) w);
         w2 = (if \<not> gpio_in_range b (ch_gpio_pin ch) then w1
               else w1\<lparr> sw_gpio := (sw_gpio w1)(ch_gpio_pin ch := False) \<rparr>)
     in upd_state i (\<lambda>_. ss0) w2)"

definition init_stored :: "board \<Rightarrow> nat \<Rightarrow> sw \<Rightarrow> sw" where
  "init_stored b i w =
    (case settings_load_switch (of_nat i) (sw_kv w) of None \<Rightarrow> w
     | Some ch0 \<Rightarrow>
        let fix_pin = (i < 4 \<and> ch_type ch0 = SW_RELAY \<and> ch_gpio_pin ch0 \<noteq> bd_relay_pins b ! i);
            ch = (if fix_pin then ch0\<lparr> ch_gpio_pin := bd_relay_pins b ! i \<rparr> else ch0);
            w1 = (if fix_pin then upd_kv (settings_save_switch (of_nat i) ch) w else w);
            w2 = set_switch_pin b ch False w1
        in upd_state i (\<lambda>st. st\<lparr> ss_energized := False, ss_was_energized := False,
             ss_condition_start_ms := 0, ss_condition_active := False \<rparr>) w2)"

definition has_expander :: "sw \<Rightarrow> bool" where
  "has_expander w = list_ex (\<lambda>i. case settings_load_switch (of_nat i) (sw_kv w) of
     None \<Rightarrow> False | Some ch \<Rightarrow> ch_type ch = SW_EXPANDER) [0..<n_switches w]"

definition init_switches :: "board \<Rightarrow> sw \<Rightarrow> sw" where
  "init_switches b w =
    (let w0 = w\<lparr> sw_auto := settings_load_switch_auto_enabled (sw_kv w) \<rparr>;
         w1 = (if has_expander w0 then w0\<lparr> sw_pcf := snd (pcf8574at_init 0x3F (sw_pcf w0)) \<rparr> else w0);
         w2 = (if settings_load_switch_count (sw_kv w1) = 0 then fold (init_default b) [0..<4] w1
               else fold (init_stored b) [0..<n_switches w1] w1)
     in fold (\<lambda>i v. publish_switch_state (of_nat i) (ss_energized (sw_states v ! i)) v) [0..<4] w2)"

section \<open>One switch does not disturb another\<close>

text \<open>Worlds that agree on everything the engine keeps for switch \<open>i\<close>.\<close>

definition same_at :: "nat \<Rightarrow> sw \<Rightarrow> sw \<Rightarrow> bool" where
  "same_at i w w' = (sw_states w' ! i = sw_states w ! i \<and>
     length (sw_states w') = length (sw_states w) \<and>
     settings_load_switch (of_nat i) (sw_kv w') = settings_load_switch (of_nat i) (sw_kv w) \<and>
     settings_load_switch_rule (of_nat i) (sw_kv w') = settings_load_switch_rule (of_nat i) (sw_kv w) \<and>
     (\<forall>ch. settings_load_battery ch (sw_kv w') = settings_load_battery ch (sw_kv w)))"

lemma same_at_refl [simp]: "same_at i w w"
  by (simp add: same_at_def)

lemma same_at_trans [trans]: "\<lbrakk> same_at i u v; same_at i v w \<rbrakk> \<Longrightarrow> same_at i u w"
  by (simp add: same_at_def)

lemma upd_simps [simp]:
  "sw_kv (upd_state i f w) = sw_kv w" "sw_gpio (upd_state i f w) = sw_gpio w"
  "sw_pcf (upd_state i f w) = sw_pcf w" "sw_auto (upd_state i f w) = sw_auto w"
  "sw_pub (upd_state i f w) = sw_pub w"
  "sw_states (upd_state i f w) = (sw_states w)[i := f (sw_states w ! i)]"
  "sw_kv (upd_kv g w) = g (sw_kv w)" "sw_gpio (upd_kv g w) = sw_gpio w"
  "sw_pcf (upd_kv g w) = sw_pcf w" "sw_auto (upd_kv g w) = sw_auto w" "sw_pub (upd_kv g w) = sw_pub w"
  "sw_states (upd_kv g w) = sw_states w"
  by (simp_all add: upd_state_def upd_kv_def)

lemma publish_simps [simp]:
  "sw_kv (publish_switch_state i b w) = sw_kv w" "sw_gpio (publish_switch_state i b w) = sw_gpio w"
  "sw_pcf (publish_switch_state i b w) = sw_pcf w" "sw_auto (publish_switch_state i b w) = sw_auto w"
  "sw_states (publish_switch_state i b w) = sw_states w"
  by (simp_all add: publish_switch_state_def)

lemma set_switch_pin_simps [simp]:
  "sw_kv (set_switch_pin b ch v w) = sw_kv w" "sw_auto (set_switch_pin b ch v w) = sw_auto w"
  "sw_states (set_switch_pin b ch v w) = sw_states w" "sw_pub (set_switch_pin b ch v w) = sw_pub w"
  by (simp_all add: set_switch_pin_def)

lemma apply_drive_simps [simp]:
  "sw_kv (apply_drive b ch i was drv w) = sw_kv w" "sw_auto (apply_drive b ch i was drv w) = sw_auto w"
  "sw_states (apply_drive b ch i was drv w) = sw_states w"
  by (simp_all add: apply_drive_def split: option.split)

lemma wf_channel_energized [simp]: "wf_channel (ch\<lparr> ch_is_energized := v \<rparr>) = wf_channel ch"
  by (simp add: wf_channel_def)

lemma cond_step_length:
  "case cond_step st e rule j (l, s, n) of (l', s', n') \<Rightarrow> length l' = length l \<and> length s' = length s"
  by (simp add: cond_step_def Let_def split: option.split)

lemma cond_fold_length:
  "case fold (cond_step st e rule) js (l, s, n) of (l', s', n') \<Rightarrow>
     length l' = length l \<and> length s' = length s"
proof (induction js arbitrary: l s n)
  case (Cons j js)
  obtain l' s' n' where c: "cond_step st e rule j (l, s, n) = (l', s', n')" by (metis surj_pair)
  then show ?case using Cons [where l = l' and s = s' and n = n']
      cond_step_length [where st = st and e = e and rule = rule and j = j and l = l and s = s and n = n]
    by (auto split: prod.splits)
qed simp

lemma eval_rule_wf: "wf_rule rule \<Longrightarrow> wf_rule (fst (eval_rule st e rule))"
  using cond_fold_length [where st = st and e = e and rule = rule and js = "[0..<n_conds rule]"
      and l = "sr_condition_latched rule" and s = "replicate 4 False" and n = 0]
  by (auto simp: eval_rule_def wf_rule_def split: prod.splits)

lemma eval_rule_keeps:
  "\<exists>l. fst (eval_rule st e rule) = rule\<lparr> sr_condition_latched := l \<rparr>"
  by (auto simp: eval_rule_def split: prod.splits)

lemma eval_switch_other:
  assumes "i \<noteq> j" "i < 8" "j < 8"
  shows "same_at i w (eval_switch b e now j w)"
proof -
  have ne: "(of_nat i :: u8) \<noteq> of_nat j" using of_nat_u8_inj [of i j] assms by auto
  show ?thesis using ne assms(1)
    by (auto simp: eval_switch_def same_at_def Let_def case_prod_beta load_switch_wf
        eval_rule_wf load_switch_rule_wf split: option.split)
qed

lemma switch_set_other:
  assumes "i \<noteq> unat idx" "i < 8"
  shows "same_at i w (switch_set b idx v w)"
proof -
  have ne: "(of_nat i :: u8) \<noteq> idx" using assms unat_of_nat_u8 [of i] by auto
  show ?thesis using ne assms(1)
    by (auto simp: switch_set_def same_at_def Let_def load_switch_wf split: option.splits)
qed

lemma pulse_tick_other:
  assumes "i \<noteq> j" "i < 8" "j < 8"
  shows "same_at i w (pulse_tick_one b now j w)"
proof -
  have "same_at i w (switch_set b (of_nat j) False w)"
    using assms unat_of_nat_u8 [of j] by (intro switch_set_other) auto
  then show ?thesis using assms(1) by (auto simp: pulse_tick_one_def same_at_def)
qed

lemma pulse_tick_same: "\<not> ss_pulse_active (sw_states w ! i) \<Longrightarrow> pulse_tick_one b now i w = w"
  by (simp add: pulse_tick_one_def)

section \<open>The overcurrent condition under hysteresis\<close>

lemma finite_ELEC_EPS [simp]: "f_finite ELEC_EPS" "f_nonneg ELEC_EPS"
  by (simp_all add: ELEC_EPS_def f_eval f_nonneg_def)

text \<open>The reading of an overcurrent condition does not depend on the store.\<close>

lemma read_overcurrent:
  "cd_kind c = SCK_OVERCURRENT \<Longrightarrow> read_condition_value st coul c ch snap = read_condition_value st' coul' c ch snap"
  by (simp add: read_condition_value_def Let_def)

definition over_limit :: "SwitchRule \<Rightarrow> env \<Rightarrow> bool" where
  "over_limit rule e =
    (sr_channel rule < sn_total_logical_channels (en_snap e) \<and>
     (case read_condition_value (\<lambda>_. None) (en_coul e) (sr_conditions rule ! 0) (sr_channel rule) (en_snap e) of
       None \<Rightarrow> False
     | Some x \<Rightarrow> f_gt x (f_add (fst (trip_reset (sr_conditions rule ! 0) (sr_hysteresis rule))) ELEC_EPS)))"

text \<open>A single overcurrent condition, the shape of the default rule.\<close>

definition overcurrent_rule :: "SwitchRule \<Rightarrow> bool" where
  "overcurrent_rule rule =
    (sr_condition_count rule = 1 \<and> sr_logic rule \<noteq> SL_AND \<and> sr_min_conditions rule \<le> 1 \<and>
     cd_kind (sr_conditions rule ! 0) = SCK_OVERCURRENT \<and> cd_op (sr_conditions rule ! 0) = SCO_GT \<and>
     f_finite (cd_value (sr_conditions rule ! 0)) \<and> f_finite (sr_hysteresis rule) \<and>
     f_finite (fst (trip_reset (sr_conditions rule ! 0) (sr_hysteresis rule))))"

lemma over_not_below_reset:
  assumes "overcurrent_rule rule" "c = sr_conditions rule ! 0" "h = sr_hysteresis rule"
    and "f_gt x (f_add (fst (trip_reset c h)) ELEC_EPS)"
  shows "\<not> f_lt x (f_sub (snd (trip_reset c h)) ELEC_EPS)"
proof -
  have fin: "f_finite (cd_value c)" "f_finite h" "f_finite (fst (trip_reset c h))"
    and kind: "cd_kind c = SCK_OVERCURRENT"
    using assms(1-3) by (simp_all add: overcurrent_rule_def)
  have reset: "snd (trip_reset c h) = cd_value c"
    using kind by (simp add: trip_reset_def Let_def)
  have "f_le (cd_value c) (fst (trip_reset c h))"
    using kind fin f_add_ge [of "cd_value c" h] f_gt_0_nonneg [of h]
    by (simp add: trip_reset_def Let_def)
  moreover have "f_le (fst (trip_reset c h)) (f_add (fst (trip_reset c h)) ELEC_EPS)"
    using fin by (intro f_add_ge) auto
  ultimately have "f_lt (cd_value c) x"
    using assms(4) f_le_lt_trans f_le_trans by blast
  moreover have "f_le (f_sub (cd_value c) ELEC_EPS) (cd_value c)"
    using fin by (intro f_sub_le) auto
  ultimately have "f_le (f_sub (cd_value c) ELEC_EPS) x"
    using f_le_lt_trans f_lt_imp_le by blast
  then show ?thesis using reset f_lt_asym by metis
qed

text \<open>Under a sustained overcurrent the latch flips on every tick: an unlatched condition is met and
  latches, a latched one is tested against the reset threshold, fails and unlatches.\<close>

lemma eval_rule_over:
  assumes "wf_rule rule" "overcurrent_rule rule" "over_limit rule e"
  shows "eval_rule st e rule =
    (rule\<lparr> sr_condition_latched := (sr_condition_latched rule)[0 := \<not> sr_condition_latched rule ! 0] \<rparr>,
     \<not> sr_condition_latched rule ! 0)"
proof -
  define c where "c = sr_conditions rule ! 0"
  define h where "h = sr_hysteresis rule"
  have k: "cd_kind c = SCK_OVERCURRENT" "cd_op c = SCO_GT" "sr_condition_count rule = 1"
    using assms(2) by (simp_all add: overcurrent_rule_def c_def)
  obtain x where x0: "read_condition_value (\<lambda>_. None) (en_coul e) c (sr_channel rule) (en_snap e) = Some x"
    and over: "f_gt x (f_add (fst (trip_reset c h)) ELEC_EPS)"
    using assms(3) by (auto simp: over_limit_def c_def h_def split: option.splits)
  have x: "read_condition_value st (en_coul e) c (sr_channel rule) (en_snap e) = Some x"
    using x0 read_overcurrent [OF k(1)] by metis
  have nb: "\<not> f_lt x (f_sub (snd (trip_reset c h)) ELEC_EPS)"
    using over_not_below_reset [OF assms(2) c_def h_def over] .
  have ev: "eval_condition c x (if b then DIR_FALLING else DIR_RISING) h = (\<not> b)" for b
    using k over nb by (simp add: eval_condition_def case_prod_beta)
  have n: "n_conds rule = 1" using k by (simp add: n_conds_def)
  have need: "(if sr_min_conditions rule = 0 then 1 else unat (sr_min_conditions rule)) = 1"
  proof -
    have "sr_min_conditions rule = 0 \<or> sr_min_conditions rule = 1"
      using assms(2) by (auto simp: overcurrent_rule_def word_le_nat_alt word_unat_eq_iff)
    then show ?thesis by auto
  qed
  define b where "b = sr_condition_latched rule ! 0"
  have l: "0 < length (sr_condition_latched rule)" using assms(1) by (simp add: wf_rule_def)
  have "cond_step st e rule 0 (sr_condition_latched rule, replicate 4 False, 0) =
      ((sr_condition_latched rule)[0 := \<not> b], (replicate 4 False)[0 := \<not> b], 1)"
    using k(1) x ev [of b]
    by (simp add: cond_step_def c_def [symmetric] h_def [symmetric] b_def [symmetric] Let_def)
  then have "fold (cond_step st e rule) [0..<n_conds rule] (sr_condition_latched rule, replicate 4 False, 0) =
      ((sr_condition_latched rule)[0 := \<not> b], (replicate 4 False)[0 := \<not> b], 1)"
    by (simp add: n)
  moreover have "combine rule ((replicate 4 False)[0 := \<not> b]) 1 = (\<not> b)"
    using need assms(2) by (simp add: combine_def n overcurrent_rule_def take_Suc numeral_eq_Suc)
  ultimately show ?thesis by (simp add: eval_rule_def b_def)
qed

text \<open>The invariant of a switch under sustained overcurrent: it is off, and its condition timer runs
  exactly when the latch is set.\<close>

definition stuck :: "SwitchRule \<Rightarrow> nat \<Rightarrow> sw \<Rightarrow> bool" where
  "stuck rule i w =
    (wf_sw w \<and> \<not> ss_pulse_active (sw_states w ! i) \<and> \<not> ss_energized (sw_states w ! i) \<and>
     settings_load_switch (of_nat i) (sw_kv w) \<noteq> None \<and>
     (\<exists>l. settings_load_switch_rule (of_nat i) (sw_kv w) = Some (rule\<lparr> sr_condition_latched := l \<rparr>) \<and>
          length l = 4 \<and> ss_condition_active (sw_states w ! i) = l ! 0))"

lemma stuck_same: "\<lbrakk> stuck rule i w; same_at i w w' \<rbrakk> \<Longrightarrow> stuck rule i w'"
  by (auto simp: stuck_def same_at_def wf_sw_def)

lemma over_limit_latched [simp]: "over_limit (rule\<lparr> sr_condition_latched := l \<rparr>) e = over_limit rule e"
  by (simp add: over_limit_def split: option.split)

lemma overcurrent_rule_latched [simp]:
  "overcurrent_rule (rule\<lparr> sr_condition_latched := l \<rparr>) = overcurrent_rule rule"
  by (simp add: overcurrent_rule_def)

lemma wf_rule_latched: "\<lbrakk> wf_rule rule; length l = 4 \<rbrakk> \<Longrightarrow> wf_rule (rule\<lparr> sr_condition_latched := l \<rparr>)"
  by (simp add: wf_rule_def)

lemma stuck_step:
  assumes "stuck rule i w" "wf_rule rule" "overcurrent_rule rule" "over_limit rule e" "i < 8"
  shows "stuck rule i (eval_switch b e now i w)"
proof -
  obtain ch l where ch: "settings_load_switch (of_nat i) (sw_kv w) = Some ch"
    and l: "settings_load_switch_rule (of_nat i) (sw_kv w) = Some (rule\<lparr> sr_condition_latched := l \<rparr>)"
      "length l = 4" "ss_condition_active (sw_states w ! i) = l ! 0"
    using assms(1) by (auto simp: stuck_def)
  have len: "length (sw_states w) = 8" using assms(1) by (simp add: stuck_def wf_sw_def)
  define r where "r = rule\<lparr> sr_condition_latched := l \<rparr>"
  define l' where "l' = l[0 := \<not> l ! 0]"
  have wr: "wf_rule r" "wf_rule (rule\<lparr> sr_condition_latched := l' \<rparr>)"
    using assms(2) l(2) by (auto simp: r_def l'_def intro: wf_rule_latched)
  have ev: "eval_rule st e r = (rule\<lparr> sr_condition_latched := l' \<rparr>, \<not> l ! 0)" for st
    using eval_rule_over [of r e st] wr(1) assms(3,4) by (simp add: r_def l'_def)
  have l0: "l' ! 0 = (\<not> l ! 0)" "length l' = 4" using l(2) by (simp_all add: l'_def)
  have fsm: "switch_fsm r (\<not> l ! 0) now (sw_states w ! i) =
      ((sw_states w ! i)\<lparr> ss_condition_active := \<not> l ! 0, ss_condition_start_ms := now \<rparr>, None)"
    using assms(1) l(3) by (auto simp: switch_fsm_def stuck_def)
  have wch: "wf_channel ch" using ch by (rule load_switch_wf)
  define r' where "r' = rule\<lparr> sr_condition_latched := l' \<rparr>"
  define w1 where "w1 = upd_state i (\<lambda>_. (sw_states w ! i)\<lparr> ss_condition_active := \<not> l ! 0,
     ss_condition_start_ms := now \<rparr>) w"
  define w2 where "w2 = (if ch_is_energized ch
     then upd_kv (settings_save_switch (of_nat i) (ch\<lparr> ch_is_energized := False \<rparr>)) w1 else w1)"
  have off: "\<not> ss_energized (sw_states w ! i)" "\<not> ss_pulse_active (sw_states w ! i)"
    using assms(1) by (simp_all add: stuck_def)
  have lr: "settings_load_switch_rule (of_nat i) (sw_kv w) = Some r" using l(1) by (simp add: r_def)
  show ?thesis
  proof (cases "ch_enabled ch \<and> sr_enabled r \<noteq> 0 \<and> \<not> sn_total_logical_channels (en_snap e) \<le> sr_channel r")
    case True
    have step: "eval_switch b e now i w =
        (if r' \<noteq> r then upd_kv (settings_save_switch_rule (of_nat i) r') w2 else w2)"
      using True off ch lr ev fsm
      by (simp add: eval_switch_def apply_drive_def w1_def w2_def r'_def Let_def)
    have w2: "sw_states w2 = (sw_states w)[i := (sw_states w ! i)\<lparr> ss_condition_active := \<not> l ! 0,
        ss_condition_start_ms := now \<rparr>]"
      "settings_load_switch (of_nat i) (sw_kv w2) \<noteq> None"
      "settings_load_switch_rule (of_nat i) (sw_kv w2) = Some r"
      using ch lr wch by (simp_all add: w2_def w1_def)
    have "settings_load_switch (of_nat i) (sw_kv (eval_switch b e now i w)) \<noteq> None"
      "settings_load_switch_rule (of_nat i) (sw_kv (eval_switch b e now i w)) = Some r'"
      "sw_states (eval_switch b e now i w) = sw_states w2"
      using w2 wr(2) unfolding step by (auto simp: r'_def)
    then show ?thesis using w2(1) off len l0 assms(5)
      by (auto simp: stuck_def wf_sw_def r'_def)
  next
    case False
    then have "eval_switch b e now i w = w"
      using off ch lr by (auto simp: eval_switch_def)
    then show ?thesis using assms(1) by simp
  qed
qed

lemma stuck_pulse_tick:
  assumes "stuck rule i w" "i < 8" "j < 8"
  shows "stuck rule i (pulse_tick_one b now j w)"
proof (cases "i = j")
  case True
  then show ?thesis using assms(1) by (simp add: stuck_def pulse_tick_same)
next
  case False
  then show ?thesis using assms stuck_same pulse_tick_other by blast
qed

lemma stuck_evaluate:
  assumes "stuck rule i w" "wf_rule rule" "overcurrent_rule rule" "over_limit rule e" "i < 8"
  shows "stuck rule i (evaluate_switches b e now w)"
proof -
  have fold_keep: "stuck rule i (fold f js v)"
    if "stuck rule i v" "\<And>j u. j \<in> set js \<Longrightarrow> stuck rule i u \<Longrightarrow> stuck rule i (f j u)" for f v and js :: "nat list"
    using that by (induction js arbitrary: v) auto
  have one: "stuck rule i (eval_switch b e now j u)" if "j < 8" "stuck rule i u" for j u
    using that assms stuck_step [of rule i u e b now] eval_switch_other [of i j u b e now] stuck_same
    by (cases "i = j") blast+
  have "stuck rule i (switch_pulse_tick b now w)"
    unfolding switch_pulse_tick_def using assms(1,5)
    by (intro fold_keep) (auto intro: stuck_pulse_tick)
  then show ?thesis
    unfolding evaluate_switches_def Let_def n_switches_def
    by (auto intro!: fold_keep one)
qed

section \<open>Denied pins\<close>

text \<open>No operation drives a GPIO outside the board's legal set.\<close>

definition pins_kept :: "board \<Rightarrow> sw \<Rightarrow> sw \<Rightarrow> bool" where
  "pins_kept b w w' = (\<forall>p. \<not> gpio_in_range b p \<longrightarrow> sw_gpio w' p = sw_gpio w p)"

lemma pins_kept_refl [simp]: "pins_kept b w w"
  by (simp add: pins_kept_def)

lemma pins_kept_trans [trans]: "\<lbrakk> pins_kept b u v; pins_kept b v w \<rbrakk> \<Longrightarrow> pins_kept b u w"
  by (simp add: pins_kept_def)

lemma pins_kept_gpio: "sw_gpio w' = sw_gpio w \<Longrightarrow> pins_kept b w w'"
  by (simp add: pins_kept_def)

lemma pins_kept_set_pin [simp]: "pins_kept b w u \<Longrightarrow> pins_kept b w (set_switch_pin b ch v u)"
  by (auto simp: pins_kept_def set_switch_pin_def)

lemma pins_kept_fold:
  "(\<And>j u. pins_kept b u (f j u)) \<Longrightarrow> pins_kept b w (fold f js w)"
  by (induction js arbitrary: w) (auto intro: pins_kept_trans)

lemma pins_kept_upd [simp]:
  "pins_kept b w (upd_state i f v) = pins_kept b w v" "pins_kept b w (upd_kv g v) = pins_kept b w v"
  "pins_kept b w (publish_switch_state k c v) = pins_kept b w v"
  "pins_kept b w (v\<lparr> sw_auto := a \<rparr>) = pins_kept b w v"
  by (simp_all add: pins_kept_def)

lemma pins_kept_from_upd [simp]:
  "pins_kept b (upd_state i f v) w = pins_kept b v w" "pins_kept b (upd_kv g v) w = pins_kept b v w"
  "pins_kept b (publish_switch_state k c v) w = pins_kept b v w"
  by (simp_all add: pins_kept_def)

lemma pins_kept_apply_drive [simp]:
  "pins_kept b w u \<Longrightarrow> pins_kept b w (apply_drive b ch i was drv u)"
  by (auto simp: apply_drive_def split: option.split)

lemma pins_kept_eval: "pins_kept b w (eval_switch b e now i w)"
  by (simp add: eval_switch_def case_prod_beta Let_def split: option.split)

lemma pins_kept_switch_set: "pins_kept b w (switch_set b idx v w)"
  by (simp add: switch_set_def Let_def split: option.split)

lemma pins_kept_pulse_tick: "pins_kept b w (switch_pulse_tick b now w)"
  unfolding switch_pulse_tick_def
  by (rule pins_kept_fold) (simp add: pulse_tick_one_def pins_kept_switch_set)

lemma pins_kept_evaluate: "pins_kept b w (evaluate_switches b e now w)"
  using pins_kept_trans [OF pins_kept_pulse_tick pins_kept_fold [of b "eval_switch b e now", OF pins_kept_eval]]
  by (simp add: evaluate_switches_def pins_kept_pulse_tick Let_def)

lemma pins_kept_switch_pulse: "pins_kept b w (switch_pulse b idx d now w)"
  by (simp add: switch_pulse_def pins_kept_switch_set split: option.split)

lemma pins_kept_force_reset: "pins_kept b w (force_reset b i w)"
  by (simp add: force_reset_def split: option.split)

lemma pins_kept_set_auto: "pins_kept b w (switch_set_auto b v w)"
proof -
  define u where "u = upd_kv (settings_save_switch_auto_enabled v) (w\<lparr> sw_auto := v \<rparr>)"
  have u: "pins_kept b w u" by (simp add: u_def)
  then have "pins_kept b w (fold (force_reset b) js u)" for js
    by (rule pins_kept_trans) (rule pins_kept_fold [of b "force_reset b", OF pins_kept_force_reset])
  then show ?thesis using u by (simp add: switch_set_auto_def Let_def u_def [symmetric])
qed

lemma pins_kept_init_stored: "pins_kept b w (init_stored b i w)"
  by (simp add: init_stored_def Let_def split: option.split)

lemma pins_kept_init_default: "pins_kept b w (init_default b i w)"
  by (auto simp: init_default_def Let_def pins_kept_def)

lemma pins_kept_init: "pins_kept b w (init_switches b w)"
proof -
  define w1 where "w1 = (let w0 = w\<lparr> sw_auto := settings_load_switch_auto_enabled (sw_kv w) \<rparr> in
    if has_expander w0 then w0\<lparr> sw_pcf := snd (pcf8574at_init 0x3F (sw_pcf w0)) \<rparr> else w0)"
  have "pins_kept b w w1" by (simp add: w1_def pins_kept_def Let_def)
  also have "pins_kept b w1 (if settings_load_switch_count (sw_kv w1) = 0
      then fold (init_default b) [0..<4] w1 else fold (init_stored b) [0..<n_switches w1] w1)"
    using pins_kept_fold [of b "init_default b", OF pins_kept_init_default]
      pins_kept_fold [of b "init_stored b", OF pins_kept_init_stored] by simp
  also have "pins_kept b \<dots> (fold (\<lambda>i v. publish_switch_state (of_nat i) (ss_energized (sw_states v ! i)) v)
      [0..<4] (if settings_load_switch_count (sw_kv w1) = 0
      then fold (init_default b) [0..<4] w1 else fold (init_stored b) [0..<n_switches w1] w1))"
    by (rule pins_kept_fold) simp
  finally show ?thesis unfolding init_switches_def w1_def Let_def .
qed

text \<open>Everything the firmware can do to the switches, in any order; other components may rewrite the store
  (\<open>k_store\<close>).\<close>

inductive sw_step :: "board \<Rightarrow> sw \<Rightarrow> sw \<Rightarrow> bool" for b where
  k_init: "sw_step b w (init_switches b w)"
| k_eval: "sw_step b w (evaluate_switches b e now w)"
| k_set: "sw_step b w (switch_set b idx v w)"
| k_pulse: "sw_step b w (switch_pulse b idx d now w)"
| k_auto: "sw_step b w (switch_set_auto b v w)"
| k_store: "sw_step b w (w\<lparr> sw_kv := st \<rparr>)"

inductive sw_run :: "board \<Rightarrow> sw \<Rightarrow> sw \<Rightarrow> bool" for b where
  run_refl: "sw_run b w w"
| run_step: "\<lbrakk> sw_run b u v; sw_step b v w \<rbrakk> \<Longrightarrow> sw_run b u w"

inductive_cases sw_stepE: "sw_step b w w'"

lemma sw_step_pins: "sw_step b w w' \<Longrightarrow> pins_kept b w w'"
  by (induction rule: sw_step.induct)
     (auto intro: pins_kept_init pins_kept_evaluate pins_kept_switch_set pins_kept_switch_pulse
        pins_kept_set_auto pins_kept_gpio)

section \<open>Properties\<close>

text \<open>C24: Overcurrent protection does not trip while the overcurrent lasts: with an overcurrent rule
  (the default rule is one) and a current above the trip threshold on every tick, the switch is never
  energized, however many ticks pass, at whatever times and whatever the trip delay, because the latched
  condition is tested against its reset threshold and counts as met only when the current has fallen.\<close>

theorem sustained_overcurrent_never_trips:
  assumes "wf_sw w" "i < 8" "sw_states w ! i = ss0"
    and "settings_load_switch (of_nat i) (sw_kv w) = Some ch"
    and "settings_load_switch_rule (of_nat i) (sw_kv w) = Some rule"
    and "overcurrent_rule rule" "\<not> sr_condition_latched rule ! 0"
    and "\<forall>(now, e) \<in> set ticks. over_limit rule e"
  shows "\<not> ss_energized (sw_states (fold (\<lambda>(now, e). evaluate_switches b e now) ticks w) ! i)"
proof -
  have wr: "wf_rule rule" using assms(5) by (rule load_switch_rule_wf)
  have "rule\<lparr> sr_condition_latched := sr_condition_latched rule \<rparr> = rule" by simp
  then have "stuck rule i w"
    using assms(1-5,7) wr by (auto simp: stuck_def ss0_def wf_rule_def intro!: exI [of _ "sr_condition_latched rule"])
  then have "stuck rule i (fold (\<lambda>(now, e). evaluate_switches b e now) ticks w)"
    using assms(8)
    by (induction ticks arbitrary: w) (auto intro: stuck_evaluate [OF _ wr assms(6) _ assms(2)])
  then show ?thesis by (simp add: stuck_def)
qed

text \<open>A blank world and a one-channel environment carrying a given current.\<close>

definition sw_blank :: sw where
  "sw_blank = \<lparr> sw_kv = \<lambda>_. None, sw_states = replicate 8 ss0, sw_auto = False, sw_pcf = pcf0,
     sw_gpio = \<lambda>_. False, sw_pub = [] \<rparr>"

definition env_current :: "f32 \<Rightarrow> env" where
  "env_current i = \<lparr> en_coul = \<lambda>_. 0, en_lt = None, en_snap =
    \<lparr> sn_timestamp_ms = 0, sn_pods = [\<lparr> ps_id = 0, ps_type = POD_INA226, ps_name = ''x'',
       ps_num_channels = 1, ps_channels = replicate 2 ((channel0 0 0)\<lparr> pc_current := i \<rparr>) \<rparr>],
      sn_total_logical_channels = 1 \<rparr> \<rparr>"

theorem sustained_overcurrent_never_trips_witness:
  "\<not> ss_energized (sw_states (fold (\<lambda>(now, e). evaluate_switches esp32c3 e now)
      [(1000, env_current (f_lit 10 1)), (2000, env_current (f_lit 10 1)), (3000, env_current (f_lit 10 1))]
      ((init_switches esp32c3 sw_blank)\<lparr> sw_auto := True \<rparr>)) ! 0)"
proof -
  let ?w = "(init_switches esp32c3 sw_blank)\<lparr> sw_auto := True \<rparr>"
  have "wf_sw ?w" "sw_states ?w ! 0 = ss0" by code_simp+
  moreover have "settings_load_switch (of_nat 0) (sw_kv ?w) = Some (default_switch esp32c3 0)"
    "settings_load_switch_rule (of_nat 0) (sw_kv ?w) = Some (switch_rule_default_init 0 0)" by code_simp+
  moreover have "overcurrent_rule (switch_rule_default_init 0 0)"
    "\<not> sr_condition_latched (switch_rule_default_init 0 0) ! 0"
    "over_limit (switch_rule_default_init 0 0) (env_current (f_lit 10 1))" by code_simp+
  ultimately show ?thesis
    by (intro sustained_overcurrent_never_trips [where ch = "default_switch esp32c3 0"
          and rule = "switch_rule_default_init 0 0"]) auto
qed

text \<open>C4: Whatever the firmware and its operators do, and whatever the store holds, a GPIO that the board
  reserves (strapping, USB, flash, out of range) keeps its level: no switch operation ever drives it.\<close>

theorem denied_pins_never_driven:
  assumes "sw_run b w w'" "\<not> gpio_in_range b p"
  shows "sw_gpio w' p = sw_gpio w p"
  using assms
proof (induction rule: sw_run.induct)
  case (run_step u v w)
  then show ?case using sw_step_pins [of b v w] by (simp add: pins_kept_def)
qed simp

theorem denied_pins_never_driven_witness:
  "sw_gpio (switch_set esp32c3 0 True (init_switches esp32c3 sw_blank)) 18 = sw_gpio sw_blank 18"
proof (rule denied_pins_never_driven [where b = esp32c3])
  show "sw_run esp32c3 sw_blank (switch_set esp32c3 0 True (init_switches esp32c3 sw_blank))"
    by (rule run_step [OF run_step [OF run_refl k_init] k_set])
qed code_simp

end
