(* ===== verification/Switch_Engine.thy ===== *)
theory Switch_Engine
  imports Switches
begin

text \<open>
  Behaviour of the switch engine over time: the trip and reset timing of the state machine
  against a declarative reading of the delays, the life of a pulse, the effect of turning the
  automatic mode off, and the safe state at boot.
\<close>

section \<open>Timing of the state machine\<close>

text \<open>The states the machine goes through on a list of (condition met, clock) ticks.\<close>

definition fsm_run :: "SwitchRule \<Rightarrow> (bool \<times> u32) list \<Rightarrow> SwitchState \<Rightarrow> SwitchState" where
  "fsm_run rule steps st = fold (\<lambda>(met, now) s. fst (switch_fsm rule met now s)) steps st"

lemma fsm_run_Nil [simp]: "fsm_run rule [] st = st"
  by (simp add: fsm_run_def)

lemma fsm_run_snoc [simp]:
  "fsm_run rule (steps @ [(met, now)]) st = fst (switch_fsm rule met now (fsm_run rule steps st))"
  by (simp add: fsm_run_def)

text \<open>The condition was met on every tick from \<open>i\<close> to \<open>j\<close>, for at least the trip delay.\<close>

definition held :: "SwitchRule \<Rightarrow> (bool \<times> u32) list \<Rightarrow> nat \<Rightarrow> nat \<Rightarrow> bool" where
  "held rule steps i j = (i < j \<and> j < length steps \<and> (\<forall>k. i \<le> k \<and> k \<le> j \<longrightarrow> fst (steps ! k)) \<and>
     uint (sr_trip_delay_ms rule) \<le> sint (snd (steps ! j) - snd (steps ! i)))"

lemma held_append: "held rule steps i j \<Longrightarrow> held rule (steps @ rest) i j"
  by (auto simp: held_def nth_append)

lemma fsm_fst_simps:
  "fst (switch_fsm rule True now s) =
    (if \<not> ss_condition_active s then s\<lparr> ss_condition_active := True, ss_condition_start_ms := now \<rparr>
     else if \<not> ss_energized s \<and> uint (sr_trip_delay_ms rule) \<le> sint (now - ss_condition_start_ms s)
     then s\<lparr> ss_energized := True, ss_was_energized := True \<rparr> else s)"
  "fst (switch_fsm rule False now s) =
    (if ss_condition_active s then s\<lparr> ss_condition_active := False, ss_condition_start_ms := now \<rparr>
     else if ss_energized s \<and> uint (sr_reset_delay_ms rule) \<le> sint (now - ss_condition_start_ms s)
     then s\<lparr> ss_energized := False, ss_was_energized := False \<rparr> else s)"
  by (simp_all add: switch_fsm_def)

lemma fsm_run_invariant:
  assumes "\<not> ss_energized st" "\<not> ss_condition_active st"
  shows "(ss_condition_active (fsm_run rule steps st) \<longrightarrow>
      (\<exists>i < length steps. (\<forall>k. i \<le> k \<and> k < length steps \<longrightarrow> fst (steps ! k)) \<and>
         ss_condition_start_ms (fsm_run rule steps st) = snd (steps ! i))) \<and>
    (ss_energized (fsm_run rule steps st) \<longrightarrow> (\<exists>i j. held rule steps i j))"
proof (induction steps rule: rev_induct)
  case Nil
  then show ?case using assms by simp
next
  case (snoc x steps)
  obtain met now where x: "x = (met, now)" by fastforce
  let ?s = "fsm_run rule steps st"
  have keep: "\<exists>i j. held rule steps i j \<Longrightarrow> \<exists>i j. held rule (steps @ [x]) i j"
    using held_append by blast
  show ?case
  proof (cases met)
    case False
    then show ?thesis using snoc keep by (auto simp: x fsm_fst_simps)
  next
    case True
    show ?thesis
    proof (cases "ss_condition_active ?s")
      case False
      have "\<forall>k. length steps \<le> k \<and> k < length (steps @ [x]) \<longrightarrow> fst ((steps @ [x]) ! k)"
        using True by (auto simp: x nth_append le_less_Suc_eq)
      then show ?thesis using False snoc keep True
        by (auto simp: x fsm_fst_simps intro!: exI [of _ "length steps"])
    next
      case act: True
      then obtain i where i: "i < length steps" "\<forall>k. i \<le> k \<and> k < length steps \<longrightarrow> fst (steps ! k)"
        "ss_condition_start_ms ?s = snd (steps ! i)" using snoc by auto
      then have all: "\<forall>k. i \<le> k \<and> k < length (steps @ [x]) \<longrightarrow> fst ((steps @ [x]) ! k)"
        using True by (auto simp: x nth_append less_Suc_eq)
      have "held rule (steps @ [x]) i (length steps)"
        if "uint (sr_trip_delay_ms rule) \<le> sint (now - ss_condition_start_ms ?s)"
        using that i all by (auto simp: held_def x nth_append)
      then have "ss_energized (fsm_run rule (steps @ [x]) st) \<longrightarrow> (\<exists>i j. held rule (steps @ [x]) i j)"
        using snoc keep True act by (auto simp: x fsm_fst_simps split: if_splits)
      moreover have "ss_condition_start_ms (fsm_run rule (steps @ [x]) st) = snd ((steps @ [x]) ! i)"
        using True act i(1,3) by (simp add: x fsm_fst_simps nth_append)
      moreover have "i < length (steps @ [x])" using i(1) by simp
      ultimately show ?thesis using all by blast
    qed
  qed
qed

lemma fsm_run_all_met:
  assumes "\<not> ss_energized st" "\<not> ss_condition_active st" "\<forall>s \<in> set steps. fst s"
  shows "steps \<noteq> [] \<longrightarrow> (ss_condition_active (fsm_run rule steps st) \<and>
      ss_condition_start_ms (fsm_run rule steps st) = snd (steps ! 0) \<and>
      (ss_energized (fsm_run rule steps st) \<longleftrightarrow>
       (\<exists>j. 0 < j \<and> j < length steps \<and> uint (sr_trip_delay_ms rule) \<le> sint (snd (steps ! j) - snd (steps ! 0)))))"
  using assms(3)
proof (induction steps rule: rev_induct)
  case (snoc x steps)
  obtain now where x: "x = (True, now)" using snoc.prems by (cases x) auto
  show ?case
  proof (cases "steps = []")
    case True
    then show ?thesis using assms(1,2) by (simp add: x fsm_run_def switch_fsm_def)
  next
    case False
    then have "0 < length steps" by simp
    then have ex: "(\<exists>j. 0 < j \<and> j < length (steps @ [x]) \<and> P (snd ((steps @ [x]) ! j))) \<longleftrightarrow>
        (\<exists>j. 0 < j \<and> j < length steps \<and> P (snd (steps ! j))) \<or> P now" for P :: "u32 \<Rightarrow> bool"
    proof -
      have split: "(\<exists>j. 0 < j \<and> j < Suc n \<and> Q j) \<longleftrightarrow> (\<exists>j. 0 < j \<and> j < n \<and> Q j) \<or> (0 < n \<and> Q n)" for n Q
        by (auto simp: less_Suc_eq)
      have nth: "j < length steps \<Longrightarrow> (steps @ [x]) ! j = steps ! j" for j by (simp add: nth_append)
      have "(\<exists>j. 0 < j \<and> j < length steps \<and> P (snd ((steps @ [x]) ! j))) \<longleftrightarrow>
          (\<exists>j. 0 < j \<and> j < length steps \<and> P (snd (steps ! j)))"
        using nth by metis
      then show ?thesis using split [of "length steps" "\<lambda>j. P (snd ((steps @ [x]) ! j))"] \<open>0 < length steps\<close>
        by (simp add: x)
    qed
    define E where "E = ss_energized (fsm_run rule steps st)"
    define D where "D t = (uint (sr_trip_delay_ms rule) \<le> sint (t - snd (steps ! 0)))" for t
    have IH: "ss_condition_active (fsm_run rule steps st)"
      "ss_condition_start_ms (fsm_run rule steps st) = snd (steps ! 0)"
      "E = (\<exists>j. 0 < j \<and> j < length steps \<and> D (snd (steps ! j)))"
      using snoc False by (auto simp: E_def D_def)
    have hd: "(steps @ [x]) ! 0 = steps ! 0" using False by (simp add: nth_append)
    have "ss_energized (fsm_run rule (steps @ [x]) st) = (E \<or> D now)"
      "ss_condition_active (fsm_run rule (steps @ [x]) st)"
      "ss_condition_start_ms (fsm_run rule (steps @ [x]) st) = snd (steps ! 0)"
      using IH(1,2) by (simp_all add: x fsm_fst_simps E_def D_def)
    then show ?thesis using ex [of D] IH(3) hd by (simp add: D_def [symmetric])
  qed
qed simp

text \<open>C6: A switch trips only after its condition has been met without interruption for the trip delay: if
  the machine, started off and idle, is energized after some ticks, then the condition was met on
  every tick of a stretch that lasts at least the delay on the (signed, wrapping) clock.\<close>

theorem trip_only_after_delay:
  assumes "\<not> ss_energized st" "\<not> ss_condition_active st" "ss_energized (fsm_run rule steps st)"
  shows "\<exists>i j. i < j \<and> j < length steps \<and> (\<forall>k. i \<le> k \<and> k \<le> j \<longrightarrow> fst (steps ! k)) \<and>
    uint (sr_trip_delay_ms rule) \<le> sint (snd (steps ! j) - snd (steps ! i))"
  using fsm_run_invariant [OF assms(1,2), of rule steps] assms(3) by (auto simp: held_def)

theorem trip_only_after_delay_witness:
  "\<exists>i j. i < j \<and> j < length [(True, 0), (True, 600), (True, 1000 :: u32)] \<and>
    (\<forall>k. i \<le> k \<and> k \<le> j \<longrightarrow> fst ([(True, 0), (True, 600), (True, 1000 :: u32)] ! k)) \<and>
    uint (sr_trip_delay_ms (switch_rule_default_init 0 0)) \<le>
      sint (snd ([(True, 0), (True, 600), (True, 1000 :: u32)] ! j) -
            snd ([(True, 0), (True, 600), (True, 1000 :: u32)] ! i))"
  by (rule trip_only_after_delay [of ss0]) code_simp+

text \<open>C7: And it does trip: while the condition stays met, the machine is energized exactly from the first later tick on
  at which the delay has elapsed since the first one.\<close>

theorem trip_when_delay_elapsed:
  assumes "\<not> ss_energized st" "\<not> ss_condition_active st" "\<forall>s \<in> set steps. fst s" "steps \<noteq> []"
  shows "ss_energized (fsm_run rule steps st) \<longleftrightarrow>
    (\<exists>j. 0 < j \<and> j < length steps \<and> uint (sr_trip_delay_ms rule) \<le> sint (snd (steps ! j) - snd (steps ! 0)))"
  using fsm_run_all_met [OF assms(1-3), of rule] assms(4) by blast

theorem trip_when_delay_elapsed_witness:
  "ss_energized (fsm_run (switch_rule_default_init 0 0) [(True, 0xFFFFFF00), (True, 0), (True, 800)] ss0)"
proof -
  have "uint (sr_trip_delay_ms (switch_rule_default_init 0 0)) \<le>
      sint (snd ([(True, 0xFFFFFF00), (True, 0), (True, 800 :: u32)] ! 2) -
            snd ([(True, 0xFFFFFF00), (True, 0), (True, 800 :: u32)] ! 0))" by code_simp
  then show ?thesis
    by (subst trip_when_delay_elapsed) (auto simp: ss0_def intro!: exI [of _ 2])
qed

section \<open>Loops over the switches\<close>

text \<open>A loop whose other iterations leave switch \<open>i\<close> alone acts on it once.\<close>

lemma fold_same:
  "(\<And>j u. j \<in> set js \<Longrightarrow> same_at i u (f j u)) \<Longrightarrow> same_at i w (fold f js w)"
  by (induction js arbitrary: w) (auto intro: same_at_trans)

lemma fold_at:
  assumes "\<And>j u. j < n \<Longrightarrow> j \<noteq> i \<Longrightarrow> same_at i u (f j u)" "i < n"
  obtains u where "same_at i w u" "same_at i (f i u) (fold f [0..<n] w)"
proof -
  have "[0..<n] = [0..<i] @ i # [Suc i..<n]"
    using assms(2) by (metis le_add1 le_add_same_cancel1 less_imp_le_nat upt_add_eq_append upt_conv_Cons
        ordered_cancel_comm_monoid_diff_class.add_diff_inverse)
  then have e: "fold f [0..<n] w = fold f [Suc i..<n] (f i (fold f [0..<i] w))" by simp
  have "same_at i w (fold f [0..<i] w)" using assms by (intro fold_same) auto
  moreover have "same_at i (f i (fold f [0..<i] w)) (fold f [0..<n] w)"
    unfolding e using assms by (intro fold_same) auto
  ultimately show ?thesis by (rule that)
qed

lemma evaluate_keeps_pulse:
  assumes "i < 8" "ss_pulse_active (sw_states w ! i)"
    "sint (now - ss_pulse_off_at_ms (sw_states w ! i)) < 0"
  shows "same_at i w (evaluate_switches b e now w)"
proof -
  have t: "same_at i u (pulse_tick_one b now j u)" if "j < 8" "same_at i w u" for j u
    using that assms pulse_tick_other [of i j u b now]
    by (cases "i = j") (auto simp: pulse_tick_one_def same_at_def)
  have "same_at i w (fold (pulse_tick_one b now) js w)" if "\<forall>j \<in> set js. j < 8" for js
    using that by (induction js rule: rev_induct) (auto intro: same_at_trans t)
  then have pt: "same_at i w (switch_pulse_tick b now w)" by (simp add: switch_pulse_tick_def)
  have "same_at i u (eval_switch b e now j u)" if "j < 8" "same_at i w u" for j u
    using that assms eval_switch_other [of i j u b e now]
    by (cases "i = j") (auto simp: eval_switch_def same_at_def)
  then have "same_at i w (fold (eval_switch b e now) js (switch_pulse_tick b now w))"
    if "\<forall>j \<in> set js. j < 8" for js
    using that pt by (induction js rule: rev_induct) (auto intro: same_at_trans)
  then show ?thesis using pt by (simp add: evaluate_switches_def n_switches_def Let_def)
qed

lemma pulse_tick_auto [simp]: "sw_auto (switch_pulse_tick b now w) = sw_auto w"
proof -
  have "sw_auto (pulse_tick_one b now j u) = sw_auto u" for j u
    by (simp add: pulse_tick_one_def switch_set_def Let_def split: option.split)
  then have "sw_auto (fold (pulse_tick_one b now) js u) = sw_auto u" for js u
    by (induction js arbitrary: u) auto
  then show ?thesis by (simp add: switch_pulse_tick_def)
qed

lemma pulse_tick_ends:
  assumes "wf_sw w" "i < 8" "ss_pulse_active (sw_states w ! i)"
    "0 \<le> sint (now - ss_pulse_off_at_ms (sw_states w ! i))"
    "settings_load_switch (of_nat i) (sw_kv w) \<noteq> None"
  shows "\<not> ss_pulse_active (sw_states (switch_pulse_tick b now w) ! i)"
    "\<not> ss_energized (sw_states (switch_pulse_tick b now w) ! i)"
proof -
  obtain u where u: "same_at i w u"
    "same_at i (pulse_tick_one b now i u) (switch_pulse_tick b now w)"
    unfolding switch_pulse_tick_def
    by (rule fold_at [of 8 i "pulse_tick_one b now" w]) (use assms(2) in \<open>auto intro: pulse_tick_other\<close>)
  have "unat (of_nat i :: u8) = i" using assms(2) by (intro unat_of_nat_u8) simp
  then show "\<not> ss_pulse_active (sw_states (switch_pulse_tick b now w) ! i)"
    "\<not> ss_energized (sw_states (switch_pulse_tick b now w) ! i)"
    using u assms
    by (auto simp: same_at_def pulse_tick_one_def switch_set_def wf_sw_def Let_def split: option.splits)
qed

section \<open>Properties of pulses, automatic mode and boot\<close>



lemma force_reset_other:
  assumes "i \<noteq> j" "i < 8" "j < 8"
  shows "same_at i w (force_reset b j w)"
proof -
  have ne: "(of_nat i :: u8) \<noteq> of_nat j" using of_nat_u8_inj [of i j] assms by auto
  show ?thesis using ne assms(1)
    by (auto simp: force_reset_def same_at_def load_switch_wf split: option.splits)
qed

lemma force_reset_auto [simp]:
  "sw_auto (force_reset b j w) = sw_auto w"
  "settings_load_switch_auto_enabled (sw_kv (force_reset b j w)) = settings_load_switch_auto_enabled (sw_kv w)"
  by (simp_all add: force_reset_def split: option.split)

lemma fold_force_reset_auto [simp]:
  "sw_auto (fold (force_reset b) js w) = sw_auto w"
  "settings_load_switch_auto_enabled (sw_kv (fold (force_reset b) js w)) = settings_load_switch_auto_enabled (sw_kv w)"
  by (induction js arbitrary: w) auto



text \<open>The pin a stored switch is driven on at boot: the first four relays are moved to the board's relay
  pins.\<close>

definition boot_pin :: "board \<Rightarrow> nat \<Rightarrow> SwitchChannel \<Rightarrow> u8" where
  "boot_pin b i ch = (if i < 4 \<and> ch_type ch = SW_RELAY then bd_relay_pins b ! i else ch_gpio_pin ch)"

lemma init_stored_effect:
  assumes "settings_load_switch (of_nat j) (sw_kv w) = Some ch" "j < 8"
  shows "sw_gpio (init_stored b j w) =
      (if ch_type ch \<noteq> SW_EXPANDER \<and> gpio_in_range b (boot_pin b j ch)
       then (sw_gpio w)(boot_pin b j ch := \<not> ch_active_high ch) else sw_gpio w)"
    and "length (sw_states w) = 8 \<Longrightarrow> \<not> ss_energized (sw_states (init_stored b j w) ! j)"
  using assms
  by (auto simp: init_stored_def boot_pin_def set_switch_pin_def pin_level_def Let_def)

lemma wf_channel_pin [simp]: "wf_channel (ch\<lparr> ch_gpio_pin := v \<rparr>) = wf_channel ch"
  by (simp add: wf_channel_def)

lemma init_stored_other:
  assumes "i \<noteq> j" "i < 8" "j < 8"
  shows "same_at i w (init_stored b j w)"
proof -
  have ne: "(of_nat i :: u8) \<noteq> of_nat j" using of_nat_u8_inj [of i j] assms by auto
  show ?thesis using ne assms(1)
    by (auto simp: init_stored_def same_at_def load_switch_wf Let_def split: option.splits)
qed

lemma init_stored_none: "settings_load_switch (of_nat j) (sw_kv w) = None \<Longrightarrow> init_stored b j w = w"
  by (simp add: init_stored_def)

lemma boot_gpio:
  assumes "i < 8" "settings_load_switch (of_nat i) (sw_kv w) = Some ch"
    and "ch_type ch \<noteq> SW_EXPANDER" "gpio_in_range b (boot_pin b i ch)"
    and "\<forall>j c. j \<noteq> i \<and> j < n \<and> settings_load_switch (of_nat j) (sw_kv w) = Some c \<and>
         ch_type c \<noteq> SW_EXPANDER \<longrightarrow> boot_pin b j c \<noteq> boot_pin b i ch"
    and "n \<le> 8"
  shows "(\<forall>j. n \<le> j \<and> j < 8 \<longrightarrow> same_at j w (fold (init_stored b) [0..<n] w)) \<and>
    (i < n \<longrightarrow> sw_gpio (fold (init_stored b) [0..<n] w) (boot_pin b i ch) = (\<not> ch_active_high ch))"
  using assms(5,6)
proof (induction n)
  case (Suc n)
  define u where "u = fold (init_stored b) [0..<n] w"
  have IH: "\<forall>j. n \<le> j \<and> j < 8 \<longrightarrow> same_at j w u"
    "i < n \<longrightarrow> sw_gpio u (boot_pin b i ch) = (\<not> ch_active_high ch)"
    using Suc by (auto simp: u_def)
  have e: "fold (init_stored b) [0..<Suc n] w = init_stored b n u" by (simp add: u_def)
  have ld: "settings_load_switch (of_nat n) (sw_kv u) = settings_load_switch (of_nat n) (sw_kv w)"
    using IH(1) Suc.prems(2) by (simp add: same_at_def)
  have "\<forall>j. Suc n \<le> j \<and> j < 8 \<longrightarrow> same_at j w (init_stored b n u)"
    using IH(1) Suc.prems(2) init_stored_other [of _ n u b] same_at_trans by (metis Suc_le_eq less_imp_le_nat less_irrefl_nat less_trans)
  moreover have "sw_gpio (init_stored b n u) (boot_pin b i ch) = (\<not> ch_active_high ch)" if "i < Suc n"
  proof (cases "i = n")
    case True
    then show ?thesis using ld assms(1-4) init_stored_effect(1) [of n u ch b] by simp
  next
    case False
    then have g: "sw_gpio u (boot_pin b i ch) = (\<not> ch_active_high ch)" using that IH(2) by simp
    show ?thesis
    proof (cases "settings_load_switch (of_nat n) (sw_kv u)")
      case None
      then show ?thesis using g by (simp add: init_stored_none)
    next
      case (Some c)
      then have "ch_type c \<noteq> SW_EXPANDER \<Longrightarrow> boot_pin b n c \<noteq> boot_pin b i ch"
        using Suc.prems(1) False ld by auto
      then show ?thesis using g Some Suc.prems(2) init_stored_effect(1) [of n u c b] by auto
    qed
  qed
  ultimately show ?case unfolding e by simp
qed simp

lemma publish_fold [simp]:
  "sw_gpio (fold (\<lambda>i v. publish_switch_state (f i) (g i v) v) js w) = sw_gpio w"
  "sw_states (fold (\<lambda>i v. publish_switch_state (f i) (g i v) v) js w) = sw_states w"
  "sw_kv (fold (\<lambda>i v. publish_switch_state (f i) (g i v) v) js w) = sw_kv w"
  by (induction js arbitrary: w) auto

lemma boot_states:
  assumes "length (sw_states w) = 8" "n \<le> 8" "\<forall>k < 8. \<not> ss_energized (sw_states w ! k)"
  shows "length (sw_states (fold (init_stored b) [0..<n] w)) = 8 \<and>
    (\<forall>k < 8. \<not> ss_energized (sw_states (fold (init_stored b) [0..<n] w) ! k))"
  using assms(2)
proof (induction n)
  case (Suc n)
  then show ?case
    by (auto simp: init_stored_def Let_def nth_list_update split: option.split)
qed (use assms in simp)



end
