(* ===== verification/Byte_Ring.thy ===== *)
theory Byte_Ring
  imports Prelude
begin

text \<open>
  The byte ring of \<open>data_logger.cpp\<close>: a buffer of \<open>sz\<close> bytes with a head (next write) and a tail
  (next read), one byte always left free. The size is an argument; the firmware's is
  \<open>LOG_BUFFER_BYTES\<close> = 16384. The abstraction \<open>ring_content\<close> is the byte sequence from tail to
  head; the locale \<open>byte_fifo\<close> states what a user of the ring relies on, and the ring is an
  instance of it.
\<close>

record ring =
  rg_buf :: "nat \<Rightarrow> u8"
  rg_head :: nat
  rg_tail :: nat

definition ring0 :: ring where
  "ring0 = \<lparr> rg_buf = (\<lambda>_. 0), rg_head = 0, rg_tail = 0 \<rparr>"

definition next_pos :: "nat \<Rightarrow> nat \<Rightarrow> nat \<Rightarrow> nat" where
  "next_pos pos n sz = (let np = pos + n in if sz \<le> np then np - sz else np)"

definition free_space :: "nat \<Rightarrow> nat \<Rightarrow> nat \<Rightarrow> nat" where
  "free_space h t sz = (if t \<le> h then sz - (h - t) - 1 else t - h - 1)"

definition can_fit :: "nat \<Rightarrow> ring \<Rightarrow> nat \<Rightarrow> bool" where
  "can_fit sz r n = (if sz \<le> n then False else n < free_space (rg_head r) (rg_tail r) sz)"

definition ring_used :: "nat \<Rightarrow> ring \<Rightarrow> nat" where
  "ring_used sz r = (if rg_tail r \<le> rg_head r then rg_head r - rg_tail r
     else sz - rg_tail r + rg_head r)"

text \<open>\<open>memcpy\<close> into the buffer.\<close>

definition mem_put :: "nat \<Rightarrow> bytes \<Rightarrow> (nat \<Rightarrow> u8) \<Rightarrow> nat \<Rightarrow> u8" where
  "mem_put off bs buf = (\<lambda>k. if off \<le> k \<and> k < off + length bs then bs ! (k - off) else buf k)"

text \<open>The write of one entry, in one or two pieces around the end of the buffer.\<close>

definition ring_put :: "nat \<Rightarrow> bytes \<Rightarrow> ring \<Rightarrow> ring" where
  "ring_put sz e r =
    (let n = length e;
         first = (if sz \<le> rg_head r + n then sz - rg_head r else n);
         r1 = r\<lparr> rg_buf := mem_put (rg_head r) (take first e) (rg_buf r),
                 rg_head := (rg_head r + first) mod sz \<rparr>
     in if first < n
        then r1\<lparr> rg_buf := mem_put (rg_head r1) (drop first e) (rg_buf r1),
                 rg_head := (rg_head r1 + n - first) mod sz \<rparr>
        else r1)"

text \<open>Reading \<open>n\<close> bytes at the tail, one at a time.\<close>

fun ring_get :: "nat \<Rightarrow> nat \<Rightarrow> ring \<Rightarrow> bytes \<times> ring" where
  "ring_get sz 0 r = ([], r)"
| "ring_get sz (Suc n) r =
    (let b = rg_buf r (rg_tail r);
         (bs, r') = ring_get sz n (r\<lparr> rg_tail := next_pos (rg_tail r) 1 sz \<rparr>)
     in (b # bs, r'))"

definition ring_inv :: "nat \<Rightarrow> ring \<Rightarrow> bool" where
  "ring_inv sz r = (rg_head r < sz \<and> rg_tail r < sz)"

definition ring_content :: "nat \<Rightarrow> ring \<Rightarrow> bytes" where
  "ring_content sz r = map (\<lambda>k. rg_buf r ((rg_tail r + k) mod sz)) [0..<ring_used sz r]"

lemma length_ring_content [simp]: "length (ring_content sz r) = ring_used sz r"
  by (simp add: ring_content_def)

lemma ring_used_lt: "ring_inv sz r \<Longrightarrow> ring_used sz r < sz"
  by (auto simp: ring_used_def ring_inv_def)

lemma free_used: "ring_inv sz r \<Longrightarrow> free_space (rg_head r) (rg_tail r) sz = sz - 1 - ring_used sz r"
  by (auto simp: free_space_def ring_used_def ring_inv_def)

lemma head_from_tail: "ring_inv sz r \<Longrightarrow> rg_head r = (rg_tail r + ring_used sz r) mod sz"
  by (auto simp: ring_used_def ring_inv_def mod_if)

text \<open>A write, position by position.\<close>

lemma ring_put_simps:
  assumes "ring_inv sz r" "length e < sz"
  shows "rg_tail (ring_put sz e r) = rg_tail r"
    and "rg_head (ring_put sz e r) = (rg_head r + length e) mod sz"
    and "k < sz \<Longrightarrow> rg_buf (ring_put sz e r) k =
      (let d = (k + sz - rg_head r) mod sz in if d < length e then e ! d else rg_buf r k)"
proof -
  have h: "rg_head r < sz" using assms(1) by (simp add: ring_inv_def)
  show "rg_tail (ring_put sz e r) = rg_tail r"
    by (simp add: ring_put_def Let_def)
  show "rg_head (ring_put sz e r) = (rg_head r + length e) mod sz"
  proof (cases "sz \<le> rg_head r + length e")
    case True
    then have "sz - rg_head r < length e \<or> sz - rg_head r = length e" by auto
    then show ?thesis using h True assms(2)
      by (auto simp: ring_put_def Let_def mod_if)
  next
    case False
    then show ?thesis by (simp add: ring_put_def Let_def)
  qed
  assume k: "k < sz"
  show "rg_buf (ring_put sz e r) k =
      (let d = (k + sz - rg_head r) mod sz in if d < length e then e ! d else rg_buf r k)"
  proof (cases "rg_head r \<le> k")
    case True
    then have "(k + sz - rg_head r) mod sz = k - rg_head r" using k h
      by (metis Nat.add_diff_assoc2 less_imp_diff_less mod_add_self2 mod_less)
    moreover have "k - rg_head r < sz - rg_head r" using True k by simp
    ultimately show ?thesis using True k h assms(2)
      by (auto simp: ring_put_def mem_put_def Let_def mod_if)
  next
    case False
    then have d: "(k + sz - rg_head r) mod sz = k + sz - rg_head r" using k h by simp
    show ?thesis using False k h assms(2) unfolding d
      by (auto simp: ring_put_def mem_put_def Let_def mod_if add.commute [of sz k])
  qed
qed

lemma ring_put_inv: "\<lbrakk> ring_inv sz r; length e < sz \<rbrakk> \<Longrightarrow> ring_inv sz (ring_put sz e r)"
  using ring_put_simps [of sz r e] by (auto simp: ring_inv_def)

lemma ring_put_used:
  assumes "ring_inv sz r" "length e \<le> free_space (rg_head r) (rg_tail r) sz"
  shows "ring_used sz (ring_put sz e r) = ring_used sz r + length e"
proof -
  have u: "ring_used sz r + length e < sz"
    using assms free_used [OF assms(1)] ring_used_lt [OF assms(1)] by simp
  have "rg_head (ring_put sz e r) = (rg_tail r + (ring_used sz r + length e)) mod sz"
    using ring_put_simps(2) [of sz r e] u head_from_tail [OF assms(1)] assms(1)
    by (simp add: mod_add_left_eq add.assoc)
  then show ?thesis using u ring_put_simps(1) [of sz r e] assms(1)
    by (auto simp: ring_used_def [of sz "ring_put sz e r"] ring_inv_def mod_if)
qed

lemma ring_put_content:
  assumes "ring_inv sz r" "length e \<le> free_space (rg_head r) (rg_tail r) sz"
  shows "ring_content sz (ring_put sz e r) = ring_content sz r @ e"
proof (rule nth_equalityI)
  have u: "ring_used sz r + length e < sz"
    using assms free_used [OF assms(1)] ring_used_lt [OF assms(1)] by simp
  have t: "rg_tail r < sz" "rg_head r < sz" using assms(1) by (auto simp: ring_inv_def)
  show "length (ring_content sz (ring_put sz e r)) = length (ring_content sz r @ e)"
    using ring_put_used [OF assms] by simp
  fix k assume "k < length (ring_content sz (ring_put sz e r))"
  then have k: "k < ring_used sz r + length e" using ring_put_used [OF assms] by simp
  have d: "((rg_tail r + k) mod sz + sz - rg_head r) mod sz =
      (if k < ring_used sz r then k + sz - ring_used sz r else k - ring_used sz r)"
    using k u t by (subst head_from_tail [OF assms(1)]) (auto simp: mod_if)
  have "ring_content sz (ring_put sz e r) ! k = rg_buf (ring_put sz e r) ((rg_tail r + k) mod sz)"
    using k ring_put_used [OF assms] ring_put_simps(1) [of sz r e] u assms(1) by (simp add: ring_content_def)
  also have "\<dots> = (ring_content sz r @ e) ! k"
    using k u t d ring_put_simps(3) [of sz r e "(rg_tail r + k) mod sz"] assms(1)
    by (auto simp: nth_append ring_content_def Let_def)
  finally show "ring_content sz (ring_put sz e r) ! k = (ring_content sz r @ e) ! k" .
qed

lemma ring_get_correct:
  assumes "ring_inv sz r" "n \<le> ring_used sz r"
  shows "fst (ring_get sz n r) = take n (ring_content sz r)"
    "ring_content sz (snd (ring_get sz n r)) = drop n (ring_content sz r)"
    "ring_inv sz (snd (ring_get sz n r))" "rg_head (snd (ring_get sz n r)) = rg_head r"
proof -
  have "fst (ring_get sz n r) = take n (ring_content sz r) \<and>
    ring_content sz (snd (ring_get sz n r)) = drop n (ring_content sz r) \<and>
    ring_inv sz (snd (ring_get sz n r)) \<and> rg_head (snd (ring_get sz n r)) = rg_head r"
    using assms
  proof (induction n arbitrary: r)
    case (Suc n)
    define r1 where "r1 = r\<lparr> rg_tail := next_pos (rg_tail r) 1 sz \<rparr>"
    have inv: "ring_inv sz r1" using Suc.prems(1) by (auto simp: r1_def ring_inv_def next_pos_def Let_def)
    have t: "rg_tail r1 = (rg_tail r + 1) mod sz"
      using Suc.prems(1) by (auto simp: r1_def next_pos_def ring_inv_def Let_def mod_if)
    have used: "ring_used sz r = Suc (ring_used sz r1)"
      using Suc.prems by (auto simp: r1_def ring_used_def ring_inv_def next_pos_def Let_def split: if_splits)
    have cont: "ring_content sz r = rg_buf r (rg_tail r) # ring_content sz r1"
    proof -
      have "(rg_tail r + Suc k) mod sz = (rg_tail r1 + k) mod sz" for k
        unfolding t by (simp add: mod_add_left_eq)
      then show ?thesis
        using Suc.prems(1) by (simp add: ring_content_def used upt_conv_Cons map_Suc_upt [symmetric]
            ring_inv_def r1_def del: upt_Suc)
    qed
    have "n \<le> ring_used sz r1" using Suc.prems(2) used by simp
    from Suc.IH [OF inv this] show ?case
      by (simp add: r1_def [symmetric] cont case_prod_beta Let_def) (simp add: r1_def)
  qed (simp add: ring_inv_def)
  then show "fst (ring_get sz n r) = take n (ring_content sz r)"
    "ring_content sz (snd (ring_get sz n r)) = drop n (ring_content sz r)"
    "ring_inv sz (snd (ring_get sz n r))" "rg_head (snd (ring_get sz n r)) = rg_head r" by auto
qed

section \<open>The interface\<close>

locale byte_fifo =
  fixes content :: "'s \<Rightarrow> bytes"
    and inv :: "'s \<Rightarrow> bool"
    and room :: "'s \<Rightarrow> nat"
    and put :: "bytes \<Rightarrow> 's \<Rightarrow> 's"
    and get :: "nat \<Rightarrow> 's \<Rightarrow> bytes \<times> 's"
  assumes put_content: "\<lbrakk> inv s; length b \<le> room s \<rbrakk> \<Longrightarrow> content (put b s) = content s @ b"
    and put_inv: "\<lbrakk> inv s; length b \<le> room s \<rbrakk> \<Longrightarrow> inv (put b s)"
    and get_bytes: "\<lbrakk> inv s; n \<le> length (content s) \<rbrakk> \<Longrightarrow> fst (get n s) = take n (content s)"
    and get_content: "\<lbrakk> inv s; n \<le> length (content s) \<rbrakk> \<Longrightarrow> content (snd (get n s)) = drop n (content s)"
    and get_inv: "\<lbrakk> inv s; n \<le> length (content s) \<rbrakk> \<Longrightarrow> inv (snd (get n s))"
begin

text \<open>Reading back a block that is at the front.\<close>

lemma get_block:
  assumes "inv s" "content s = b @ rest"
  shows "get (length b) s = (b, snd (get (length b) s))" "content (snd (get (length b) s)) = rest"
    "inv (snd (get (length b) s))"
  using assms get_bytes [of s "length b"] get_content [of s "length b"] get_inv [of s "length b"]
  by (auto simp: prod_eq_iff)

text \<open>What is put into an empty fifo is what is got.\<close>

lemma get_put:
  assumes "inv s" "content s = []" "length b \<le> room s"
  shows "fst (get (length b) (put b s)) = b"
  using get_block(1) [of "put b s" b "[]"] put_content [of s b] put_inv [of s b] assms
  by (metis append_Nil append_Nil2 fst_conv)

end

interpretation byte_ring: byte_fifo "ring_content sz" "\<lambda>r. 0 < sz \<and> ring_inv sz r"
    "\<lambda>r. free_space (rg_head r) (rg_tail r) sz" "ring_put sz" "ring_get sz" for sz
proof
  fix r :: ring and b :: bytes
  assume r: "0 < sz \<and> ring_inv sz r" "length b \<le> free_space (rg_head r) (rg_tail r) sz"
  then show "ring_content sz (ring_put sz b r) = ring_content sz r @ b" by (simp add: ring_put_content)
  have "length b < sz" using r free_used [of sz r] by auto
  then show "0 < sz \<and> ring_inv sz (ring_put sz b r)" using r by (simp add: ring_put_inv)
qed (auto simp: ring_get_correct)

end
