(* ===== verification/Data_Logger.thy ===== *)
theory Data_Logger
  imports Byte_Ring Sensors "HOL-Library.List_Lexorder" "HOL-Library.Multiset"
begin

text \<open>
  \<open>data_logger.cpp\<close>: samples of the first four logical channels, quantised to 16 bits, kept as
  base and delta entries in the byte ring (\<open>Byte_Ring\<close>), popped in whole entries by the network
  task, spilled to an SD card when the ring is full and the network down, and written to
  daily CSV files. The SD library is third-party code: the record \<open>sdlib\<close> holds the
  operations the module calls, over an abstract card \<open>'fs\<close> and file handle \<open>'h\<close>, and
  \<open>sd_lawful\<close> states their documented behaviour; \<open>snprintf\<close> and \<open>strftime\<close> are arguments of the CSV
  row. The ring size is an argument \<open>sz\<close>; the firmware's is \<open>LOG_BUFFER_BYTES\<close>. A conversion of a
  float outside the \<open>int16_t\<close> range is undefined in C++; here it wraps.
\<close>

section \<open>Entries\<close>

datatype entry =
    BaseEntry u32 "i16 list" "i16 list" "i16 list"
  | DeltaEntry u16 "i16 list" "i16 list" "i16 list"

abbreviation ENTRY_BASE :: u8 where "ENTRY_BASE \<equiv> 0xB0"
abbreviation ENTRY_DELTA :: u8 where "ENTRY_DELTA \<equiv> 0xD0"
abbreviation BASE_SIZE :: nat where "BASE_SIZE \<equiv> 29"
abbreviation DELTA_SIZE :: nat where "DELTA_SIZE \<equiv> 27"
abbreviation LOG_BUFFER_BYTES :: nat where "LOG_BUFFER_BYTES \<equiv> 16384"

definition i16s_bytes :: "i16 list \<Rightarrow> bytes" where
  "i16s_bytes xs = concat (map le16 xs)"

fun enc_entry :: "entry \<Rightarrow> bytes" where
  "enc_entry (BaseEntry ts v i p) =
    ENTRY_BASE # le32 ts @ i16s_bytes v @ i16s_bytes i @ i16s_bytes p"
| "enc_entry (DeltaEntry dt v i p) =
    ENTRY_DELTA # le16 dt @ i16s_bytes v @ i16s_bytes i @ i16s_bytes p"

fun wf_entry :: "entry \<Rightarrow> bool" where
  "wf_entry (BaseEntry ts v i p) = (length v = 4 \<and> length i = 4 \<and> length p = 4)"
| "wf_entry (DeltaEntry dt v i p) = (length v = 4 \<and> length i = 4 \<and> length p = 4)"

definition entry_size :: "u8 \<Rightarrow> nat" where
  "entry_size type = (if type = ENTRY_BASE then BASE_SIZE else DELTA_SIZE)"

lemma length_i16s_bytes [simp]: "length (i16s_bytes xs) = 2 * length xs"
  by (induction xs) (auto simp: i16s_bytes_def)

lemma enc_entry_size: "wf_entry e \<Longrightarrow> length (enc_entry e) = entry_size (hd (enc_entry e))"
  by (cases e) (auto simp: entry_size_def)

lemma enc_entry_bounds: "wf_entry e \<Longrightarrow> 27 \<le> length (enc_entry e) \<and> length (enc_entry e) \<le> 29"
  by (cases e) auto

lemma enc_entry_nonempty [simp]: "enc_entry e \<noteq> []"
  by (cases e) auto

text \<open>Quantising a snapshot: millivolts, milliamps and whole watts of channels 0 to 3.\<close>

definition to_i16 :: "f32 \<Rightarrow> i16" where
  "to_i16 x = word_of_int (f_trunc x)"

definition quantize :: "SensorSnapshot \<Rightarrow> i16 list \<times> i16 list \<times> i16 list" where
  "quantize data =
    (map (\<lambda>c. to_i16 (f_mul (snap_channel_voltage data c) (f_of_int 1000))) [0, 1, 2, 3],
     map (\<lambda>c. to_i16 (f_mul (snap_channel_current data c) (f_of_int 1000))) [0, 1, 2, 3],
     map (\<lambda>c. to_i16 (snap_channel_power data c)) [0, 1, 2, 3])"

section \<open>State\<close>

record 'h logger =
  lg_ring :: ring
  lg_count :: nat
  lg_high_water_warned :: bool
  lg_last_v :: "i16 list"
  lg_last_i :: "i16 list"
  lg_last_p :: "i16 list"
  lg_last_ts :: u32
  lg_have_base :: bool
  lg_epoch_offset :: int
  lg_epoch_valid :: bool
  lg_untrusted_warned :: bool
  lg_sd_initialized :: bool
  lg_sd_present :: bool
  lg_overflow_file :: "'h option"
  lg_telem_file :: "'h option"
  lg_csv_buf :: bytes
  lg_csv_len :: nat
  lg_csv_last_flush :: u32
  lg_csv_oob :: bool

text \<open>The last field records whether a CSV write or read has left the 256-byte line buffer.\<close>

definition logger0 :: "'h logger" where
  "logger0 = \<lparr> lg_ring = ring0, lg_count = 0, lg_high_water_warned = False,
     lg_last_v = replicate 4 0, lg_last_i = replicate 4 0, lg_last_p = replicate 4 0,
     lg_last_ts = 0, lg_have_base = False, lg_epoch_offset = 0, lg_epoch_valid = False,
     lg_untrusted_warned = False, lg_sd_initialized = False, lg_sd_present = False,
     lg_overflow_file = None, lg_telem_file = None, lg_csv_buf = replicate 256 0,
     lg_csv_len = 0, lg_csv_last_flush = 0, lg_csv_oob = False \<rparr>"

record ('fs, 'h) sdlib =
  sd_begin :: "'fs \<Rightarrow> bool"
  sd_exists :: "string \<Rightarrow> 'fs \<Rightarrow> bool"
  sd_remove :: "string \<Rightarrow> 'fs \<Rightarrow> bool \<times> 'fs"
  sd_mkdir :: "string \<Rightarrow> 'fs \<Rightarrow> 'fs"
  sd_open_read :: "string \<Rightarrow> 'fs \<Rightarrow> 'h option"
  sd_size :: "'h \<Rightarrow> nat"
  sd_read :: "'h \<Rightarrow> nat \<Rightarrow> bytes \<times> 'h"
  sd_open_append :: "string \<Rightarrow> 'fs \<Rightarrow> 'fs option"
  sd_write :: "string \<Rightarrow> bytes \<Rightarrow> 'fs \<Rightarrow> nat \<times> 'fs"
  sd_total :: "'fs \<Rightarrow> int"
  sd_used :: "'fs \<Rightarrow> int"
  sd_dir :: "string \<Rightarrow> 'fs \<Rightarrow> (string \<times> bool) list option"

abbreviation LOG_OVERFLOW_FILE :: string where "LOG_OVERFLOW_FILE \<equiv> ''/log_overflow.bin''"
abbreviation TELEM_OVERFLOW_FILE :: string where
  "TELEM_OVERFLOW_FILE \<equiv> ''/telemetry_overflow.jsonl''"
abbreviation LOG_OVERFLOW_MAX_BYTES :: nat where "LOG_OVERFLOW_MAX_BYTES \<equiv> 1048576"

text \<open>
  What the library documents: \<open>view\<close> is the content of the card by path, \<open>rest\<close> the bytes a read
  handle has not delivered yet.
\<close>

definition sd_lawful ::
  "('fs, 'h) sdlib \<Rightarrow> ('fs \<Rightarrow> string \<Rightarrow> bytes option) \<Rightarrow> ('h \<Rightarrow> bytes) \<Rightarrow> bool" where
  "sd_lawful lib view rest =
    ((\<forall>p fs. sd_exists lib p fs = (view fs p \<noteq> None)) \<and>
     (\<forall>p fs. view (snd (sd_remove lib p fs)) = (view fs)(p := None)) \<and>
     (\<forall>p fs fs'. sd_open_append lib p fs = Some fs' \<longrightarrow>
        view fs' = (view fs)(p \<mapsto> (case view fs p of None \<Rightarrow> [] | Some b \<Rightarrow> b))) \<and>
     (\<forall>p bs fs b. view fs p = Some b \<longrightarrow>
        view (snd (sd_write lib p bs fs)) = (view fs)(p \<mapsto> b @ take (fst (sd_write lib p bs fs)) bs)) \<and>
     (\<forall>p fs h. sd_open_read lib p fs = Some h \<longrightarrow> view fs p = Some (rest h) \<and> sd_size lib h = length (rest h)) \<and>
     (\<forall>p fs. \<forall>q. q \<noteq> p \<longrightarrow> view (sd_mkdir lib p fs) q = view fs q) \<and>
     (\<forall>h n. fst (sd_read lib h n) = take n (rest h) \<and> rest (snd (sd_read lib h n)) = drop n (rest h)))"

section \<open>Clock\<close>

definition log_set_epoch :: "int \<Rightarrow> u32 \<Rightarrow> 'h logger \<Rightarrow> 'h logger" where
  "log_set_epoch epoch now s =
    (let s1 = s\<lparr> lg_epoch_offset := epoch - int (unat now div 1000) \<rparr>
     in if 1700000000 < epoch then s1\<lparr> lg_epoch_valid := True \<rparr> else s1)"

definition log_epoch_valid_set :: "bool \<Rightarrow> 'h logger \<Rightarrow> 'h logger" where
  "log_epoch_valid_set b s = s\<lparr> lg_epoch_valid := b \<rparr>"

definition log_to_epoch :: "u32 \<Rightarrow> 'h logger \<Rightarrow> int" where
  "log_to_epoch ts s =
    (if \<not> lg_epoch_valid s then - 1 else lg_epoch_offset s + int (unat ts div 1000))"

section \<open>The card\<close>

definition init_sd :: "('fs, 'h) sdlib \<Rightarrow> 'fs \<Rightarrow> 'h logger \<Rightarrow> bool \<times> 'h logger" where
  "init_sd lib fs s =
    (if lg_sd_initialized s then (lg_sd_present s, s)
     else (sd_begin lib fs, s\<lparr> lg_sd_present := sd_begin lib fs, lg_sd_initialized := True \<rparr>))"

definition sd_reset :: "'h logger \<Rightarrow> 'h logger" where
  "sd_reset s = s\<lparr> lg_overflow_file := None, lg_sd_initialized := False, lg_sd_present := False \<rparr>"

definition overflow_capped :: "('fs, 'h) sdlib \<Rightarrow> string \<Rightarrow> 'fs \<Rightarrow> 'fs" where
  "overflow_capped lib p fs =
    (if sd_exists lib p fs then
       case sd_open_read lib p fs of
         None \<Rightarrow> fs
       | Some f \<Rightarrow> if LOG_OVERFLOW_MAX_BYTES \<le> sd_size lib f then snd (sd_remove lib p fs) else fs
     else fs)"

definition flush_buffer_to_sd ::
  "('fs, 'h) sdlib \<Rightarrow> bytes \<Rightarrow> 'h logger \<times> 'fs \<Rightarrow> 'h logger \<times> 'fs" where
  "flush_buffer_to_sd lib data w =
    (if data = [] then w
     else let (ok, s) = init_sd lib (snd w) (fst w); fs = snd w in
       if \<not> ok then (s, fs)
       else let s1 = s\<lparr> lg_overflow_file := None \<rparr>;
                fs1 = overflow_capped lib LOG_OVERFLOW_FILE fs
            in case sd_open_append lib LOG_OVERFLOW_FILE fs1 of
                 None \<Rightarrow> (sd_reset s1, fs1)
               | Some fs2 \<Rightarrow>
                   let (written, fs3) = sd_write lib LOG_OVERFLOW_FILE data fs2
                   in (if 0 < written then s1 else sd_reset s1, fs3))"

section \<open>CSV files\<close>

text \<open>
  The exchange sort of the file names: one pass of the inner loop moves the smallest remaining
  name to the front, swapping as it goes.
\<close>

fun exchange_pass :: "string \<Rightarrow> string list \<Rightarrow> string \<times> string list" where
  "exchange_pass x [] = (x, [])"
| "exchange_pass x (y # ys) =
    (if y < x then let (m, r) = exchange_pass y ys in (m, x # r)
     else let (m, r) = exchange_pass x ys in (m, y # r))"

lemma exchange_pass_length [simp]: "length (snd (exchange_pass x xs)) = length xs"
  by (induction xs arbitrary: x) (auto simp: case_prod_beta Let_def)

function exchange_sort :: "string list \<Rightarrow> string list" where
  "exchange_sort [] = []"
| "exchange_sort (x # xs) = fst (exchange_pass x xs) # exchange_sort (snd (exchange_pass x xs))"
  by pat_completeness auto
termination by (relation "measure length") auto

definition csv_names :: "(string \<times> bool) list \<Rightarrow> string list" where
  "csv_names es = take 64 (map (\<lambda>(n, d). take 31 n)
     (filter (\<lambda>(n, d). \<not> d \<and> 14 \<le> length n \<and> drop (length n - 4) n = ''.csv'') es))"

definition free_pct :: "int \<Rightarrow> int \<Rightarrow> f32" where
  "free_pct cap used =
    f_mul (f_div (f_of_int ((cap - used) mod 2 ^ 64)) (f_of_int cap)) (f_of_int 100)"

fun prune_loop :: "('fs, 'h) sdlib \<Rightarrow> int \<Rightarrow> string list \<Rightarrow> 'fs \<Rightarrow> 'fs" where
  "prune_loop lib cap [] fs = fs"
| "prune_loop lib cap (n # ns) fs =
    (if f_ge (free_pct cap (sd_used lib fs)) (f_of_int 10) then fs
     else prune_loop lib cap ns (snd (sd_remove lib (''/logs/'' @ n) fs)))"

definition sd_prune_old_csv :: "('fs, 'h) sdlib \<Rightarrow> 'fs \<Rightarrow> 'fs" where
  "sd_prune_old_csv lib fs =
    (let cap = sd_total lib fs in
     if cap = 0 then fs
     else if f_ge (free_pct cap (sd_used lib fs)) (f_of_int 5) then fs
     else case sd_dir lib ''/logs'' fs of
            None \<Rightarrow> fs
          | Some es \<Rightarrow> prune_loop lib cap (exchange_sort (csv_names es)) fs)"

text \<open>\<open>row\<close> is the text \<open>snprintf\<close> formats for the sample, \<open>date\<close> the path of the day's file.\<close>

definition csv_append :: "bytes \<Rightarrow> 'h logger \<Rightarrow> 'h logger" where
  "csv_append row s =
    (let n = lg_csv_len s;
         out = (if n < 256 then take (255 - n) row @ [0] else if n = 256 then [] else row @ [0])
     in s\<lparr> lg_csv_buf := take 256 (take n (lg_csv_buf s) @ out @ drop (n + length out) (lg_csv_buf s)),
           lg_csv_oob := (lg_csv_oob s \<or> 256 < n),
           lg_csv_len := n + length row \<rparr>)"

definition sd_write_csv_row ::
  "('fs, 'h) sdlib \<Rightarrow> bytes \<Rightarrow> string \<Rightarrow> bytes \<Rightarrow> u32 \<Rightarrow> 'h logger \<times> 'fs \<Rightarrow> 'h logger \<times> 'fs" where
  "sd_write_csv_row lib row path header now w =
    (let (s0, fs) = w in
     if \<not> lg_sd_present s0 then w
     else let s = csv_append row s0;
              time_to_flush = 5000 \<le> now - lg_csv_last_flush s;
              buf_full = 128 < lg_csv_len s
          in if \<not> time_to_flush \<and> \<not> buf_full then (s, fs)
             else let fs1 = sd_prune_old_csv lib fs;
                      fs2 = (if sd_exists lib ''/logs'' fs1 then fs1 else sd_mkdir lib ''/logs'' fs1);
                      needs_header = \<not> sd_exists lib path fs2
                  in case sd_open_append lib path fs2 of
                       None \<Rightarrow> (sd_reset s, fs2)
                     | Some fs3 \<Rightarrow>
                         let fs4 = (if needs_header then snd (sd_write lib path header fs3) else fs3);
                             fs5 = snd (sd_write lib path (take (lg_csv_len s) (lg_csv_buf s)) fs4)
                         in (s\<lparr> lg_csv_oob := (lg_csv_oob s \<or> 256 < lg_csv_len s),
                                lg_csv_len := 0, lg_csv_last_flush := now \<rparr>, fs5))"

section \<open>Logging a sample\<close>

definition init_data_logger :: "('fs, 'h) sdlib \<Rightarrow> 'fs \<Rightarrow> 'h logger \<Rightarrow> 'h logger" where
  "init_data_logger lib fs s =
    snd (init_sd lib fs (s\<lparr> lg_ring := ring0, lg_count := 0, lg_have_base := False,
       lg_high_water_warned := False, lg_csv_len := 0, lg_csv_last_flush := 0 \<rparr>))"

abbreviation sdiff :: "i16 list \<Rightarrow> i16 list \<Rightarrow> i16 list" where
  "sdiff xs ys \<equiv> map2 (-) xs ys"

definition delta_overflows :: "i16 list \<Rightarrow> bool" where
  "delta_overflows ds = list_ex (\<lambda>d. 32760 < \<bar>sint d\<bar>) ds"

definition build_entry :: "SensorSnapshot \<Rightarrow> u32 \<Rightarrow> 'h logger \<Rightarrow> entry" where
  "build_entry data ts s =
    (let (v, i, p) = quantize data in
     if \<not> lg_have_base s then BaseEntry ts v i p
     else let dv = sdiff v (lg_last_v s); di = sdiff i (lg_last_i s); dp = sdiff p (lg_last_p s);
              overflow = (delta_overflows dv \<or> delta_overflows di \<or> delta_overflows dp);
              dt32 = ts - lg_last_ts s
          in if overflow \<or> 60000 < dt32 then BaseEntry ts v i p
             else DeltaEntry (ucast dt32) dv di dp)"

definition remember :: "SensorSnapshot \<Rightarrow> u32 \<Rightarrow> 'h logger \<Rightarrow> 'h logger" where
  "remember data ts s =
    (let (v, i, p) = quantize data in
     s\<lparr> lg_last_v := v, lg_last_i := i, lg_last_p := p, lg_last_ts := ts, lg_have_base := True,
        lg_untrusted_warned := (lg_untrusted_warned s \<or> \<not> lg_epoch_valid s) \<rparr>)"

definition high_water :: "nat \<Rightarrow> 'h logger \<Rightarrow> bool" where
  "high_water sz s = (80 * sz \<le> ring_used sz (lg_ring s) * 100)"

definition ring_store :: "nat \<Rightarrow> bytes \<Rightarrow> 'h logger \<Rightarrow> 'h logger" where
  "ring_store sz e s = s\<lparr> lg_ring := ring_put sz e (lg_ring s), lg_count := lg_count s + 1 \<rparr>"

text \<open>The bytes from tail to head, in at most two pieces, as they are copied to the flush buffer.\<close>

definition ring_copy :: "nat \<Rightarrow> ring \<Rightarrow> bytes" where
  "ring_copy sz r =
    (if rg_tail r \<le> rg_head r then map (rg_buf r) [rg_tail r..<rg_head r]
     else map (rg_buf r) [rg_tail r..<sz] @ map (rg_buf r) [0..<rg_head r])"

text \<open>The part of \<open>log_sample\<close> under the lock; the second result is the pending SD flush.\<close>

definition log_store ::
  "('fs, 'h) sdlib \<Rightarrow> nat \<Rightarrow> bool \<Rightarrow> 'fs \<Rightarrow> bytes \<Rightarrow> 'h logger \<Rightarrow> 'h logger \<times> bytes" where
  "log_store lib sz network_down fs e s0 =
    (let s = s0\<lparr> lg_high_water_warned := (lg_high_water_warned s0 \<or> high_water sz s0) \<rparr> in
     if can_fit sz (lg_ring s) (length e)
     then (ring_store sz (take (free_space (rg_head (lg_ring s)) (rg_tail (lg_ring s)) sz) e) s, [])
     else let (ok, s1) = (if network_down then init_sd lib fs s else (False, s));
              flush = (if ok then ring_copy sz (lg_ring s1) else []);
              s2 = s1\<lparr> lg_ring := (lg_ring s1)\<lparr> rg_tail := rg_head (lg_ring s1) \<rparr>, lg_count := 0 \<rparr>;
              s3 = (if can_fit sz (lg_ring s2) (length e) then ring_store sz e s2 else s2)
          in (s3, flush))"

definition log_sample ::
  "('fs, 'h) sdlib \<Rightarrow> nat \<Rightarrow> bool \<Rightarrow> (SensorSnapshot \<Rightarrow> u32 \<Rightarrow> int \<Rightarrow> bytes) \<Rightarrow>
   (bool \<Rightarrow> int \<Rightarrow> u32 \<Rightarrow> string) \<Rightarrow> bytes \<Rightarrow> u32 \<Rightarrow> SensorSnapshot \<Rightarrow> u32 \<Rightarrow>
   'h logger \<times> 'fs \<Rightarrow> 'h logger \<times> 'fs" where
  "log_sample lib sz network_down row path header now data ts w =
    (let (s0, fs) = w;
         e = enc_entry (build_entry data ts s0);
         (s1, flush) = log_store lib sz network_down fs e (remember data ts s0);
         (s2, fs2) = flush_buffer_to_sd lib flush (s1, fs);
         epoch = (if lg_epoch_valid s2 then lg_epoch_offset s2 + int (unat ts div 1000) else 0)
     in if lg_sd_present s2
        then sd_write_csv_row lib (row data ts epoch) (path (lg_epoch_valid s2) epoch ts) header now (s2, fs2)
        else (s2, fs2))"

section \<open>Reading\<close>

text \<open>\<open>room\<close> is \<open>out_len - written\<close>.\<close>

function pop_ring :: "nat \<Rightarrow> nat \<Rightarrow> 'h logger \<Rightarrow> bytes \<times> 'h logger" where
  "pop_ring sz room s =
    (if DELTA_SIZE \<le> room \<and> rg_tail (lg_ring s) \<noteq> rg_head (lg_ring s) then
       let es = entry_size (rg_buf (lg_ring s) (rg_tail (lg_ring s)))
       in if room < es then ([], s)
          else let (bs, r) = ring_get sz es (lg_ring s);
                   (rest, s') = pop_ring sz (room - es) (s\<lparr> lg_ring := r, lg_count := lg_count s - 1 \<rparr>)
               in (bs @ rest, s')
     else ([], s))"
  by pat_completeness auto
termination by (relation "measure (\<lambda>(sz, room, s). room)") (auto simp: entry_size_def split: if_splits)

declare pop_ring.simps [simp del]

definition log_pop_batch :: "nat \<Rightarrow> nat \<Rightarrow> 'h logger \<Rightarrow> bytes \<times> 'h logger" where
  "log_pop_batch sz out_len s =
    (let (bs, s1) = pop_ring sz out_len s in
     (bs, if lg_high_water_warned s1 \<and> \<not> high_water sz s1
          then s1\<lparr> lg_high_water_warned := False \<rparr> else s1))"

record LogSnapshot =
  ls_timestamp_s :: u32
  ls_voltage :: "f32 list"
  ls_current :: "f32 list"
  ls_power :: "f32 list"

definition log_peek_latest :: "'h logger \<Rightarrow> LogSnapshot option" where
  "log_peek_latest s =
    (if \<not> lg_have_base s then None
     else Some \<lparr> ls_timestamp_s = word_of_int (lg_epoch_offset s + int (unat (lg_last_ts s) div 1000)),
       ls_voltage = map (\<lambda>x. f_div (f_of_int (sint x)) (f_of_int 1000)) (lg_last_v s),
       ls_current = map (\<lambda>x. f_div (f_of_int (sint x)) (f_of_int 1000)) (lg_last_i s),
       ls_power = map (\<lambda>x. f_of_int (sint x)) (lg_last_p s) \<rparr>)"

definition log_entries_count :: "'h logger \<Rightarrow> nat" where
  "log_entries_count s = lg_count s"

definition log_is_full :: "nat \<Rightarrow> 'h logger \<Rightarrow> bool" where
  "log_is_full sz s = (\<not> can_fit sz (lg_ring s) DELTA_SIZE)"

definition log_buffer_used_pct :: "nat \<Rightarrow> 'h logger \<Rightarrow> nat" where
  "log_buffer_used_pct sz s = ring_used sz (lg_ring s) * 100 div sz"

definition log_has_overflow_file :: "('fs, 'h) sdlib \<Rightarrow> 'h logger \<times> 'fs \<Rightarrow> bool \<times> 'h logger" where
  "log_has_overflow_file lib w =
    (let (ok, s) = init_sd lib (snd w) (fst w) in (ok \<and> sd_exists lib LOG_OVERFLOW_FILE (snd w), s))"

definition log_overflow_file_size :: "('fs, 'h) sdlib \<Rightarrow> 'h logger \<times> 'fs \<Rightarrow> nat \<times> 'h logger" where
  "log_overflow_file_size lib w =
    (let (ok, s) = init_sd lib (snd w) (fst w) in
     (if \<not> ok then 0
      else case lg_overflow_file s of Some h \<Rightarrow> sd_size lib h
         | None \<Rightarrow> (case sd_open_read lib LOG_OVERFLOW_FILE (snd w) of None \<Rightarrow> 0 | Some h \<Rightarrow> sd_size lib h), s))"

definition log_open_overflow_for_read :: "('fs, 'h) sdlib \<Rightarrow> 'h logger \<times> 'fs \<Rightarrow> bool \<times> 'h logger" where
  "log_open_overflow_for_read lib w =
    (let (ok, s) = init_sd lib (snd w) (fst w) in
     if \<not> ok \<or> \<not> sd_exists lib LOG_OVERFLOW_FILE (snd w) then (False, s)
     else let h = sd_open_read lib LOG_OVERFLOW_FILE (snd w)
          in (h \<noteq> None, s\<lparr> lg_overflow_file := h \<rparr>))"

definition log_read_overflow_chunk :: "('fs, 'h) sdlib \<Rightarrow> nat \<Rightarrow> 'h logger \<Rightarrow> bytes \<times> 'h logger" where
  "log_read_overflow_chunk lib n s =
    (case lg_overflow_file s of None \<Rightarrow> ([], s)
     | Some h \<Rightarrow> (fst (sd_read lib h n), s\<lparr> lg_overflow_file := Some (snd (sd_read lib h n)) \<rparr>))"

definition log_close_overflow :: "('fs, 'h) sdlib \<Rightarrow> 'h logger \<times> 'fs \<Rightarrow> 'h logger \<times> 'fs" where
  "log_close_overflow lib w =
    (case lg_overflow_file (fst w) of None \<Rightarrow> w
     | Some h \<Rightarrow> ((fst w)\<lparr> lg_overflow_file := None \<rparr>, snd (sd_remove lib LOG_OVERFLOW_FILE (snd w))))"

definition log_close_overflow_keep :: "'h logger \<Rightarrow> 'h logger" where
  "log_close_overflow_keep s = s\<lparr> lg_overflow_file := None \<rparr>"

section \<open>Queue of unpublished telemetry\<close>

definition save_telemetry_overflow ::
  "('fs, 'h) sdlib \<Rightarrow> bytes \<Rightarrow> 'h logger \<times> 'fs \<Rightarrow> bool \<times> 'h logger \<times> 'fs" where
  "save_telemetry_overflow lib data w =
    (if data = [] then (False, w)
     else let (ok, s) = init_sd lib (snd w) (fst w); fs = snd w in
       if \<not> ok then (False, s, fs)
       else let fs1 = overflow_capped lib TELEM_OVERFLOW_FILE fs in
         case sd_open_append lib TELEM_OVERFLOW_FILE fs1 of
           None \<Rightarrow> (False, s, fs1)
         | Some fs2 \<Rightarrow>
             let (written, fs3) = sd_write lib TELEM_OVERFLOW_FILE data fs2;
                 fs4 = (if written = length data
                        then snd (sd_write lib TELEM_OVERFLOW_FILE [10] fs3) else fs3)
             in (written = length data, s, fs4))"

text \<open>One line of at most \<open>n\<close> bytes, byte by byte; \<open>read()\<close> of one byte past the end is \<open>EOF\<close>.\<close>

fun read_line :: "('fs, 'h) sdlib \<Rightarrow> nat \<Rightarrow> 'h \<Rightarrow> bytes \<times> 'h" where
  "read_line lib 0 h = ([], h)"
| "read_line lib (Suc n) h =
    (let (b, h') = sd_read lib h 1 in
     case b of [] \<Rightarrow> ([], h')
     | c # _ \<Rightarrow> if c = 10 then ([], h')
                else let (cs, h'') = read_line lib n h' in (c # cs, h''))"

definition drain_telemetry_overflow ::
  "('fs, 'h) sdlib \<Rightarrow> nat \<Rightarrow> 'h logger \<times> 'fs \<Rightarrow> bytes \<times> 'h logger \<times> 'fs" where
  "drain_telemetry_overflow lib out_len w =
    (if out_len = 0 then ([], w)
     else let (ok, s) = init_sd lib (snd w) (fst w); fs = snd w in
       if \<not> ok \<or> \<not> sd_exists lib TELEM_OVERFLOW_FILE fs then ([], s, fs)
       else case (case lg_telem_file s of None \<Rightarrow> sd_open_read lib TELEM_OVERFLOW_FILE fs | f \<Rightarrow> f) of
              None \<Rightarrow> ([], s, fs)
            | Some h \<Rightarrow>
                let (line, h') = read_line lib (out_len - 1) h in
                if line = [] \<or> fst (sd_read lib h' 1) = []
                then (line, s\<lparr> lg_telem_file := None \<rparr>, snd (sd_remove lib TELEM_OVERFLOW_FILE fs))
                else (line, s\<lparr> lg_telem_file := Some h' \<rparr>, fs))"

section \<open>The ring holds whole entries\<close>

definition encs :: "entry list \<Rightarrow> bytes" where
  "encs es = concat (map enc_entry es)"

definition log_inv :: "nat \<Rightarrow> entry list \<Rightarrow> 'h logger \<Rightarrow> bool" where
  "log_inv sz es s = (0 < sz \<and> ring_inv sz (lg_ring s) \<and> ring_content sz (lg_ring s) = encs es \<and>
     lg_count s = length es \<and> list_all wf_entry es)"

lemma encs_simps [simp]: "encs [] = []" "encs (e # es) = enc_entry e @ encs es"
    "encs (es @ es') = encs es @ encs es'"
  by (simp_all add: encs_def)

lemma ring_content_empty: "ring_inv sz r \<Longrightarrow> ring_content sz r = [] \<longleftrightarrow> rg_tail r = rg_head r"
  by (auto simp: ring_content_def ring_used_def ring_inv_def)

lemma encs_empty [simp]: "encs es = [] \<longleftrightarrow> es = []"
  by (cases es) auto

lemma ring_copy_content: "ring_inv sz r \<Longrightarrow> ring_copy sz r = ring_content sz r"
proof (rule nth_equalityI)
  assume r: "ring_inv sz r"
  show "length (ring_copy sz r) = length (ring_content sz r)"
    using r by (auto simp: ring_copy_def ring_used_def ring_inv_def)
  fix k assume "k < length (ring_copy sz r)"
  then show "ring_copy sz r ! k = ring_content sz r ! k"
    using r by (auto simp: ring_copy_def ring_content_def ring_used_def ring_inv_def nth_append mod_if
        add.commute [of k "rg_tail r"])
qed

lemma can_fit_free:
  "\<lbrakk> can_fit sz r n; ring_inv sz r \<rbrakk> \<Longrightarrow> n < free_space (rg_head r) (rg_tail r) sz"
  by (auto simp: can_fit_def split: if_splits)

lemma log_inv_store:
  assumes "log_inv sz es s" "wf_entry e" "can_fit sz (lg_ring s) (length (enc_entry e))"
  shows "log_inv sz (es @ [e]) (ring_store sz (enc_entry e) s)"
proof -
  have r: "ring_inv sz (lg_ring s)" and z: "0 < sz" using assms(1) by (simp_all add: log_inv_def)
  have fits: "length (enc_entry e) \<le> free_space (rg_head (lg_ring s)) (rg_tail (lg_ring s)) sz"
    using can_fit_free [OF assms(3) r] by simp
  show ?thesis
    using byte_ring.put_content [of sz "lg_ring s" "enc_entry e"]
      byte_ring.put_inv [of sz "lg_ring s" "enc_entry e"] fits assms(1,2)
    by (simp add: log_inv_def ring_store_def)
qed

lemma log_inv_empty:
  assumes "log_inv sz es s"
  shows "log_inv sz [] (s\<lparr> lg_ring := (lg_ring s)\<lparr> rg_tail := rg_head (lg_ring s) \<rparr>, lg_count := 0 \<rparr>)"
proof -
  have "ring_inv sz ((lg_ring s)\<lparr> rg_tail := rg_head (lg_ring s) \<rparr>)"
    using assms by (simp add: log_inv_def ring_inv_def)
  then show ?thesis using assms by (simp add: log_inv_def ring_content_empty)
qed

lemma can_fit_empty: "\<lbrakk> rg_tail r = rg_head r; n + 1 < sz \<rbrakk> \<Longrightarrow> can_fit sz r n"
  by (simp add: can_fit_def free_space_def)

lemma log_inv_cong:
  "\<lbrakk> lg_ring s' = lg_ring s; lg_count s' = lg_count s \<rbrakk> \<Longrightarrow> log_inv sz es s' = log_inv sz es s"
  by (simp add: log_inv_def)

lemma init_sd_frame [simp]:
  "lg_ring (snd (init_sd lib fs s)) = lg_ring s" "lg_count (snd (init_sd lib fs s)) = lg_count s"
  "lg_last_v (snd (init_sd lib fs s)) = lg_last_v s" "lg_last_i (snd (init_sd lib fs s)) = lg_last_i s"
  "lg_last_p (snd (init_sd lib fs s)) = lg_last_p s" "lg_last_ts (snd (init_sd lib fs s)) = lg_last_ts s"
  "lg_have_base (snd (init_sd lib fs s)) = lg_have_base s"
  "lg_overflow_file (snd (init_sd lib fs s)) = lg_overflow_file s"
  "lg_telem_file (snd (init_sd lib fs s)) = lg_telem_file s"
  "lg_csv_len (snd (init_sd lib fs s)) = lg_csv_len s"
  "lg_csv_buf (snd (init_sd lib fs s)) = lg_csv_buf s"
  "lg_csv_oob (snd (init_sd lib fs s)) = lg_csv_oob s"
  "lg_csv_last_flush (snd (init_sd lib fs s)) = lg_csv_last_flush s"
  by (simp_all add: init_sd_def)

text \<open>What the lock section does, in both branches.\<close>

lemma log_store_fits:
  assumes "log_inv sz es s" "wf_entry e" "can_fit sz (lg_ring s) (length (enc_entry e))"
  shows "log_inv sz (es @ [e]) (fst (log_store lib sz down fs (enc_entry e) s))"
    and "snd (log_store lib sz down fs (enc_entry e) s) = []"
proof -
  have fr: "length (enc_entry e) < free_space (rg_head (lg_ring s)) (rg_tail (lg_ring s)) sz"
    using can_fit_free [OF assms(3)] assms(1) by (simp add: log_inv_def)
  have "log_inv sz es (s\<lparr> lg_high_water_warned := b \<rparr>)" for b
    using assms(1) by (simp add: log_inv_def)
  from log_inv_store [OF this assms(2)] show
    "log_inv sz (es @ [e]) (fst (log_store lib sz down fs (enc_entry e) s))"
    using assms(3) fr by (simp add: log_store_def)
  show "snd (log_store lib sz down fs (enc_entry e) s) = []"
    using assms(3) by (simp add: log_store_def)
qed

lemma log_store_full:
  assumes "log_inv sz es s" "wf_entry e" "\<not> can_fit sz (lg_ring s) (length (enc_entry e))" "30 < sz"
  shows "log_inv sz [e] (fst (log_store lib sz down fs (enc_entry e) s))"
    and "snd (log_store lib sz down fs (enc_entry e) s) =
      (if down \<and> fst (init_sd lib fs s) then encs es else [])"
proof -
  let ?hw = "s\<lparr> lg_high_water_warned := (lg_high_water_warned s \<or> high_water sz s) \<rparr>"
  define s1 where "s1 = (if down then snd (init_sd lib fs ?hw) else ?hw)"
  have inv: "log_inv sz es s1" using assms(1) by (simp add: s1_def log_inv_def)
  have ring: "lg_ring s1 = lg_ring s" by (simp add: s1_def)
  have fit: "can_fit sz ((lg_ring s)\<lparr> rg_tail := rg_head (lg_ring s) \<rparr>) (length (enc_entry e))"
    using enc_entry_bounds [OF assms(2)] assms(4) by (intro can_fit_empty) auto
  have "fst (init_sd lib fs ?hw) = fst (init_sd lib fs s)" by (simp add: init_sd_def)
  then have eq: "log_store lib sz down fs (enc_entry e) s =
    (ring_store sz (enc_entry e) (s1\<lparr> lg_ring := (lg_ring s1)\<lparr> rg_tail := rg_head (lg_ring s1) \<rparr>, lg_count := 0 \<rparr>),
     if down \<and> fst (init_sd lib fs s) then ring_copy sz (lg_ring s1) else [])"
    using assms(3) fit by (simp add: log_store_def case_prod_beta Let_def ring s1_def)
  show "log_inv sz [e] (fst (log_store lib sz down fs (enc_entry e) s))"
    using log_inv_store [OF log_inv_empty [OF inv] assms(2)] fit by (simp add: eq ring)
  show "snd (log_store lib sz down fs (enc_entry e) s) =
      (if down \<and> fst (init_sd lib fs s) then encs es else [])"
    using assms(1) ring_copy_content [of sz "lg_ring s"] by (simp add: eq ring log_inv_def)
qed

text \<open>Popping: the longest run of whole entries that fits in the room.\<close>

fun pop_count :: "nat \<Rightarrow> entry list \<Rightarrow> nat" where
  "pop_count room [] = 0"
| "pop_count room (e # es) =
    (if DELTA_SIZE \<le> room \<and> length (enc_entry e) \<le> room
     then Suc (pop_count (room - length (enc_entry e)) es) else 0)"

lemma ring_first_byte:
  "\<lbrakk> ring_inv sz r; ring_content sz r = b # bs \<rbrakk> \<Longrightarrow> rg_buf r (rg_tail r) = b"
  by (auto simp: ring_content_def ring_inv_def map_eq_Cons_conv upt_eq_Cons_conv)

lemma pop_ring_spec:
  assumes "log_inv sz es s"
  shows "fst (pop_ring sz room s) = encs (take (pop_count room es) es) \<and>
    log_inv sz (drop (pop_count room es) es) (snd (pop_ring sz room s)) \<and>
    (let s' = snd (pop_ring sz room s) in
      lg_last_v s' = lg_last_v s \<and> lg_last_i s' = lg_last_i s \<and> lg_last_p s' = lg_last_p s \<and>
      lg_last_ts s' = lg_last_ts s \<and> lg_have_base s' = lg_have_base s)"
  using assms
proof (induction es arbitrary: room s)
  case Nil
  then have "rg_tail (lg_ring s) = rg_head (lg_ring s)"
    using ring_content_empty [of sz "lg_ring s"] by (auto simp: log_inv_def)
  then show ?case using Nil by (simp add: pop_ring.simps [of sz room s])
next
  case (Cons e es)
  have r: "ring_inv sz (lg_ring s)" and wf: "wf_entry e"
    and c: "ring_content sz (lg_ring s) = enc_entry e @ encs es"
    using Cons.prems by (simp_all add: log_inv_def)
  then have ne: "rg_tail (lg_ring s) \<noteq> rg_head (lg_ring s)"
    using ring_content_empty [OF r] by auto
  have es: "entry_size (rg_buf (lg_ring s) (rg_tail (lg_ring s))) = length (enc_entry e)"
    using ring_first_byte [OF r, of "hd (enc_entry e)" "tl (enc_entry e) @ encs es"] c
      enc_entry_size [OF wf] by (cases "enc_entry e") auto
  show ?case
  proof (cases "DELTA_SIZE \<le> room \<and> length (enc_entry e) \<le> room")
    case True
    let ?g = "ring_get sz (length (enc_entry e)) (lg_ring s)"
    let ?s1 = "s\<lparr> lg_ring := snd ?g, lg_count := lg_count s - 1 \<rparr>"
    have z: "0 < sz \<and> ring_inv sz (lg_ring s)" using Cons.prems by (simp add: log_inv_def)
    note g = byte_ring.get_block [OF z c]
    have inv: "log_inv sz es ?s1"
      using Cons.prems g(2,3) by (auto simp: log_inv_def)
    note ih = Cons.IH [OF inv, of "room - length (enc_entry e)"]
    have g1: "fst ?g = enc_entry e" using arg_cong [OF g(1), of fst] by simp
    have "pop_ring sz room s = (enc_entry e @ fst (pop_ring sz (room - length (enc_entry e)) ?s1),
        snd (pop_ring sz (room - length (enc_entry e)) ?s1))"
      using True ne by (subst pop_ring.simps) (simp add: es g1 case_prod_beta Let_def)
    then show ?thesis using True ih by (simp add: Let_def)
  next
    case False
    then have "pop_ring sz room s = ([], s)"
      using ne by (subst pop_ring.simps) (auto simp: es Let_def)
    then show ?thesis using False Cons.prems by (auto simp: Let_def)
  qed
qed

section \<open>Delta decoding\<close>

text \<open>The reader of the stream: a base sets the running sample, a delta adds to it.\<close>

type_synonym sample = "u32 \<times> i16 list \<times> i16 list \<times> i16 list"

fun replay :: "sample option \<Rightarrow> entry list \<Rightarrow> sample list option" where
  "replay cur [] = Some []"
| "replay cur (BaseEntry ts v i p # es) =
    map_option ((#) (ts, v, i, p)) (replay (Some (ts, v, i, p)) es)"
| "replay None (DeltaEntry dt v i p # es) = None"
| "replay (Some (ts, v0, i0, p0)) (DeltaEntry dt v i p # es) =
    (let x = (ts + ucast dt, map2 (+) v0 v, map2 (+) i0 i, map2 (+) p0 p)
     in map_option ((#) x) (replay (Some x) es))"

definition sample_of :: "SensorSnapshot \<Rightarrow> u32 \<Rightarrow> sample" where
  "sample_of data ts = (ts, quantize data)"

definition last_sample :: "'h logger \<Rightarrow> sample option" where
  "last_sample s = (if lg_have_base s then Some (lg_last_ts s, lg_last_v s, lg_last_i s, lg_last_p s) else None)"

definition wf_last :: "'h logger \<Rightarrow> bool" where
  "wf_last s = (length (lg_last_v s) = 4 \<and> length (lg_last_i s) = 4 \<and> length (lg_last_p s) = 4)"

definition run_end :: "sample option \<Rightarrow> sample list \<Rightarrow> sample option" where
  "run_end cur xs = (if xs = [] then cur else Some (last xs))"

lemma append_Cons_fun: "(@) (x # xs) = (\<lambda>ys. x # xs @ ys)"
  by (rule ext) simp

lemma replay_append:
  "replay cur (es @ es') = (case replay cur es of None \<Rightarrow> None
     | Some xs \<Rightarrow> map_option ((@) xs) (replay (run_end cur xs) es'))"
proof (induction cur es rule: replay.induct)
  case (1 cur)
  then show ?case by (cases "replay cur es'") (simp_all add: run_end_def)
next
  case (2 cur ts v i p es)
  then show ?case
    by (auto simp: run_end_def option.map_comp comp_def append_Cons_fun split: option.splits)
next
  case (4 ts v0 i0 p0 dt v i p es)
  then show ?case
    by (auto simp: run_end_def Let_def option.map_comp comp_def append_Cons_fun split: option.splits)
qed auto

lemma map2_add_diff: "length xs = length ys \<Longrightarrow> map2 (+) (ys :: 'a :: ab_group_add list) (map2 (-) xs ys) = xs"
  by (induction xs ys rule: list_induct2) auto

lemma length_quantize:
  "length (fst (quantize d)) = 4" "length (fst (snd (quantize d))) = 4" "length (snd (snd (quantize d))) = 4"
  by (simp_all add: quantize_def)

lemma build_entry_wf: "wf_last s \<Longrightarrow> wf_entry (build_entry data ts s)"
  by (simp add: build_entry_def wf_last_def case_prod_beta Let_def length_quantize)

lemma dt_small: "dt \<le> (60000 :: u32) \<Longrightarrow> ucast (ucast dt :: u16) = dt"
proof -
  assume "dt \<le> 60000"
  then have "unat dt < 2 ^ 16" by (simp add: word_le_nat_alt)
  then have "unat (ucast (ucast dt :: u16) :: u32) = unat dt"
    by (simp add: unsigned_ucast_eq unsigned_take_bit_eq take_bit_nat_eq_self)
  then show ?thesis by (simp only: word_unat_eq_iff)
qed

lemma build_entry_replay:
  "wf_last s \<Longrightarrow> replay (last_sample s) [build_entry data ts s] = Some [sample_of data ts]"
  by (auto simp: build_entry_def last_sample_def sample_of_def wf_last_def case_prod_beta Let_def
      map2_add_diff length_quantize dt_small not_less)

lemma last_sample_remember: "last_sample (remember data ts s) = Some (sample_of data ts)"
  by (simp add: last_sample_def remember_def sample_of_def case_prod_beta)

lemma remember_frame [simp]:
  "lg_ring (remember data ts s) = lg_ring s" "lg_count (remember data ts s) = lg_count s"
  "lg_overflow_file (remember data ts s) = lg_overflow_file s"
  by (simp_all add: remember_def case_prod_beta)

lemma wf_last_remember: "wf_last (remember data ts s)"
  by (simp add: remember_def wf_last_def case_prod_beta length_quantize)

text \<open>The card side of \<open>log_sample\<close> leaves the ring and the running sample alone.\<close>

definition same_log :: "'h logger \<Rightarrow> 'h logger \<Rightarrow> bool" where
  "same_log s s' = (lg_ring s = lg_ring s' \<and> lg_count s = lg_count s' \<and> lg_last_v s = lg_last_v s' \<and>
     lg_last_i s = lg_last_i s' \<and> lg_last_p s = lg_last_p s' \<and> lg_last_ts s = lg_last_ts s' \<and>
     lg_have_base s = lg_have_base s')"

lemma same_log_refl [simp]: "same_log s s"
  by (simp add: same_log_def)

lemma same_log_trans: "\<lbrakk> same_log a b; same_log b c \<rbrakk> \<Longrightarrow> same_log a c"
  by (simp add: same_log_def)

lemma same_log_inv: "same_log s s' \<Longrightarrow> log_inv sz es s = log_inv sz es s'"
  by (simp add: same_log_def log_inv_def)

lemma same_log_last: "same_log s s' \<Longrightarrow> last_sample s = last_sample s' \<and> wf_last s = wf_last s'"
  by (simp add: same_log_def last_sample_def wf_last_def)

lemma flush_same_log: "same_log (fst (flush_buffer_to_sd lib bs w)) (fst w)"
  by (simp add: flush_buffer_to_sd_def same_log_def case_prod_beta Let_def sd_reset_def split: option.split)

lemma csv_append_same: "same_log (csv_append row s) s"
  by (simp add: csv_append_def same_log_def Let_def)

lemma csv_same_log: "same_log (fst (sd_write_csv_row lib row path hdr now w)) (fst w)"
proof -
  define c where "c = csv_append row (fst w)"
  have c: "same_log c (fst w)" by (simp add: c_def csv_append_same)
  then have "same_log (sd_reset c) (fst w)"
    "same_log (c\<lparr> lg_csv_oob := a, lg_csv_len := 0, lg_csv_last_flush := now \<rparr>) (fst w)" for a
    by (simp_all add: same_log_def sd_reset_def)
  with c show ?thesis
    unfolding sd_write_csv_row_def Let_def case_prod_beta c_def [symmetric]
    by (simp split: option.split)
qed

lemma log_sample_log:
  "same_log (fst (log_sample lib sz down row path hdr now data ts (s, fs)))
     (fst (log_store lib sz down fs (enc_entry (build_entry data ts s)) (remember data ts s)))"
proof -
  let ?l = "log_store lib sz down fs (enc_entry (build_entry data ts s)) (remember data ts s)"
  have 1: "same_log (fst (flush_buffer_to_sd lib (snd ?l) (fst ?l, fs))) (fst ?l)"
    using flush_same_log [of lib "snd ?l" "(fst ?l, fs)"] by simp
  have 2: "same_log (fst (sd_write_csv_row lib r pa hdr now (flush_buffer_to_sd lib (snd ?l) (fst ?l, fs)))) (fst ?l)"
    for r pa
    by (rule same_log_trans [OF csv_same_log 1])
  show ?thesis using 1 2 by (simp add: log_sample_def case_prod_beta Let_def)
qed

lemma log_store_last:
  "last_sample (fst (log_store lib sz down fs e s)) = last_sample s \<and>
   wf_last (fst (log_store lib sz down fs e s)) = wf_last s"
  by (simp add: log_store_def last_sample_def wf_last_def case_prod_beta Let_def ring_store_def)

text \<open>The reader at the level of bytes.\<close>

definition un_i16s :: "nat \<Rightarrow> bytes \<Rightarrow> i16 list" where
  "un_i16s n bs = map (\<lambda>i. un_le16 (seg (2 * i) 2 bs)) [0..<n]"

definition dec_entry :: "bytes \<Rightarrow> entry" where
  "dec_entry bs =
    (if hd bs = ENTRY_BASE
     then BaseEntry (un_le32 (seg 1 4 bs)) (un_i16s 4 (seg 5 8 bs)) (un_i16s 4 (seg 13 8 bs)) (un_i16s 4 (seg 21 8 bs))
     else DeltaEntry (un_le16 (seg 1 2 bs)) (un_i16s 4 (seg 3 8 bs)) (un_i16s 4 (seg 11 8 bs)) (un_i16s 4 (seg 19 8 bs)))"

function parse_log :: "bytes \<Rightarrow> entry list option" where
  "parse_log bs =
    (if bs = [] then Some []
     else if length bs < entry_size (hd bs) then None
     else map_option ((#) (dec_entry bs)) (parse_log (drop (entry_size (hd bs)) bs)))"
  by pat_completeness auto
termination by (relation "measure length") (auto simp: entry_size_def)

declare parse_log.simps [simp del]

definition decode_log :: "bytes \<Rightarrow> sample list option" where
  "decode_log bs = (case parse_log bs of None \<Rightarrow> None | Some es \<Rightarrow> replay None es)"

lemma un_i16s_bytes [simp]: "length xs = n \<Longrightarrow> un_i16s n (i16s_bytes xs) = xs"
  unfolding un_i16s_def i16s_bytes_def
  by (rule nth_equalityI) (simp_all add: seg_blocks)

lemma dec_enc_entry: "wf_entry e \<Longrightarrow> dec_entry (enc_entry e @ rest) = e"
  by (cases e) (simp_all add: dec_entry_def codec_simps)

lemma parse_encs: "list_all wf_entry es \<Longrightarrow> parse_log (encs es) = Some es"
proof (induction es)
  case Nil
  then show ?case by (simp add: parse_log.simps)
next
  case (Cons e es)
  then have n: "entry_size (hd (enc_entry e @ encs es)) = length (enc_entry e)"
    using enc_entry_size [of e] by simp
  show ?case
    using Cons by (subst parse_log.simps) (simp add: n dec_enc_entry del: hd_append2)
qed

section \<open>Runs of samples and pops\<close>

datatype log_op = Sample bool u32 SensorSnapshot u32 | Pop nat

fun log_run ::
  "('fs, 'h) sdlib \<Rightarrow> nat \<Rightarrow> (SensorSnapshot \<Rightarrow> u32 \<Rightarrow> int \<Rightarrow> bytes) \<Rightarrow>
   (bool \<Rightarrow> int \<Rightarrow> u32 \<Rightarrow> string) \<Rightarrow> bytes \<Rightarrow> log_op list \<Rightarrow> 'h logger \<times> 'fs \<Rightarrow> bytes \<times> 'h logger \<times> 'fs" where
  "log_run lib sz row path hdr [] w = ([], w)"
| "log_run lib sz row path hdr (Sample down now data ts # ops) w =
    log_run lib sz row path hdr ops (log_sample lib sz down row path hdr now data ts w)"
| "log_run lib sz row path hdr (Pop n # ops) w =
    (let (bs, s1) = log_pop_batch sz n (fst w);
         (rest, w') = log_run lib sz row path hdr ops (s1, snd w)
     in (bs @ rest, w'))"

text \<open>Every sample finds room in the ring.\<close>

fun never_full ::
  "('fs, 'h) sdlib \<Rightarrow> nat \<Rightarrow> (SensorSnapshot \<Rightarrow> u32 \<Rightarrow> int \<Rightarrow> bytes) \<Rightarrow>
   (bool \<Rightarrow> int \<Rightarrow> u32 \<Rightarrow> string) \<Rightarrow> bytes \<Rightarrow> log_op list \<Rightarrow> 'h logger \<times> 'fs \<Rightarrow> bool" where
  "never_full lib sz row path hdr [] w = True"
| "never_full lib sz row path hdr (Sample down now data ts # ops) w =
    (can_fit sz (lg_ring (fst w)) (length (enc_entry (build_entry data ts (fst w)))) \<and>
     never_full lib sz row path hdr ops (log_sample lib sz down row path hdr now data ts w))"
| "never_full lib sz row path hdr (Pop n # ops) w =
    never_full lib sz row path hdr ops (snd (log_pop_batch sz n (fst w)), snd w)"

fun samples_of :: "log_op list \<Rightarrow> sample list" where
  "samples_of [] = []"
| "samples_of (Sample down now data ts # ops) = sample_of data ts # samples_of ops"
| "samples_of (Pop n # ops) = samples_of ops"

lemma log_pop_batch_spec:
  assumes "log_inv sz es s"
  shows "fst (log_pop_batch sz n s) = encs (take (pop_count n es) es)"
    and "log_inv sz (drop (pop_count n es) es) (snd (log_pop_batch sz n s))"
    and "last_sample (snd (log_pop_batch sz n s)) = last_sample s"
    and "wf_last (snd (log_pop_batch sz n s)) = wf_last s"
  using pop_ring_spec [OF assms, of n]
  by (simp_all add: log_pop_batch_def case_prod_beta Let_def last_sample_def wf_last_def log_inv_def)

lemma log_sample_spec:
  assumes "log_inv sz es s" "wf_last s" "can_fit sz (lg_ring s) (length (enc_entry (build_entry data ts s)))"
  shows "log_inv sz (es @ [build_entry data ts s]) (fst (log_sample lib sz down row path hdr now data ts (s, fs)))"
    and "last_sample (fst (log_sample lib sz down row path hdr now data ts (s, fs))) = Some (sample_of data ts)"
    and "wf_last (fst (log_sample lib sz down row path hdr now data ts (s, fs)))"
proof -
  note same = log_sample_log [of lib sz down row path hdr now data ts s fs]
  have "log_inv sz es (remember data ts s)" using assms(1) by (simp add: log_inv_def)
  from log_store_fits(1) [OF this build_entry_wf [OF assms(2)]] assms(3)
  show "log_inv sz (es @ [build_entry data ts s]) (fst (log_sample lib sz down row path hdr now data ts (s, fs)))"
    unfolding same_log_inv [OF same] by simp
  show "last_sample (fst (log_sample lib sz down row path hdr now data ts (s, fs))) = Some (sample_of data ts)"
    and "wf_last (fst (log_sample lib sz down row path hdr now data ts (s, fs)))"
    using same_log_last [OF same] by (simp_all add: log_store_last last_sample_remember wf_last_remember)
qed

lemma log_run_spec:
  assumes "log_inv sz es (fst w)" "wf_last (fst w)" "never_full lib sz row path hdr ops w"
  shows "\<exists>out left new. fst (log_run lib sz row path hdr ops w) = encs out \<and>
    log_inv sz left (fst (snd (log_run lib sz row path hdr ops w))) \<and> out @ left = es @ new \<and>
    list_all wf_entry new \<and>
    replay (last_sample (fst w)) new = Some (samples_of ops)"
  using assms
proof (induction ops arbitrary: es w)
  case Nil
  then show ?case by (intro exI [of _ "[]"] exI [of _ es]) simp
next
  case (Cons op ops)
  obtain s fs where w: "w = (s, fs)" by (cases w)
  show ?case
  proof (cases op)
    case (Sample down now data ts)
    let ?e = "build_entry data ts s"
    let ?w = "log_sample lib sz down row path hdr now data ts w"
    have inv: "log_inv sz es s" "wf_last s" "can_fit sz (lg_ring s) (length (enc_entry ?e))"
      and nf: "never_full lib sz row path hdr ops ?w"
      using Cons.prems by (simp_all add: Sample w)
    note sp = log_sample_spec [OF inv, of lib down row path hdr now fs]
    from Cons.IH [of "es @ [?e]" ?w] sp nf obtain out left new where
      ih: "fst (log_run lib sz row path hdr ops ?w) = encs out"
        "log_inv sz left (fst (snd (log_run lib sz row path hdr ops ?w)))"
        "out @ left = es @ ?e # new" "list_all wf_entry new"
        "replay (Some (sample_of data ts)) new = Some (samples_of ops)"
      by (auto simp: w)
    have "replay (last_sample s) (?e # new) = Some (sample_of data ts # samples_of ops)"
      using replay_append [of "last_sample s" "[?e]" new] build_entry_replay [OF inv(2), of data ts] ih(5)
      by (simp add: run_end_def)
    then show ?thesis
      using ih build_entry_wf [OF inv(2), of data ts]
      by (intro exI [of _ out] exI [of _ left] exI [of _ "?e # new"]) (simp add: Sample w)
  next
    case (Pop n)
    let ?w = "(snd (log_pop_batch sz n s), fs)"
    have inv: "log_inv sz es s" "wf_last s" and nf: "never_full lib sz row path hdr ops ?w"
      using Cons.prems by (simp_all add: Pop w)
    note sp = log_pop_batch_spec [OF inv(1), of n]
    from Cons.IH [of "drop (pop_count n es) es" ?w] sp nf inv obtain out left new where
      ih: "fst (log_run lib sz row path hdr ops ?w) = encs out"
        "log_inv sz left (fst (snd (log_run lib sz row path hdr ops ?w)))"
        "out @ left = drop (pop_count n es) es @ new" "list_all wf_entry new"
        "replay (last_sample s) new = Some (samples_of ops)"
      by auto
    then show ?thesis using sp
      by (intro exI [of _ "take (pop_count n es) es @ out"] exI [of _ left] exI [of _ new])
        (simp add: Pop w case_prod_beta Let_def)
  qed
qed

section \<open>The card under its laws\<close>

lemma sd_laws:
  assumes "sd_lawful lib view rest"
  shows "sd_exists lib p fs = (view fs p \<noteq> None)"
    and "view (snd (sd_remove lib p fs)) = (view fs)(p := None)"
    and "sd_open_append lib p fs = Some fs' \<Longrightarrow>
      view fs' = (view fs)(p \<mapsto> (case view fs p of None \<Rightarrow> [] | Some b \<Rightarrow> b))"
    and "view fs p = Some b \<Longrightarrow>
      view (snd (sd_write lib p bs fs)) = (view fs)(p \<mapsto> b @ take (fst (sd_write lib p bs fs)) bs)"
    and "sd_open_read lib p fs = Some h \<Longrightarrow> view fs p = Some (rest h)"
    and "sd_open_read lib p fs = Some h \<Longrightarrow> sd_size lib h = length (rest h)"
    and "q \<noteq> p \<Longrightarrow> view (sd_mkdir lib p fs) q = view fs q"
    and "fst (sd_read lib h n) = take n (rest h)"
    and "rest (snd (sd_read lib h n)) = drop n (rest h)"
proof -
  note l = assms [unfolded sd_lawful_def]
  show "sd_exists lib p fs = (view fs p \<noteq> None)"
    using l [THEN conjunct1] by blast
  show "view (snd (sd_remove lib p fs)) = (view fs)(p := None)"
    using l [THEN conjunct2, THEN conjunct1] by blast
  show "sd_open_append lib p fs = Some fs' \<Longrightarrow>
      view fs' = (view fs)(p \<mapsto> (case view fs p of None \<Rightarrow> [] | Some b \<Rightarrow> b))"
    using l [THEN conjunct2, THEN conjunct2, THEN conjunct1] by blast
  show "view fs p = Some b \<Longrightarrow>
      view (snd (sd_write lib p bs fs)) = (view fs)(p \<mapsto> b @ take (fst (sd_write lib p bs fs)) bs)"
    using l [THEN conjunct2, THEN conjunct2, THEN conjunct2, THEN conjunct1] by blast
  show "sd_open_read lib p fs = Some h \<Longrightarrow> view fs p = Some (rest h)"
    using l [THEN conjunct2, THEN conjunct2, THEN conjunct2, THEN conjunct2, THEN conjunct1] by blast
  show "sd_open_read lib p fs = Some h \<Longrightarrow> sd_size lib h = length (rest h)"
    using l [THEN conjunct2, THEN conjunct2, THEN conjunct2, THEN conjunct2, THEN conjunct1] by blast
  show "q \<noteq> p \<Longrightarrow> view (sd_mkdir lib p fs) q = view fs q"
    using l [THEN conjunct2, THEN conjunct2, THEN conjunct2, THEN conjunct2, THEN conjunct2, THEN conjunct1] by blast
  show "fst (sd_read lib h n) = take n (rest h)"
    using l [THEN conjunct2, THEN conjunct2, THEN conjunct2, THEN conjunct2, THEN conjunct2, THEN conjunct2] by blast
  show "rest (snd (sd_read lib h n)) = drop n (rest h)"
    using l [THEN conjunct2, THEN conjunct2, THEN conjunct2, THEN conjunct2, THEN conjunct2, THEN conjunct2] by blast
qed

text \<open>A card that is a map from paths to contents, for the concrete evaluations.\<close>

definition map_card :: "(string \<Rightarrow> bytes option, bytes) sdlib" where
  "map_card = \<lparr> sd_begin = (\<lambda>_. True), sd_exists = (\<lambda>p m. m p \<noteq> None),
     sd_remove = (\<lambda>p m. (m p \<noteq> None, m(p := None))), sd_mkdir = (\<lambda>p m. m),
     sd_open_read = (\<lambda>p m. m p), sd_size = length,
     sd_read = (\<lambda>h n. (take n h, drop n h)),
     sd_open_append = (\<lambda>p m. Some (case m p of None \<Rightarrow> m(p \<mapsto> []) | Some _ \<Rightarrow> m)),
     sd_write = (\<lambda>p bs m. case m p of None \<Rightarrow> (0, m) | Some b \<Rightarrow> (length bs, m(p \<mapsto> b @ bs))),
     sd_total = (\<lambda>_. 0), sd_used = (\<lambda>_. 0), sd_dir = (\<lambda>_ _. None) \<rparr>"

lemma map_card_lawful: "sd_lawful map_card (\<lambda>m. m) (\<lambda>h. h)"
  by (auto simp: sd_lawful_def map_card_def split: option.splits)

section \<open>Spilling to the card\<close>

lemma view_prune_loop:
  assumes "sd_lawful lib view rest" "\<forall>n. q \<noteq> ''/logs/'' @ n"
  shows "view (prune_loop lib cap ns fs) q = view fs q"
  using assms by (induction ns arbitrary: fs) (simp_all add: sd_laws(2) [OF assms(1)])

lemma view_prune:
  assumes "sd_lawful lib view rest" "\<forall>n. q \<noteq> ''/logs/'' @ n"
  shows "view (sd_prune_old_csv lib fs) q = view fs q"
  by (simp add: sd_prune_old_csv_def Let_def view_prune_loop [OF assms] split: option.split)

lemma view_append_other:
  assumes "sd_lawful lib view rest" "sd_open_append lib p fs = Some fs'" "q \<noteq> p"
  shows "view fs' q = view fs q" "\<exists>b. view fs' p = Some b"
  using sd_laws(3) [OF assms(1,2)] assms(3) by auto

lemma view_write_other:
  assumes "sd_lawful lib view rest" "\<exists>b. view fs p = Some b" "q \<noteq> p"
  shows "view (snd (sd_write lib p bs fs)) q = view fs q" "\<exists>b. view (snd (sd_write lib p bs fs)) p = Some b"
  using sd_laws(4) [OF assms(1)] assms(2,3) by auto

lemma view_csv:
  assumes "sd_lawful lib view rest" "\<forall>n. q \<noteq> ''/logs/'' @ n" "q \<noteq> ''/logs''" "q \<noteq> path"
  shows "view (snd (sd_write_csv_row lib row path hdr now w)) q = view (snd w) q"
proof -
  let ?fs1 = "sd_prune_old_csv lib (snd w)"
  define fs2 where "fs2 = (if sd_exists lib ''/logs'' ?fs1 then ?fs1 else sd_mkdir lib ''/logs'' ?fs1)"
  have 2: "view fs2 q = view (snd w) q"
    using view_prune [OF assms(1,2)] sd_laws(7) [OF assms(1,3)] unfolding fs2_def by simp
  show ?thesis
  proof (cases "sd_open_append lib path fs2")
    case None
    then show ?thesis using 2
      unfolding sd_write_csv_row_def case_prod_beta Let_def fs2_def [symmetric] by simp
  next
    case (Some fs3)
    define fs4 where "fs4 = (if \<not> sd_exists lib path fs2 then snd (sd_write lib path hdr fs3) else fs3)"
    note 3 = view_append_other [OF assms(1) Some assms(4)]
    note w3 = view_write_other [OF assms(1) 3(2) assms(4)]
    have 4: "view fs4 q = view (snd w) q" using 2 3(1) w3(1) unfolding fs4_def by simp
    have 5: "\<exists>b. view fs4 path = Some b" using 3(2) w3(2) unfolding fs4_def by (simp split: if_split)
    have "view (snd (sd_write lib path bs fs4)) q = view (snd w) q" for bs
      using view_write_other(1) [OF assms(1) 5 assms(4)] 4 by simp
    with 2 Some show ?thesis
      unfolding sd_write_csv_row_def case_prod_beta Let_def fs2_def [symmetric]
      by (simp add: fs4_def [symmetric])
  qed
qed

lemma capped_same:
  assumes "sd_lawful lib view rest" "\<forall>b. view fs p = Some b \<longrightarrow> length b < LOG_OVERFLOW_MAX_BYTES"
  shows "overflow_capped lib p fs = fs"
  using sd_laws(5,6) [OF assms(1), of p fs] assms(2)
  by (auto simp: overflow_capped_def split: option.split)

definition old_content :: "bytes option \<Rightarrow> bytes" where
  "old_content x = (case x of None \<Rightarrow> [] | Some b \<Rightarrow> b)"

lemma view_full_write:
  assumes "sd_lawful lib view rest" "view fs p = Some b" "fst (sd_write lib p bs fs) = length bs"
  shows "view (snd (sd_write lib p bs fs)) p = Some (b @ bs)"
  unfolding sd_laws(4) [OF assms(1,2)] assms(3) by simp

lemma flush_appends:
  assumes "sd_lawful lib view rest" "fst (init_sd lib fs s)" "bs \<noteq> []"
    "length (old_content (view fs LOG_OVERFLOW_FILE)) < LOG_OVERFLOW_MAX_BYTES"
    "sd_open_append lib LOG_OVERFLOW_FILE fs = Some fs2" "fst (sd_write lib LOG_OVERFLOW_FILE bs fs2) = length bs"
  shows "view (snd (flush_buffer_to_sd lib bs (s, fs))) LOG_OVERFLOW_FILE =
    Some (old_content (view fs LOG_OVERFLOW_FILE) @ bs)"
proof -
  have cap: "overflow_capped lib LOG_OVERFLOW_FILE fs = fs"
    using assms(4) by (intro capped_same [OF assms(1)]) (auto simp: old_content_def)
  have "view fs2 LOG_OVERFLOW_FILE = Some (old_content (view fs LOG_OVERFLOW_FILE))"
    using sd_laws(3) [OF assms(1,5)] by (simp add: old_content_def)
  then have 4: "view (snd (sd_write lib LOG_OVERFLOW_FILE bs fs2)) LOG_OVERFLOW_FILE =
      Some (old_content (view fs LOG_OVERFLOW_FILE) @ bs)"
    by (rule view_full_write [OF assms(1) _ assms(6)])
  have "snd (flush_buffer_to_sd lib bs (s, fs)) = snd (sd_write lib LOG_OVERFLOW_FILE bs fs2)"
    unfolding flush_buffer_to_sd_def Let_def case_prod_beta fst_conv snd_conv cap
    using assms(2,3,5) by simp
  with 4 show ?thesis by (simp only:)
qed

section \<open>Lines of the telemetry queue\<close>

definition queue_lines :: "bytes list \<Rightarrow> bytes" where
  "queue_lines ls = concat (map (\<lambda>l. l @ [10]) ls)"

lemma queue_lines_simps [simp]: "queue_lines [] = []" "queue_lines (l # ls) = l @ 10 # queue_lines ls"
  by (simp_all add: queue_lines_def)

lemma queue_lines_empty [simp]: "queue_lines ls = [] \<longleftrightarrow> ls = []"
  by (cases ls) auto

lemma read_line_spec:
  assumes "sd_lawful lib view rest" "rest h = l @ 10 # ys" "10 \<notin> set l" "length l \<le> n"
  shows "fst (read_line lib n h) = l \<and>
    rest (snd (read_line lib n h)) = (if length l < n then ys else 10 # ys)"
  using assms(2-)
proof (induction n arbitrary: h l)
  case 0
  then show ?case by simp
next
  case (Suc n)
  note r = sd_laws(8,9) [OF assms(1), of h 1]
  show ?case
  proof (cases l)
    case Nil
    then show ?thesis using Suc.prems r by (simp add: case_prod_beta Let_def)
  next
    case (Cons c cs)
    with Suc.prems r have "fst (sd_read lib h 1) = [c]" "rest (snd (sd_read lib h 1)) = cs @ 10 # ys" "c \<noteq> 10"
      by auto
    with Suc.IH [of "snd (sd_read lib h 1)" cs] Suc.prems Cons show ?thesis
      by (auto simp: case_prod_beta Let_def)
  qed
qed

text \<open>The open handle, or the one a drain would open.\<close>

definition telem_handle :: "('fs, 'h) sdlib \<Rightarrow> 'h logger \<times> 'fs \<Rightarrow> 'h option" where
  "telem_handle lib w = (case lg_telem_file (fst w) of
     None \<Rightarrow> sd_open_read lib TELEM_OVERFLOW_FILE (snd w) | f \<Rightarrow> f)"

lemma drain_eq:
  assumes "0 < out_len" "fst (init_sd lib (snd w) (fst w))" "sd_exists lib TELEM_OVERFLOW_FILE (snd w)"
    "telem_handle lib w = Some h"
  shows "drain_telemetry_overflow lib out_len w =
    (let (line, h') = read_line lib (out_len - 1) h; s = snd (init_sd lib (snd w) (fst w)); fs = snd w in
     if line = [] \<or> fst (sd_read lib h' 1) = []
     then (line, s\<lparr> lg_telem_file := None \<rparr>, snd (sd_remove lib TELEM_OVERFLOW_FILE fs))
     else (line, s\<lparr> lg_telem_file := Some h' \<rparr>, fs))"
proof -
  have "(case lg_telem_file (snd (init_sd lib (snd w) (fst w))) of
      None \<Rightarrow> sd_open_read lib TELEM_OVERFLOW_FILE (snd w) | f \<Rightarrow> f) = Some h"
    using assms(4) by (simp add: telem_handle_def)
  then show ?thesis using assms(1-3)
    by (simp add: drain_telemetry_overflow_def case_prod_beta Let_def)
qed

section \<open>The exchange sort and the pruning order\<close>

lemma exchange_pass_spec:
  "mset (fst (exchange_pass x xs) # snd (exchange_pass x xs)) = mset (x # xs) \<and>
   (\<forall>y \<in> set (x # xs). fst (exchange_pass x xs) \<le> y)"
proof (induction xs arbitrary: x)
  case (Cons y ys)
  show ?case
  proof (cases "y < x")
    case True
    then show ?thesis using Cons.IH [of y] by (auto simp: case_prod_beta Let_def add_mset_commute)
  next
    case False
    then show ?thesis using Cons.IH [of x] by (auto simp: case_prod_beta Let_def add_mset_commute not_less)
  qed
qed simp

lemma exchange_sort_mset: "mset (exchange_sort xs) = mset xs"
proof (induction xs rule: exchange_sort.induct)
  case (2 x xs)
  then show ?case using exchange_pass_spec [of x xs] by simp
qed simp

lemma exchange_sort_set: "set (exchange_sort xs) = set xs"
  using exchange_sort_mset [of xs] by (metis set_mset_mset)

lemma exchange_sort_sorted: "sorted (exchange_sort xs)"
proof (induction xs rule: exchange_sort.induct)
  case (2 x xs)
  have "set (fst (exchange_pass x xs) # snd (exchange_pass x xs)) = set (x # xs)"
    using exchange_pass_spec [of x xs] by (metis set_mset_mset)
  then show ?case using 2 exchange_pass_spec [of x xs]
    by (auto simp: exchange_sort_set)
qed simp

section \<open>Scenarios\<close>

text \<open>A snapshot of one pod with one channel, and the state after two of its samples (12 V and
12.5 V) in a 64-byte ring.\<close>

definition one_channel :: "f32 \<Rightarrow> SensorSnapshot" where
  "one_channel v = \<lparr> sn_timestamp_ms = 0, sn_pods = [\<lparr> ps_id = 0, ps_type = POD_INA226, ps_name = ''INA226-40'',
     ps_num_channels = 1, ps_channels = [(channel0 0 0)\<lparr> pc_voltage := v \<rparr>] \<rparr>], sn_total_logical_channels = 1 \<rparr>"

definition two_entries :: "entry list" where
  "two_entries = [BaseEntry 1000 [12000, 0, 0, 0] [0, 0, 0, 0] [0, 0, 0, 0],
     DeltaEntry 1000 [500, 0, 0, 0] [0, 0, 0, 0] [0, 0, 0, 0]]"

definition two_samples :: "bytes logger" where
  "two_samples = logger0\<lparr> lg_ring := ring_put 64 (enc_entry (two_entries ! 1))
       (ring_put 64 (enc_entry (two_entries ! 0)) ring0), lg_count := 2,
     lg_last_v := [12500, 0, 0, 0], lg_last_ts := 2000, lg_have_base := True \<rparr>"

section \<open>Properties\<close>

lemma init_data_logger_inv:
  "0 < sz \<Longrightarrow> log_inv sz [] (init_data_logger lib fs logger0) \<and> wf_last (init_data_logger lib fs logger0) \<and>
    last_sample (init_data_logger lib fs (logger0 :: 'h logger)) = None"
  by (simp add: init_data_logger_def log_inv_def wf_last_def last_sample_def logger0_def ring0_def
      ring_inv_def ring_content_def ring_used_def)

text \<open>C11: Whatever the sequence of samples and pops since the logger was initialised, and whatever the card
does, as long as every sample found room in the ring the bytes popped so far followed by the
bytes still in the ring decode to exactly the sampled values, in order, with exact
timestamps (wrap of the 32-bit clock and of the 16-bit differences included), and the entry
counter is the number of entries left.\<close>

theorem log_stream_lossless:
  assumes "0 < sz" "never_full lib sz row path hdr ops (init_data_logger lib fs logger0, fs)"
  shows "let (out, s, fs') = log_run lib sz row path hdr ops (init_data_logger lib fs logger0, fs) in
    decode_log (out @ ring_content sz (lg_ring s)) = Some (samples_of ops) \<and>
    (\<exists>es. parse_log (ring_content sz (lg_ring s)) = Some es \<and> lg_count s = length es)"
proof -
  let ?w = "(init_data_logger lib fs logger0, fs)"
  note i = init_data_logger_inv [OF assms(1), of lib fs]
  from log_run_spec [of sz "[]" ?w lib row path hdr ops] i assms(2) obtain out left new where
    r: "fst (log_run lib sz row path hdr ops ?w) = encs out"
      "log_inv sz left (fst (snd (log_run lib sz row path hdr ops ?w)))" "out @ left = new"
      "list_all wf_entry new" "replay None new = Some (samples_of ops)"
    by auto
  then have "decode_log (encs (out @ left)) = Some (samples_of ops)"
    by (simp add: decode_log_def parse_encs del: encs_simps)
  moreover have "list_all wf_entry left" using r(3,4) by auto
  ultimately show ?thesis using r(1,2) by (auto simp: case_prod_beta Let_def log_inv_def parse_encs)
qed

lemma log_stream_lossless_witness:
  "let ops = [Sample False 0 (one_channel (f_lit 12 1)) 4294967000, Pop 40, Sample False 0 (one_channel (f_lit 25 2)) 704];
       (out, s, fs') = log_run map_card 64 (\<lambda>_ _ _. []) (\<lambda>_ _ _. ''/logs/x.csv'') [] ops
         (init_data_logger map_card (\<lambda>_. None) logger0, \<lambda>_. None)
   in decode_log (out @ ring_content 64 (lg_ring s)) = Some (samples_of ops) \<and>
    (\<exists>es. parse_log (ring_content 64 (lg_ring s)) = Some es \<and> lg_count s = length es)"
proof -
  have "never_full map_card 64 (\<lambda>_ _ _. []) (\<lambda>_ _ _. ''/logs/x.csv'') []
    [Sample False 0 (one_channel (f_lit 12 1)) 4294967000, Pop 40, Sample False 0 (one_channel (f_lit 25 2)) 704]
    (init_data_logger map_card (\<lambda>_. None) logger0, \<lambda>_. None)"
    by code_simp
  from log_stream_lossless [OF _ this] show ?thesis by (simp only: Let_def)
qed

text \<open>A pop returns the encoding of a whole number of entries from the front, at most as many
bytes as the caller's buffer, removes exactly those entries, and always makes progress
when the buffer can hold one entry.\<close>

theorem pop_whole_entries:
  assumes "log_inv sz es s"
  shows "\<exists>k \<le> length es. parse_log (fst (log_pop_batch sz n s)) = Some (take k es) \<and>
    log_inv sz (drop k es) (snd (log_pop_batch sz n s)) \<and>
    length (fst (log_pop_batch sz n s)) \<le> n \<and>
    (29 \<le> n \<longrightarrow> es \<noteq> [] \<longrightarrow> 0 < k)"
proof -
  let ?k = "pop_count n es"
  have "?k \<le> length es" by (induction n es rule: pop_count.induct) auto
  moreover have "length (encs (take ?k es)) \<le> n"
    by (induction n es rule: pop_count.induct) auto
  moreover have wf: "list_all wf_entry es" using assms by (simp add: log_inv_def)
  moreover have "0 < ?k" if "29 \<le> n" "es \<noteq> []"
    using that wf enc_entry_bounds [of "hd es"] by (cases es) auto
  ultimately show ?thesis using log_pop_batch_spec [OF assms, of n]
    by (intro exI [of _ ?k]) (simp add: parse_encs list_all_take)
qed

lemma two_samples_inv: "log_inv 64 two_entries two_samples"
  by code_simp

lemma pop_whole_entries_witness:
  "\<exists>k \<le> length two_entries. parse_log (fst (log_pop_batch 64 40 two_samples)) =
     Some (take k two_entries) \<and> 0 < k"
proof -
  have "two_entries \<noteq> []" by (simp add: two_entries_def)
  with pop_whole_entries [OF two_samples_inv, of 40] show ?thesis by fastforce
qed

end
