(* ===== verification/Battery_Store.thy ===== *)
theory Battery_Store
  imports Settings
begin

text \<open>
  The battery subsystem's storage: \<open>battery_nvs.cpp\<close> (two NVS namespaces opened lazily),
  \<open>battery_profile.cpp\<close> (the chemistry profile registry, 16 slots of which 4 are built in) and
  \<open>battery_state.cpp\<close> (channel bindings and the per-channel state blobs). The \<open>Preferences\<close> library
  answers whether a namespace can be opened and whether a key is accepted: \<open>prefs_env\<close>. The host stub accepts
  everything (\<open>host_env\<close>); the ESP32's NVS documents a limit of 15 characters for both. The critical sections
  are not represented: every operation here is one atomic step.
\<close>

record prefs_env =
  pe_begin :: "string \<Rightarrow> bool"
  pe_key :: "string \<Rightarrow> bool"

definition host_env :: prefs_env where
  "host_env = \<lparr> pe_begin = (\<lambda>_. True), pe_key = (\<lambda>_. True) \<rparr>"

definition nvs_env :: prefs_env where
  "nvs_env = \<lparr> pe_begin = (\<lambda>ns. length ns \<le> 15), pe_key = (\<lambda>k. length k \<le> 15) \<rparr>"

section \<open>Structs\<close>

record BatteryChemistryProfile =
  bcp_id :: u8
  bcp_name :: bytes
  bcp_chemistry :: u8
  bcp_nominal_voltage :: f32
  bcp_rated_capacity_Ah :: f32
  bcp_c_rating :: f32
  bcp_cutoff_voltage :: f32
  bcp_float_voltage :: f32
  bcp_charge_efficiency :: f32
  bcp_cycle_life_rated :: u16
  bcp_min_soc_pct :: f32
  bcp_max_soc_pct :: f32

definition enc_bcp :: "BatteryChemistryProfile \<Rightarrow> bytes" where
  "enc_bcp p = [bcp_id p] @ bcp_name p @ [bcp_chemistry p, 0, 0] @ le32 (bcp_nominal_voltage p) @
     le32 (bcp_rated_capacity_Ah p) @ le32 (bcp_c_rating p) @ le32 (bcp_cutoff_voltage p) @
     le32 (bcp_float_voltage p) @ le32 (bcp_charge_efficiency p) @ le16 (bcp_cycle_life_rated p) @ [0, 0] @
     le32 (bcp_min_soc_pct p) @ le32 (bcp_max_soc_pct p)"

definition dec_bcp :: "bytes \<Rightarrow> BatteryChemistryProfile" where
  "dec_bcp bs = \<lparr> bcp_id = bs ! 0, bcp_name = seg 1 16 bs, bcp_chemistry = bs ! 17,
     bcp_nominal_voltage = un_le32 (seg 20 4 bs), bcp_rated_capacity_Ah = un_le32 (seg 24 4 bs),
     bcp_c_rating = un_le32 (seg 28 4 bs), bcp_cutoff_voltage = un_le32 (seg 32 4 bs),
     bcp_float_voltage = un_le32 (seg 36 4 bs), bcp_charge_efficiency = un_le32 (seg 40 4 bs),
     bcp_cycle_life_rated = un_le16 (seg 44 2 bs), bcp_min_soc_pct = un_le32 (seg 48 4 bs),
     bcp_max_soc_pct = un_le32 (seg 52 4 bs) \<rparr>"

definition wf_bcp :: "BatteryChemistryProfile \<Rightarrow> bool" where
  "wf_bcp p = (length (bcp_name p) = 16)"

lemma length_enc_bcp [simp]: "wf_bcp p \<Longrightarrow> length (enc_bcp p) = 56"
  by (simp add: enc_bcp_def wf_bcp_def)

lemma dec_enc_bcp [simp]: "wf_bcp p \<Longrightarrow> dec_bcp (enc_bcp p) = p"
  by (simp add: dec_bcp_def enc_bcp_def wf_bcp_def codec_simps nth_append nth_Cons')

definition zero_bcp :: BatteryChemistryProfile where
  "zero_bcp = \<lparr> bcp_id = 0, bcp_name = replicate 16 0, bcp_chemistry = 0, bcp_nominal_voltage = 0,
     bcp_rated_capacity_Ah = 0, bcp_c_rating = 0, bcp_cutoff_voltage = 0, bcp_float_voltage = 0,
     bcp_charge_efficiency = 0, bcp_cycle_life_rated = 0, bcp_min_soc_pct = 0, bcp_max_soc_pct = 0 \<rparr>"

text \<open>The built-in table; the names are C strings in 16 bytes.\<close>

definition kBuiltins :: "BatteryChemistryProfile list" where
  "kBuiltins =
    [ \<lparr> bcp_id = 0, bcp_name = fit 16 0 (str_bytes ''12V Lead-Acid''), bcp_chemistry = 0,
        bcp_nominal_voltage = f_lit 12 1, bcp_rated_capacity_Ah = f_lit 100 1, bcp_c_rating = f_lit 1 5,
        bcp_cutoff_voltage = f_lit 21 2, bcp_float_voltage = f_lit 69 5, bcp_charge_efficiency = f_lit 17 20,
        bcp_cycle_life_rated = 500, bcp_min_soc_pct = f_lit 20 1, bcp_max_soc_pct = f_lit 100 1 \<rparr>,
      \<lparr> bcp_id = 1, bcp_name = fit 16 0 (str_bytes ''Li-ion 3.7V''), bcp_chemistry = 1,
        bcp_nominal_voltage = f_lit 37 10, bcp_rated_capacity_Ah = f_lit 5 2, bcp_c_rating = f_lit 1 1,
        bcp_cutoff_voltage = f_lit 3 1, bcp_float_voltage = f_lit 21 5, bcp_charge_efficiency = f_lit 19 20,
        bcp_cycle_life_rated = 500, bcp_min_soc_pct = f_lit 10 1, bcp_max_soc_pct = f_lit 95 1 \<rparr>,
      \<lparr> bcp_id = 2, bcp_name = fit 16 0 (str_bytes ''LiFePO4 3.2V''), bcp_chemistry = 2,
        bcp_nominal_voltage = f_lit 16 5, bcp_rated_capacity_Ah = f_lit 100 1, bcp_c_rating = f_lit 1 1,
        bcp_cutoff_voltage = f_lit 5 2, bcp_float_voltage = f_lit 73 20, bcp_charge_efficiency = f_lit 19 20,
        bcp_cycle_life_rated = 2000, bcp_min_soc_pct = f_lit 10 1, bcp_max_soc_pct = f_lit 100 1 \<rparr>,
      \<lparr> bcp_id = 3, bcp_name = fit 16 0 (str_bytes ''LiPo 3.7V''), bcp_chemistry = 3,
        bcp_nominal_voltage = f_lit 37 10, bcp_rated_capacity_Ah = f_lit 11 5, bcp_c_rating = f_lit 1 1,
        bcp_cutoff_voltage = f_lit 3 1, bcp_float_voltage = f_lit 21 5, bcp_charge_efficiency = f_lit 47 50,
        bcp_cycle_life_rated = 300, bcp_min_soc_pct = f_lit 20 1, bcp_max_soc_pct = f_lit 95 1 \<rparr> ]"

record BatteryState =
  bs_cumulative_Ah_in :: f32
  bs_cumulative_Ah_out :: f32
  bs_equivalent_full_cycles :: f32
  bs_last_SoC_pct :: f32
  bs_last_V :: f32
  bs_last_I :: f32
  bs_last_update_ms :: u32
  bs_last_session_start_pct :: f32
  bs_soh_pct :: f32
  bs_soh_samples :: u32
  bs_last_full_discharge_Ah :: f32

definition batstate0 :: BatteryState where
  "batstate0 = \<lparr> bs_cumulative_Ah_in = 0, bs_cumulative_Ah_out = 0, bs_equivalent_full_cycles = 0,
     bs_last_SoC_pct = 0, bs_last_V = 0, bs_last_I = 0, bs_last_update_ms = 0, bs_last_session_start_pct = 0,
     bs_soh_pct = 0, bs_soh_samples = 0, bs_last_full_discharge_Ah = 0 \<rparr>"

definition enc_batstate :: "BatteryState \<Rightarrow> bytes" where
  "enc_batstate s = le32 (bs_cumulative_Ah_in s) @ le32 (bs_cumulative_Ah_out s) @
     le32 (bs_equivalent_full_cycles s) @ le32 (bs_last_SoC_pct s) @ le32 (bs_last_V s) @ le32 (bs_last_I s) @
     le32 (bs_last_update_ms s) @ le32 (bs_last_session_start_pct s) @ le32 (bs_soh_pct s) @
     le32 (bs_soh_samples s) @ le32 (bs_last_full_discharge_Ah s)"

definition dec_batstate :: "bytes \<Rightarrow> BatteryState" where
  "dec_batstate b = \<lparr> bs_cumulative_Ah_in = un_le32 (seg 0 4 b), bs_cumulative_Ah_out = un_le32 (seg 4 4 b),
     bs_equivalent_full_cycles = un_le32 (seg 8 4 b), bs_last_SoC_pct = un_le32 (seg 12 4 b),
     bs_last_V = un_le32 (seg 16 4 b), bs_last_I = un_le32 (seg 20 4 b), bs_last_update_ms = un_le32 (seg 24 4 b),
     bs_last_session_start_pct = un_le32 (seg 28 4 b), bs_soh_pct = un_le32 (seg 32 4 b),
     bs_soh_samples = un_le32 (seg 36 4 b), bs_last_full_discharge_Ah = un_le32 (seg 40 4 b) \<rparr>"

lemma length_enc_batstate [simp]: "length (enc_batstate s) = 44"
  by (simp add: enc_batstate_def)

lemma dec_enc_batstate [simp]: "dec_batstate (enc_batstate s) = s"
  by (simp add: dec_batstate_def enc_batstate_def codec_simps)

section \<open>State\<close>

record battery =
  bt_nvs :: nvs
  bt_state_opened :: bool
  bt_profile_opened :: bool
  bt_profiles :: "BatteryChemistryProfile list"
  bt_populated :: u8
  bt_channel_profile :: "u8 list"

abbreviation BatteryStateNs :: string where "BatteryStateNs \<equiv> ''pm-battery-state''"
abbreviation BatteryProfileNs :: string where "BatteryProfileNs \<equiv> ''pm-battery-profile''"
abbreviation NO_BINDING :: u8 where "NO_BINDING \<equiv> 0xFF"

definition battery0 :: "nvs \<Rightarrow> battery" where
  "battery0 n = \<lparr> bt_nvs = n, bt_state_opened = False, bt_profile_opened = False,
     bt_profiles = replicate 16 zero_bcp, bt_populated = 4, bt_channel_profile = replicate 16 0 \<rparr>"

section \<open>The two namespaces\<close>

definition ensure_state_prefs_open :: "prefs_env \<Rightarrow> battery \<Rightarrow> bool \<times> battery" where
  "ensure_state_prefs_open env b =
    (if bt_state_opened b then (True, b)
     else (pe_begin env BatteryStateNs, b\<lparr> bt_state_opened := pe_begin env BatteryStateNs \<rparr>))"

definition ensure_profile_prefs_open :: "prefs_env \<Rightarrow> battery \<Rightarrow> bool \<times> battery" where
  "ensure_profile_prefs_open env b =
    (if bt_profile_opened b then (True, b)
     else (pe_begin env BatteryProfileNs, b\<lparr> bt_profile_opened := pe_begin env BatteryProfileNs \<rparr>))"

definition state_get_locked :: "prefs_env \<Rightarrow> string \<Rightarrow> nat \<Rightarrow> battery \<Rightarrow> bytes option \<times> battery" where
  "state_get_locked env key max_len b =
    (if max_len = 0 then (None, b)
     else let (ok, b1) = ensure_state_prefs_open env b; m = bt_nvs b1 BatteryStateNs in
       if \<not> ok \<or> pf_getBytesLength m key \<noteq> max_len then (None, b1)
       else (Some (pf_getBytes m key max_len), b1))"

definition state_put_locked :: "prefs_env \<Rightarrow> string \<Rightarrow> bytes \<Rightarrow> battery \<Rightarrow> bool \<times> battery" where
  "state_put_locked env key bs b =
    (let (ok, b1) = ensure_state_prefs_open env b in
     if \<not> ok \<or> \<not> pe_key env key then (False, b1)
     else (True, b1\<lparr> bt_nvs := (bt_nvs b1)(BatteryStateNs := pf_putBytes key bs (bt_nvs b1 BatteryStateNs)) \<rparr>))"

definition state_get_u8_locked :: "prefs_env \<Rightarrow> string \<Rightarrow> battery \<Rightarrow> u8 option \<times> battery" where
  "state_get_u8_locked env key b =
    (let (ok, b1) = ensure_state_prefs_open env b; m = bt_nvs b1 BatteryStateNs in
     if \<not> ok \<or> \<not> pf_isKey m key then (None, b1) else (Some (pf_getUChar m key 0), b1))"

definition state_put_u8_locked :: "prefs_env \<Rightarrow> string \<Rightarrow> u8 \<Rightarrow> battery \<Rightarrow> bool \<times> battery" where
  "state_put_u8_locked env key v b =
    (let (ok, b1) = ensure_state_prefs_open env b in
     if \<not> ok \<or> \<not> pe_key env key then (False, b1)
     else (True, b1\<lparr> bt_nvs := (bt_nvs b1)(BatteryStateNs := pf_putUChar key v (bt_nvs b1 BatteryStateNs)) \<rparr>))"

definition state_remove_locked :: "prefs_env \<Rightarrow> string \<Rightarrow> battery \<Rightarrow> battery" where
  "state_remove_locked env key b =
    (let (ok, b1) = ensure_state_prefs_open env b in
     if \<not> ok then b1
     else b1\<lparr> bt_nvs := (bt_nvs b1)(BatteryStateNs := pf_remove key (bt_nvs b1 BatteryStateNs)) \<rparr>)"

definition profile_get_locked :: "prefs_env \<Rightarrow> string \<Rightarrow> nat \<Rightarrow> battery \<Rightarrow> bytes option \<times> battery" where
  "profile_get_locked env key max_len b =
    (if max_len = 0 then (None, b)
     else let (ok, b1) = ensure_profile_prefs_open env b; m = bt_nvs b1 BatteryProfileNs in
       if \<not> ok \<or> pf_getBytesLength m key \<noteq> max_len then (None, b1)
       else (Some (pf_getBytes m key max_len), b1))"

definition profile_put_locked :: "prefs_env \<Rightarrow> string \<Rightarrow> bytes \<Rightarrow> battery \<Rightarrow> bool \<times> battery" where
  "profile_put_locked env key bs b =
    (let (ok, b1) = ensure_profile_prefs_open env b in
     if \<not> ok \<or> \<not> pe_key env key then (False, b1)
     else (True, b1\<lparr> bt_nvs := (bt_nvs b1)(BatteryProfileNs := pf_putBytes key bs (bt_nvs b1 BatteryProfileNs)) \<rparr>))"

definition profile_get_u8_locked :: "prefs_env \<Rightarrow> string \<Rightarrow> battery \<Rightarrow> u8 option \<times> battery" where
  "profile_get_u8_locked env key b =
    (let (ok, b1) = ensure_profile_prefs_open env b; m = bt_nvs b1 BatteryProfileNs in
     if \<not> ok \<or> \<not> pf_isKey m key then (None, b1) else (Some (pf_getUChar m key 0), b1))"

definition profile_put_u8_locked :: "prefs_env \<Rightarrow> string \<Rightarrow> u8 \<Rightarrow> battery \<Rightarrow> bool \<times> battery" where
  "profile_put_u8_locked env key v b =
    (let (ok, b1) = ensure_profile_prefs_open env b in
     if \<not> ok \<or> \<not> pe_key env key then (False, b1)
     else (True, b1\<lparr> bt_nvs := (bt_nvs b1)(BatteryProfileNs := pf_putUChar key v (bt_nvs b1 BatteryProfileNs)) \<rparr>))"

definition battery_nvs_state_close :: "battery \<Rightarrow> battery" where
  "battery_nvs_state_close b = b\<lparr> bt_state_opened := False \<rparr>"

definition battery_nvs_profile_close :: "battery \<Rightarrow> battery" where
  "battery_nvs_profile_close b = b\<lparr> bt_profile_opened := False \<rparr>"

text \<open>The public entry points take the lock around the same steps.\<close>

abbreviation battery_nvs_state_get :: "prefs_env \<Rightarrow> string \<Rightarrow> nat \<Rightarrow> battery \<Rightarrow> bytes option \<times> battery" where
  "battery_nvs_state_get \<equiv> state_get_locked"
abbreviation battery_nvs_state_put :: "prefs_env \<Rightarrow> string \<Rightarrow> bytes \<Rightarrow> battery \<Rightarrow> bool \<times> battery" where
  "battery_nvs_state_put \<equiv> state_put_locked"
abbreviation battery_nvs_state_get_u8 :: "prefs_env \<Rightarrow> string \<Rightarrow> battery \<Rightarrow> u8 option \<times> battery" where
  "battery_nvs_state_get_u8 \<equiv> state_get_u8_locked"
abbreviation battery_nvs_state_put_u8 :: "prefs_env \<Rightarrow> string \<Rightarrow> u8 \<Rightarrow> battery \<Rightarrow> bool \<times> battery" where
  "battery_nvs_state_put_u8 \<equiv> state_put_u8_locked"
abbreviation battery_nvs_state_remove :: "prefs_env \<Rightarrow> string \<Rightarrow> battery \<Rightarrow> battery" where
  "battery_nvs_state_remove \<equiv> state_remove_locked"

text \<open>What \<open>settings_factory_reset\<close> does to NVS: the settings and the two battery namespaces are cleared,
the latter if they open.\<close>

definition clear_ns :: "prefs_env \<Rightarrow> string \<Rightarrow> nvs \<Rightarrow> nvs" where
  "clear_ns env ns n = (if pe_begin env ns then n(ns := pf_clear (n ns)) else n)"

definition factory_wipe :: "prefs_env \<Rightarrow> nvs \<Rightarrow> nvs" where
  "factory_wipe env n =
    clear_ns env BatteryProfileNs (clear_ns env BatteryStateNs (n(''pm-settings'' := pf_clear (n ''pm-settings''))))"

section \<open>Profiles\<close>

abbreviation ProfilesKey :: string where "ProfilesKey \<equiv> ''bat_profiles_v1''"
abbreviation ProfilesVerKey :: string where "ProfilesVerKey \<equiv> ''bat_profiles_ver''"

definition profile_slot_valid :: "BatteryChemistryProfile \<Rightarrow> bool" where
  "profile_slot_valid p = (bcp_name p ! 0 \<noteq> 0 \<and> f_gt (bcp_rated_capacity_Ah p) (f_lit 1 1000))"

definition profile_blob :: "battery \<Rightarrow> bytes" where
  "profile_blob b = 1 # concat (map enc_bcp (bt_profiles b))"

definition persist_profiles_locked :: "prefs_env \<Rightarrow> battery \<Rightarrow> bool \<times> battery" where
  "persist_profiles_locked env b =
    (let (ok, b1) = profile_put_locked env ProfilesKey (profile_blob b) b in
     (ok, if ok then snd (profile_put_u8_locked env ProfilesVerKey 1 b1) else b1))"

definition battery_chemistry_name :: "u8 \<Rightarrow> string" where
  "battery_chemistry_name c =
    (if c = 0 then ''lead_acid'' else if c = 1 then ''liion'' else if c = 2 then ''lfp''
     else if c = 3 then ''lipo'' else if c = 4 then ''nicd'' else if c = 5 then ''nimh''
     else if c = 6 then ''custom'' else ''lead_acid'')"

text \<open>The overlay of a persisted table, slot by slot from \<open>i\<close> on.\<close>

fun overlay_profiles ::
  "nat \<Rightarrow> BatteryChemistryProfile list \<Rightarrow> BatteryChemistryProfile list \<times> u8 \<Rightarrow> BatteryChemistryProfile list \<times> u8" where
  "overlay_profiles i [] acc = acc"
| "overlay_profiles i (p # ps) (gs, pop) =
    overlay_profiles (Suc i) ps
      (if bcp_id p = of_nat i \<and> profile_slot_valid p
       then (gs[i := p], if 4 \<le> i \<and> unat pop < i + 1 then of_nat (i + 1) else pop)
       else (gs, pop))"

definition dec_profiles :: "bytes \<Rightarrow> BatteryChemistryProfile list" where
  "dec_profiles bs = map (\<lambda>i. dec_bcp (seg (56 * i) 56 bs)) [0..<16]"

definition init_battery_profiles :: "prefs_env \<Rightarrow> battery \<Rightarrow> battery" where
  "init_battery_profiles env b =
    (let b0 = b\<lparr> bt_profiles := kBuiltins @ replicate 12 zero_bcp, bt_populated := 4 \<rparr>;
         (version, b1) = profile_get_u8_locked env ProfilesVerKey b0
     in if version \<noteq> Some 1 then b1
        else case profile_get_locked env ProfilesKey 897 b1 of
            (None, b2) \<Rightarrow> b2
          | (Some raw, b2) \<Rightarrow>
              (case overlay_profiles 0 (dec_profiles (drop 1 raw)) (bt_profiles b2, 4) of
                (gs, pop) \<Rightarrow> b2\<lparr> bt_profiles := gs, bt_populated := pop \<rparr>))"

definition battery_profile_get :: "battery \<Rightarrow> u8 \<Rightarrow> BatteryChemistryProfile option" where
  "battery_profile_get b i =
    (if 16 \<le> i then None
     else if i < bt_populated b \<and> profile_slot_valid (bt_profiles b ! unat i)
     then Some (bt_profiles b ! unat i) else None)"

definition battery_profile_list_ids :: "battery \<Rightarrow> u8 \<Rightarrow> u8 list" where
  "battery_profile_list_ids b m = map of_nat [0..<min (unat (bt_populated b)) (unat m)]"

definition battery_profile_set :: "prefs_env \<Rightarrow> BatteryChemistryProfile \<Rightarrow> battery \<Rightarrow> bool \<times> battery" where
  "battery_profile_set env p b =
    (if 16 \<le> bcp_id p then (False, b)
     else if bcp_name p ! 0 = 0 then (False, b)
     else if f_le (bcp_rated_capacity_Ah p) (f_lit 1 1000) then (False, b)
     else persist_profiles_locked env (b\<lparr> bt_profiles := (bt_profiles b)[unat (bcp_id p) := p],
            bt_populated := (if bt_populated b < bcp_id p + 1 then bcp_id p + 1 else bt_populated b) \<rparr>))"

text \<open>Dropping empty slots from the end, never below the built-in ones.\<close>

fun trim_populated :: "BatteryChemistryProfile list \<Rightarrow> nat \<Rightarrow> nat" where
  "trim_populated gs 0 = 0"
| "trim_populated gs (Suc n) =
    (if Suc n \<le> 4 \<or> profile_slot_valid (gs ! n) then Suc n else trim_populated gs n)"

definition battery_profile_delete :: "prefs_env \<Rightarrow> u8 \<Rightarrow> battery \<Rightarrow> bool \<times> battery" where
  "battery_profile_delete env i b =
    (if i < 4 \<or> 16 \<le> i \<or> bt_populated b \<le> i then (False, b)
     else let gs = (bt_profiles b)[unat i := zero_bcp];
              pop = (if i + 1 = bt_populated b then of_nat (trim_populated gs (unat (bt_populated b)))
                     else bt_populated b)
          in persist_profiles_locked env (b\<lparr> bt_profiles := gs, bt_populated := pop \<rparr>))"

definition battery_profile_reset_builtin :: "prefs_env \<Rightarrow> u8 \<Rightarrow> battery \<Rightarrow> battery" where
  "battery_profile_reset_builtin env i b =
    (if 4 \<le> i then b
     else snd (persist_profiles_locked env (b\<lparr> bt_profiles := (bt_profiles b)[unat i := kBuiltins ! unat i] \<rparr>)))"

section \<open>Bindings\<close>

abbreviation BindKey :: string where "BindKey \<equiv> ''bat_ch_bind_v1''"
abbreviation BindVer :: string where "BindVer \<equiv> ''bat_ch_bind_ver''"

definition persist_bindings_locked :: "prefs_env \<Rightarrow> battery \<Rightarrow> bool \<times> battery" where
  "persist_bindings_locked env b = state_put_locked env BindKey (bt_channel_profile b) b"

definition init_battery_bindings :: "prefs_env \<Rightarrow> battery \<Rightarrow> battery" where
  "init_battery_bindings env b =
    (let b0 = b\<lparr> bt_channel_profile := replicate 16 NO_BINDING \<rparr>;
         (ver, b1) = battery_nvs_state_get_u8 env BindVer b0
     in if ver \<noteq> Some 1 then b1
        else case battery_nvs_state_get env BindKey 16 b1 of
            (None, b2) \<Rightarrow> b2
          | (Some bs, b2) \<Rightarrow> b2\<lparr> bt_channel_profile := bs \<rparr>)"

definition battery_channel_profile :: "battery \<Rightarrow> u8 \<Rightarrow> u8" where
  "battery_channel_profile b ch = (if 16 \<le> ch then NO_BINDING else bt_channel_profile b ! unat ch)"

definition bind_and_persist :: "prefs_env \<Rightarrow> u8 \<Rightarrow> u8 \<Rightarrow> battery \<Rightarrow> bool \<times> battery" where
  "bind_and_persist env ch pid b =
    (let (ok, b1) = persist_bindings_locked env
           (b\<lparr> bt_channel_profile := (bt_channel_profile b)[unat ch := pid] \<rparr>)
     in (ok, if ok then snd (battery_nvs_state_put_u8 env BindVer 1 b1) else b1))"

definition battery_channel_set_profile :: "prefs_env \<Rightarrow> u8 \<Rightarrow> u8 \<Rightarrow> battery \<Rightarrow> bool \<times> battery" where
  "battery_channel_set_profile env ch pid b =
    (if 16 \<le> ch then (False, b)
     else if pid = NO_BINDING then (False, b)
     else if 16 \<le> pid then (False, b)
     else bind_and_persist env ch pid b)"

definition battery_channel_clear :: "prefs_env \<Rightarrow> u8 \<Rightarrow> battery \<Rightarrow> battery" where
  "battery_channel_clear env ch b = (if 16 \<le> ch then b else snd (bind_and_persist env ch NO_BINDING b))"

section \<open>State blobs\<close>

definition make_state_key :: "u8 \<Rightarrow> string" where
  "make_state_key ch = key_idx 8 ''ch'' ch"

definition migrate_v2 :: "bytes \<Rightarrow> BatteryState" where
  "migrate_v2 b = (dec_batstate b)\<lparr> bs_soh_pct := f_of_int 100, bs_soh_samples := 0, bs_last_full_discharge_Ah := 0 \<rparr>"

definition battery_state_load :: "prefs_env \<Rightarrow> u8 \<Rightarrow> battery \<Rightarrow> BatteryState option \<times> battery" where
  "battery_state_load env ch b =
    (if 16 \<le> ch then (None, b)
     else case battery_nvs_state_get env (make_state_key ch) 45 b of
         (None, b1) \<Rightarrow> (None, b1)
       | (Some buf, b1) \<Rightarrow>
          (let ver = buf ! 0; len = length buf in
           if 3 < ver then (None, b1)
           else if ver = 3 then (if len \<noteq> 45 then None else Some (dec_batstate (drop 1 buf)), b1)
           else if ver = 2 then (if len < 33 then None else Some (migrate_v2 (drop 1 buf)), b1)
           else (None, b1)))"

definition battery_state_save :: "prefs_env \<Rightarrow> u8 \<Rightarrow> BatteryState \<Rightarrow> battery \<Rightarrow> bool \<times> battery" where
  "battery_state_save env ch s b =
    (if 16 \<le> ch then (False, b)
     else battery_nvs_state_put env (make_state_key ch) (3 # enc_batstate s) b)"

definition battery_state_reset :: "prefs_env \<Rightarrow> u8 \<Rightarrow> battery \<Rightarrow> battery" where
  "battery_state_reset env ch b =
    (if 16 \<le> ch then b
     else battery_nvs_state_remove env (make_state_key ch) (snd (battery_state_save env ch batstate0 b)))"

section \<open>The registry as a map\<close>

definition prof_inv :: "battery \<Rightarrow> bool" where
  "prof_inv b = (length (bt_profiles b) = 16 \<and> list_all wf_bcp (bt_profiles b) \<and>
     (\<forall>i<16. profile_slot_valid (bt_profiles b ! i) \<longrightarrow> bcp_id (bt_profiles b ! i) = of_nat i) \<and>
     (\<forall>i<4. profile_slot_valid (bt_profiles b ! i)) \<and>
     4 \<le> unat (bt_populated b) \<and> unat (bt_populated b) \<le> 16 \<and>
     (\<forall>i<16. unat (bt_populated b) \<le> i \<longrightarrow> \<not> profile_slot_valid (bt_profiles b ! i)))"

text \<open>Under the invariant only the slot decides.\<close>

definition slot_view :: "BatteryChemistryProfile list \<Rightarrow> u8 \<Rightarrow> BatteryChemistryProfile option" where
  "slot_view gs i = (if unat i < 16 \<and> profile_slot_valid (gs ! unat i) then Some (gs ! unat i) else None)"

lemma get_slot_view: "prof_inv b \<Longrightarrow> battery_profile_get b = slot_view (bt_profiles b)"
proof (rule ext)
  fix i
  assume b: "prof_inv b"
  show "battery_profile_get b i = slot_view (bt_profiles b) i"
  proof (cases "unat i < 16")
    case True
    then have "\<not> 16 \<le> i" by (simp add: word_le_nat_alt)
    moreover have "i < bt_populated b \<or> \<not> profile_slot_valid (bt_profiles b ! unat i)"
      using b True by (auto simp: prof_inv_def word_less_nat_alt)
    ultimately show ?thesis using True by (auto simp: battery_profile_get_def slot_view_def)
  qed (simp add: battery_profile_get_def slot_view_def word_le_nat_alt)
qed

lemma prof_inv_cong:
  "\<lbrakk> bt_profiles b' = bt_profiles b; bt_populated b' = bt_populated b \<rbrakk> \<Longrightarrow> prof_inv b' = prof_inv b"
  by (simp add: prof_inv_def)

lemma ensure_profile_frame [simp]:
  "bt_profiles (snd (ensure_profile_prefs_open env b)) = bt_profiles b"
  "bt_populated (snd (ensure_profile_prefs_open env b)) = bt_populated b"
  "bt_nvs (snd (ensure_profile_prefs_open env b)) = bt_nvs b"
  by (simp_all add: ensure_profile_prefs_open_def)

lemma profile_io_frame [simp]:
  "bt_profiles (snd (profile_put_locked env k bs b)) = bt_profiles b"
  "bt_populated (snd (profile_put_locked env k bs b)) = bt_populated b"
  "bt_profiles (snd (profile_put_u8_locked env k v b)) = bt_profiles b"
  "bt_populated (snd (profile_put_u8_locked env k v b)) = bt_populated b"
  "bt_profiles (snd (profile_get_locked env k n b)) = bt_profiles b"
  "bt_populated (snd (profile_get_locked env k n b)) = bt_populated b"
  "bt_nvs (snd (profile_get_locked env k n b)) = bt_nvs b"
  "bt_profiles (snd (profile_get_u8_locked env k b)) = bt_profiles b"
  "bt_populated (snd (profile_get_u8_locked env k b)) = bt_populated b"
  "bt_nvs (snd (profile_get_u8_locked env k b)) = bt_nvs b"
  by (simp_all add: profile_put_locked_def profile_put_u8_locked_def profile_get_locked_def
      profile_get_u8_locked_def case_prod_beta Let_def)

lemma persist_frame [simp]:
  "bt_profiles (snd (persist_profiles_locked env b)) = bt_profiles b"
  "bt_populated (snd (persist_profiles_locked env b)) = bt_populated b"
  by (simp_all add: persist_profiles_locked_def case_prod_beta Let_def)

lemma zero_slot [simp]: "\<not> profile_slot_valid zero_bcp" "wf_bcp zero_bcp"
  by (simp_all add: profile_slot_valid_def zero_bcp_def wf_bcp_def)

lemma kBuiltins_ok: "length kBuiltins = 4" "list_all wf_bcp kBuiltins"
    "\<forall>i<4. profile_slot_valid (kBuiltins ! i) \<and> bcp_id (kBuiltins ! i) = of_nat i"
proof -
  show "length kBuiltins = 4" by (simp add: kBuiltins_def)
  show "list_all wf_bcp kBuiltins" by (simp add: kBuiltins_def wf_bcp_def)
  have caps: "f_gt (f_lit 100 1) (f_lit 1 1000)" "f_gt (f_lit 5 2) (f_lit 1 1000)" "f_gt (f_lit 11 5) (f_lit 1 1000)"
    by code_simp+
  have "profile_slot_valid (kBuiltins ! 0) \<and> bcp_id (kBuiltins ! 0) = 0"
    "profile_slot_valid (kBuiltins ! 1) \<and> bcp_id (kBuiltins ! 1) = 1"
    "profile_slot_valid (kBuiltins ! 2) \<and> bcp_id (kBuiltins ! 2) = 2"
    "profile_slot_valid (kBuiltins ! 3) \<and> bcp_id (kBuiltins ! 3) = 3"
    using caps by (simp_all add: kBuiltins_def profile_slot_valid_def fit_def str_bytes_def char_byte_def)
  note k = this
  show "\<forall>i<4. profile_slot_valid (kBuiltins ! i) \<and> bcp_id (kBuiltins ! i) = of_nat i"
  proof (intro allI impI)
    fix i :: nat assume "i < 4"
    then consider "i = 0" | "i = 1" | "i = 2" | "i = 3" by linarith
    then show "profile_slot_valid (kBuiltins ! i) \<and> bcp_id (kBuiltins ! i) = of_nat i"
      by cases (use k in simp_all)
  qed
qed

lemma prof_inv_base: "prof_inv (b\<lparr> bt_profiles := kBuiltins @ replicate 12 zero_bcp, bt_populated := 4 \<rparr>)"
proof -
  have "list_all wf_bcp (replicate 12 zero_bcp)" by (simp add: list_all_iff)
  then show ?thesis
    using kBuiltins_ok by (auto simp: prof_inv_def nth_append)
qed

text \<open>The overlay keeps the invariant whatever the blob holds.\<close>

definition slots_inv :: "BatteryChemistryProfile list \<times> u8 \<Rightarrow> bool" where
  "slots_inv acc = prof_inv ((battery0 (\<lambda>_ _. None))\<lparr> bt_profiles := fst acc, bt_populated := snd acc \<rparr>)"

lemma prof_inv_slots: "prof_inv b = slots_inv (bt_profiles b, bt_populated b)"
  by (simp add: slots_inv_def prof_inv_def)

lemma slots_inv_set:
  assumes "slots_inv (gs, pop)" "wf_bcp p" "bcp_id p = of_nat i" "profile_slot_valid p" "i < 16"
  shows "slots_inv (gs[i := p], if unat pop < i + 1 then of_nat (i + 1) else pop)"
proof -
  have "unat (1 + word_of_nat i :: u8) = Suc i"
    using unat_of_nat_u8 [of "Suc i"] assms(5) by simp
  then show ?thesis using assms
    by (auto simp: slots_inv_def prof_inv_def list_all_update nth_list_update)
qed

lemma slots_inv_set_low:
  assumes "slots_inv (gs, pop)" "wf_bcp p" "bcp_id p = of_nat i" "profile_slot_valid p" "i < 4"
  shows "slots_inv (gs[i := p], pop)"
  using slots_inv_set [OF assms(1-4)] assms(1,5) by (auto simp: slots_inv_def prof_inv_def split: if_splits)

lemma overlay_inv:
  "\<lbrakk> slots_inv acc; list_all wf_bcp ps; i + length ps \<le> 16 \<rbrakk> \<Longrightarrow> slots_inv (overlay_profiles i ps acc)"
proof (induction i ps acc rule: overlay_profiles.induct)
  case (2 i p ps gs pop)
  have "slots_inv (if bcp_id p = of_nat i \<and> profile_slot_valid p
       then (gs[i := p], if 4 \<le> i \<and> unat pop < i + 1 then of_nat (i + 1) else pop) else (gs, pop))"
    using slots_inv_set [of gs pop p i] slots_inv_set_low [of gs pop p i] 2(2-4)
    by (cases "4 \<le> i") auto
  then show ?case using 2 by simp
qed simp

lemma wf_dec_bcp: "length bs = 56 \<Longrightarrow> wf_bcp (dec_bcp bs)"
  by (simp add: wf_bcp_def dec_bcp_def)

lemma wf_dec_profiles: "length bs = 896 \<Longrightarrow> list_all wf_bcp (dec_profiles bs)"
  by (auto simp: list_all_iff dec_profiles_def intro!: wf_dec_bcp)

lemma get_locked_length: "fst (profile_get_locked env k n b) = Some raw \<Longrightarrow> length raw = n"
  by (auto simp: profile_get_locked_def case_prod_beta Let_def pf_getBytes_def pf_getBytesLength_def
      split: if_splits option.splits)

lemma init_profiles_inv: "prof_inv (init_battery_profiles env b)"
proof -
  let ?b0 = "b\<lparr> bt_profiles := kBuiltins @ replicate 12 zero_bcp, bt_populated := 4 \<rparr>"
  let ?b1 = "snd (profile_get_u8_locked env ProfilesVerKey ?b0)"
  let ?g = "profile_get_locked env ProfilesKey 897 ?b1"
  have 1: "prof_inv ?b1" using prof_inv_base by (simp add: prof_inv_def)
  have 2: "prof_inv (snd ?g)" using 1 by (simp add: prof_inv_def)
  show ?thesis
  proof (cases "fst (profile_get_u8_locked env ProfilesVerKey ?b0) = Some 1 \<and> fst ?g \<noteq> None")
    case True
    then obtain raw where raw: "fst ?g = Some raw" by blast
    then have "length (drop 1 raw) = 896" using get_locked_length [OF raw] by simp
    then have "slots_inv (overlay_profiles 0 (dec_profiles (drop 1 raw)) (bt_profiles (snd ?g), 4))"
      using 2 wf_dec_profiles by (intro overlay_inv) (auto simp: prof_inv_slots dec_profiles_def)
    then show ?thesis using True raw
      by (simp add: init_battery_profiles_def case_prod_beta Let_def prof_inv_slots)
  next
    case False
    then show ?thesis using 1 2
      by (auto simp: init_battery_profiles_def case_prod_beta Let_def split: option.splits)
  qed
qed

section \<open>Operations on the registry\<close>

datatype prof_op = PSet BatteryChemistryProfile | PDelete u8 | PReset u8

fun prof_step :: "prefs_env \<Rightarrow> prof_op \<Rightarrow> battery \<Rightarrow> battery" where
  "prof_step env (PSet p) b = snd (battery_profile_set env p b)"
| "prof_step env (PDelete i) b = snd (battery_profile_delete env i b)"
| "prof_step env (PReset i) b = battery_profile_reset_builtin env i b"

definition prof_run :: "prefs_env \<Rightarrow> prof_op list \<Rightarrow> battery \<Rightarrow> battery" where
  "prof_run env ops b = fold (prof_step env) ops b"

text \<open>The specification: a map from slot numbers to profiles.\<close>

fun spec_step :: "prof_op \<Rightarrow> (u8 \<Rightarrow> BatteryChemistryProfile option) \<Rightarrow> u8 \<Rightarrow> BatteryChemistryProfile option" where
  "spec_step (PSet p) m = (if bcp_id p < 16 \<and> profile_slot_valid p then m(bcp_id p \<mapsto> p) else m)"
| "spec_step (PDelete i) m = (if 4 \<le> i \<and> i < 16 then m(i := None) else m)"
| "spec_step (PReset i) m = (if i < 4 then m(i \<mapsto> kBuiltins ! unat i) else m)"

text \<open>Profiles as the callers build them: a 16-byte name and a capacity that is a number.\<close>

fun op_ok :: "prof_op \<Rightarrow> bool" where
  "op_ok (PSet p) = (wf_bcp p \<and> \<not> f_isnan (bcp_rated_capacity_Ah p))"
| "op_ok _ = True"

lemma cap_reject: "\<not> f_isnan x \<Longrightarrow> f_le x (f_lit 1 1000) = (\<not> f_gt x (f_lit 1 1000))"
proof -
  have "\<not> f_isnan (f_lit 1 1000)" by code_simp
  then show "\<not> f_isnan x \<Longrightarrow> f_le x (f_lit 1 1000) = (\<not> f_gt x (f_lit 1 1000))"
    by (auto simp: f_le_def f_lt_def)
qed

lemma slot_view_set: "\<lbrakk> length gs = 16; i < 16; profile_slot_valid p \<rbrakk> \<Longrightarrow>
    slot_view (gs[unat i := p]) = (slot_view gs)(i \<mapsto> p)"
  by (rule ext) (auto simp: slot_view_def nth_list_update word_less_nat_alt word_unat_eq_iff)

lemma slot_view_del: "\<lbrakk> length gs = 16; i < 16 \<rbrakk> \<Longrightarrow> slot_view (gs[unat i := zero_bcp]) = (slot_view gs)(i := None)"
  by (rule ext) (auto simp: slot_view_def nth_list_update word_less_nat_alt word_unat_eq_iff)

lemma trim_bounds: "4 \<le> n \<Longrightarrow> 4 \<le> trim_populated gs n \<and> trim_populated gs n \<le> n \<and>
    (\<forall>i. trim_populated gs n \<le> i \<and> i < n \<longrightarrow> \<not> profile_slot_valid (gs ! i))"
proof (induction n)
  case (Suc n)
  show ?case
  proof (cases "Suc n \<le> 4 \<or> profile_slot_valid (gs ! n)")
    case False
    then have "4 \<le> n" "\<not> profile_slot_valid (gs ! n)" by auto
    with Suc.IH False show ?thesis by (auto simp: less_Suc_eq)
  qed (use Suc.prems in auto)
qed simp

lemma set_spec:
  assumes "prof_inv b" "bcp_id p < 16" "wf_bcp p" "profile_slot_valid p" "\<not> f_isnan (bcp_rated_capacity_Ah p)"
  shows "prof_inv (snd (battery_profile_set env p b))"
    "battery_profile_get (snd (battery_profile_set env p b)) = (battery_profile_get b)(bcp_id p \<mapsto> p)"
proof -
  let ?i = "unat (bcp_id p)"
  let ?pop = "if bt_populated b < bcp_id p + 1 then bcp_id p + 1 else bt_populated b"
  have i: "?i < 16" using assms(2) by (simp add: word_less_nat_alt)
  then have suc: "bcp_id p + 1 = of_nat (?i + 1)" "unat (bcp_id p + 1) = ?i + 1"
    using unat_of_nat_u8 [of "?i + 1"] by (simp_all add: add.commute)
  have eq: "battery_profile_set env p b = persist_profiles_locked env
      (b\<lparr> bt_profiles := (bt_profiles b)[?i := p], bt_populated := ?pop \<rparr>)"
    using assms(2,4,5) cap_reject leD [of 16 "bcp_id p"]
    by (auto simp: battery_profile_set_def profile_slot_valid_def)
  have c: "(bt_populated b < bcp_id p + 1) = (unat (bt_populated b) < ?i + 1)"
    by (simp only: word_less_nat_alt suc(2))
  have "bcp_id p = of_nat ?i" by simp
  have "slots_inv ((bt_profiles b)[?i := p], ?pop)"
    unfolding c unfolding suc(1)
    by (rule slots_inv_set [OF _ assms(3) \<open>bcp_id p = of_nat ?i\<close> assms(4) i])
      (rule assms(1) [unfolded prof_inv_slots])
  then show inv: "prof_inv (snd (battery_profile_set env p b))" by (simp add: eq prof_inv_slots)
  show "battery_profile_get (snd (battery_profile_set env p b)) = (battery_profile_get b)(bcp_id p \<mapsto> p)"
    unfolding get_slot_view [OF inv] get_slot_view [OF assms(1)]
    using slot_view_set [of "bt_profiles b" "bcp_id p" p] assms(1,2,4) by (simp add: eq prof_inv_def)
qed

lemma delete_spec:
  assumes "prof_inv b" "4 \<le> i" "i < 16"
  shows "prof_inv (snd (battery_profile_delete env i b))"
    "battery_profile_get (snd (battery_profile_delete env i b)) = (battery_profile_get b)(i := None)"
proof -
  let ?n = "unat (bt_populated b)"
  let ?gs = "(bt_profiles b)[unat i := zero_bcp]"
  have i: "4 \<le> unat i" "unat i < 16" using assms(2,3) by (simp_all add: word_le_nat_alt word_less_nat_alt)
  have b: "length (bt_profiles b) = 16" "list_all wf_bcp (bt_profiles b)" "4 \<le> ?n" "?n \<le> 16"
    using assms(1) by (simp_all add: prof_inv_def)
  have "prof_inv (snd (battery_profile_delete env i b)) \<and>
    slot_view (bt_profiles (snd (battery_profile_delete env i b))) = (slot_view (bt_profiles b))(i := None)"
  proof (cases "bt_populated b \<le> i")
    case True
    then have "\<not> profile_slot_valid (bt_profiles b ! unat i)"
      using assms(1) i by (simp add: prof_inv_def word_le_nat_alt)
    then have "(slot_view (bt_profiles b))(i := None) = slot_view (bt_profiles b)"
      by (auto simp: slot_view_def fun_eq_iff)
    then show ?thesis using True assms(1) by (simp add: battery_profile_delete_def)
  next
    case False
    let ?pop = "if i + 1 = bt_populated b then of_nat (trim_populated ?gs ?n) else bt_populated b"
    note t = trim_bounds [OF b(3), of ?gs]
    have pop: "unat ?pop = (if i + 1 = bt_populated b then trim_populated ?gs ?n else ?n)"
      using t b(4) by (simp add: unat_of_nat_u8)
    have empty: "\<not> profile_slot_valid (?gs ! k)" if "k < 16" "unat ?pop \<le> k" for k
    proof (cases "k < ?n")
      case True
      then show ?thesis using that(2) t by (auto simp: pop split: if_splits)
    next
      case False
      then have "\<not> profile_slot_valid (bt_profiles b ! k)" using assms(1) that(1) by (simp add: prof_inv_def)
      then show ?thesis using b(1) that(1) i(2) by (simp add: nth_list_update)
    qed
    have "prof_inv (b\<lparr> bt_profiles := ?gs, bt_populated := ?pop \<rparr>)"
      unfolding prof_inv_def
    proof (intro conjI)
      show "\<forall>k<16. unat (bt_populated (b\<lparr> bt_profiles := ?gs, bt_populated := ?pop \<rparr>)) \<le> k \<longrightarrow>
          \<not> profile_slot_valid (bt_profiles (b\<lparr> bt_profiles := ?gs, bt_populated := ?pop \<rparr>) ! k)"
        using empty by simp
    qed (use assms(1) i t b pop in \<open>auto simp: prof_inv_def list_all_update nth_list_update\<close>)
    moreover have "\<not> 16 \<le> i" using assms(3) by (meson leD)
    ultimately show ?thesis using False assms(2,3) b(1) slot_view_del [of "bt_profiles b" i]
      by (simp add: battery_profile_delete_def Let_def prof_inv_slots leD)
  qed
  then show "prof_inv (snd (battery_profile_delete env i b))"
    "battery_profile_get (snd (battery_profile_delete env i b)) = (battery_profile_get b)(i := None)"
    using get_slot_view assms(1) by metis+
qed

lemma reset_spec:
  assumes "prof_inv b" "i < 4"
  shows "prof_inv (battery_profile_reset_builtin env i b)"
    "battery_profile_get (battery_profile_reset_builtin env i b) = (battery_profile_get b)(i \<mapsto> kBuiltins ! unat i)"
proof -
  have i: "unat i < 4" "i < 16" using assms(2) by (simp_all add: word_less_nat_alt)
  have k: "profile_slot_valid (kBuiltins ! unat i)" "bcp_id (kBuiltins ! unat i) = of_nat (unat i)"
    "wf_bcp (kBuiltins ! unat i)"
    using kBuiltins_ok i(1) by (auto simp: list_all_length)
  have eq: "battery_profile_reset_builtin env i b = snd (persist_profiles_locked env
      (b\<lparr> bt_profiles := (bt_profiles b)[unat i := kBuiltins ! unat i] \<rparr>))"
    using assms(2) by (simp add: battery_profile_reset_builtin_def)
  have "slots_inv ((bt_profiles b)[unat i := kBuiltins ! unat i], bt_populated b)"
    using slots_inv_set_low [of "bt_profiles b" "bt_populated b" "kBuiltins ! unat i" "unat i"] assms(1) k i(1)
    by (simp add: prof_inv_slots)
  then show inv: "prof_inv (battery_profile_reset_builtin env i b)" by (simp add: eq prof_inv_slots)
  show "battery_profile_get (battery_profile_reset_builtin env i b) = (battery_profile_get b)(i \<mapsto> kBuiltins ! unat i)"
    unfolding get_slot_view [OF inv] get_slot_view [OF assms(1)]
    using slot_view_set [of "bt_profiles b" i "kBuiltins ! unat i"] assms(1) i(2) k(1) by (simp add: eq prof_inv_def)
qed

lemma prof_step_spec:
  assumes "prof_inv b" "op_ok x"
  shows "prof_inv (prof_step env x b) \<and> battery_profile_get (prof_step env x b) = spec_step x (battery_profile_get b)"
proof (cases x)
  case (PSet p)
  show ?thesis
  proof (cases "bcp_id p < 16 \<and> profile_slot_valid p")
    case True
    then show ?thesis using PSet assms set_spec [of b p env] by simp
  next
    case False
    have "16 \<le> bcp_id p \<or> bcp_name p ! 0 = 0 \<or> f_le (bcp_rated_capacity_Ah p) (f_lit 1 1000)"
      using False assms(2) PSet cap_reject by (auto simp: profile_slot_valid_def not_less)
    then have "battery_profile_set env p b = (False, b)"
      by (auto simp: battery_profile_set_def)
    then show ?thesis using PSet assms False by auto
  qed
next
  case (PDelete i)
  show ?thesis
  proof (cases "4 \<le> i \<and> i < 16")
    case True
    then show ?thesis using PDelete assms delete_spec [of b i env] by simp
  next
    case False
    then have "battery_profile_delete env i b = (False, b)"
      by (auto simp: battery_profile_delete_def not_le not_less)
    then show ?thesis using PDelete assms False by auto
  qed
next
  case (PReset i)
  show ?thesis
  proof (cases "i < 4")
    case True
    then show ?thesis using PReset assms reset_spec [of b i env] by simp
  next
    case False
    then have "battery_profile_reset_builtin env i b = b"
      by (simp add: battery_profile_reset_builtin_def not_less)
    then show ?thesis using PReset assms False by simp
  qed
qed

lemma prof_run_spec:
  "\<lbrakk> prof_inv b; list_all op_ok ops \<rbrakk> \<Longrightarrow>
    prof_inv (prof_run env ops b) \<and> battery_profile_get (prof_run env ops b) = fold spec_step ops (battery_profile_get b)"
proof (induction ops arbitrary: b)
  case (Cons x ops)
  then show ?case using prof_step_spec [of b x env] by (simp add: prof_run_def)
qed (simp add: prof_run_def)


definition sample_profile :: BatteryChemistryProfile where
  "sample_profile = zero_bcp\<lparr> bcp_id := 7, bcp_name := fit 16 0 [65], bcp_rated_capacity_Ah := 0x3F800000 \<rparr>"

lemma sample_profile_ok: "op_ok (PSet sample_profile)" "profile_slot_valid sample_profile" "bcp_id sample_profile = 7"
proof -
  show "op_ok (PSet sample_profile)" by code_simp
  show "profile_slot_valid sample_profile" by code_simp
  show "bcp_id sample_profile = 7" by (simp add: sample_profile_def)
qed


section \<open>Across a reboot\<close>

lemma getUChar_put: "pf_getUChar (pf_putUChar k v m) k d = v"
  by (simp add: pf_getUChar_def pf_putUChar_def)

lemma dec_profile_blob:
  assumes "length gs = 16" "list_all wf_bcp gs"
  shows "dec_profiles (concat (map enc_bcp gs)) = gs"
proof (rule nth_equalityI)
  show "length (dec_profiles (concat (map enc_bcp gs))) = length gs" using assms(1) by (simp add: dec_profiles_def)
  fix i assume "i < length (dec_profiles (concat (map enc_bcp gs)))"
  then have i: "i < 16" by (simp add: dec_profiles_def)
  have "\<forall>x \<in> set gs. length (enc_bcp x) = 56" using assms(2) by (auto simp: list_all_iff)
  then have "seg (56 * i) 56 (concat (map enc_bcp gs)) = enc_bcp (gs ! i)"
    using i assms(1) by (simp add: seg_blocks)
  then show "dec_profiles (concat (map enc_bcp gs)) ! i = gs ! i"
    using i assms by (simp add: dec_profiles_def list_all_length)
qed

text \<open>The overlay of a consistent table, slot by slot.\<close>

lemma overlay_view:
  assumes "length (fst acc) = 16" "i + length ps \<le> 16"
    "\<And>k. k < length ps \<Longrightarrow> profile_slot_valid (ps ! k) \<Longrightarrow> bcp_id (ps ! k) = of_nat (i + k)"
  shows "length (fst (overlay_profiles i ps acc)) = 16 \<and>
    (\<forall>k<16. fst (overlay_profiles i ps acc) ! k =
      (if i \<le> k \<and> k < i + length ps \<and> profile_slot_valid (ps ! (k - i)) then ps ! (k - i) else fst acc ! k))"
  using assms
proof (induction i ps acc rule: overlay_profiles.induct)
  case (2 i p ps gs pop)
  let ?acc = "if bcp_id p = of_nat i \<and> profile_slot_valid p
       then (gs[i := p], if 4 \<le> i \<and> unat pop < i + 1 then of_nat (i + 1) else pop) else (gs, pop)"
  have p: "profile_slot_valid p \<Longrightarrow> bcp_id p = of_nat i" using 2(4) [of 0] by simp
  have ih: "length (fst (overlay_profiles (Suc i) ps ?acc)) = 16 \<and>
    (\<forall>k<16. fst (overlay_profiles (Suc i) ps ?acc) ! k =
      (if Suc i \<le> k \<and> k < Suc i + length ps \<and> profile_slot_valid (ps ! (k - Suc i)) then ps ! (k - Suc i)
       else fst ?acc ! k))"
  proof (rule 2(1))
    show "length (fst ?acc) = 16" using 2(2) by auto
    show "Suc i + length ps \<le> 16" using 2(3) by simp
    show "bcp_id (ps ! k) = of_nat (Suc i + k)" if "k < length ps" "profile_slot_valid (ps ! k)" for k
      using 2(4) [of "Suc k"] that by simp
  qed
  have acc: "fst ?acc ! k = (if k = i \<and> profile_slot_valid p then p else gs ! k)" if "k < 16" for k
    using p that 2(2,3) by (auto simp: nth_list_update)
  have run: "overlay_profiles i (p # ps) (gs, pop) = overlay_profiles (Suc i) ps ?acc"
    by (rule overlay_profiles.simps(2))
  show ?case unfolding run
  proof (intro conjI allI impI)
    show "length (fst (overlay_profiles (Suc i) ps ?acc)) = 16" using ih by (rule conjunct1)
    fix k :: nat assume k: "k < 16"
    then have at: "fst (overlay_profiles (Suc i) ps ?acc) ! k =
      (if Suc i \<le> k \<and> k < Suc i + length ps \<and> profile_slot_valid (ps ! (k - Suc i)) then ps ! (k - Suc i)
       else if k = i \<and> profile_slot_valid p then p else gs ! k)"
      unfolding acc [OF k, symmetric] using ih [THEN conjunct2] by blast
    consider "k < i" | "k = i" | m where "k = Suc (i + m)" by (metis less_iff_Suc_add linorder_neqE_nat)
    then show "fst (overlay_profiles (Suc i) ps ?acc) ! k =
      (if i \<le> k \<and> k < i + length (p # ps) \<and> profile_slot_valid ((p # ps) ! (k - i)) then (p # ps) ! (k - i)
       else fst (gs, pop) ! k)"
      unfolding at by cases simp_all
  qed
qed auto

lemma persist_stored:
  assumes "fst (persist_profiles_locked env b)" "pe_key env ProfilesVerKey"
  shows "bt_nvs (snd (persist_profiles_locked env b)) BatteryProfileNs =
    (bt_nvs b BatteryProfileNs)(ProfilesKey \<mapsto> profile_blob b, ProfilesVerKey \<mapsto> [1])"
  using assms
  by (auto simp: persist_profiles_locked_def profile_put_locked_def profile_put_u8_locked_def
      ensure_profile_prefs_open_def case_prod_beta Let_def pf_putBytes_def pf_putUChar_def split: if_splits)

lemma init_after_persist:
  assumes "prof_inv b" "n BatteryProfileNs ProfilesKey = Some (profile_blob b)"
    "n BatteryProfileNs ProfilesVerKey = Some [1]" "pe_begin env BatteryProfileNs"
  shows "battery_profile_get (init_battery_profiles env (battery0 n)) = battery_profile_get b"
proof -
  let ?base = "kBuiltins @ replicate 12 zero_bcp"
  let ?o = "overlay_profiles 0 (bt_profiles b) (?base, 4)"
  have b: "length (bt_profiles b) = 16" "list_all wf_bcp (bt_profiles b)" using assms(1) by (simp_all add: prof_inv_def)
  have len: "length (profile_blob b) = 897"
    using length_blocks [of "bt_profiles b" enc_bcp 56] b by (simp add: profile_blob_def list_all_iff)
  have dec: "dec_profiles (drop 1 (profile_blob b)) = bt_profiles b"
    using dec_profile_blob [OF b] by (simp add: profile_blob_def)
  have eq: "bt_profiles (init_battery_profiles env (battery0 n)) = fst ?o"
    using assms(2-4) dec len
    by (simp add: init_battery_profiles_def profile_get_u8_locked_def profile_get_locked_def
        ensure_profile_prefs_open_def battery0_def pf_get_defs case_prod_beta Let_def del: overlay_profiles.simps drop_Cons')
  have view: "fst ?o ! k = (if profile_slot_valid (bt_profiles b ! k) then bt_profiles b ! k else ?base ! k)"
    if "k < 16" for k
    using overlay_view [of "(?base, 4)" 0 "bt_profiles b"] that assms(1) b kBuiltins_ok(1)
    by (simp add: prof_inv_def)
  have low: "\<not> profile_slot_valid (?base ! k)" if "k < 16" "\<not> profile_slot_valid (bt_profiles b ! k)" for k
    using that assms(1) kBuiltins_ok(1) by (cases "k < 4") (auto simp: prof_inv_def nth_append)
  have "slot_view (fst ?o) = slot_view (bt_profiles b)"
    using view low by (auto simp: slot_view_def fun_eq_iff split: if_splits)
  then show ?thesis
    unfolding get_slot_view [OF assms(1)] get_slot_view [OF init_profiles_inv] eq .
qed



section \<open>States and bindings\<close>

lemma state_key_inj: "\<lbrakk> make_state_key c = make_state_key d \<rbrakk> \<Longrightarrow> c = d"
  unfolding make_state_key_def by (rule key_idx_inj [of "''ch''" 8]) simp_all

lemma state_put_stored:
  assumes "fst (state_put_locked env k bs b)"
  shows "bt_nvs (snd (state_put_locked env k bs b)) =
      (bt_nvs b)(BatteryStateNs := (bt_nvs b BatteryStateNs)(k \<mapsto> bs))"
    "bt_state_opened (snd (state_put_locked env k bs b))"
  using assms
  by (auto simp: state_put_locked_def ensure_state_prefs_open_def case_prod_beta Let_def pf_putBytes_def
      split: if_splits)

lemma state_get_opened:
  "bt_state_opened b \<Longrightarrow> 0 < n \<Longrightarrow> fst (state_get_locked env k n b) =
    (case bt_nvs b BatteryStateNs k of None \<Rightarrow> None | Some v \<Rightarrow> if length v = n then Some v else None)"
  by (auto simp: state_get_locked_def ensure_state_prefs_open_def pf_getBytesLength_def pf_getBytes_def
      split: option.splits)

text \<open>A battery state that was saved is loaded back bit for bit, and saving it does not disturb the state
of any other channel.\<close>

theorem battery_state_roundtrip:
  assumes "fst (battery_state_save env ch s b)"
  shows "fst (battery_state_load env ch (snd (battery_state_save env ch s b))) = Some s \<and>
    (\<forall>c. c \<noteq> ch \<longrightarrow> bt_state_opened b \<longrightarrow>
      fst (battery_state_load env c (snd (battery_state_save env ch s b))) = fst (battery_state_load env c b))"
proof -
  let ?b = "snd (battery_state_save env ch s b)"
  have ch: "\<not> 16 \<le> ch" using assms by (auto simp: battery_state_save_def split: if_splits)
  have put: "fst (state_put_locked env (make_state_key ch) (3 # enc_batstate s) b)"
    and b': "?b = snd (state_put_locked env (make_state_key ch) (3 # enc_batstate s) b)"
    using assms ch by (simp_all add: battery_state_save_def)
  note st = state_put_stored [OF put, folded b']
  have load: "fst (battery_state_load env c x) =
    (if 16 \<le> c then None else case fst (state_get_locked env (make_state_key c) 45 x) of None \<Rightarrow> None
     | Some buf \<Rightarrow> if 3 < buf ! 0 then None else if buf ! 0 = 3 then (if length buf \<noteq> 45 then None else Some (dec_batstate (drop 1 buf)))
       else if buf ! 0 = 2 then (if length buf < 33 then None else Some (migrate_v2 (drop 1 buf))) else None)" for c x
    by (cases "state_get_locked env (make_state_key c) 45 x")
      (simp add: battery_state_load_def Let_def split: option.split)
  have "fst (state_get_locked env (make_state_key ch) 45 ?b) = Some (3 # enc_batstate s)"
    using state_get_opened [OF st(2), of 45 env "make_state_key ch"] st(1) by simp
  then have 1: "fst (battery_state_load env ch ?b) = Some s" unfolding load using ch by simp
  have 2: "fst (battery_state_load env c ?b) = fst (battery_state_load env c b)"
    if "c \<noteq> ch" "bt_state_opened b" for c
  proof -
    have "make_state_key c \<noteq> make_state_key ch" using that(1) state_key_inj by blast
    then have "fst (state_get_locked env (make_state_key c) 45 ?b) = fst (state_get_locked env (make_state_key c) 45 b)"
      using state_get_opened [OF st(2), of 45] state_get_opened [OF that(2), of 45] st(1) by simp
    then show ?thesis unfolding load by simp
  qed
  show ?thesis using 1 2 by blast
qed

lemma battery_state_roundtrip_witness:
  "fst (battery_state_load host_env 3 (snd (battery_state_save host_env 3 (batstate0\<lparr> bs_soh_samples := 9 \<rparr>)
     (battery0 (\<lambda>_ _. None))))) = Some (batstate0\<lparr> bs_soh_samples := 9 \<rparr>)"
proof -
  have "fst (battery_state_save host_env 3 (batstate0\<lparr> bs_soh_samples := 9 \<rparr>) (battery0 (\<lambda>_ _. None)))"
    by (simp add: battery_state_save_def state_put_locked_def ensure_state_prefs_open_def host_env_def battery0_def)
  from battery_state_roundtrip [OF this] show ?thesis by blast
qed

text \<open>The migration of version 2 blobs is unreachable for the blobs version 2 wrote: those have a
version byte, 32 bytes of counters and the capacity test (36 bytes as the struct is laid out, 32 by the comment), the
load asks for exactly 45 bytes and refuses them, so an upgraded device starts from empty counters.\<close>

theorem v2_blob_refused:
  assumes "bt_nvs b BatteryStateNs (make_state_key ch) = Some (2 # v2)" "length v2 = 32 + 36 \<or> length v2 = 32 + 32"
  shows "fst (battery_state_load env ch b) = None"
  using assms
  by (auto simp: battery_state_load_def state_get_locked_def ensure_state_prefs_open_def case_prod_beta Let_def
      pf_getBytesLength_def)

lemma v2_blob_refused_witness:
  "fst (battery_state_load host_env 0 (battery0 (\<lambda>_. [make_state_key 0 \<mapsto> 2 # replicate 68 1]))) = None"
  by (rule v2_blob_refused [of _ _ "replicate 68 1"]) (simp_all add: battery0_def)

text \<open>On the ESP32, whose NVS refuses namespace names of more than 15 characters, no battery data is ever
stored: both namespace names are longer, so every save and every registry or binding operation leaves the NVS as it is
and reports failure.\<close>

theorem battery_storage_refused:
  assumes "\<forall>ns. pe_begin env ns \<longrightarrow> length ns \<le> 15" "\<not> bt_state_opened b" "\<not> bt_profile_opened b"
  shows "\<not> fst (battery_state_save env ch s b) \<and> bt_nvs (snd (battery_state_save env ch s b)) = bt_nvs b \<and>
    \<not> fst (battery_profile_set env p b) \<and> bt_nvs (snd (battery_profile_set env p b)) = bt_nvs b \<and>
    \<not> fst (battery_channel_set_profile env ch pid b) \<and>
    bt_nvs (snd (battery_channel_set_profile env ch pid b)) = bt_nvs b"
proof -
  have ns: "\<not> pe_begin env BatteryStateNs" "\<not> pe_begin env BatteryProfileNs"
    using assms(1) [rule_format, of BatteryStateNs] assms(1) [rule_format, of BatteryProfileNs] by auto
  have es: "ensure_state_prefs_open env x = (False, x\<lparr> bt_state_opened := False \<rparr>)"
    if "\<not> bt_state_opened x" for x
    using ns that by (simp add: ensure_state_prefs_open_def)
  have ep: "ensure_profile_prefs_open env x = (False, x\<lparr> bt_profile_opened := False \<rparr>)"
    if "\<not> bt_profile_opened x" for x
    using ns that by (simp add: ensure_profile_prefs_open_def)
  have 1: "\<not> fst (battery_state_save env ch s b) \<and> bt_nvs (snd (battery_state_save env ch s b)) = bt_nvs b"
    using assms(2) by (simp add: battery_state_save_def state_put_locked_def es)
  have 2: "\<not> fst (battery_profile_set env p b) \<and> bt_nvs (snd (battery_profile_set env p b)) = bt_nvs b"
    using assms(3)
    by (simp add: battery_profile_set_def persist_profiles_locked_def profile_put_locked_def ep case_prod_beta Let_def)
  have 3: "\<not> fst (battery_channel_set_profile env ch pid b) \<and>
      bt_nvs (snd (battery_channel_set_profile env ch pid b)) = bt_nvs b"
    using assms(2)
    by (simp add: battery_channel_set_profile_def bind_and_persist_def persist_bindings_locked_def
        state_put_locked_def es case_prod_beta Let_def)
  from 1 2 3 show ?thesis by blast
qed

lemma battery_storage_refused_witness:
  "\<not> fst (battery_state_save nvs_env 0 batstate0 (battery0 (\<lambda>_ _. None))) \<and>
   \<not> fst (battery_profile_set nvs_env sample_profile (battery0 (\<lambda>_ _. None)))"
  using battery_storage_refused [of nvs_env "battery0 (\<lambda>_ _. None)" 0 batstate0 sample_profile]
  by (simp add: nvs_env_def battery0_def)

text \<open>A successful binding names a profile id below 16, is in force at once, and where the namespace can be
opened the whole binding table is the same after a reboot.\<close>

theorem binding_roundtrip:
  assumes "fst (battery_channel_set_profile env ch pid b)" "length (bt_channel_profile b) = 16"
    "pe_begin env BatteryStateNs" "pe_key env BindVer"
  shows "let b' = snd (battery_channel_set_profile env ch pid b) in
    battery_channel_profile b' ch = pid \<and> pid < 16 \<and>
    bt_channel_profile (init_battery_bindings env (battery0 (bt_nvs b'))) = bt_channel_profile b'"
proof -
  have ok: "\<not> 16 \<le> ch" "pid \<noteq> NO_BINDING" "\<not> 16 \<le> pid"
    using assms(1) by (auto simp: battery_channel_set_profile_def split: if_splits)
  let ?b0 = "b\<lparr> bt_channel_profile := (bt_channel_profile b)[unat ch := pid] \<rparr>"
  let ?b1 = "snd (state_put_locked env BindKey ((bt_channel_profile b)[unat ch := pid]) ?b0)"
  have put: "fst (state_put_locked env BindKey ((bt_channel_profile b)[unat ch := pid]) ?b0)"
    and b': "snd (battery_channel_set_profile env ch pid b) = snd (state_put_u8_locked env BindVer 1 ?b1)"
    using assms(1) ok
    by (auto simp: battery_channel_set_profile_def bind_and_persist_def persist_bindings_locked_def
        case_prod_beta Let_def split: if_splits)
  note st = state_put_stored [OF put]
  have cp: "bt_channel_profile ?b1 = (bt_channel_profile b)[unat ch := pid]"
    by (simp add: state_put_locked_def ensure_state_prefs_open_def case_prod_beta Let_def)
  have ver: "bt_nvs (snd (state_put_u8_locked env BindVer 1 ?b1)) =
      (bt_nvs ?b1)(BatteryStateNs := (bt_nvs ?b1 BatteryStateNs)(BindVer \<mapsto> [1]))"
    "bt_channel_profile (snd (state_put_u8_locked env BindVer 1 ?b1)) = bt_channel_profile ?b1"
    using st(2) assms(4) by (simp_all add: state_put_u8_locked_def ensure_state_prefs_open_def pf_putUChar_def)
  have i: "unat ch < 16" using ok(1) by (simp add: word_le_nat_alt)
  show ?thesis
    using ok i assms(2,3) st(1) cp ver
    by (simp add: Let_def b' battery_channel_profile_def init_battery_bindings_def state_get_u8_locked_def
        state_get_locked_def ensure_state_prefs_open_def battery0_def case_prod_beta pf_get_defs not_le)
qed

lemma binding_roundtrip_witness:
  "bt_channel_profile (init_battery_bindings host_env (battery0 (bt_nvs (snd (battery_channel_set_profile host_env 2 5
     (battery0 (\<lambda>_ _. None))))))) ! 2 = 5"
proof -
  have "fst (battery_channel_set_profile host_env 2 5 (battery0 (\<lambda>_ _. None)))" by code_simp
  from binding_roundtrip [OF this] show ?thesis
    by (simp add: battery0_def host_env_def Let_def battery_channel_profile_def)
qed

end
