(* ===== verification/Log_Card.thy ===== *)
theory Log_Card
  imports Data_Logger Battery_Store
begin

text \<open>
  What the logger of \<open>Data_Logger\<close> does at its limits: a full ring with the network up and with
  the network down, the telemetry queue on the card at the edges of the caller's buffer, the pruning
  of the CSV files, the CSV line buffer when the card refuses to open files, and the factory
  reset of \<open>settings_manager.cpp\<close>, which is meant to drop the overflow file.
\<close>

section \<open>Factory reset\<close>


definition settings_factory_reset ::
  "prefs_env \<Rightarrow> ('fs, 'h) sdlib \<Rightarrow> nvs \<Rightarrow> 'h logger \<times> 'fs \<Rightarrow> nvs \<times> 'h logger \<times> 'fs" where
  "settings_factory_reset env lib n w =
    (let (present, s) = log_has_overflow_file lib w
     in (factory_wipe env n, if present then log_close_overflow lib (s, snd w) else (s, snd w)))"

section \<open>A full ring\<close>

lemma full_store:
  assumes "log_inv sz es s" "wf_last s" "30 < sz"
    "\<not> can_fit sz (lg_ring s) (length (enc_entry (build_entry data ts s)))"
  shows "log_inv sz [build_entry data ts s]
      (fst (log_store lib sz down fs (enc_entry (build_entry data ts s)) (remember data ts s)))"
    and "snd (log_store lib sz down fs (enc_entry (build_entry data ts s)) (remember data ts s)) =
      (if down \<and> fst (init_sd lib fs (remember data ts s)) then encs es else [])"
proof -
  have inv: "log_inv sz es (remember data ts s)" using assms(1) by (simp add: log_inv_def)
  have nf: "\<not> can_fit sz (lg_ring (remember data ts s)) (length (enc_entry (build_entry data ts s)))"
    using assms(4) by simp
  note full = log_store_full [OF inv build_entry_wf [OF assms(2)] nf assms(3)]
  show "log_inv sz [build_entry data ts s]
      (fst (log_store lib sz down fs (enc_entry (build_entry data ts s)) (remember data ts s)))"
    by (rule full(1))
  show "snd (log_store lib sz down fs (enc_entry (build_entry data ts s)) (remember data ts s)) =
      (if down \<and> fst (init_sd lib fs (remember data ts s)) then encs es else [])"
    by (rule full(2))
qed

lemma remember_sd_fields [simp]:
  "lg_sd_initialized (remember data ts s) = lg_sd_initialized s"
  "lg_sd_present (remember data ts s) = lg_sd_present s"
  by (simp_all add: remember_def case_prod_beta)

lemma remember_sd [simp]: "init_sd lib fs (remember data ts s) =
    (fst (init_sd lib fs s), remember data ts (snd (init_sd lib fs s)))"
  by (cases "quantize data") (simp add: init_sd_def remember_def)

text \<open>When the ring is full and the network is up, the code that is meant to drop the oldest
entries drops all of them: after the sample the ring holds the new entry alone. If that
entry is a delta (the usual case, as the logger still has its base), nothing in the ring
can be decoded any more, and the base it needs is lost.\<close>

theorem full_ring_drops_everything:
  assumes "log_inv sz es s" "wf_last s" "30 < sz"
    "\<not> can_fit sz (lg_ring s) (length (enc_entry (build_entry data ts s)))"
    "build_entry data ts s = DeltaEntry dt dv di dp"
  shows "let s' = fst (log_sample lib sz False row path hdr now data ts (s, fs)) in
    lg_count s' = 1 \<and> ring_content sz (lg_ring s') = enc_entry (DeltaEntry dt dv di dp) \<and>
    lg_have_base s' \<and> decode_log (ring_content sz (lg_ring s')) = None"
proof -
  let ?s' = "fst (log_sample lib sz False row path hdr now data ts (s, fs))"
  note same = log_sample_log [of lib sz False row path hdr now data ts s fs]
  have inv: "log_inv sz [DeltaEntry dt dv di dp] ?s'"
    using full_store(1) [OF assms(1-4), of lib False fs] assms(5) same_log_inv [OF same] by simp
  then have c: "ring_content sz (lg_ring ?s') = encs [DeltaEntry dt dv di dp]"
    and wf: "list_all wf_entry [DeltaEntry dt dv di dp]" and n: "lg_count ?s' = 1"
    by (simp_all add: log_inv_def)
  have "decode_log (ring_content sz (lg_ring ?s')) = None"
    unfolding c decode_log_def parse_encs [OF wf] by simp
  moreover have "last_sample ?s' \<noteq> None"
    using same_log_last [OF same] by (simp add: log_store_last last_sample_remember)
  then have "lg_have_base ?s'" by (simp add: last_sample_def split: if_splits)
  ultimately show ?thesis using c n by (simp add: Let_def)
qed

lemma two_samples_full: "wf_last two_samples" "\<not> can_fit 64 (lg_ring two_samples) 27"
    "build_entry (one_channel (f_lit 13 1)) 3000 two_samples =
      DeltaEntry 1000 [500, 0, 0, 0] [0, 0, 0, 0] [0, 0, 0, 0]"
proof -
  show "wf_last two_samples" by code_simp
  show "\<not> can_fit 64 (lg_ring two_samples) 27" by code_simp
  have "quantize (one_channel (f_lit 13 1)) = ([13000, 0, 0, 0], [0, 0, 0, 0], [0, 0, 0, 0])" by code_simp
  moreover have "lg_last_v two_samples = [12500, 0, 0, 0]" "lg_last_i two_samples = [0, 0, 0, 0]"
    "lg_last_p two_samples = [0, 0, 0, 0]" "lg_last_ts two_samples = 2000" "lg_have_base two_samples"
    by code_simp+
  ultimately show "build_entry (one_channel (f_lit 13 1)) 3000 two_samples =
      DeltaEntry 1000 [500, 0, 0, 0] [0, 0, 0, 0] [0, 0, 0, 0]"
    by (simp add: build_entry_def delta_overflows_def Let_def)
qed

lemma full_ring_drops_everything_witness:
  "let s' = fst (log_sample map_card 64 False (\<lambda>_ _ _. []) (\<lambda>_ _ _. ''/logs/x.csv'') [] 0
      (one_channel (f_lit 13 1)) 3000 (two_samples, \<lambda>_. None)) in
    lg_count s' = 1 \<and> ring_content 64 (lg_ring s') =
      enc_entry (DeltaEntry 1000 [500, 0, 0, 0] [0, 0, 0, 0] [0, 0, 0, 0]) \<and>
    lg_have_base s' \<and> decode_log (ring_content 64 (lg_ring s')) = None"
proof -
  have "\<not> can_fit 64 (lg_ring two_samples)
      (length (enc_entry (build_entry (one_channel (f_lit 13 1)) 3000 two_samples)))"
    unfolding two_samples_full(3) using two_samples_full(2) by simp
  from full_ring_drops_everything [OF two_samples_inv two_samples_full(1) _ this two_samples_full(3)]
  show ?thesis by simp
qed



section \<open>Pruning\<close>

lemma prune_loop_spec:
  assumes "sd_lawful lib view rest"
  shows "\<exists>k \<le> length ns. (\<forall>q. view (prune_loop lib cap ns fs) q =
      (if q \<in> (@) ''/logs/'' ` set (take k ns) then None else view fs q)) \<and>
    (k < length ns \<longrightarrow> f_ge (free_pct cap (sd_used lib (prune_loop lib cap ns fs))) (f_of_int 10))"
proof (induction ns arbitrary: fs)
  case (Cons n ns)
  show ?case
  proof (cases "f_ge (free_pct cap (sd_used lib fs)) (f_of_int 10)")
    case True
    then show ?thesis by (intro exI [of _ 0]) simp
  next
    case False
    let ?fs = "snd (sd_remove lib (''/logs/'' @ n) fs)"
    from Cons.IH [of ?fs] obtain k where k: "k \<le> length ns"
      "\<forall>q. view (prune_loop lib cap ns ?fs) q =
        (if q \<in> (@) ''/logs/'' ` set (take k ns) then None else view ?fs q)"
      "k < length ns \<longrightarrow> f_ge (free_pct cap (sd_used lib (prune_loop lib cap ns ?fs))) (f_of_int 10)"
      by blast
    then show ?thesis using False
      by (intro exI [of _ "Suc k"]) (auto simp: sd_laws(2) [OF assms])
  qed
qed simp

text \<open>Pruning removes the oldest CSV files first: what it removes are the first \<open>k\<close> names of the
sorted listing, every other file of the card is untouched, and it stops early only once a
tenth of the card is free.\<close>

theorem prune_oldest_first:
  assumes "sd_lawful lib view rest" "sd_dir lib ''/logs'' fs = Some es" "sd_total lib fs \<noteq> 0"
    "\<not> f_ge (free_pct (sd_total lib fs) (sd_used lib fs)) (f_of_int 5)"
  shows "\<exists>names k. sorted names \<and> mset names = mset (csv_names es) \<and> k \<le> length names \<and>
    (\<forall>q. view (sd_prune_old_csv lib fs) q =
      (if q \<in> (@) ''/logs/'' ` set (take k names) then None else view fs q)) \<and>
    (k = length names \<or>
     f_ge (free_pct (sd_total lib fs) (sd_used lib (sd_prune_old_csv lib fs))) (f_of_int 10))"
proof -
  let ?names = "exchange_sort (csv_names es)"
  have eq: "sd_prune_old_csv lib fs = prune_loop lib (sd_total lib fs) ?names fs"
    using assms(2-4) by (simp add: sd_prune_old_csv_def)
  from prune_loop_spec [OF assms(1), of ?names "sd_total lib fs" fs] obtain k where
    "k \<le> length ?names" "\<forall>q. view (sd_prune_old_csv lib fs) q =
      (if q \<in> (@) ''/logs/'' ` set (take k ?names) then None else view fs q)"
    "k < length ?names \<longrightarrow>
      f_ge (free_pct (sd_total lib fs) (sd_used lib (sd_prune_old_csv lib fs))) (f_of_int 10)"
    unfolding eq by blast
  then show ?thesis using exchange_sort_sorted exchange_sort_mset
    by (intro exI [of _ ?names] exI [of _ k]) auto
qed

text \<open>A card of 100 bytes with 98 in use, reported the same throughout.\<close>

definition tight_card :: "(string \<Rightarrow> bytes option, bytes) sdlib" where
  "tight_card = map_card\<lparr> sd_total := (\<lambda>_. 100), sd_used := (\<lambda>_. 98),
     sd_dir := (\<lambda>_ _. Some [(''2025-01-02.csv'', False), (''2025-01-01.csv'', False)]) \<rparr>"

lemma tight_card_lawful: "sd_lawful tight_card (\<lambda>m. m) (\<lambda>h. h)"
  using map_card_lawful by (simp add: sd_lawful_def tight_card_def)

lemma prune_oldest_first_witness:
  "\<exists>names. mset names = mset [''2025-01-02.csv'', ''2025-01-01.csv''] \<and> sorted names \<and>
    sd_prune_old_csv tight_card [''/logs/2025-01-01.csv'' \<mapsto> [1], ''/logs/2025-01-02.csv'' \<mapsto> [2],
      ''/log_overflow.bin'' \<mapsto> [3]] ''/logs/2025-01-01.csv'' = None"
proof -
  let ?fs = "[''/logs/2025-01-01.csv'' \<mapsto> [1], ''/logs/2025-01-02.csv'' \<mapsto> [2],
      ''/log_overflow.bin'' \<mapsto> [3]]"
  have dir: "sd_dir tight_card ''/logs'' ?fs = Some [(''2025-01-02.csv'', False), (''2025-01-01.csv'', False)]"
    and tot: "sd_total tight_card ?fs \<noteq> 0"
    and use: "sd_used tight_card fs' = 98" "sd_total tight_card fs' = 100" for fs'
    by (simp_all add: tight_card_def)
  have low: "\<not> f_ge (free_pct 100 98) (f_of_int 5)" "\<not> f_ge (free_pct 100 98) (f_of_int 10)" by code_simp+
  have names: "csv_names [(''2025-01-02.csv'', False), (''2025-01-01.csv'', False)] =
      [''2025-01-02.csv'', ''2025-01-01.csv'']" by code_simp
  from prune_oldest_first [OF tight_card_lawful dir tot] low obtain ns k where
    n: "sorted ns" "mset ns = mset [''2025-01-02.csv'', ''2025-01-01.csv'']" "k = length ns"
      "\<forall>q. sd_prune_old_csv tight_card ?fs q =
        (if q \<in> (@) ''/logs/'' ` set (take k ns) then None else ?fs q)"
    unfolding use names by blast
  have "''2025-01-01.csv'' \<in> set ns" using n(2) by (metis list.set_intros set_mset_mset)
  then have "''/logs/2025-01-01.csv'' \<in> (@) ''/logs/'' ` set (take k ns)"
    using n(3) image_eqI [of "''/logs/2025-01-01.csv''" "(@) ''/logs/''" "''2025-01-01.csv''"] by simp
  with n(1,2,4) show ?thesis by (intro exI [of _ ns]) simp
qed

section \<open>The CSV line buffer when files cannot be opened\<close>

text \<open>One sample's CSV row, then the status query that brings the card back up.\<close>

definition csv_tick ::
  "('fs, 'h) sdlib \<Rightarrow> bytes \<Rightarrow> string \<Rightarrow> bytes \<Rightarrow> u32 \<Rightarrow> 'h logger \<times> 'fs \<Rightarrow> 'h logger \<times> 'fs" where
  "csv_tick lib row path hdr now w =
    (let (s, fs) = sd_write_csv_row lib row path hdr now w in (snd (log_has_overflow_file lib (s, fs)), fs))"

lemma csv_tick_refused:
  assumes "\<forall>fs. sd_begin lib fs" "\<forall>p fs. sd_open_append lib p fs = None"
    "lg_sd_present (fst w)" "5000 \<le> now - lg_csv_last_flush (fst w)"
  shows "lg_csv_len (fst (csv_tick lib row path hdr now w)) = lg_csv_len (fst w) + length row"
    "lg_csv_oob (fst (csv_tick lib row path hdr now w)) = (lg_csv_oob (fst w) \<or> 256 < lg_csv_len (fst w))"
    "lg_sd_present (fst (csv_tick lib row path hdr now w))"
    "lg_csv_last_flush (fst (csv_tick lib row path hdr now w)) = lg_csv_last_flush (fst w)"
proof -
  define c where "c = csv_append row (fst w)"
  have c: "lg_csv_len c = lg_csv_len (fst w) + length row"
    "lg_csv_oob c = (lg_csv_oob (fst w) \<or> 256 < lg_csv_len (fst w))"
    "lg_csv_last_flush c = lg_csv_last_flush (fst w)"
    by (simp_all add: c_def csv_append_def Let_def)
  have "fst (sd_write_csv_row lib row path hdr now w) = sd_reset c"
    using assms(2-4) by (simp add: sd_write_csv_row_def case_prod_beta Let_def c_def [symmetric] c)
  then show "lg_csv_len (fst (csv_tick lib row path hdr now w)) = lg_csv_len (fst w) + length row"
    "lg_csv_oob (fst (csv_tick lib row path hdr now w)) = (lg_csv_oob (fst w) \<or> 256 < lg_csv_len (fst w))"
    "lg_sd_present (fst (csv_tick lib row path hdr now w))"
    "lg_csv_last_flush (fst (csv_tick lib row path hdr now w)) = lg_csv_last_flush (fst w)"
    using assms(1) c
    by (simp_all add: csv_tick_def log_has_overflow_file_def case_prod_beta Let_def init_sd_def sd_reset_def)
qed

text \<open>While the card answers but refuses to open the day's file (a full or write-protected card),
the pending text is never discarded: after \<open>n\<close> samples whose rows have \<open>L\<close> bytes its length is
\<open>n * L\<close>, and as soon as that passes the 256 bytes of the buffer the next row is written
outside the buffer.\<close>

theorem csv_buffer_overrun:
  assumes "\<forall>fs. sd_begin lib fs" "\<forall>p fs. sd_open_append lib p fs = None"
    "lg_sd_present s" "lg_csv_len s = 0" "5000 \<le> now - lg_csv_last_flush s" "256 < n * length row"
  shows "lg_csv_len (fst ((csv_tick lib row path hdr now ^^ n) (s, fs))) = n * length row \<and>
    lg_csv_oob (fst (csv_tick lib row path hdr now ((csv_tick lib row path hdr now ^^ n) (s, fs))))"
proof -
  have run: "lg_csv_len (fst ((csv_tick lib row path hdr now ^^ m) (s, fs))) = m * length row \<and>
      lg_sd_present (fst ((csv_tick lib row path hdr now ^^ m) (s, fs))) \<and>
      lg_csv_last_flush (fst ((csv_tick lib row path hdr now ^^ m) (s, fs))) = lg_csv_last_flush s" for m
    using assms(3-5)
    by (induction m) (simp_all add: csv_tick_refused [OF assms(1,2)] algebra_simps)
  then show ?thesis
    using csv_tick_refused(2) [OF assms(1,2)] run [of n] assms(5,6) by simp
qed

lemma csv_buffer_overrun_witness:
  "lg_csv_oob (fst (csv_tick (map_card\<lparr> sd_open_append := \<lambda>_ _. None \<rparr>) (replicate 100 65) ''/logs/x.csv'' [] 6000
    ((csv_tick (map_card\<lparr> sd_open_append := \<lambda>_ _. None \<rparr>) (replicate 100 65) ''/logs/x.csv'' [] 6000 ^^ 3)
      (logger0\<lparr> lg_sd_present := True \<rparr>, \<lambda>_. None))))"
  using csv_buffer_overrun [of "map_card\<lparr> sd_open_append := \<lambda>_ _. None \<rparr>" "logger0\<lparr> lg_sd_present := True \<rparr>"
      6000 3 "replicate 100 65"]
  by (simp add: map_card_def logger0_def)

section \<open>The queue of unpublished telemetry\<close>

text \<open>The telemetry queue is first in, first out: with the lines \<open>l # ls\<close> queued and a line that is
shorter than the caller's buffer less one, a drain returns exactly \<open>l\<close> and leaves \<open>ls\<close>
queued; after the last line the file is removed.\<close>

theorem telemetry_queue_fifo:
  assumes "sd_lawful lib view rest" "fst (init_sd lib fs s)" "telem_handle lib (s, fs) = Some h"
    "view fs TELEM_OVERFLOW_FILE \<noteq> None" "rest h = queue_lines (l # ls)" "l \<noteq> []" "10 \<notin> set l"
    "length l + 1 < out_len"
  shows "let (line, s', fs') = drain_telemetry_overflow lib out_len (s, fs) in line = l \<and>
    (if ls = [] then view fs' TELEM_OVERFLOW_FILE = None \<and> lg_telem_file s' = None
     else view fs' TELEM_OVERFLOW_FILE = view fs TELEM_OVERFLOW_FILE \<and>
       (\<exists>h'. telem_handle lib (s', fs') = Some h' \<and> rest h' = queue_lines ls))"
proof -
  have ex: "sd_exists lib TELEM_OVERFLOW_FILE (snd (s, fs))" using assms(4) sd_laws(1) [OF assms(1)] by simp
  have r: "fst (read_line lib (out_len - 1) h) = l" "rest (snd (read_line lib (out_len - 1) h)) = queue_lines ls"
    using read_line_spec [OF assms(1), of h l "queue_lines ls" "out_len - 1"] assms(5,7,8) by auto
  have e: "fst (sd_read lib h' 1) = [] \<longleftrightarrow> rest h' = []" for h'
    using sd_laws(8) [OF assms(1)] by simp
  have "0 < out_len" using assms(8) by simp
  note d = drain_eq [OF this _ ex assms(3)]
  show ?thesis
    using d assms(2,6) r e sd_laws(2) [OF assms(1), of TELEM_OVERFLOW_FILE fs]
    by (simp add: case_prod_beta Let_def telem_handle_def)
qed

lemma telemetry_queue_fifo_witness:
  "fst (drain_telemetry_overflow map_card 8 (logger0, [TELEM_OVERFLOW_FILE \<mapsto> queue_lines [[1, 2], [3]]])) = [1, 2]"
  using telemetry_queue_fifo [OF map_card_lawful, of "[TELEM_OVERFLOW_FILE \<mapsto> queue_lines [[1, 2], [3]]]"
      logger0 "queue_lines [[1, 2], [3]]" "[1, 2]" "[[3]]" 8]
  by (simp add: case_prod_beta Let_def init_sd_def logger0_def telem_handle_def map_card_def)

text \<open>A queued line of exactly the caller's buffer less one (2047 bytes for the replay of
\<open>connectivity_manager.cpp\<close>) makes the next drain delete the file: the first drain stops
before the newline, the second reads an empty line, takes it for the end of the queue and removes
every line still queued behind it.\<close>

theorem telemetry_queue_lost:
  assumes "sd_lawful lib view rest" "fst (init_sd lib fs s)" "telem_handle lib (s, fs) = Some h"
    "view fs TELEM_OVERFLOW_FILE \<noteq> None" "rest h = queue_lines (l # ls)" "l \<noteq> []" "10 \<notin> set l"
    "length l + 1 = out_len"
  shows "let (line1, w1) = drain_telemetry_overflow lib out_len (s, fs);
      (line2, s2, fs2) = drain_telemetry_overflow lib out_len w1
    in line1 = l \<and> line2 = [] \<and> view fs2 TELEM_OVERFLOW_FILE = None \<and> lg_telem_file s2 = None"
proof -
  have ex: "sd_exists lib TELEM_OVERFLOW_FILE (snd (s, fs))" using assms(4) sd_laws(1) [OF assms(1)] by simp
  define h1 where "h1 = snd (read_line lib (out_len - 1) h)"
  have r: "fst (read_line lib (out_len - 1) h) = l" "rest h1 = 10 # queue_lines ls"
    using read_line_spec [OF assms(1), of h l "queue_lines ls" "out_len - 1"] assms(5,7,8)
    by (auto simp: h1_def)
  have e: "fst (sd_read lib h' 1) = take 1 (rest h')" for h'
    using sd_laws(8) [OF assms(1)] by simp
  have pos: "0 < out_len" "0 < out_len - 1" using assms(6,8) by auto
  define s1 where "s1 = (snd (init_sd lib fs s))\<lparr> lg_telem_file := Some h1 \<rparr>"
  have d1: "drain_telemetry_overflow lib out_len (s, fs) = (l, s1, fs)"
    using drain_eq [OF pos(1) _ ex assms(3)] assms(2,6) r e
    by (simp add: case_prod_beta Let_def s1_def h1_def)
  have up: "fst (init_sd lib fs s1)" using assms(2) by (auto simp: s1_def init_sd_def)
  have "fst (read_line lib (out_len - 1) h1) = []"
    using read_line_spec [OF assms(1), of h1 "[]" "queue_lines ls" "out_len - 1"] r(2) by simp
  then have d2: "drain_telemetry_overflow lib out_len (s1, fs) =
      ([], (snd (init_sd lib fs s1))\<lparr> lg_telem_file := None \<rparr>, snd (sd_remove lib TELEM_OVERFLOW_FILE fs))"
    using drain_eq [OF pos(1), of lib "(s1, fs)" h1] up ex
    by (simp add: case_prod_beta Let_def telem_handle_def s1_def)
  show ?thesis using sd_laws(2) [OF assms(1), of TELEM_OVERFLOW_FILE fs] by (simp add: d1 d2)
qed

lemma telemetry_queue_lost_witness:
  "let (line1, w1) = drain_telemetry_overflow map_card 3 (logger0, [TELEM_OVERFLOW_FILE \<mapsto> queue_lines [[1, 2], [3]]]);
      (line2, s2, fs2) = drain_telemetry_overflow map_card 3 w1
    in line1 = [1, 2] \<and> line2 = [] \<and> fs2 TELEM_OVERFLOW_FILE = None"
  using telemetry_queue_lost [OF map_card_lawful, of "[TELEM_OVERFLOW_FILE \<mapsto> queue_lines [[1, 2], [3]]]"
      logger0 "queue_lines [[1, 2], [3]]" "[1, 2]" "[[3]]" 3]
  by (simp add: case_prod_beta Let_def init_sd_def logger0_def telem_handle_def map_card_def)

section \<open>The factory reset and the overflow file\<close>

text \<open>The factory reset clears the three namespaces it names (those that open), but the overflow file, which it means
to drop, is still there afterwards unless a drain happened to hold it open: the close it calls
removes the file only through an open handle. The OTA namespace is kept as well.\<close>

theorem factory_reset_keeps_overflow:
  assumes "lg_overflow_file s = None"
  shows "let (n', s', fs') = settings_factory_reset env lib n (s, fs) in
    n' ''pm-settings'' = pf_clear (n ''pm-settings'') \<and> n' BatteryStateNs = (if pe_begin env BatteryStateNs then pf_clear (n BatteryStateNs) else n BatteryStateNs) \<and>
    n' BatteryProfileNs = (if pe_begin env BatteryProfileNs then pf_clear (n BatteryProfileNs) else n BatteryProfileNs) \<and> n' ''pm-ota'' = n ''pm-ota'' \<and> fs' = fs"
  using assms
  by (simp add: settings_factory_reset_def factory_wipe_def clear_ns_def case_prod_beta Let_def log_has_overflow_file_def log_close_overflow_def)

lemma factory_reset_keeps_overflow_witness:
  "let (n', s', fs') = settings_factory_reset host_env map_card (\<lambda>_. [''k'' \<mapsto> [1]]) (logger0, [LOG_OVERFLOW_FILE \<mapsto> [1]])
    in n' ''pm-settings'' = Map.empty \<and> fs' LOG_OVERFLOW_FILE = Some [1]"
  using factory_reset_keeps_overflow [of logger0 host_env map_card "\<lambda>_. [''k'' \<mapsto> [1]]" "[LOG_OVERFLOW_FILE \<mapsto> [1]]"]
  by (simp add: logger0_def case_prod_beta Let_def pf_clear_def)

end
