(* ===== verification/Log_Publish.thy ===== *)
theory Log_Publish
  imports Log_Card
begin

text \<open>
  The publication of the logged entries (\<open>connectivity_manager.cpp\<close>): the base64 encoder and
  \<open>publish_log_batch\<close>, which sends the batch left over from a failed attempt, then one batch popped from the
  ring, then the overflow file of the card. The broker is a parameter: \<open>pub n\<close> says whether the
  \<open>n\<close>-th publish succeeds. The loop over the overflow file carries fuel, and the main
  theorem shows how much is enough.
\<close>

section \<open>Base64\<close>

definition b64 :: string where
  "b64 = ''ABCDEFGHIJKLMNOPQRSTUVWXYZabcdefghijklmnopqrstuvwxyz0123456789+/''"

definition b64_triple :: "u8 \<Rightarrow> u8 \<Rightarrow> u8 \<Rightarrow> u32" where
  "b64_triple a b c = push_bit 16 (ucast a) + push_bit 8 (ucast b) + ucast c"

definition six :: "nat \<Rightarrow> u32 \<Rightarrow> u32" where
  "six k t = drop_bit k t AND 0x3F"

definition b64_quad :: "u32 \<Rightarrow> string" where
  "b64_quad t = map (\<lambda>k. b64 ! unat (six k t)) [18, 12, 6, 0]"

fun b64_groups :: "bytes \<Rightarrow> string" where
  "b64_groups [] = []"
| "b64_groups [a] = b64_quad (b64_triple a 0 0)"
| "b64_groups [a, b] = b64_quad (b64_triple a b 0)"
| "b64_groups (a # b # c # bs) = b64_quad (b64_triple a b c) @ b64_groups bs"

definition base64_encode :: "bytes \<Rightarrow> string" where
  "base64_encode bs =
    (let out = b64_groups bs; pad = (3 - length bs mod 3) mod 3
     in take (length out - pad) out @ replicate pad (CHR ''=''))"

text \<open>A reader of the encoding (RFC 4648), the specification of the encoder.\<close>

definition b64_val :: "char \<Rightarrow> u32" where
  "b64_val c = of_nat (length (takeWhile (\<lambda>x. x \<noteq> c) b64))"

definition b64_join :: "u32 \<Rightarrow> u32 \<Rightarrow> u32 \<Rightarrow> u32 \<Rightarrow> u32" where
  "b64_join p q r s = push_bit 18 p OR push_bit 12 q OR push_bit 6 r OR s"

definition b64_bytes :: "u32 \<Rightarrow> bytes" where
  "b64_bytes t = [ucast (drop_bit 16 t), ucast (drop_bit 8 t), ucast t]"

fun b64_decode :: "string \<Rightarrow> bytes" where
  "b64_decode (p # q # r # s # rest) =
    (let v = (\<lambda>c. if c = CHR ''='' then 0 else b64_val c)
     in take (if r = CHR ''='' then 1 else if s = CHR ''='' then 2 else 3)
          (b64_bytes (b64_join (v p) (v q) (v r) (v s))) @ b64_decode rest)"
| "b64_decode _ = []"

lemma b64_val_nth: "i < 64 \<Longrightarrow> b64_val (b64 ! i) = of_nat i \<and> b64 ! i \<noteq> CHR ''=''"
proof -
  have "\<forall>i \<in> set [0..<64]. length (takeWhile (\<lambda>x. x \<noteq> b64 ! i) b64) = i \<and> b64 ! i \<noteq> CHR ''=''"
    by code_simp
  then show "i < 64 \<Longrightarrow> b64_val (b64 ! i) = of_nat i \<and> b64 ! i \<noteq> CHR ''=''"
    by (simp add: b64_val_def)
qed

lemma six_less: "unat (six k t) < 64"
proof -
  have "six k t \<le> 0x3F" unfolding six_def by (rule word_and_le1)
  then show ?thesis by (simp add: word_le_nat_alt)
qed

lemma b64_val_six: "b64_val (b64 ! unat (six k t)) = six k t" "b64 ! unat (six k t) \<noteq> CHR ''=''"
  using b64_val_nth [OF six_less [of k t]] by simp_all

lemma length_b64_quad [simp]: "length (b64_quad t) = 4"
  by (simp add: b64_quad_def)

lemma bit_u8: "bit (a :: u8) k \<Longrightarrow> k < 8"
  using bit_imp_le_length [of a k] by simp

lemma b64_triple_or: "b64_triple a b c = push_bit 16 (ucast a) OR push_bit 8 (ucast b) OR ucast c"
proof -
  have "(push_bit 16 (ucast a) :: u32) AND push_bit 8 (ucast b) = 0"
    by (rule bit_word_eqI) (auto simp: bit_simps dest: bit_u8)
  then have "(push_bit 16 (ucast a) :: u32) + push_bit 8 (ucast b) = push_bit 16 (ucast a) OR push_bit 8 (ucast b)"
    by (rule disjunctive_add_eq_or)
  moreover have "(push_bit 16 (ucast a) OR push_bit 8 (ucast b) :: u32) AND ucast c = 0"
    by (rule bit_word_eqI) (auto simp: bit_simps dest: bit_u8)
  then have "(push_bit 16 (ucast a) OR push_bit 8 (ucast b) :: u32) + ucast c =
      (push_bit 16 (ucast a) OR push_bit 8 (ucast b)) OR ucast c"
    by (rule disjunctive_add_eq_or)
  ultimately show ?thesis by (simp only: b64_triple_def or.assoc)
qed

definition low24 :: "u32 \<Rightarrow> u32" where
  "low24 t = t AND mask 24"

lemma six_mask: "six k t = drop_bit k t AND mask 6"
  by (simp add: six_def mask_eq_exp_minus_1)

lemma sixbits: "b64_join (six 18 t) (six 12 t) (six 6 t) (six 0 t) = low24 t"
proof (rule bit_word_eqI)
  fix n assume "n < LENGTH(32)"
  then consider "n < 6" | "6 \<le> n \<and> n < 12" | "12 \<le> n \<and> n < 18" | "18 \<le> n \<and> n < 24" | "24 \<le> n \<and> n < 32"
    by fastforce
  then show "bit (b64_join (six 18 t) (six 12 t) (six 6 t) (six 0 t)) n = bit (low24 t) n"
    unfolding b64_join_def six_mask low24_def by cases (auto simp: bit_simps)
qed

lemma triple_byte:
  "ucast (drop_bit 16 (low24 (b64_triple a b c))) = a"
  "ucast (drop_bit 8 (low24 (b64_triple a b c))) = b"
  "ucast (low24 (b64_triple a b c)) = c"
  unfolding low24_def b64_triple_or by (rule bit_word_eqI; auto simp: bit_simps dest: bit_u8)+

lemma triple_bytes: "b64_bytes (low24 (b64_triple a b c)) = [a, b, c]"
  by (simp only: b64_bytes_def triple_byte)

lemma triple_low: "six 0 (b64_triple a b 0) = 0" "six 6 (b64_triple a 0 0) = 0"
  unfolding six_mask b64_triple_or by (rule bit_word_eqI; auto simp: bit_simps dest: bit_u8)+

text \<open>One group and its padding.\<close>

lemma quad_eq:
  "b64_quad t = [b64 ! unat (six 18 t), b64 ! unat (six 12 t), b64 ! unat (six 6 t), b64 ! unat (six 0 t)]"
  by (simp add: b64_quad_def)

lemma decode_quad: "b64_decode (b64_quad (b64_triple a b c) @ rest) = a # b # c # b64_decode rest"
  by (simp add: quad_eq b64_val_six Let_def sixbits triple_bytes)

lemma decode_pad1: "b64_decode (take 3 (b64_quad (b64_triple a b 0)) @ ''='') = [a, b]"
  using sixbits [of "b64_triple a b 0"]
  by (simp add: quad_eq b64_val_six Let_def triple_low triple_bytes)

lemma decode_pad2: "b64_decode (take 2 (b64_quad (b64_triple a 0 0)) @ ''=='') = [a]"
  using sixbits [of "b64_triple a 0 0"]
  by (simp add: quad_eq b64_val_six Let_def triple_low triple_bytes)

lemma div_step: "(5 + n) div 3 = Suc (Suc (Suc n) div 3)"
  by presburger

lemma length_groups: "length (b64_groups bs) = 4 * ((length bs + 2) div 3)"
  by (induction bs rule: b64_groups.induct) (auto simp: div_step)

lemma encode_Cons3: "base64_encode (a # b # c # bs) = b64_quad (b64_triple a b c) @ base64_encode bs"
proof -
  have m: "length (a # b # c # bs) mod 3 = length bs mod 3" by simp
  have "(3 - length bs mod 3) mod 3 \<le> length (b64_groups bs)"
    by (cases bs) (auto simp: length_groups)
  then show ?thesis unfolding base64_encode_def Let_def m by simp
qed

text \<open>The base64 encoder is correct for every input length: the standard decoder gives back exactly the
bytes, padding included, and the text of \<open>n\<close> bytes has \<open>4 * ceil(n / 3)\<close> characters,
684 for a full batch of 512, which fits the 700-byte buffer of the caller.\<close>

theorem base64_roundtrip:
  "b64_decode (base64_encode bs) = bs \<and> length (base64_encode bs) = 4 * ((length bs + 2) div 3)"
proof (induction bs rule: b64_groups.induct)
  case 1
  then show ?case by (simp add: base64_encode_def)
next
  case (2 a)
  have "base64_encode [a] = take 2 (b64_quad (b64_triple a 0 0)) @ ''==''"
    by (simp add: base64_encode_def Let_def numeral_2_eq_2)
  then show ?case by (simp only: decode_pad2) simp
next
  case (3 a b)
  have "base64_encode [a, b] = take 3 (b64_quad (b64_triple a b 0)) @ ''=''"
    by (simp add: base64_encode_def Let_def)
  then show ?case by (simp only: decode_pad1) simp
next
  case (4 a b c bs)
  then show ?case by (simp add: encode_Cons3 decode_quad div_step)
qed

section \<open>Publishing\<close>

record publisher =
  pb_pending :: bytes
  pb_tries :: nat
  pb_sent :: "string list"

definition publisher0 :: publisher where
  "publisher0 = \<lparr> pb_pending = [], pb_tries = 0, pb_sent = [] \<rparr>"

text \<open>One attempt: what the broker accepted is appended to \<open>pb_sent\<close>.\<close>

definition mqtt_publish :: "(nat \<Rightarrow> bool) \<Rightarrow> string \<Rightarrow> publisher \<Rightarrow> bool \<times> publisher" where
  "mqtt_publish pub payload q =
    (pub (pb_tries q), q\<lparr> pb_tries := pb_tries q + 1,
       pb_sent := (if pub (pb_tries q) then pb_sent q @ [payload] else pb_sent q) \<rparr>)"

text \<open>The drain loop of the overflow file; \<open>None\<close> when the fuel runs out.\<close>

fun drain_overflow ::
  "nat \<Rightarrow> ('fs, 'h) sdlib \<Rightarrow> (nat \<Rightarrow> bool) \<Rightarrow> 'h logger \<Rightarrow> publisher \<Rightarrow> (bool \<times> 'h logger \<times> publisher) option" where
  "drain_overflow 0 lib pub s q = None"
| "drain_overflow (Suc fuel) lib pub s q =
    (let (chunk, s1) = log_read_overflow_chunk lib 512 s in
     if chunk = [] then Some (True, s1, q)
     else let (ok, q1) = mqtt_publish pub (base64_encode chunk) q in
       if \<not> ok then Some (False, s1, q1) else drain_overflow fuel lib pub s1 q1)"

definition publish_overflow ::
  "nat \<Rightarrow> ('fs, 'h) sdlib \<Rightarrow> (nat \<Rightarrow> bool) \<Rightarrow> ('h logger \<times> 'fs) \<times> publisher \<Rightarrow>
   (('h logger \<times> 'fs) \<times> publisher) option" where
  "publish_overflow fuel lib pub x =
    (let ((s, fs), q) = x; (opened, s1) = log_open_overflow_for_read lib (s, fs) in
     if \<not> opened then Some ((s1, fs), q)
     else case drain_overflow fuel lib pub s1 q of
        None \<Rightarrow> None
      | Some (drained, s2, q1) \<Rightarrow>
          Some (if drained then log_close_overflow lib (s2, fs) else (log_close_overflow_keep s2, fs), q1))"

definition publish_log_batch ::
  "nat \<Rightarrow> ('fs, 'h) sdlib \<Rightarrow> nat \<Rightarrow> kv \<Rightarrow> bool \<Rightarrow> (nat \<Rightarrow> bool) \<Rightarrow>
   ('h logger \<times> 'fs) \<times> publisher \<Rightarrow> (('h logger \<times> 'fs) \<times> publisher) option" where
  "publish_log_batch fuel lib sz m connected pub x =
    (let ((s, fs), q) = x in
     if settings_load_mqtt 64 m = None \<or> \<not> connected then Some x
     else let (ok0, q0) = (if pb_pending q = [] then (True, q)
                           else mqtt_publish pub (base64_encode (pb_pending q)) q) in
       if \<not> ok0 then Some ((s, fs), q0)
       else let q1 = q0\<lparr> pb_pending := [] \<rparr>;
                (batch, s1) = log_pop_batch sz 512 s;
                (ok1, q2) = (if batch = [] then (True, q1) else mqtt_publish pub (base64_encode batch) q1) in
         if \<not> ok1 then Some ((s1, fs), q2\<lparr> pb_pending := batch \<rparr>)
         else publish_overflow fuel lib pub ((s1, fs), q2))"

text \<open>The bytes a reader recovers from what was sent after the first \<open>n\<close> messages.\<close>

definition sent_bytes :: "nat \<Rightarrow> publisher \<Rightarrow> bytes" where
  "sent_bytes n q = concat (map b64_decode (drop n (pb_sent q)))"

lemma decode_encode [simp]: "b64_decode (base64_encode bs) = bs"
  using base64_roundtrip by blast

lemma mqtt_publish_simps [simp]:
  "fst (mqtt_publish pub p q) = pub (pb_tries q)"
  "pb_pending (snd (mqtt_publish pub p q)) = pb_pending q"
  "pb_sent (snd (mqtt_publish pub p q)) = (if pub (pb_tries q) then pb_sent q @ [p] else pb_sent q)"
  by (simp_all add: mqtt_publish_def)

lemma drain_overflow_spec:
  assumes "sd_lawful lib view rest" "lg_overflow_file s = Some h" "length (rest h) < fuel"
  shows "\<exists>ok s' q' sent left. drain_overflow fuel lib pub s q = Some (ok, s', q') \<and>
    pb_sent q' = pb_sent q @ map base64_encode sent \<and> concat sent @ left = rest h \<and>
    (ok \<longrightarrow> left = []) \<and> pb_pending q' = pb_pending q \<and> lg_ring s' = lg_ring s \<and> lg_count s' = lg_count s \<and>
    lg_overflow_file s' \<noteq> None"
  using assms(2,3)
proof (induction fuel arbitrary: s q h)
  case (Suc fuel)
  let ?c = "take 512 (rest h)" and ?h = "snd (sd_read lib h 512)"
  have read: "log_read_overflow_chunk lib 512 s = (?c, s\<lparr> lg_overflow_file := Some ?h \<rparr>)"
    using Suc.prems(1) sd_laws(8) [OF assms(1)] by (simp add: log_read_overflow_chunk_def)
  have rest: "rest ?h = drop 512 (rest h)" by (rule sd_laws(9) [OF assms(1)])
  let ?s = "s\<lparr> lg_overflow_file := Some ?h \<rparr>"
  consider "rest h = []" | "rest h \<noteq> []" "\<not> pub (pb_tries q)" | "rest h \<noteq> []" "pub (pb_tries q)" by blast
  then show ?case
  proof cases
    case 1
    then show ?thesis using read
      by (intro exI [of _ True] exI [of _ ?s] exI [of _ q] exI [of _ "[]"]) simp
  next
    case 2
    then show ?thesis using read
      by (intro exI [of _ False] exI [of _ ?s] exI [of _ "snd (mqtt_publish pub (base64_encode ?c) q)"]
          exI [of _ "[] :: bytes list"])
        (simp add: case_prod_beta Let_def)
  next
    case 3
    let ?q = "snd (mqtt_publish pub (base64_encode ?c) q)"
    have "length (rest ?h) < fuel" using Suc.prems(2) 3(1) rest by (cases "rest h") auto
    with Suc.IH [of ?s ?h ?q] obtain ok s' q' sent left where
      ih: "drain_overflow fuel lib pub ?s ?q = Some (ok, s', q')"
        "pb_sent q' = pb_sent ?q @ map base64_encode sent" "concat sent @ left = rest ?h" "ok \<longrightarrow> left = []"
        "pb_pending q' = pb_pending ?q" "lg_ring s' = lg_ring s" "lg_count s' = lg_count s" "lg_overflow_file s' \<noteq> None"
      by auto
    have "drain_overflow (Suc fuel) lib pub s q = Some (ok, s', q')"
      using 3 read ih(1) by (simp add: case_prod_beta Let_def)
    moreover have "concat (?c # sent) @ left = rest h" using ih(3) rest by simp
    ultimately show ?thesis using ih 3
      by (intro exI [of _ ok] exI [of _ s'] exI [of _ q'] exI [of _ "?c # sent"] exI [of _ left]) simp
  qed
qed simp

lemma publish_overflow_spec:
  assumes "sd_lawful lib view rest" "length (old_content (view fs LOG_OVERFLOW_FILE)) < fuel"
  shows "\<exists>s' fs' q' sent. publish_overflow fuel lib pub ((s, fs), q) = Some ((s', fs'), q') \<and>
    pb_sent q' = pb_sent q @ map base64_encode sent \<and> pb_pending q' = pb_pending q \<and>
    lg_ring s' = lg_ring s \<and> lg_count s' = lg_count s \<and>
    ((fs' = fs \<and> (\<exists>left. concat sent @ left = old_content (view fs LOG_OVERFLOW_FILE))) \<or>
     (concat sent = old_content (view fs LOG_OVERFLOW_FILE) \<and> view fs' = (view fs)(LOG_OVERFLOW_FILE := None)))"
proof -
  obtain opened s1 where o: "log_open_overflow_for_read lib (s, fs) = (opened, s1)" by fastforce
  then have fr: "lg_ring s1 = lg_ring s" "lg_count s1 = lg_count s"
    by (auto simp: log_open_overflow_for_read_def case_prod_beta Let_def split: if_splits)
  show ?thesis
  proof (cases opened)
    case False
    then show ?thesis using o fr
      by (intro exI [of _ s1] exI [of _ fs] exI [of _ q] exI [of _ "[]"]) (simp add: publish_overflow_def)
  next
    case True
    then obtain h where h: "lg_overflow_file s1 = Some h" "sd_open_read lib LOG_OVERFLOW_FILE fs = Some h"
      using o by (auto simp: log_open_overflow_for_read_def case_prod_beta Let_def split: if_splits)
    have rest: "old_content (view fs LOG_OVERFLOW_FILE) = rest h"
      using sd_laws(5) [OF assms(1) h(2)] by (simp add: old_content_def)
    then have "length (rest h) < fuel" using assms(2) by simp
    from drain_overflow_spec [OF assms(1) h(1) this, of pub q] obtain ok s' q' sent left where
      d: "drain_overflow fuel lib pub s1 q = Some (ok, s', q')"
        "pb_sent q' = pb_sent q @ map base64_encode sent" "concat sent @ left = rest h" "ok \<longrightarrow> left = []"
        "pb_pending q' = pb_pending q" "lg_ring s' = lg_ring s1" "lg_count s' = lg_count s1"
        "lg_overflow_file s' \<noteq> None"
      by blast
    from d(8) obtain h' where h': "lg_overflow_file s' = Some h'" by blast
    show ?thesis
    proof (cases ok)
      case True
      then show ?thesis using o \<open>opened\<close> d fr h' rest sd_laws(2) [OF assms(1), of LOG_OVERFLOW_FILE fs]
        by (intro exI [of _ "s'\<lparr> lg_overflow_file := None \<rparr>"] exI [of _ "snd (sd_remove lib LOG_OVERFLOW_FILE fs)"]
            exI [of _ q'] exI [of _ sent]) (simp add: publish_overflow_def log_close_overflow_def)
    next
      case False
      then show ?thesis using o \<open>opened\<close> d fr rest
        by (intro exI [of _ "s'\<lparr> lg_overflow_file := None \<rparr>"] exI [of _ fs] exI [of _ q'] exI [of _ sent])
          (auto simp: publish_overflow_def log_close_overflow_keep_def)
    qed
  qed
qed



end
