(* ===== verification/Cycle_Counter.thy ===== *)
theory Cycle_Counter
  imports Battery_Store Counters
begin

text \<open>
  \<open>cycle_counter.cpp\<close>: per battery channel, the charge moved in and out, the state of charge, the
  depth-weighted cycle count and the running state-of-health estimate, ticked once a second and
  persisted on every direction flip that counts and every five minutes. The states of the 16 channels, the loaded
  flags and the last directions (1 charge, -1 discharge, 0 unknown) are lists of 16. The coulomb counter,
  the settings and the battery storage are those of the theories imported.
\<close>

record cycle =
  cy_state :: "BatteryState list"
  cy_loaded :: "bool list"
  cy_last_dir :: "int list"
  cy_last_persist_ms :: u32
  cy_initialized :: bool

definition cycle0 :: cycle where
  "cycle0 = \<lparr> cy_state = replicate 16 batstate0, cy_loaded = replicate 16 False,
     cy_last_dir = replicate 16 0, cy_last_persist_ms = 0, cy_initialized = False \<rparr>"

definition compute_soc_pct :: "kv \<Rightarrow> counter \<Rightarrow> u8 \<Rightarrow> BatteryChemistryProfile \<Rightarrow> f32" where
  "compute_soc_pct m cnt ch bp =
    (if f_le (bcp_rated_capacity_Ah bp) (f_lit 1 1000) then f_neg (f_of_int 1)
     else let net_mAh = get_coulomb_mAh cnt ch;
              cap_mAh = f_mul (bcp_rated_capacity_Ah bp) (f_of_int 1000);
              base_soc = (case settings_load_battery ch m of
                  None \<Rightarrow> f_of_int 100
                | Some bat \<Rightarrow> if f_ge (bc_initial_soc_pct bat) 0 \<and> f_le (bc_initial_soc_pct bat) (f_of_int 100)
                    then bc_initial_soc_pct bat else f_of_int 100);
              soc = f_add base_soc (f_mul (f_div net_mAh cap_mAh) (f_of_int 100));
              soc1 = (if f_lt soc 0 then 0 else soc)
          in if f_gt soc1 (f_of_int 100) then f_of_int 100 else soc1)"

definition classify :: "f32 \<Rightarrow> int" where
  "classify i = (if f_gt i (f_lit 1 50) then 1 else if f_lt i (f_neg (f_lit 1 50)) then - 1 else 0)"

definition init_cycle_counter :: "u32 \<Rightarrow> cycle \<Rightarrow> cycle" where
  "init_cycle_counter now cy = \<lparr> cy_state = replicate 16 batstate0, cy_loaded = replicate 16 False,
     cy_last_dir = replicate 16 0, cy_last_persist_ms = now, cy_initialized = True \<rparr>"

definition persist_state :: "prefs_env \<Rightarrow> u8 \<Rightarrow> battery \<times> cycle \<Rightarrow> battery \<times> cycle" where
  "persist_state env ch w = (snd (battery_state_save env ch (cy_state (snd w) ! unat ch) (fst w)), snd w)"

definition ensure_loaded :: "prefs_env \<Rightarrow> u8 \<Rightarrow> battery \<times> cycle \<Rightarrow> battery \<times> cycle" where
  "ensure_loaded env ch w =
    (let (b, cy) = w; i = unat ch in
     if 16 \<le> ch \<or> cy_loaded cy ! i then w
     else let (loaded, b1) = battery_state_load env ch b
          in (b1, cy\<lparr> cy_state := (cy_state cy)[i := case loaded of None \<Rightarrow> batstate0 | Some s \<Rightarrow> s],
                cy_loaded := (cy_loaded cy)[i := True], cy_last_dir := (cy_last_dir cy)[i := 0] \<rparr>))"

section \<open>One tick of one channel\<close>

definition integrate :: "f32 \<Rightarrow> f32 \<Rightarrow> int \<Rightarrow> BatteryState \<Rightarrow> BatteryState" where
  "integrate i dt dir st =
    (if dir = 1 then st\<lparr> bs_cumulative_Ah_in :=
         f_add (bs_cumulative_Ah_in st) (f_div (f_mul i dt) (f_of_int 3600)) \<rparr>
     else if dir = - 1 then st\<lparr> bs_cumulative_Ah_out :=
         f_add (bs_cumulative_Ah_out st) (f_div (f_mul (f_neg i) dt) (f_of_int 3600)) \<rparr>
     else st)"

definition clamp_pct :: "f32 \<Rightarrow> f32" where
  "clamp_pct x = (let y = (if f_lt x 0 then 0 else x) in if f_gt y (f_of_int 100) then f_of_int 100 else y)"

text \<open>The part of a counted flip that updates the health estimate.\<close>

definition update_soh :: "f32 \<Rightarrow> f32 \<Rightarrow> BatteryState \<Rightarrow> BatteryState" where
  "update_soh cap delta st =
    (if f_gt cap (f_lit 1 1000) then
       let leg_Ah = f_mul (f_div delta (f_of_int 100)) cap;
           leg = f_mul (f_div leg_Ah cap) (f_of_int 100);
           leg_soh = (if f_gt leg (f_of_int 100) then f_of_int 100 else leg);
           soh = (if bs_soh_samples st = 0 then leg_soh
                  else f_add (f_mul (f_lit 7 10) (bs_soh_pct st))
                         (f_mul (f_sub (f_of_int 1) (f_lit 7 10)) leg_soh))
       in st\<lparr> bs_last_full_discharge_Ah := leg_Ah, bs_soh_pct := clamp_pct soh,
              bs_soh_samples := bs_soh_samples st + 1 \<rparr>
     else st)"

definition session_delta :: "BatteryState \<Rightarrow> f32" where
  "session_delta st =
    (let d = f_sub (bs_last_SoC_pct st) (bs_last_session_start_pct st) in if f_lt d 0 then f_neg d else d)"

definition flip :: "f32 \<Rightarrow> BatteryState \<Rightarrow> bool \<times> BatteryState" where
  "flip cap st =
    (let delta = session_delta st; crossed = f_gt delta (f_of_int 5);
         st1 = (if crossed
                then update_soh cap delta
                  (st\<lparr> bs_equivalent_full_cycles := f_add (bs_equivalent_full_cycles st) (f_div delta (f_of_int 100)) \<rparr>)
                else st)
     in (crossed, st1\<lparr> bs_last_session_start_pct := bs_last_SoC_pct st1 \<rparr>))"

definition cycle_tick :: "f32 \<Rightarrow> f32 \<Rightarrow> f32 \<Rightarrow> f32 \<Rightarrow> f32 \<Rightarrow> u32 \<Rightarrow> BatteryState \<times> int \<Rightarrow> bool \<times> BatteryState \<times> int" where
  "cycle_tick cap soc v i dt now x =
    (let (st0, ld) = x;
         st1 = st0\<lparr> bs_last_V := v, bs_last_I := i, bs_last_update_ms := now \<rparr>;
         dir = classify i;
         st2 = integrate i dt dir st1;
         st3 = (if f_ge soc 0 then st2\<lparr> bs_last_SoC_pct := soc \<rparr> else st2);
         st4 = (if ld = 0 \<and> dir \<noteq> 0 then st3\<lparr> bs_last_session_start_pct := bs_last_SoC_pct st3 \<rparr> else st3);
         (crossed, st5) = (if ld \<noteq> 0 \<and> dir \<noteq> 0 \<and> ld \<noteq> dir then flip cap st4 else (False, st4))
     in (crossed, st5, if dir \<noteq> 0 then dir else ld))"

section \<open>The tick of all channels\<close>

definition update_channel ::
  "prefs_env \<Rightarrow> kv \<Rightarrow> counter \<Rightarrow> SensorSnapshot \<Rightarrow> f32 \<Rightarrow> u32 \<Rightarrow> u8 \<Rightarrow> battery \<times> cycle \<Rightarrow> battery \<times> cycle" where
  "update_channel env m cnt snap dt now ch w =
    (let pid = battery_channel_profile (fst w) ch in
     if pid = NO_BINDING then w
     else case battery_profile_get (fst w) pid of
         None \<Rightarrow> w
       | Some bp \<Rightarrow>
           let (b, cy) = ensure_loaded env ch w; i = unat ch;
               (crossed, st, dir) = cycle_tick (bcp_rated_capacity_Ah bp) (compute_soc_pct m cnt ch bp)
                  (snap_channel_voltage snap ch) (snap_channel_current snap ch) dt now
                  (cy_state cy ! i, cy_last_dir cy ! i);
               cy1 = cy\<lparr> cy_state := (cy_state cy)[i := st], cy_last_dir := (cy_last_dir cy)[i := dir] \<rparr>
           in if crossed then persist_state env ch (b, cy1) else (b, cy1))"

definition update_cycle_counter ::
  "prefs_env \<Rightarrow> kv \<Rightarrow> counter \<Rightarrow> SensorSnapshot \<Rightarrow> f32 \<Rightarrow> u32 \<Rightarrow> battery \<times> cycle \<Rightarrow> battery \<times> cycle" where
  "update_cycle_counter env m cnt snap dt now w =
    (let (b, cy0) = w; cy = (if cy_initialized cy0 then cy0 else init_cycle_counter now cy0);
         w1 = fold (\<lambda>ch. update_channel env m cnt snap dt now (of_nat ch)) [0..<16] (b, cy)
     in if 300000 \<le> now - cy_last_persist_ms (snd w1) then
          let w2 = fold (\<lambda>ch x. if cy_loaded (snd x) ! ch then persist_state env (of_nat ch) x else x) [0..<16] w1
          in (fst w2, (snd w2)\<lparr> cy_last_persist_ms := now \<rparr>)
        else w1)"

section \<open>Access and reset\<close>

definition cycle_counter_get :: "prefs_env \<Rightarrow> u8 \<Rightarrow> battery \<times> cycle \<Rightarrow> BatteryState option \<times> battery \<times> cycle" where
  "cycle_counter_get env ch w =
    (if 16 \<le> ch then (None, w)
     else let w1 = ensure_loaded env ch w in (Some (cy_state (snd w1) ! unat ch), w1))"

definition cycle_counter_put :: "prefs_env \<Rightarrow> u8 \<Rightarrow> BatteryState \<Rightarrow> battery \<times> cycle \<Rightarrow> battery \<times> cycle" where
  "cycle_counter_put env ch st w =
    (if 16 \<le> ch then w
     else (snd (battery_state_save env ch st (fst w)),
       (snd w)\<lparr> cy_state := (cy_state (snd w))[unat ch := st], cy_loaded := (cy_loaded (snd w))[unat ch := True] \<rparr>))"

definition cycle_counter_reset :: "prefs_env \<Rightarrow> u8 \<Rightarrow> battery \<times> cycle \<Rightarrow> battery \<times> cycle" where
  "cycle_counter_reset env ch w =
    (if 16 \<le> ch then w
     else let i = unat ch; was_loaded = cy_loaded (snd w) ! i;
              cy = (snd w)\<lparr> cy_state := (cy_state (snd w))[i := batstate0],
                     cy_last_dir := (cy_last_dir (snd w))[i := 0], cy_loaded := (cy_loaded (snd w))[i := True] \<rparr>
          in if was_loaded then persist_state env ch (fst w, cy) else (battery_state_reset env ch (fst w), cy))"

definition cycle_counter_is_active :: "u8 \<Rightarrow> battery \<Rightarrow> bool" where
  "cycle_counter_is_active ch b = (if 16 \<le> ch then False else battery_channel_profile b ch \<noteq> NO_BINDING)"

text \<open>The per-field getters share one shape; \<open>d\<close> is what an unbound channel reads.\<close>

definition cycle_field :: "prefs_env \<Rightarrow> (BatteryState \<Rightarrow> 'a) \<Rightarrow> 'a \<Rightarrow> u8 \<Rightarrow> battery \<times> cycle \<Rightarrow> 'a \<times> battery \<times> cycle" where
  "cycle_field env f d ch w =
    (if 16 \<le> ch then (d, w)
     else if battery_channel_profile (fst w) ch = NO_BINDING then (d, w)
     else let w1 = ensure_loaded env ch w in (f (cy_state (snd w1) ! unat ch), w1))"

definition cycle_counter_get_equivalent_full_cycles ::
  "prefs_env \<Rightarrow> u8 \<Rightarrow> battery \<times> cycle \<Rightarrow> f32 \<times> battery \<times> cycle" where
  "cycle_counter_get_equivalent_full_cycles env = cycle_field env bs_equivalent_full_cycles 0"
definition cycle_counter_get_cumulative_Ah_in ::
  "prefs_env \<Rightarrow> u8 \<Rightarrow> battery \<times> cycle \<Rightarrow> f32 \<times> battery \<times> cycle" where
  "cycle_counter_get_cumulative_Ah_in env = cycle_field env bs_cumulative_Ah_in 0"
definition cycle_counter_get_cumulative_Ah_out ::
  "prefs_env \<Rightarrow> u8 \<Rightarrow> battery \<times> cycle \<Rightarrow> f32 \<times> battery \<times> cycle" where
  "cycle_counter_get_cumulative_Ah_out env = cycle_field env bs_cumulative_Ah_out 0"
definition cycle_counter_get_last_soc_pct :: "prefs_env \<Rightarrow> u8 \<Rightarrow> battery \<times> cycle \<Rightarrow> f32 \<times> battery \<times> cycle" where
  "cycle_counter_get_last_soc_pct env = cycle_field env bs_last_SoC_pct (f_neg (f_of_int 1))"
definition cycle_counter_get_last_voltage :: "prefs_env \<Rightarrow> u8 \<Rightarrow> battery \<times> cycle \<Rightarrow> f32 \<times> battery \<times> cycle" where
  "cycle_counter_get_last_voltage env = cycle_field env bs_last_V 0"
definition cycle_counter_get_last_current :: "prefs_env \<Rightarrow> u8 \<Rightarrow> battery \<times> cycle \<Rightarrow> f32 \<times> battery \<times> cycle" where
  "cycle_counter_get_last_current env = cycle_field env bs_last_I 0"
definition cycle_counter_get_last_update_ms :: "prefs_env \<Rightarrow> u8 \<Rightarrow> battery \<times> cycle \<Rightarrow> u32 \<times> battery \<times> cycle" where
  "cycle_counter_get_last_update_ms env = cycle_field env bs_last_update_ms 0"

section \<open>Runs of one channel\<close>

type_synonym tick = "f32 \<times> f32 \<times> f32 \<times> f32 \<times> u32"

text \<open>A tick is the state of charge, voltage, current, interval and clock it is made with.\<close>

definition run_tick :: "f32 \<Rightarrow> tick \<Rightarrow> BatteryState \<times> int \<Rightarrow> BatteryState \<times> int" where
  "run_tick cap t x = (case t of (soc, v, i, dt, now) \<Rightarrow> snd (cycle_tick cap soc v i dt now x))"

definition cycle_run :: "f32 \<Rightarrow> tick list \<Rightarrow> BatteryState \<times> int \<Rightarrow> BatteryState \<times> int" where
  "cycle_run cap ts x = fold (run_tick cap) ts x"

lemma integrate_frame [simp]:
  "bs_equivalent_full_cycles (integrate i dt d st) = bs_equivalent_full_cycles st"
  "bs_last_SoC_pct (integrate i dt d st) = bs_last_SoC_pct st"
  "bs_last_session_start_pct (integrate i dt d st) = bs_last_session_start_pct st"
  "bs_soh_pct (integrate i dt d st) = bs_soh_pct st"
  "bs_soh_samples (integrate i dt d st) = bs_soh_samples st"
  by (simp_all add: integrate_def)

definition same_wear :: "BatteryState \<Rightarrow> BatteryState \<Rightarrow> bool" where
  "same_wear s t = (bs_equivalent_full_cycles s = bs_equivalent_full_cycles t \<and> bs_soh_pct s = bs_soh_pct t \<and>
     bs_soh_samples s = bs_soh_samples t)"

text \<open>All values of the set are within five points of each other.\<close>

definition shallow :: "f32 set \<Rightarrow> bool" where
  "shallow S = (\<forall>x\<in>S. \<forall>y\<in>S. \<not> f_gt (f_sub x y) (f_of_int 5) \<and> \<not> f_gt (f_neg (f_sub x y)) (f_of_int 5))"

lemma tick_shallow:
  assumes "shallow S" "bs_last_SoC_pct st \<in> S" "bs_last_session_start_pct st \<in> S" "soc \<in> S"
  shows "let (crossed, st', d) = cycle_tick cap soc v i dt now (st, ld) in
    \<not> crossed \<and> same_wear st' st \<and> bs_last_SoC_pct st' \<in> S \<and> bs_last_session_start_pct st' \<in> S"
proof -
  have no_flip: "flip cap s = (False, s\<lparr> bs_last_session_start_pct := bs_last_SoC_pct s \<rparr>)"
    if "bs_last_SoC_pct s \<in> S" "bs_last_session_start_pct s \<in> S" for s
    using that assms(1) by (simp add: flip_def session_delta_def shallow_def Let_def)
  show ?thesis using assms(2-4)
    by (simp add: cycle_tick_def case_prod_beta Let_def no_flip same_wear_def)
qed

text \<open>Sessions that stay within five points of charge never wear the battery, however many there are: as long as
all readings lie within five points of each other, any number of charge and discharge ticks leaves the cycle count
and the health estimate exactly where they were. (The header comment promises that the skipped portion is included in
the next leg.)\<close>

theorem shallow_cycles_never_count:
  assumes "shallow S" "bs_last_SoC_pct st \<in> S" "bs_last_session_start_pct st \<in> S" "\<forall>t \<in> set ts. fst t \<in> S"
  shows "same_wear (fst (cycle_run cap ts (st, ld))) st"
proof -
  have "same_wear (fst (cycle_run cap ts (st, ld))) st \<and> bs_last_SoC_pct (fst (cycle_run cap ts (st, ld))) \<in> S"
    using assms(2-4)
  proof (induction ts arbitrary: st ld)
    case Nil
    then show ?case by (simp add: cycle_run_def same_wear_def)
  next
    case (Cons t ts)
    obtain soc v i dt now where t: "t = (soc, v, i, dt, now)" by (cases t)
    obtain crossed st' d where r: "cycle_tick cap soc v i dt now (st, ld) = (crossed, st', d)" by (cases "cycle_tick cap soc v i dt now (st, ld)")
    have k: "same_wear st' st" "bs_last_SoC_pct st' \<in> S" "bs_last_session_start_pct st' \<in> S"
      using tick_shallow [OF assms(1) Cons.prems(1,2), of soc cap v i dt now ld] Cons.prems(3) r t by auto
    have run: "cycle_run cap (t # ts) (st, ld) = cycle_run cap ts (st', d)"
      by (simp add: cycle_run_def run_tick_def t r)
    have "same_wear (fst (cycle_run cap ts (st', d))) st' \<and> bs_last_SoC_pct (fst (cycle_run cap ts (st', d))) \<in> S"
      using Cons.IH [of st' d] k Cons.prems(3) by simp
    then show ?case unfolding run using k(1) by (auto simp: same_wear_def)
  qed
  then show ?thesis by blast
qed

text \<open>A thousand rounds between 90 and 85 percent.\<close>

lemma shallow_90_85: "shallow {f_of_int 90, f_of_int 85}"
proof -
  have "\<forall>x\<in>set [f_of_int 90, f_of_int 85]. \<forall>y\<in>set [f_of_int 90, f_of_int 85].
      \<not> f_gt (f_sub x y) (f_of_int 5) \<and> \<not> f_gt (f_neg (f_sub x y)) (f_of_int 5)"
    by code_simp
  then show ?thesis unfolding shallow_def by (simp only: list.set)
qed

lemma shallow_cycles_never_count_witness:
  "bs_equivalent_full_cycles (fst (cycle_run (f_of_int 100)
     (concat (replicate 1000 [(f_of_int 85, 0, f_neg (f_of_int 2), f_of_int 1, 0), (f_of_int 90, 0, f_of_int 2, f_of_int 1, 0)]))
     (batstate0\<lparr> bs_last_SoC_pct := f_of_int 90, bs_last_session_start_pct := f_of_int 90 \<rparr>, 0))) = 0"
  using shallow_cycles_never_count [OF shallow_90_85,
      of "batstate0\<lparr> bs_last_SoC_pct := f_of_int 90, bs_last_session_start_pct := f_of_int 90 \<rparr>"
        "concat (replicate 1000 [(f_of_int 85, 0, f_neg (f_of_int 2), f_of_int 1, 0), (f_of_int 90, 0, f_of_int 2, f_of_int 1, 0)])"
        "f_of_int 100" 0]
  by (simp add: same_wear_def batstate0_def)

text \<open>The health estimate of the first counted leg is the leg's depth, whatever was measured: a healthy battery
that is discharged from 100 to 80 percent and charged again reads 20 percent healthy, whether it is the 100 Ah
lead-acid or the 2.5 Ah lithium profile.\<close>

theorem health_is_depth:
  assumes "cap = f_of_int 100 \<or> cap = f_lit 5 2" "bs_soh_samples st = 0" "bs_last_session_start_pct st = f_of_int 100"
  shows "let (crossed, st', d) = cycle_tick cap (f_of_int 80) v (f_of_int 1) dt now (st, - 1) in
    crossed \<and> bs_soh_pct st' = f_of_int 20 \<and> bs_soh_samples st' = 1 \<and>
    bs_equivalent_full_cycles st' = f_add (bs_equivalent_full_cycles st) (f_lit 1 5)"
proof -
  have f: "classify (f_of_int 1) = 1" "f_ge (f_of_int 80) 0" "f_lt (f_sub (f_of_int 80) (f_of_int 100)) 0"
    "f_neg (f_sub (f_of_int 80) (f_of_int 100)) = f_of_int 20" "f_gt (f_of_int 20) (f_of_int 5)"
    "f_div (f_of_int 20) (f_of_int 100) = f_lit 1 5"
    by code_simp+
  have s: "update_soh cap (f_of_int 20) x = x\<lparr> bs_last_full_discharge_Ah := f_mul (f_lit 1 5) cap,
      bs_soh_pct := f_of_int 20, bs_soh_samples := bs_soh_samples x + 1 \<rparr>" if "bs_soh_samples x = 0" for x
  proof -
    have g: "f_gt (f_of_int 100) (f_lit 1 1000)" "f_gt (f_lit 5 2) (f_lit 1 1000)"
      "f_mul (f_div (f_mul (f_lit 1 5) (f_of_int 100)) (f_of_int 100)) (f_of_int 100) = f_of_int 20"
      "f_mul (f_div (f_mul (f_lit 1 5) (f_lit 5 2)) (f_lit 5 2)) (f_of_int 100) = f_of_int 20"
      "\<not> f_gt (f_of_int 20) (f_of_int 100)"
      by code_simp+
    have z: "\<not> f_lt (f_of_int 20) 0"
      using f_nonneg_of_int [of 20] by (simp add: f_lt_def f_nonneg_def)
    from assms(1) show ?thesis
      by (elim disjE; simp only: update_soh_def clamp_pct_def Let_def f(6) g z that if_True if_False simp_thms)
  qed
  show ?thesis using assms(2,3)
    by (simp add: cycle_tick_def flip_def session_delta_def Let_def f s)
qed

lemma health_is_depth_witness:
  "bs_soh_pct (fst (snd (cycle_tick (f_of_int 100) (f_of_int 80) 0 (f_of_int 1) (f_of_int 1) 0
     (batstate0\<lparr> bs_last_session_start_pct := f_of_int 100 \<rparr>, - 1)))) = f_of_int 20"
  using health_is_depth [of "f_of_int 100" "batstate0\<lparr> bs_last_session_start_pct := f_of_int 100 \<rparr>" 0 "f_of_int 1" 0]
  by (simp add: batstate0_def case_prod_beta Let_def)

end
