(* ===== verification/Event_Rings.thy ===== *)
theory Event_Rings
  imports Nvs "HOL-Library.Signed_Division"
begin

text \<open>
  The two record rings of the diagnostics: \<open>event_log.cpp\<close> (64 entries, read by index, never consumed) and
  \<open>error_reporter.cpp\<close> (8 entries, popped oldest first). Both overwrite their oldest entry when full. The locale
  \<open>newest_log\<close> is what their clients rely on: the ring holds the newest entries logged, in order. A C string is
  the list of its bytes without the NUL; the text of an event is what \<open>vsnprintf\<close> made of its format.
\<close>

section \<open>Circular buffers\<close>

definition cyc :: "'a list \<Rightarrow> nat \<Rightarrow> nat \<Rightarrow> 'a list" where
  "cyc buf start n = map (\<lambda>i. buf ! ((start + i) mod length buf)) [0..<n]"

definition newest :: "nat \<Rightarrow> 'a list \<Rightarrow> 'a list" where
  "newest n xs = drop (length xs - n) xs"

lemma length_cyc [simp]: "length (cyc buf start n) = n"
  by (simp add: cyc_def)

lemma cyc_slots_distinct:
  assumes "i < n" "n < (N :: nat)"
  shows "(start + i) mod N \<noteq> (start + n) mod N"
proof
  assume "(start + i) mod N = (start + n) mod N"
  then have "N dvd (start + n) - (start + i)" using assms mod_eq_dvd_iff_nat [of "start + i" "start + n" N] by simp
  then show False using assms nat_dvd_not_less [of "n - i" N] by simp
qed

lemma cyc_put:
  assumes "n < length buf"
  shows "cyc (buf[(start + n) mod length buf := e]) start (Suc n) = cyc buf start n @ [e]"
proof -
  have "(start + n) mod length buf < length buf" by (rule mod_less_divisor) (use assms in linarith)
  moreover have "map (\<lambda>i. buf[(start + n) mod length buf := e] ! ((start + i) mod length buf)) [0..<n] =
      map (\<lambda>i. buf ! ((start + i) mod length buf)) [0..<n]"
    using cyc_slots_distinct [OF _ assms, of _ start]
    by (intro map_cong refl nth_list_update_neq) (metis atLeastLessThan_iff set_upt)
  ultimately show ?thesis by (simp add: cyc_def)
qed

lemma cyc_tl:
  assumes "0 < n"
  shows "cyc buf ((start + 1) mod length buf) (n - 1) = tl (cyc buf start n)"
proof -
  obtain m where m: "n = Suc m" using assms by (cases n) auto
  show ?thesis unfolding m
    by (simp add: cyc_def upt_conv_Cons map_Suc_upt [symmetric] mod_add_left_eq del: upt_Suc)
qed

lemma cyc_overwrite:
  assumes "start < length buf"
  shows "cyc (buf[start := e]) ((start + 1) mod length buf) (length buf) = tl (cyc buf start (length buf)) @ [e]"
proof -
  define N where "N = length buf"
  have N: "0 < N" using assms unfolding N_def by linarith
  define s1 where "s1 = (start + 1) mod N"
  have s1: "s1 < N" using N by (simp add: s1_def)
  have last_pos: "(s1 + (N - 1)) mod N = start"
    using assms N by (auto simp: s1_def N_def mod_if)
  have "cyc (buf[(s1 + (N - 1)) mod length buf := e]) s1 (Suc (N - 1)) = cyc buf s1 (N - 1) @ [e]"
    by (rule cyc_put) (use N in \<open>simp add: N_def\<close>)
  moreover have "cyc buf s1 (N - 1) = tl (cyc buf start N)"
    using cyc_tl [of N buf start] N by (simp add: s1_def N_def)
  ultimately show ?thesis using last_pos N by (simp add: N_def s1_def)
qed

lemma newest_snoc:
  "length xs < n \<Longrightarrow> newest n (xs @ [e]) = xs @ [e]"
  "length xs = n \<Longrightarrow> 0 < n \<Longrightarrow> newest n (xs @ [e]) = tl xs @ [e]"
  by (simp_all add: newest_def drop_Suc)

lemma newest_newest_snoc: "newest n (newest n xs @ [e]) = newest n (xs @ [e])"
proof (cases "length xs < n")
  case True
  then show ?thesis by (simp add: newest_def)
next
  case False
  then have "Suc (length xs) - n - (length xs - n) = Suc n - n \<or> n = 0" by auto
  then show ?thesis using False by (auto simp: newest_def Suc_diff_le)
qed

section \<open>The interface\<close>

locale newest_log =
  fixes inv :: "'s \<Rightarrow> bool"
    and log :: "'e \<Rightarrow> 's \<Rightarrow> 's"
    and entries :: "'s \<Rightarrow> 'e list"
    and cap :: nat
  assumes log_inv: "inv s \<Longrightarrow> inv (log e s)"
    and log_entries: "inv s \<Longrightarrow> entries (log e s) = newest cap (entries s @ [e])"
    and fits: "inv s \<Longrightarrow> length (entries s) \<le> cap"
begin

lemma log_many: "inv s \<Longrightarrow> inv (fold log es s) \<and> entries (fold log es s) = newest cap (entries s @ es)"
proof (induction es rule: rev_induct)
  case Nil
  then show ?case using fits [of s] by (simp add: newest_def)
next
  case (snoc e es)
  then show ?case using newest_newest_snoc [of cap "entries s @ es" e] by (simp add: log_inv log_entries)
qed

lemma log_keeps_last: "inv s \<Longrightarrow> 0 < cap \<Longrightarrow> last (entries (log e s)) = e"
  by (simp add: log_entries newest_def)

end

section \<open>The event log\<close>

record EventLogEntry =
  ev_uptime_ms :: u32
  ev_severity :: u8
  ev_subsystem :: bytes
  ev_message :: bytes

record EventRing =
  evr_buf :: "EventLogEntry list"
  evr_head :: u8
  evr_count :: u8
  evr_total :: u32
  evr_initialized :: bool

definition event0 :: EventLogEntry where
  "event0 = \<lparr> ev_uptime_ms = 0, ev_severity = 0, ev_subsystem = [], ev_message = [] \<rparr>"

definition event_entry :: "u32 \<Rightarrow> u8 \<Rightarrow> bytes \<Rightarrow> bytes \<Rightarrow> EventLogEntry" where
  "event_entry now severity subsystem msg =
    \<lparr> ev_uptime_ms = now, ev_severity = (if 3 < severity then 3 else severity),
      ev_subsystem = take 11 subsystem, ev_message = take 59 msg \<rparr>"

definition event_put :: "EventLogEntry \<Rightarrow> EventRing \<Rightarrow> EventRing" where
  "event_put e r =
    (let r1 = r\<lparr> evr_buf := (evr_buf r)[unat (evr_head r) := e], evr_head := (evr_head r + 1) mod 64 \<rparr>;
         r2 = (if evr_count r1 < 64 then r1\<lparr> evr_count := evr_count r1 + 1 \<rparr> else r1)
     in r2\<lparr> evr_total := evr_total r2 + 1 \<rparr>)"

definition log_event :: "u32 \<Rightarrow> u8 \<Rightarrow> bytes \<Rightarrow> bytes \<Rightarrow> EventRing \<Rightarrow> EventRing" where
  "log_event now severity subsystem msg r =
    (if \<not> evr_initialized r then r else event_put (event_entry now severity subsystem msg) r)"

definition init_event_log :: "u32 \<Rightarrow> EventRing \<Rightarrow> EventRing" where
  "init_event_log now r =
    log_event now 1 (str_bytes ''system'') (str_bytes ''event log initialized'')
      \<lparr> evr_buf = replicate 64 event0, evr_head = 0, evr_count = 0, evr_total = 0, evr_initialized = True \<rparr>"

text \<open>\<open>head - count\<close> is an \<open>int\<close>: negative after a wrap, and C's remainder keeps its sign; the \<open>uint8_t\<close> it is
stored in brings it back into range because 64 divides 256.\<close>

definition get_ring_event :: "u8 \<Rightarrow> EventRing \<Rightarrow> EventLogEntry option" where
  "get_ring_event idx r =
    (if evr_count r \<le> idx then None
     else let tail = (word_of_int ((int (unat (evr_head r)) - int (unat (evr_count r))) smod 64) :: u8);
              pos = (unat tail + unat idx) mod 64
          in Some (evr_buf r ! pos))"

definition get_ring_event_count :: "EventRing \<Rightarrow> u8" where
  "get_ring_event_count r = evr_count r"

definition get_total_event_count :: "EventRing \<Rightarrow> u32" where
  "get_total_event_count r = evr_total r"

definition event_inv :: "EventRing \<Rightarrow> bool" where
  "event_inv r = (length (evr_buf r) = 64 \<and> unat (evr_head r) < 64 \<and> unat (evr_count r) \<le> 64)"

definition event_tail :: "EventRing \<Rightarrow> nat" where
  "event_tail r = (unat (evr_head r) + 64 - unat (evr_count r)) mod 64"

definition event_entries :: "EventRing \<Rightarrow> EventLogEntry list" where
  "event_entries r = cyc (evr_buf r) (event_tail r) (unat (evr_count r))"

lemma event_slot:
  assumes "event_inv r" "idx < evr_count r"
  shows "get_ring_event idx r = Some (event_entries r ! unat idx)"
proof -
  define h c where "h = unat (evr_head r)" and "c = unat (evr_count r)"
  have b: "h < 64" "c \<le> 64" using assms(1) by (auto simp: event_inv_def h_def c_def)
  define d where "d = int h - int c"
  have "unat (word_of_int (d smod 64) :: u8) = nat ((d smod 64) mod 256)"
    by (simp add: unsigned_of_int take_bit_eq_mod)
  moreover have "((d smod 64) mod 256) mod 64 = d mod 64"
    by (cases "0 < d"; cases "d = 0")
      (simp_all add: mod_mod_cancel signed_modulo_int_def sgn_if abs_if mod_minus_eq)
  ultimately have "int (unat (word_of_int (d smod 64) :: u8) mod 64) = d mod 64"
    by (simp add: zmod_int)
  moreover have "d mod 64 = int (event_tail r)"
  proof -
    have "int (event_tail r) = int (h + 64 - c) mod 64" by (simp add: event_tail_def h_def c_def zmod_int)
    also have "int (h + 64 - c) = d + 64" using b by (simp add: d_def)
    finally show ?thesis by simp
  qed
  ultimately have t: "unat (word_of_int (d smod 64) :: u8) mod 64 = event_tail r" by linarith
  have "unat idx < c" using assms(2) by (simp add: c_def word_less_nat_alt)
  then have "event_entries r ! unat idx = evr_buf r ! ((event_tail r + unat idx) mod 64)"
    using assms(1) by (simp add: event_entries_def cyc_def event_inv_def c_def)
  also have "(event_tail r + unat idx) mod 64 = (unat (word_of_int (d smod 64) :: u8) + unat idx) mod 64"
    by (simp only: t [symmetric] mod_add_left_eq)
  finally show ?thesis using assms(2) by (simp add: get_ring_event_def Let_def d_def h_def c_def leD not_le)
qed

lemma event_put_inv:
  assumes "event_inv r"
  shows "event_inv (event_put e r)"
  using assms by (auto simp: event_inv_def event_put_def Let_def word_less_nat_alt unat_mod unat_word_ariths)

lemma event_put_entries:
  assumes "event_inv r"
  shows "event_entries (event_put e r) = newest 64 (event_entries r @ [e])"
proof -
  define h c t where "h = unat (evr_head r)" and "c = unat (evr_count r)" and "t = event_tail r"
  have b: "length (evr_buf r) = 64" "h < 64" "c \<le> 64" "t < 64"
    using assms by (auto simp: event_inv_def h_def c_def t_def event_tail_def)
  have h: "h = (t + c) mod 64" using b by (simp add: t_def event_tail_def h_def c_def mod_add_left_eq)
  have h1: "unat ((evr_head r + 1) mod 64) = (h + 1) mod 64"
    using b by (simp add: unat_mod unat_word_ariths h_def)
  show ?thesis
  proof (cases "c < 64")
    case True
    have "unat (evr_count r + 1) = c + 1" using True by (simp add: c_def unat_word_ariths)
    moreover have "evr_count r < 64" using True by (simp add: c_def word_less_nat_alt)
    moreover have "event_tail (event_put e r) = t"
      using calculation b h h1 True
      by (auto simp: event_tail_def event_put_def Let_def t_def [symmetric] c_def [symmetric] mod_if)
    ultimately have "event_entries (event_put e r) = cyc ((evr_buf r)[h := e]) t (Suc c)"
      by (simp add: event_entries_def event_put_def Let_def h_def)
    then show ?thesis
      using cyc_put [of c "evr_buf r" t e] b True h newest_snoc(1) [of "event_entries r" 64 e]
      by (simp add: event_entries_def c_def t_def)
  next
    case False
    then have c: "c = 64" using b by simp
    have "\<not> evr_count r < 64" using c by (simp add: c_def word_less_nat_alt)
    moreover have "event_tail (event_put e r) = (t + 1) mod 64"
      using calculation b h h1 c by (auto simp: event_tail_def event_put_def Let_def c_def [symmetric] mod_add_left_eq)
    ultimately have "event_entries (event_put e r) = cyc ((evr_buf r)[t := e]) ((t + 1) mod 64) 64"
      using h c b by (simp add: event_entries_def event_put_def Let_def h_def c_def)
    then show ?thesis
      using cyc_overwrite [of t "evr_buf r" e] b c newest_snoc(2) [of "event_entries r" 64 e]
      by (simp add: event_entries_def c_def t_def)
  qed
qed

interpretation event_ring: newest_log event_inv event_put event_entries 64
  by unfold_locales (simp_all add: event_put_inv event_put_entries, simp add: event_entries_def event_inv_def)

type_synonym logged = "u32 \<times> u8 \<times> bytes \<times> bytes"

definition entry_of :: "logged \<Rightarrow> EventLogEntry" where
  "entry_of x = (case x of (now, sev, sub, msg) \<Rightarrow> event_entry now sev sub msg)"

definition log_all :: "logged list \<Rightarrow> EventRing \<Rightarrow> EventRing" where
  "log_all xs r = fold (\<lambda>(now, sev, sub, msg). log_event now sev sub msg) xs r"

definition boot_event :: "u32 \<Rightarrow> logged" where
  "boot_event t = (t, 1, str_bytes ''system'', str_bytes ''event log initialized'')"

lemma log_event_initialized:
  "evr_initialized r \<Longrightarrow> log_event now sev sub msg r = event_put (entry_of (now, sev, sub, msg)) r \<and>
    evr_initialized (log_event now sev sub msg r) \<and>
    evr_total (log_event now sev sub msg r) = evr_total r + 1"
  by (simp add: log_event_def event_put_def Let_def entry_of_def)

lemma log_all_put:
  "evr_initialized r \<Longrightarrow> log_all xs r = fold event_put (map entry_of xs) r \<and>
    evr_total (log_all xs r) = evr_total r + of_nat (length xs)"
proof (induction xs arbitrary: r)
  case (Cons x xs)
  obtain now sev sub msg where x: "x = (now, sev, sub, msg)" by (cases x)
  show ?case
    using Cons.IH [of "log_event now sev sub msg r"] log_event_initialized [OF Cons.prems, of now sev sub msg]
    by (auto simp: log_all_def x algebra_simps)
qed (simp add: log_all_def)

text \<open>C19: The event log is a window on everything logged since boot: index \<open>i\<close> reads the \<open>i\<close>-th oldest of the
last 64 events (the boot message included), an index past them fails, and the total counts every event, dropped ones
included.\<close>

theorem event_log_keeps_newest:
  "let r = log_all xs (init_event_log t r0); w = newest 64 (map entry_of (boot_event t # xs)) in
    (\<forall>idx. get_ring_event idx r = (if unat idx < length w then Some (w ! unat idx) else None)) \<and>
    get_ring_event_count r = of_nat (length w) \<and> get_total_event_count r = of_nat (length xs + 1)"
proof -
  define s where "s = \<lparr> evr_buf = replicate 64 event0, evr_head = 0, evr_count = 0, evr_total = 0,
    evr_initialized = True \<rparr>"
  define r where "r = log_all xs (init_event_log t r0)"
  define w where "w = newest 64 (map entry_of (boot_event t # xs))"
  have s: "event_inv s" "event_entries s = []" "evr_total s = 0" "evr_initialized s"
    by (simp_all add: s_def event_inv_def event_entries_def cyc_def)
  have "r = log_all (boot_event t # xs) s"
    by (simp add: r_def log_all_def boot_event_def init_event_log_def s_def)
  then have r: "r = fold event_put (map entry_of (boot_event t # xs)) s"
    "evr_total r = of_nat (length xs + 1)"
    using log_all_put [OF s(4), of "boot_event t # xs"] s(3) by auto
  have i: "event_inv r" "event_entries r = w"
    using event_ring.log_many [OF s(1), of "map entry_of (boot_event t # xs)"] s(2)
    unfolding r(1) w_def by auto
  have n: "length w = unat (evr_count r)" using i(2) by (metis event_entries_def length_cyc)
  have "get_ring_event idx r = (if unat idx < length w then Some (w ! unat idx) else None)" for idx
    using event_slot [OF i(1), of idx] i(2) unfolding n
    by (auto simp: get_ring_event_def word_less_nat_alt word_le_nat_alt)
  then show ?thesis
    unfolding Let_def r_def [symmetric] w_def [symmetric]
    using r(2) n by (simp add: get_ring_event_count_def get_total_event_count_def)
qed

section \<open>The error reporter\<close>

record ErrorReport =
  er_uptime_ms :: u32
  er_subsystem :: bytes
  er_code :: u8
  er_message :: bytes

record ErrorRing =
  err_buf :: "ErrorReport list"
  err_head :: u8
  err_tail :: u8
  err_count :: u8

definition error_ring0 :: ErrorRing where
  "error_ring0 = \<lparr> err_buf = replicate 8 \<lparr> er_uptime_ms = 0, er_subsystem = [], er_code = 0, er_message = [] \<rparr>,
     err_head = 0, err_tail = 0, err_count = 0 \<rparr>"

text \<open>\<open>safe_copy\<close> leaves the destination alone when the source is null.\<close>

definition safe_copy :: "bytes \<Rightarrow> bytes option \<Rightarrow> nat \<Rightarrow> bytes" where
  "safe_copy dst src n = (case src of None \<Rightarrow> dst | Some s \<Rightarrow> if n = 0 then dst else take (n - 1) s)"

definition fill_report :: "u32 \<Rightarrow> bytes option \<Rightarrow> u8 \<Rightarrow> bytes option \<Rightarrow> ErrorReport \<Rightarrow> ErrorReport" where
  "fill_report now subsystem code message e =
    e\<lparr> er_uptime_ms := now, er_subsystem := safe_copy (er_subsystem e) subsystem 16, er_code := code,
       er_message := safe_copy (er_message e) message 64 \<rparr>"

definition error_put :: "ErrorReport \<Rightarrow> ErrorRing \<Rightarrow> ErrorRing" where
  "error_put e r =
    (let r1 = r\<lparr> err_buf := (err_buf r)[unat (err_head r) := e], err_head := (err_head r + 1) mod 8 \<rparr>
     in if err_count r1 < 8 then r1\<lparr> err_count := err_count r1 + 1 \<rparr>
        else r1\<lparr> err_tail := (err_tail r1 + 1) mod 8 \<rparr>)"

definition report_error :: "u32 \<Rightarrow> bytes option \<Rightarrow> u8 \<Rightarrow> bytes option \<Rightarrow> ErrorRing \<Rightarrow> ErrorRing" where
  "report_error now subsystem code message r =
    error_put (fill_report now subsystem code message (err_buf r ! unat (err_head r))) r"

definition pending_error_count :: "ErrorRing \<Rightarrow> u8" where
  "pending_error_count r = err_count r"

definition pop_pending_error :: "ErrorRing \<Rightarrow> ErrorReport option \<times> ErrorRing" where
  "pop_pending_error r =
    (if err_count r = 0 then (None, r)
     else (Some (err_buf r ! unat (err_tail r)),
       r\<lparr> err_tail := (err_tail r + 1) mod 8, err_count := err_count r - 1 \<rparr>))"

definition clear_pending_errors :: "ErrorRing \<Rightarrow> ErrorRing" where
  "clear_pending_errors r = r\<lparr> err_head := 0, err_tail := 0, err_count := 0 \<rparr>"

definition error_inv :: "ErrorRing \<Rightarrow> bool" where
  "error_inv r = (length (err_buf r) = 8 \<and> unat (err_tail r) < 8 \<and> unat (err_count r) \<le> 8 \<and>
     unat (err_head r) = (unat (err_tail r) + unat (err_count r)) mod 8)"

definition error_entries :: "ErrorRing \<Rightarrow> ErrorReport list" where
  "error_entries r = cyc (err_buf r) (unat (err_tail r)) (unat (err_count r))"

lemma unat_step8: "unat (w :: u8) < 8 \<Longrightarrow> unat ((w + 1) mod 8) = (unat w + 1) mod 8"
  by (simp add: unat_mod unat_word_ariths)

lemma error_put_ok:
  assumes "error_inv r"
  shows "error_inv (error_put e r)" "error_entries (error_put e r) = newest 8 (error_entries r @ [e])"
proof -
  define h c t where "h = unat (err_head r)" and "c = unat (err_count r)" and "t = unat (err_tail r)"
  have b: "length (err_buf r) = 8" "h < 8" "c \<le> 8" "t < 8" "h = (t + c) mod 8"
    using assms by (auto simp: error_inv_def h_def c_def t_def)
  have h1: "unat ((err_head r + 1) mod 8) = (h + 1) mod 8" "unat ((err_tail r + 1) mod 8) = (t + 1) mod 8"
    using b unat_step8 by (simp_all add: h_def t_def)
  have "error_inv (error_put e r) \<and> error_entries (error_put e r) = newest 8 (error_entries r @ [e])"
  proof (cases "c < 8")
    case True
    then have k: "unat (err_count r + 1) = c + 1" "err_count r < 8"
      by (simp_all add: c_def unat_word_ariths word_less_nat_alt)
    then show ?thesis
      using b h1 cyc_put [of c "err_buf r" t e] newest_snoc(1) [of "error_entries r" 8 e] True
      by (simp add: error_inv_def error_entries_def error_put_def Let_def h_def [symmetric] c_def [symmetric]
          t_def [symmetric] mod_Suc_eq)
  next
    case False
    then have c: "c = 8" "\<not> err_count r < 8" using b by (simp_all add: c_def word_less_nat_alt)
    then show ?thesis
      using b h1 cyc_overwrite [of t "err_buf r" e] newest_snoc(2) [of "error_entries r" 8 e]
      by (simp add: error_inv_def error_entries_def error_put_def Let_def h_def [symmetric] c_def [symmetric]
          t_def [symmetric])
  qed
  then show "error_inv (error_put e r)" "error_entries (error_put e r) = newest 8 (error_entries r @ [e])" by auto
qed

interpretation error_ring: newest_log error_inv error_put error_entries 8
  by unfold_locales (simp_all add: error_put_ok, simp add: error_entries_def error_inv_def)

lemma pop_ok:
  assumes "error_inv r"
  shows "fst (pop_pending_error r) = (case error_entries r of [] \<Rightarrow> None | e # _ \<Rightarrow> Some e)"
    "error_entries (snd (pop_pending_error r)) = tl (error_entries r)" "error_inv (snd (pop_pending_error r))"
proof -
  define c t where "c = unat (err_count r)" and "t = unat (err_tail r)"
  have b: "length (err_buf r) = 8" "c \<le> 8" "t < 8" using assms by (auto simp: error_inv_def c_def t_def)
  have "fst (pop_pending_error r) = (case error_entries r of [] \<Rightarrow> None | e # _ \<Rightarrow> Some e) \<and>
      error_entries (snd (pop_pending_error r)) = tl (error_entries r) \<and> error_inv (snd (pop_pending_error r))"
  proof (cases "err_count r = 0")
    case True
    then show ?thesis using assms by (simp add: pop_pending_error_def error_entries_def cyc_def)
  next
    case False
    then have c0: "0 < c" by (simp add: c_def unat_gt_0)
    then have k: "unat (err_count r - 1) = c - 1" using False by (simp add: c_def unat_minus_one)
    have t1: "unat ((err_tail r + 1) mod 8) = (t + 1) mod 8" using b unat_step8 by (simp add: t_def)
    have "error_entries r = err_buf r ! t # tl (error_entries r)"
      using c0 b by (cases c) (auto simp: error_entries_def cyc_def c_def [symmetric] t_def [symmetric]
          upt_conv_Cons simp del: upt_Suc)
    then have "(case error_entries r of [] \<Rightarrow> None | e # _ \<Rightarrow> Some e) = Some (err_buf r ! t)"
      by (metis list.simps(5))
    moreover have "((t + 1) mod 8 + (c - 1)) mod 8 = (t + c) mod 8"
      using mod_add_left_eq [of "t + 1" 8 "c - 1"] c0 by simp
    ultimately show ?thesis
      using False assms b c0 k t1 cyc_tl [of c "err_buf r" t]
      by (simp add: pop_pending_error_def error_inv_def error_entries_def c_def [symmetric] t_def [symmetric])
  qed
  then show "fst (pop_pending_error r) = (case error_entries r of [] \<Rightarrow> None | e # _ \<Rightarrow> Some e)"
    "error_entries (snd (pop_pending_error r)) = tl (error_entries r)" "error_inv (snd (pop_pending_error r))" by auto
qed

datatype err_op = EReport u32 bytes u8 bytes | EPop | EClear

fun err_step :: "err_op \<Rightarrow> ErrorRing \<Rightarrow> ErrorReport option \<times> ErrorRing" where
  "err_step (EReport now sub code msg) r = (None, report_error now (Some sub) code (Some msg) r)"
| "err_step EPop r = pop_pending_error r"
| "err_step EClear r = (None, clear_pending_errors r)"

text \<open>The contract: a queue of at most eight reports that forgets its oldest.\<close>

fun err_spec :: "err_op \<Rightarrow> ErrorReport list \<Rightarrow> ErrorReport option \<times> ErrorReport list" where
  "err_spec (EReport now sub code msg) q =
    (None, newest 8 (q @ [\<lparr> er_uptime_ms = now, er_subsystem = take 15 sub, er_code = code, er_message = take 63 msg \<rparr>]))"
| "err_spec EPop q = (case q of [] \<Rightarrow> (None, []) | e # q' \<Rightarrow> (Some e, q'))"
| "err_spec EClear q = (None, [])"

fun err_run :: "(err_op \<Rightarrow> 's \<Rightarrow> ErrorReport option \<times> 's) \<Rightarrow> err_op list \<Rightarrow> 's \<Rightarrow> ErrorReport option list \<times> 's" where
  "err_run step [] s = ([], s)"
| "err_run step (x # xs) s = (let (o1, s1) = step x s; (os, s2) = err_run step xs s1 in (o1 # os, s2))"

lemma err_step_refines:
  assumes "error_inv r"
  shows "error_inv (snd (err_step x r))" "fst (err_step x r) = fst (err_spec x (error_entries r))"
    "error_entries (snd (err_step x r)) = snd (err_spec x (error_entries r))"
proof -
  have "error_inv (snd (err_step x r)) \<and> fst (err_step x r) = fst (err_spec x (error_entries r)) \<and>
    error_entries (snd (err_step x r)) = snd (err_spec x (error_entries r))"
  proof (cases x)
    case (EReport now sub code msg)
    have "fill_report now (Some sub) code (Some msg) e =
        \<lparr> er_uptime_ms = now, er_subsystem = take 15 sub, er_code = code, er_message = take 63 msg \<rparr>" for e
      by (simp add: fill_report_def safe_copy_def)
    then show ?thesis using error_put_ok [OF assms] by (simp add: EReport report_error_def)
  next
    case EPop
    then show ?thesis using pop_ok [OF assms] by (simp split: list.splits)
  next
    case EClear
    then show ?thesis using assms
      by (simp add: clear_pending_errors_def error_inv_def error_entries_def cyc_def)
  qed
  then show "error_inv (snd (err_step x r))" "fst (err_step x r) = fst (err_spec x (error_entries r))"
    "error_entries (snd (err_step x r)) = snd (err_spec x (error_entries r))" by auto
qed

lemma err_run_refines:
  "error_inv r \<Longrightarrow> fst (err_run err_step xs r) = fst (err_run err_spec xs (error_entries r)) \<and>
    error_entries (snd (err_run err_step xs r)) = snd (err_run err_spec xs (error_entries r))"
  by (induction xs arbitrary: r) (simp_all add: case_prod_beta Let_def err_step_refines)

text \<open>C18: The error reporter refines a queue of at most eight reports that drops its oldest when full: any sequence
of reports, pops and clears returns the same reports in the same order as the queue, and the pending count is its
length.\<close>

theorem error_reporter_refines_queue:
  "fst (err_run err_step xs error_ring0) = fst (err_run err_spec xs []) \<and>
    pending_error_count (snd (err_run err_step xs error_ring0)) = of_nat (length (snd (err_run err_spec xs [])))"
proof -
  have "error_inv error_ring0" "error_entries error_ring0 = []"
    by (simp_all add: error_ring0_def error_inv_def error_entries_def cyc_def)
  then have "fst (err_run err_step xs error_ring0) = fst (err_run err_spec xs [])"
    "error_entries (snd (err_run err_step xs error_ring0)) = snd (err_run err_spec xs [])"
    using err_run_refines [of error_ring0 xs] by auto
  moreover have "err_count s = of_nat (length (error_entries s))" for s by (simp add: error_entries_def)
  ultimately show ?thesis by (simp add: pending_error_count_def)
qed

end
