(* ===== verification/Device_Identity.thy ===== *)
theory Device_Identity
  imports Settings
begin

text \<open>
  \<open>device_identity.cpp\<close>: the serial number, the crash counter and the clean-shutdown marker, all kept in the
  settings namespace, and the safe-mode decision \<open>setup()\<close> of \<open>main.cpp\<close> takes on the counter. The factory MAC is
  an argument (\<open>esp_efuse_mac_get_default\<close>), the hardware revision is the build's default \<open>rev0\<close>.
\<close>

section \<open>Hexadecimal text\<close>

definition hex_nibble :: "bool \<Rightarrow> nat \<Rightarrow> char" where
  "hex_nibble upper d = (if d < 10 then char_of (48 + d) else char_of ((if upper then 55 else 87) + d))"

text \<open>\<open>%02X\<close> and \<open>%02x\<close> of a byte.\<close>

definition hex_byte :: "bool \<Rightarrow> u8 \<Rightarrow> string" where
  "hex_byte upper b = [hex_nibble upper (unat b div 16), hex_nibble upper (unat b mod 16)]"

section \<open>Operations\<close>

record identity =
  id_serial :: bytes
  id_hw_rev :: bytes
  id_crash_count :: u32
  id_initialized :: bool

definition identity0 :: identity where
  "identity0 = \<lparr> id_serial = [], id_hw_rev = [], id_crash_count = 0, id_initialized = False \<rparr>"

definition generate_serial :: "bytes \<Rightarrow> nat \<Rightarrow> bytes" where
  "generate_serial mac out_len = take (out_len - 1) (str_bytes (''PM-'' @ concat (map (hex_byte True) (take 6 mac))))"

text \<open>The stored serial, or a generated one that is stored.\<close>

definition load_serial :: "bytes \<Rightarrow> kv \<Rightarrow> bytes \<times> kv" where
  "load_serial mac s =
    (let fresh = (generate_serial mac 24, settings_save_str ''dev_serial'' (generate_serial mac 24) s)
     in case settings_load_str ''dev_serial'' 24 s of
         None \<Rightarrow> fresh
       | Some buf \<Rightarrow> if length (c_str buf) > 0 then (take 23 (c_str buf), s) else fresh)"

definition init_device_identity :: "bytes \<Rightarrow> kv \<times> identity \<Rightarrow> kv \<times> identity" where
  "init_device_identity mac x =
    (let (s, i) = x in
     if id_initialized i then (s, i)
     else
       let (serial, s1) = load_serial mac s;
           clean = (case settings_load_bool ''clean_boot_flag'' s1 of None \<Rightarrow> False | Some b \<Rightarrow> b);
           count0 = (case settings_load_u32 ''crash_count'' s1 of None \<Rightarrow> 0 | Some c \<Rightarrow> c);
           count = (if \<not> clean then count0 + 1 else count0);
           s2 = settings_save_u32 ''crash_count'' count s1;
           s3 = settings_save_bool ''clean_boot_flag'' False s2
       in (s3, \<lparr> id_serial = serial, id_hw_rev = str_bytes ''rev0'', id_crash_count = count, id_initialized = True \<rparr>))"

definition get_device_serial :: "bytes \<Rightarrow> kv \<times> identity \<Rightarrow> bytes \<times> kv \<times> identity" where
  "get_device_serial mac x = (let y = init_device_identity mac x in (id_serial (snd y), y))"

definition get_device_hw_rev :: "bytes \<Rightarrow> kv \<times> identity \<Rightarrow> bytes \<times> kv \<times> identity" where
  "get_device_hw_rev mac x = (let y = init_device_identity mac x in (id_hw_rev (snd y), y))"

definition get_crash_count :: "bytes \<Rightarrow> kv \<times> identity \<Rightarrow> u32 \<times> kv \<times> identity" where
  "get_crash_count mac x = (let y = init_device_identity mac x in (id_crash_count (snd y), y))"

definition reset_crash_count :: "kv \<times> identity \<Rightarrow> kv \<times> identity" where
  "reset_crash_count x = (settings_save_u32 ''crash_count'' 0 (fst x), (snd x)\<lparr> id_crash_count := 0 \<rparr>)"

definition mark_clean_shutdown :: "kv \<Rightarrow> kv" where
  "mark_clean_shutdown s = settings_save_bool ''clean_boot_flag'' True s"

text \<open>The test of \<open>setup()\<close>: from five on no network, no BLE, and no \<open>loop()\<close> (its task deletes itself), so no
serial console either.\<close>

definition safe_mode :: "identity \<Rightarrow> bool" where
  "safe_mode i = (5 \<le> id_crash_count i)"

section \<open>Boots\<close>

text \<open>One power cycle: the boot and then a shutdown that was marked clean or was not.\<close>

definition boot :: "bytes \<Rightarrow> kv \<Rightarrow> kv \<times> identity" where
  "boot mac s = init_device_identity mac (s, identity0)"

definition power_cycle :: "bytes \<Rightarrow> bool \<Rightarrow> kv \<Rightarrow> kv" where
  "power_cycle mac clean s = (let s1 = fst (boot mac s) in if clean then mark_clean_shutdown s1 else s1)"

definition stored_count :: "kv \<Rightarrow> u32" where
  "stored_count s = (case settings_load_u32 ''crash_count'' s of None \<Rightarrow> 0 | Some c \<Rightarrow> c)"

definition stored_clean :: "kv \<Rightarrow> bool" where
  "stored_clean s = (case settings_load_bool ''clean_boot_flag'' s of None \<Rightarrow> False | Some b \<Rightarrow> b)"

lemma load_serial_frame: "k \<noteq> ''dev_serial'' \<Longrightarrow> snd (load_serial mac s) k = s k"
  by (auto simp: load_serial_def Let_def settings_save_str_def pf_putString_def split: option.splits)

lemma stored_cong:
  "t ''crash_count'' = s ''crash_count'' \<Longrightarrow> stored_count t = stored_count s"
  "t ''clean_boot_flag'' = s ''clean_boot_flag'' \<Longrightarrow> stored_clean t = stored_clean s"
  by (simp_all add: stored_count_def stored_clean_def settings_load_u32_def settings_load_bool_def pf_get_defs)

lemma stored_save:
  "stored_count (settings_save_u32 ''crash_count'' c s) = c"
  "stored_clean (settings_save_bool ''clean_boot_flag'' b s) = b"
  "stored_count (settings_save_bool ''clean_boot_flag'' b s) = stored_count s"
  "stored_clean (settings_save_u32 ''crash_count'' c s) = stored_clean s"
  by (simp_all add: stored_count_def stored_clean_def settings_load_u32_def settings_load_bool_def
      settings_save_u32_def settings_save_bool_def pf_isKey_def pf_getUInt_def pf_getBool_def pf_putUInt_def
      pf_putBool_def)

lemma boot_eq:
  "boot mac s =
    (let (serial, s1) = load_serial mac s; count = stored_count s + (if stored_clean s then 0 else 1)
     in (settings_save_bool ''clean_boot_flag'' False (settings_save_u32 ''crash_count'' count s1),
       \<lparr> id_serial = serial, id_hw_rev = str_bytes ''rev0'', id_crash_count = count, id_initialized = True \<rparr>))"
proof -
  have "stored_count (snd (load_serial mac s)) = stored_count s" "stored_clean (snd (load_serial mac s)) = stored_clean s"
    by (rule stored_cong; rule load_serial_frame; simp)+
  then show ?thesis
    by (simp add: boot_def init_device_identity_def identity0_def stored_count_def [symmetric]
        stored_clean_def [symmetric] case_prod_beta Let_def)
qed

lemma boot_count:
  "id_crash_count (snd (boot mac s)) = stored_count s + (if stored_clean s then 0 else 1)"
  "stored_count (fst (boot mac s)) = id_crash_count (snd (boot mac s))" "\<not> stored_clean (fst (boot mac s))"
  by (simp_all add: boot_eq case_prod_beta Let_def stored_save)

lemma cycle_count:
  "stored_count (power_cycle mac c s) = stored_count s + (if stored_clean s then 0 else 1)"
  "stored_clean (power_cycle mac c s) = c"
proof -
  show "stored_count (power_cycle mac c s) = stored_count s + (if stored_clean s then 0 else 1)"
    "stored_clean (power_cycle mac c s) = c"
    using boot_count [of mac s] by (simp_all add: power_cycle_def Let_def mark_clean_shutdown_def stored_save)
qed

definition unclean :: "bool list \<Rightarrow> nat" where
  "unclean cs = length (filter Not cs)"

lemma cycles_count:
  "cs \<noteq> [] \<Longrightarrow> stored_count (fold (power_cycle mac) cs s) =
      stored_count s + of_nat (unclean (stored_clean s # butlast cs)) \<and>
    stored_clean (fold (power_cycle mac) cs s) = last cs"
proof (induction cs arbitrary: s)
  case (Cons c cs)
  show ?case
  proof (cases "cs = []")
    case True
    then show ?thesis by (simp add: cycle_count unclean_def)
  next
    case False
    then show ?thesis using Cons.IH [of "power_cycle mac c s"] by (simp add: cycle_count unclean_def)
  qed
qed simp

text \<open>The crash counter counts every boot that follows an unmarked shutdown and nothing else ever lowers it:
after any series of power cycles the next boot reads the stored count plus the number of unclean shutdowns, however
many clean boots lie between. So once it has reached five, every later boot is in safe mode.\<close>

theorem safe_mode_is_permanent:
  assumes "unat (stored_count s) + length cs + 1 < 2 ^ 32"
  shows "let s' = fold (power_cycle mac) cs s; i = snd (boot mac s') in
    unat (id_crash_count i) = unat (stored_count s) + unclean (stored_clean s # cs) \<and>
    (5 \<le> stored_count s \<longrightarrow> safe_mode i)"
proof -
  define s' where "s' = fold (power_cycle mac) cs s"
  define i where "i = snd (boot mac s')"
  have "id_crash_count i = stored_count s + of_nat (unclean (stored_clean s # cs))"
  proof (cases "cs = []")
    case True
    then show ?thesis by (simp add: i_def s'_def boot_count unclean_def)
  next
    case False
    have "unclean (b # butlast cs @ [l]) = unclean (b # butlast cs) + (if l then 0 else 1)" for b l
      by (simp add: unclean_def)
    from this [of "stored_clean s" "last cs"] False
    have "unclean (stored_clean s # cs) = unclean (stored_clean s # butlast cs) + (if last cs then 0 else 1)" by simp
    then show ?thesis using cycles_count [OF False, of mac s] by (simp add: i_def s'_def boot_count)
  qed
  moreover have u: "unclean (stored_clean s # cs) \<le> length cs + 1"
    unfolding unclean_def using length_filter_le [of Not "stored_clean s # cs"] by simp
  ultimately have n: "unat (id_crash_count i) = unat (stored_count s) + unclean (stored_clean s # cs)"
    using assms by (simp add: unat_word_ariths unat_of_nat)
  then have "5 \<le> stored_count s \<Longrightarrow> safe_mode i" by (simp add: safe_mode_def word_le_nat_alt)
  then show ?thesis using n by (simp add: s'_def [symmetric] i_def [symmetric] Let_def)
qed

text \<open>Five crashes, then a hundred clean reboots.\<close>

lemma safe_mode_is_permanent_witness:
  "safe_mode (snd (boot [1, 2, 3, 4, 5, 6] (fold (power_cycle [1, 2, 3, 4, 5, 6]) (replicate 100 True)
     [''crash_count'' \<mapsto> le32 5])))"
proof -
  have c: "stored_count [''crash_count'' \<mapsto> le32 5] = 5"
    by (simp add: stored_count_def settings_load_u32_def pf_isKey_def pf_getUInt_def)
  show ?thesis
    using safe_mode_is_permanent [of "[''crash_count'' \<mapsto> le32 5]" "replicate 100 True" "[1, 2, 3, 4, 5, 6]"]
    by (simp add: c Let_def)
qed


end
