(* ===== verification/Ota.thy ===== *)
theory Ota
  imports Device_Identity
begin

text \<open>
  The update client (\<open>ota_client.cpp\<close>): the state machine that polls the backend, streams an image into the
  inactive partition while hashing it, verifies size and hash and switches the boot partition. The answers of
  \<open>HTTPClient\<close>, ArduinoJson, the ESP-IDF OTA functions and the clock during one call are its input \<open>ota_in\<close>;
  SHA-256 is the parameter \<open>sha256\<close> and the mbedtls context is the byte sequence fed to it since \<open>starts\<close>. What
  the client does to the outside is the trace \<open>ot_trace\<close>. Texts are C strings without the NUL.
\<close>

section \<open>State, inputs and effects\<close>

datatype OtaState = OTA_IDLE | OTA_CHECKING | OTA_DOWNLOADING | OTA_APPLYING | OTA_REBOOTING | OTA_FAILED

datatype ota_eff =
    Publish_status bytes bytes u8 bytes
  | Log_ev u8 bytes
  | Http_begin bytes
  | Flash_begin nat u32
  | Flash_write bytes
  | Flash_end
  | Flash_abort
  | Set_boot nat
  | Restart

record ota =
  ot_state :: OtaState
  ot_version :: bytes
  ot_expected_sha256 :: bytes
  ot_expected_size :: u32
  ot_progress_pct :: u8
  ot_last_error :: bytes
  ot_tls :: bool
  ot_http :: bool
  ot_handle :: u32
  ot_partition :: "nat option"
  ot_sha256_ctx :: bytes
  ot_sha256_inited :: bool
  ot_total_written :: u32
  ot_download_start_ms :: u32
  ot_last_reported_pct :: u8
  ot_last_poll_ms :: u32
  ot_poll_interval_s :: u32
  ot_rollback_confirmed :: bool
  ot_nvs :: nvs
  ot_trace :: "ota_eff list"

definition ota0 :: "nvs \<Rightarrow> ota" where
  "ota0 n = \<lparr> ot_state = OTA_IDLE, ot_version = [], ot_expected_sha256 = [], ot_expected_size = 0,
     ot_progress_pct = 0, ot_last_error = [], ot_tls = False, ot_http = False, ot_handle = 0, ot_partition = None,
     ot_sha256_ctx = [], ot_sha256_inited = False, ot_total_written = 0, ot_download_start_ms = 0,
     ot_last_reported_pct = 0, ot_last_poll_ms = 0, ot_poll_interval_s = 300, ot_rollback_confirmed = False,
     ot_nvs = n, ot_trace = [] \<rparr>"

text \<open>The fields of the backend's answer; \<open>doc[key] | default\<close> takes the default for a missing or ill-typed one.\<close>

record ota_doc =
  dc_update_available :: "bool option"
  dc_version :: "bytes option"
  dc_sha256 :: "bytes option"
  dc_binary_size :: "u32 option"
  dc_poll_interval_seconds :: "u32 option"
  dc_binary_url :: "bytes option"

definition dflt :: "'a option \<Rightarrow> 'a \<Rightarrow> 'a" where
  "dflt x d = (case x of None \<Rightarrow> d | Some v \<Rightarrow> v)"

record ota_in =
  oi_wifi :: bool
  oi_now :: u32
  oi_now_after :: u32
  oi_serial :: bytes
  oi_begin :: bool
  oi_rc :: int
  oi_doc :: "bytes + ota_doc"
  oi_bin_begin :: bool
  oi_bin_rc :: int
  oi_partition :: "nat option"
  oi_ota_begin :: "bytes + u32"
  oi_stream :: bool
  oi_read :: bytes
  oi_connected :: bool
  oi_write :: "bytes option"
  oi_end :: "bytes option"
  oi_set_boot :: "bytes option"

section \<open>Helpers\<close>

definition emit :: "ota_eff \<Rightarrow> ota \<Rightarrow> ota" where
  "emit e s = s\<lparr> ot_trace := ot_trace s @ [e] \<rparr>"

definition set_ota_state :: "OtaState \<Rightarrow> ota \<Rightarrow> ota" where
  "set_ota_state st s = s\<lparr> ot_state := st \<rparr>"

definition set_error :: "bytes \<Rightarrow> ota \<Rightarrow> ota" where
  "set_error msg s = emit (Log_ev 3 (take 63 msg)) (s\<lparr> ot_last_error := take 63 msg \<rparr>)"

definition cleanup_download :: "ota \<Rightarrow> ota" where
  "cleanup_download s =
    (let s1 = (if ot_http s then s\<lparr> ot_http := False \<rparr> else s);
         s2 = (if ot_tls s1 then s1\<lparr> ot_tls := False \<rparr> else s1);
         s3 = (if ot_handle s2 \<noteq> 0 then (emit Flash_end s2)\<lparr> ot_handle := 0 \<rparr> else s2);
         s4 = (if ot_sha256_inited s3 then s3\<lparr> ot_sha256_inited := False \<rparr> else s3)
     in s4\<lparr> ot_partition := None, ot_total_written := 0, ot_download_start_ms := 0, ot_last_reported_pct := 0,
          ot_version := [], ot_expected_sha256 := [], ot_expected_size := 0, ot_progress_pct := 0 \<rparr>)"

definition publish_status :: "string \<Rightarrow> ota \<Rightarrow> ota" where
  "publish_status st s =
    emit (Publish_status (str_bytes st) (ot_version s) (ot_progress_pct s) (ot_last_error s)) s"

text \<open>The common error exits: the message, then with or without releasing the download.\<close>

definition give_up :: "bytes \<Rightarrow> ota \<Rightarrow> ota" where
  "give_up msg s = set_ota_state OTA_IDLE (set_error msg s)"

definition drop_download :: "bytes \<Rightarrow> ota \<Rightarrow> ota" where
  "drop_download msg s = set_ota_state OTA_IDLE (cleanup_download (set_error msg s))"

definition dec_int :: "int \<Rightarrow> string" where
  "dec_int i = (if i < 0 then CHR ''-'' # dec (nat (- i)) else dec (nat i))"

abbreviation u32_str :: "u32 \<Rightarrow> bytes" where "u32_str w \<equiv> str_bytes (dec (unat w))"

definition ota_set_poll_interval :: "u32 \<Rightarrow> ota \<Rightarrow> ota" where
  "ota_set_poll_interval v s = s\<lparr> ot_poll_interval_s := clamp_poll v,
     ot_nvs := settings_save_ota_poll_interval (clamp_poll v) (ot_nvs s) \<rparr>"

definition init_ota_client :: "u32 \<Rightarrow> ota \<Rightarrow> ota" where
  "init_ota_client now s = set_ota_state OTA_IDLE
     (s\<lparr> ot_poll_interval_s := settings_load_ota_poll_interval (ot_nvs s), ot_last_poll_ms := now \<rparr>)"

section \<open>Checking\<close>

definition check_url :: "bytes \<Rightarrow> bytes \<Rightarrow> bytes" where
  "check_url backend serial =
    take 255 (backend @ str_bytes ''/ota/check/'' @ serial @ str_bytes ''?current_ver='' @ str_bytes ''2.0.0'')"

text \<open>The update described by a complete answer is taken over.\<close>

definition take_update :: "bytes \<Rightarrow> bytes \<Rightarrow> u32 \<Rightarrow> u32 \<Rightarrow> ota \<Rightarrow> ota" where
  "take_update ver sha sz pint s =
    (let s1 = s\<lparr> ot_version := take 15 ver, ot_expected_sha256 := take 64 sha, ot_expected_size := sz,
           ot_progress_pct := 0, ot_last_reported_pct := 0 \<rparr>;
         s2 = (if 0 < pint then ota_set_poll_interval pint s1 else s1);
         s3 = emit (Log_ev 1 (str_bytes ''update v'' @ ot_version s2 @ str_bytes '' available'')) s2
     in publish_status ''downloading'' s3)"

definition start_download :: "ota_in \<Rightarrow> bytes \<Rightarrow> ota \<Rightarrow> ota" where
  "start_download i url s =
    (let s1 = emit (Http_begin url) (s\<lparr> ot_tls := True, ot_http := True \<rparr>)
     in if \<not> oi_bin_begin i then drop_download (str_bytes ''HTTP begin failed for binary'') s1
        else if oi_bin_rc i \<noteq> 200 then drop_download (str_bytes (''binary GET returned '' @ dec_int (oi_bin_rc i))) s1
        else case oi_partition i of
            None \<Rightarrow> drop_download (str_bytes ''no OTA partition found'') (s1\<lparr> ot_partition := None \<rparr>)
          | Some p \<Rightarrow>
             (let s2 = s1\<lparr> ot_partition := Some p \<rparr>
              in case oi_ota_begin i of
                  Inl err \<Rightarrow> drop_download (str_bytes ''esp_ota_begin: '' @ err) s2
                | Inr h \<Rightarrow> set_ota_state OTA_DOWNLOADING
                    ((emit (Flash_begin p (ot_expected_size s2)) s2)\<lparr> ot_handle := h, ot_sha256_ctx := [],
                      ot_sha256_inited := True, ot_total_written := 0, ot_download_start_ms := oi_now_after i \<rparr>)))"

definition use_doc :: "ota_in \<Rightarrow> ota_doc \<Rightarrow> ota \<Rightarrow> ota" where
  "use_doc i d s =
    (let pint = dflt (dc_poll_interval_seconds d) 0 in
     if \<not> dflt (dc_update_available d) False then
       set_ota_state OTA_IDLE (if 0 < pint then ota_set_poll_interval pint s else s)
     else
       let ver = dflt (dc_version d) []; sha = dflt (dc_sha256 d) []; sz = dflt (dc_binary_size d) 0
       in if ver = [] \<or> sha = [] \<or> sz = 0 then
            give_up (str_bytes ''incomplete response: ver='' @ ver @ str_bytes '' sha='' @ sha @
              str_bytes '' size='' @ u32_str sz) s
          else
            let s1 = take_update ver sha sz pint s; url = dflt (dc_binary_url d) []
            in if url = [] then give_up (str_bytes ''no binary_url in response'') s1
               else start_download i url s1)"

definition ota_checking :: "ota_in \<Rightarrow> ota \<Rightarrow> ota" where
  "ota_checking i s =
    (case settings_load_ota_backend_url 128 (ot_nvs s) of
       None \<Rightarrow> set_ota_state OTA_IDLE s
     | Some backend \<Rightarrow>
        (let s1 = emit (Http_begin (check_url backend (oi_serial i))) s
         in if \<not> oi_begin i then give_up (str_bytes ''HTTP begin failed'') s1
            else if oi_rc i \<noteq> 200 then give_up (str_bytes (''check returned '' @ dec_int (oi_rc i))) s1
            else case oi_doc i of
                Inl err \<Rightarrow> give_up (str_bytes ''JSON parse: '' @ err) s1
              | Inr d \<Rightarrow> use_doc i d s1))"

section \<open>Downloading and applying\<close>

definition note_progress :: "ota \<Rightarrow> ota" where
  "note_progress s =
    (let pct0 = word_of_nat (unat (ot_total_written s) * 100 div unat (ot_expected_size s)) :: u8;
         pct = (if 100 < pct0 then 100 else pct0); s1 = s\<lparr> ot_progress_pct := pct \<rparr>
     in if 10 \<le> int (unat pct) - int (unat (ot_last_reported_pct s1)) \<or> pct = 100
        then publish_status ''downloading'' (s1\<lparr> ot_last_reported_pct := pct \<rparr>) else s1)"

definition take_chunk :: "ota_in \<Rightarrow> bytes \<Rightarrow> ota \<Rightarrow> ota" where
  "take_chunk i buf s =
    (let s1 = emit (Flash_write buf) s
     in case oi_write i of
         Some err \<Rightarrow> drop_download (str_bytes ''esp_ota_write: '' @ err) s1
       | None \<Rightarrow>
          (let s2 = note_progress (s1\<lparr> ot_sha256_ctx := ot_sha256_ctx s1 @ buf,
                 ot_total_written := ot_total_written s1 + of_nat (length buf) \<rparr>)
           in if ot_expected_size s2 \<le> ot_total_written s2 then set_ota_state OTA_APPLYING s2 else s2))"

definition ota_downloading :: "ota_in \<Rightarrow> ota \<Rightarrow> ota" where
  "ota_downloading i s =
    (if 300000 < oi_now i - ot_download_start_ms s then drop_download (str_bytes ''download timeout (300 s)'') s
     else if \<not> oi_stream i then drop_download (str_bytes ''no HTTP stream'') s
     else let buf = take 1024 (oi_read i) in
       if buf = [] then
         (if \<not> oi_connected i then
            (if ot_expected_size s \<le> ot_total_written s then set_ota_state OTA_APPLYING s
             else drop_download (str_bytes ''connection lost after '' @ u32_str (ot_total_written s) @
               str_bytes '' bytes'') s)
          else s)
       else take_chunk i buf s)"

definition lower :: "u8 \<Rightarrow> u8" where
  "lower b = (if 65 \<le> b \<and> b \<le> 90 then b + 32 else b)"

definition strcasecmp_eq :: "bytes \<Rightarrow> bytes \<Rightarrow> bool" where
  "strcasecmp_eq a b = (map lower a = map lower b)"

definition computed_hex :: "bytes \<Rightarrow> bytes" where
  "computed_hex hash = str_bytes (concat (map (hex_byte False) hash))"

definition abort_download :: "bytes \<Rightarrow> ota \<Rightarrow> ota" where
  "abort_download msg s =
    set_ota_state OTA_IDLE (cleanup_download ((emit Flash_abort (set_error msg s))\<lparr> ot_handle := 0 \<rparr>))"

definition ota_applying :: "(bytes \<Rightarrow> bytes) \<Rightarrow> ota_in \<Rightarrow> ota \<Rightarrow> ota" where
  "ota_applying sha256 i s =
    (let hex = computed_hex (sha256 (ot_sha256_ctx s)); s0 = s\<lparr> ot_sha256_inited := False \<rparr>
     in if ot_total_written s0 \<noteq> ot_expected_size s0 then
          abort_download (str_bytes ''size mismatch: wrote '' @ u32_str (ot_total_written s0) @
            str_bytes '', expected '' @ u32_str (ot_expected_size s0)) s0
        else if \<not> strcasecmp_eq hex (ot_expected_sha256 s0) then
          abort_download (str_bytes ''SHA256 mismatch: got '' @ hex @ str_bytes '', expected '' @
            ot_expected_sha256 s0) s0
        else
          let s1 = (emit Flash_end s0)\<lparr> ot_handle := 0 \<rparr>
          in case oi_end i of
              Some err \<Rightarrow> drop_download (str_bytes ''esp_ota_end: '' @ err) s1
            | None \<Rightarrow>
               (let s2 = (case ot_partition s1 of None \<Rightarrow> s1 | Some p \<Rightarrow> emit (Set_boot p) s1)
                in case oi_set_boot i of
                    Some err \<Rightarrow> drop_download (str_bytes ''esp_ota_set_boot_partition: '' @ err) s2
                  | None \<Rightarrow>
                     (let s3 = emit (Log_ev 1 (str_bytes ''update to v'' @ ot_version s2 @
                            str_bytes '' applied, rebooting'')) s2;
                          s4 = publish_status ''applied'' s3;
                          s5 = s4\<lparr> ot_nvs := (ot_nvs s4)(''pm-settings'' := mark_clean_shutdown (ot_nvs s4 ''pm-settings'')) \<rparr>
                      in emit Restart (set_ota_state OTA_REBOOTING (cleanup_download s5)))))"

definition loop_ota_client :: "(bytes \<Rightarrow> bytes) \<Rightarrow> ota_in \<Rightarrow> ota \<Rightarrow> ota" where
  "loop_ota_client sha256 i s =
    (if \<not> oi_wifi i then s
     else case ot_state s of
       OTA_IDLE \<Rightarrow>
         if ot_poll_interval_s s * 1000 \<le> oi_now i - ot_last_poll_ms s then
           ota_checking i (publish_status ''checking'' (set_ota_state OTA_CHECKING (s\<lparr> ot_last_poll_ms := oi_now i \<rparr>)))
         else s
     | OTA_CHECKING \<Rightarrow> ota_checking i s
     | OTA_DOWNLOADING \<Rightarrow> ota_downloading i s
     | OTA_APPLYING \<Rightarrow> ota_applying sha256 i s
     | OTA_REBOOTING \<Rightarrow> s
     | OTA_FAILED \<Rightarrow>
         if ot_poll_interval_s s * 1000 \<le> oi_now i - ot_last_poll_ms s then
           set_ota_state OTA_CHECKING (s\<lparr> ot_last_poll_ms := oi_now i, ot_last_error := [] \<rparr>)
         else s)"

definition ota_trigger_check :: "ota \<Rightarrow> ota" where
  "ota_trigger_check s =
    (if ot_state s \<noteq> OTA_IDLE \<and> ot_state s \<noteq> OTA_FAILED then s
     else set_ota_state OTA_CHECKING (s\<lparr> ot_last_poll_ms := 0, ot_last_error := [] \<rparr>))"

text \<open>\<open>ota_confirm_valid\<close>: \<open>part\<close> is what the bootloader says of the running image (\<open>None\<close> when it cannot be asked,
\<open>Some True\<close> when it is pending verification), \<open>mark_ok\<close> whether it accepts the confirmation. The result tells
whether the confirmation was made.\<close>

definition ota_confirm_valid :: "u32 \<Rightarrow> bool option \<Rightarrow> bool \<Rightarrow> ota \<Rightarrow> bool \<times> ota" where
  "ota_confirm_valid now part mark_ok s =
    (if ot_rollback_confirmed s then (False, s)
     else if now < 60000 then (False, s)
     else case part of
         None \<Rightarrow> (False, s)
       | Some True \<Rightarrow>
           if mark_ok then (True, (emit (Log_ev 1 (str_bytes ''firmware confirmed valid'')) s)\<lparr> ot_rollback_confirmed := True \<rparr>)
           else (False, s)
       | Some False \<Rightarrow> (False, s\<lparr> ot_rollback_confirmed := True \<rparr>))"

section \<open>What reaches the flash\<close>

text \<open>The image in the update partition, read off the trace: partition, announced size and bytes written.\<close>

fun flash_step :: "ota_eff \<Rightarrow> (nat \<times> u32 \<times> bytes) option \<Rightarrow> (nat \<times> u32 \<times> bytes) option" where
  "flash_step (Flash_begin p sz) x = Some (p, sz, [])"
| "flash_step (Flash_write b) x = map_option (\<lambda>(p, sz, img). (p, sz, img @ b)) x"
| "flash_step Flash_abort x = None"
| "flash_step _ x = x"

definition flash_image :: "ota_eff list \<Rightarrow> (nat \<times> u32 \<times> bytes) option" where
  "flash_image es = fold flash_step es None"

lemma flash_image_snoc [simp]: "flash_image (es @ [e]) = flash_step e (flash_image es)"
  by (simp add: flash_image_def)

text \<open>A switch to partition \<open>p\<close> after the trace \<open>es\<close> is justified by one of the backend's answers: the image was
written to \<open>p\<close>, its length is the announced size and its SHA-256 is the announced one, case aside.\<close>

definition boot_ok :: "(bytes \<Rightarrow> bytes) \<Rightarrow> ota_doc set \<Rightarrow> ota_eff list \<Rightarrow> nat \<Rightarrow> bool" where
  "boot_ok sha256 docs es p = (\<exists>sz img d sha. flash_image es = Some (p, sz, img) \<and> of_nat (length img) = sz \<and>
     (unat sz + 1024 \<le> 2 ^ 32 \<longrightarrow> length img = unat sz) \<and> d \<in> docs \<and> dc_binary_size d = Some sz \<and>
     dc_sha256 d = Some sha \<and> strcasecmp_eq (computed_hex (sha256 img)) (take 64 sha))"

definition boots_ok :: "(bytes \<Rightarrow> bytes) \<Rightarrow> ota_doc set \<Rightarrow> ota_eff list \<Rightarrow> bool" where
  "boots_ok sha256 docs es = (\<forall>a p b. es = a @ Set_boot p # b \<longrightarrow> boot_ok sha256 docs a p)"

lemma boots_ok_Nil [simp]: "boots_ok sha256 docs []"
  by (simp add: boots_ok_def)

lemma boots_ok_snoc [simp]:
  "boots_ok sha256 docs (es @ [e]) \<longleftrightarrow> boots_ok sha256 docs es \<and> (\<forall>p. e = Set_boot p \<longrightarrow> boot_ok sha256 docs es p)"
proof
  assume a: "boots_ok sha256 docs (es @ [e])"
  have "boot_ok sha256 docs a p" if "es = a @ Set_boot p # b" for a p b
    using a that by (auto simp: boots_ok_def)
  moreover have "boot_ok sha256 docs es p" if "e = Set_boot p" for p
    using a that unfolding boots_ok_def by blast
  ultimately show "boots_ok sha256 docs es \<and> (\<forall>p. e = Set_boot p \<longrightarrow> boot_ok sha256 docs es p)"
    by (auto simp: boots_ok_def)
next
  assume a: "boots_ok sha256 docs es \<and> (\<forall>p. e = Set_boot p \<longrightarrow> boot_ok sha256 docs es p)"
  show "boots_ok sha256 docs (es @ [e])" unfolding boots_ok_def
  proof (intro allI impI)
    fix c p b assume "es @ [e] = c @ Set_boot p # b"
    then show "boot_ok sha256 docs c p" using a
      by (cases b rule: rev_cases) (auto simp: boots_ok_def)
  qed
qed

lemma two_more [simp]:
  "flash_image (es @ [e, e']) = flash_step e' (flash_step e (flash_image es))"
  "boots_ok sha256 docs (es @ [e, e']) \<longleftrightarrow> boots_ok sha256 docs (es @ [e]) \<and>
    (\<forall>p. e' = Set_boot p \<longrightarrow> boot_ok sha256 docs (es @ [e]) p)"
  using flash_image_snoc [of "es @ [e]" e'] boots_ok_snoc [of sha256 docs "es @ [e]" e'] by simp_all

lemma three_more [simp]:
  "boots_ok sha256 docs (es @ [e, e', e'']) \<longleftrightarrow> boots_ok sha256 docs (es @ [e, e']) \<and>
    (\<forall>p. e'' = Set_boot p \<longrightarrow> boot_ok sha256 docs (es @ [e, e']) p)"
  using boots_ok_snoc [of sha256 docs "es @ [e, e']" e''] by simp

lemma boots_ok_mono: "\<lbrakk> boots_ok sha256 docs es; docs \<subseteq> docs' \<rbrakk> \<Longrightarrow> boots_ok sha256 docs' es"
  unfolding boots_ok_def boot_ok_def by blast

section \<open>The invariant\<close>

definition released :: "ota \<Rightarrow> bool" where
  "released s = (\<not> ot_tls s \<and> \<not> ot_http s \<and> ot_handle s = 0 \<and> \<not> ot_sha256_inited s \<and> ot_partition s = None)"

definition dl_held :: "ota_doc set \<Rightarrow> ota \<Rightarrow> bool" where
  "dl_held docs s = (ot_tls s \<and> ot_http s \<and> ot_sha256_inited s \<and>
     (\<exists>p d sha. ot_partition s = Some p \<and>
       flash_image (ot_trace s) = Some (p, ot_expected_size s, ot_sha256_ctx s) \<and>
       ot_total_written s = of_nat (length (ot_sha256_ctx s)) \<and> d \<in> docs \<and>
       dc_binary_size d = Some (ot_expected_size s) \<and> dc_sha256 d = Some sha \<and>
       ot_expected_sha256 s = take 64 sha) \<and>
     (unat (ot_expected_size s) + 1024 \<le> 2 ^ 32 \<longrightarrow> length (ot_sha256_ctx s) < unat (ot_expected_size s) + 1024))"

definition ota_inv :: "(bytes \<Rightarrow> bytes) \<Rightarrow> ota_doc set \<Rightarrow> ota \<Rightarrow> bool" where
  "ota_inv sha256 docs s = (boots_ok sha256 docs (ot_trace s) \<and> ot_state s \<noteq> OTA_FAILED \<and>
     (case ot_state s of
       OTA_DOWNLOADING \<Rightarrow> dl_held docs s \<and> ot_total_written s < ot_expected_size s
     | OTA_APPLYING \<Rightarrow> dl_held docs s
     | _ \<Rightarrow> released s))"

lemma ota_fields [simp]:
  "ot_trace (emit e s) = ot_trace s @ [e]" "ot_state (emit e s) = ot_state s" "ot_tls (emit e s) = ot_tls s"
  "ot_http (emit e s) = ot_http s" "ot_handle (emit e s) = ot_handle s"
  "ot_partition (emit e s) = ot_partition s" "ot_sha256_inited (emit e s) = ot_sha256_inited s"
  "ot_sha256_ctx (emit e s) = ot_sha256_ctx s" "ot_total_written (emit e s) = ot_total_written s"
  "ot_expected_size (emit e s) = ot_expected_size s" "ot_expected_sha256 (emit e s) = ot_expected_sha256 s"
  by (simp_all add: emit_def)

lemma released_idle:
  "\<lbrakk> boots_ok sha256 docs (ot_trace s); released s; st \<in> {OTA_IDLE, OTA_CHECKING, OTA_REBOOTING} \<rbrakk> \<Longrightarrow>
    ota_inv sha256 docs (set_ota_state st s)"
  by (auto simp: ota_inv_def set_ota_state_def released_def)

lemma give_up_inv: "\<lbrakk> boots_ok sha256 docs (ot_trace s); released s \<rbrakk> \<Longrightarrow> ota_inv sha256 docs (give_up msg s)"
  unfolding give_up_def by (rule released_idle) (simp_all add: set_error_def released_def)

lemma cleanup_released: "released (cleanup_download s)"
  by (simp add: cleanup_download_def Let_def released_def emit_def)

lemma cleanup_boots: "boots_ok sha256 docs (ot_trace s) \<Longrightarrow> boots_ok sha256 docs (ot_trace (cleanup_download s))"
  by (simp add: cleanup_download_def Let_def)

lemma drop_inv: "boots_ok sha256 docs (ot_trace s) \<Longrightarrow> ota_inv sha256 docs (drop_download msg s)"
  unfolding drop_download_def
  by (rule released_idle) (simp_all add: cleanup_released cleanup_boots set_error_def)

lemma abort_inv: "boots_ok sha256 docs (ot_trace s) \<Longrightarrow> ota_inv sha256 docs (abort_download msg s)"
  unfolding abort_download_def
  by (rule released_idle) (simp_all add: cleanup_released cleanup_boots set_error_def)

lemma poll_fields [simp]:
  "ot_trace (ota_set_poll_interval v s) = ot_trace s" "released (ota_set_poll_interval v s) = released s"
  "ot_state (ota_set_poll_interval v s) = ot_state s" "ot_total_written (ota_set_poll_interval v s) = ot_total_written s"
  "ot_expected_size (ota_set_poll_interval v s) = ot_expected_size s" "dl_held docs (ota_set_poll_interval v s) = dl_held docs s"
  "ot_expected_sha256 (ota_set_poll_interval v s) = ot_expected_sha256 s"
  by (simp_all add: ota_set_poll_interval_def released_def dl_held_def)

lemma publish_fields [simp]:
  "boots_ok sha256 docs (ot_trace (publish_status m s)) = boots_ok sha256 docs (ot_trace s)"
  "flash_image (ot_trace (publish_status m s)) = flash_image (ot_trace s)"
  "released (publish_status m s) = released s" "ot_state (publish_status m s) = ot_state s"
  "ot_total_written (publish_status m s) = ot_total_written s" "ot_expected_size (publish_status m s) = ot_expected_size s"
  "ot_expected_sha256 (publish_status m s) = ot_expected_sha256 s" "ot_sha256_ctx (publish_status m s) = ot_sha256_ctx s"
  "ot_partition (publish_status m s) = ot_partition s" "dl_held docs (publish_status m s) = dl_held docs s"
  by (simp_all add: publish_status_def released_def dl_held_def)

lemma take_update_fields [simp]:
  "boots_ok sha256 docs (ot_trace (take_update v h z q s)) = boots_ok sha256 docs (ot_trace s)"
  "released (take_update v h z q s) = released s"
  "ot_expected_size (take_update v h z q s) = z" "ot_expected_sha256 (take_update v h z q s) = take 64 h"
  by (simp_all add: take_update_def Let_def) (simp_all add: released_def ota_set_poll_interval_def)

lemma start_download_inv:
  assumes "boots_ok sha256 docs (ot_trace s)" "d \<in> docs" "dc_binary_size d = Some (ot_expected_size s)"
    "dc_sha256 d = Some sha" "ot_expected_sha256 s = take 64 sha" "ot_expected_size s \<noteq> 0"
  shows "ota_inv sha256 docs (start_download i url s)"
proof -
  have "0 < ot_expected_size s" using assms(6) by (simp add: word_neq_0_conv)
  then show ?thesis using assms(1-5)
    by (auto simp: start_download_def Let_def set_ota_state_def dl_held_def ota_inv_def [of _ _ "_ \<lparr> ot_state := OTA_DOWNLOADING \<rparr>"]
        intro!: drop_inv split: option.split sum.split)
qed

lemma use_doc_inv:
  assumes "boots_ok sha256 docs (ot_trace s)" "released s" "d \<in> docs"
  shows "ota_inv sha256 docs (use_doc i d s)"
proof -
  have "ota_inv sha256 docs (start_download i url (take_update (dflt (dc_version d) []) (dflt (dc_sha256 d) [])
      (dflt (dc_binary_size d) 0) q s))"
    if "dflt (dc_sha256 d) [] \<noteq> []" "dflt (dc_binary_size d) 0 \<noteq> 0" for url q
    by (rule start_download_inv [where d = d and sha = "dflt (dc_sha256 d) []"])
      (use that assms in \<open>auto simp: dflt_def split: option.splits\<close>)
  then show ?thesis
    using assms by (auto simp: use_doc_def Let_def intro!: give_up_inv released_idle)
qed

lemma checking_inv:
  assumes "boots_ok sha256 docs (ot_trace s)" "released s" "\<And>d. oi_doc i = Inr d \<Longrightarrow> d \<in> docs"
  shows "ota_inv sha256 docs (ota_checking i s)"
proof -
  have e: "released (emit e s) = released s" for e by (simp add: released_def)
  show ?thesis unfolding ota_checking_def Let_def
    using assms by (auto intro!: give_up_inv released_idle use_doc_inv simp: e split: option.splits sum.splits)
qed

lemma note_progress_fields [simp]:
  "boots_ok sha256 docs (ot_trace (note_progress s)) = boots_ok sha256 docs (ot_trace s)"
  "ot_state (note_progress s) = ot_state s" "dl_held docs (note_progress s) = dl_held docs s"
  "ot_expected_size (note_progress s) = ot_expected_size s" "ot_total_written (note_progress s) = ot_total_written s"
proof -
  have h: "dl_held docs (t\<lparr> ot_progress_pct := a \<rparr>) = dl_held docs t"
    "dl_held docs (t\<lparr> ot_progress_pct := a, ot_last_reported_pct := b \<rparr>) = dl_held docs t" for t a b
    by (simp_all add: dl_held_def)
  show "boots_ok sha256 docs (ot_trace (note_progress s)) = boots_ok sha256 docs (ot_trace s)"
    "ot_state (note_progress s) = ot_state s" "dl_held docs (note_progress s) = dl_held docs s"
    "ot_expected_size (note_progress s) = ot_expected_size s" "ot_total_written (note_progress s) = ot_total_written s"
    by (simp_all add: note_progress_def Let_def h)
qed

lemma chunk_held:
  assumes "dl_held docs s" "ot_total_written s < ot_expected_size s" "length buf \<le> 1024"
  shows "dl_held docs ((emit (Flash_write buf) s)\<lparr> ot_sha256_ctx := ot_sha256_ctx s @ buf,
     ot_total_written := ot_total_written s + of_nat (length buf) \<rparr>)"
proof -
  have t: "ot_total_written s = of_nat (length (ot_sha256_ctx s))" using assms(1) by (auto simp: dl_held_def)
  have "length (ot_sha256_ctx s @ buf) < unat (ot_expected_size s) + 1024"
    if z: "unat (ot_expected_size s) + 1024 \<le> 2 ^ 32"
  proof -
    have "length (ot_sha256_ctx s) < 2 ^ 32" using assms(1) z by (auto simp: dl_held_def)
    then have "unat (ot_total_written s) = length (ot_sha256_ctx s)"
      by (simp add: t unat_of_nat take_bit_nat_eq_self)
    then show ?thesis using assms(2,3) by (simp add: word_less_nat_alt)
  qed
  then show ?thesis using assms(1) by (auto simp: dl_held_def)
qed

lemma take_chunk_inv:
  assumes "boots_ok sha256 docs (ot_trace s)" "dl_held docs s" "ot_total_written s < ot_expected_size s"
    "ot_state s = OTA_DOWNLOADING" "length buf \<le> 1024"
  shows "ota_inv sha256 docs (take_chunk i buf s)"
proof (cases "oi_write i")
  case None
  have h: "dl_held docs (t\<lparr> ot_state := st \<rparr>) = dl_held docs t" for t st by (simp add: dl_held_def)
  show ?thesis using None assms chunk_held [OF assms(2,3,5)]
    by (auto simp: take_chunk_def Let_def ota_inv_def set_ota_state_def h)
next
  case (Some err)
  then show ?thesis using assms(1) by (simp add: take_chunk_def Let_def drop_inv)
qed

lemma downloading_inv:
  assumes "ota_inv sha256 docs s" "ot_state s = OTA_DOWNLOADING"
  shows "ota_inv sha256 docs (ota_downloading i s)"
proof -
  have h: "boots_ok sha256 docs (ot_trace s)" "dl_held docs s" "ot_total_written s < ot_expected_size s"
    using assms by (auto simp: ota_inv_def)
  then show ?thesis using assms
    by (auto simp: ota_downloading_def Let_def not_le [symmetric] intro!: drop_inv take_chunk_inv)
qed

lemma applying_inv:
  assumes "ota_inv sha256 docs s" "ot_state s = OTA_APPLYING"
  shows "ota_inv sha256 docs (ota_applying sha256 i s)"
proof -
  have b: "boots_ok sha256 docs (ot_trace s)" and "dl_held docs s" using assms by (auto simp: ota_inv_def)
  then obtain p d sha where h: "ot_partition s = Some p"
    "flash_image (ot_trace s) = Some (p, ot_expected_size s, ot_sha256_ctx s)"
    "ot_total_written s = of_nat (length (ot_sha256_ctx s))" "d \<in> docs"
    "dc_binary_size d = Some (ot_expected_size s)" "dc_sha256 d = Some sha" "ot_expected_sha256 s = take 64 sha"
    "unat (ot_expected_size s) + 1024 \<le> 2 ^ 32 \<Longrightarrow> length (ot_sha256_ctx s) < unat (ot_expected_size s) + 1024"
    by (auto simp: dl_held_def)
  have n: "length (ot_sha256_ctx s) = unat (ot_expected_size s)"
    if "ot_total_written s = ot_expected_size s" "unat (ot_expected_size s) + 1024 \<le> 2 ^ 32"
  proof -
    have "length (ot_sha256_ctx s) < 2 ^ 32" using h(8) [OF that(2)] that(2) by simp
    then have "unat (ot_total_written s) = length (ot_sha256_ctx s)"
      by (simp add: h(3) unat_of_nat take_bit_nat_eq_self)
    then show ?thesis using that(1) by simp
  qed
  have boot: "boot_ok sha256 docs (ot_trace s @ [Flash_end]) p"
    if "ot_total_written s = ot_expected_size s"
      "strcasecmp_eq (computed_hex (sha256 (ot_sha256_ctx s))) (ot_expected_sha256 s)"
    unfolding boot_ok_def using that h n by auto
  define s1 where "s1 = (emit Flash_end (s\<lparr> ot_sha256_inited := False \<rparr>))\<lparr> ot_handle := 0 \<rparr>"
  have s1: "boots_ok sha256 docs (ot_trace s1)" "ot_partition s1 = Some p" "ot_trace s1 = ot_trace s @ [Flash_end]"
    using b h(1) by (simp_all add: s1_def)
  have fin: "ota_inv sha256 docs (emit Restart (set_ota_state OTA_REBOOTING (cleanup_download t)))"
    if "boots_ok sha256 docs (ot_trace t)" for t
  proof -
    have "released (emit Restart (set_ota_state OTA_REBOOTING (cleanup_download t)))"
      using cleanup_released [of t] by (simp add: released_def set_ota_state_def)
    then show ?thesis using cleanup_boots [OF that] by (simp add: ota_inv_def set_ota_state_def)
  qed
  show ?thesis unfolding ota_applying_def Let_def s1_def [symmetric] s1(2) option.case
    using b boot s1(1,3)
    by (auto intro!: abort_inv drop_inv fin split: option.split)
qed

lemma loop_inv:
  assumes "ota_inv sha256 docs s" "\<And>d. oi_doc i = Inr d \<Longrightarrow> d \<in> docs"
  shows "ota_inv sha256 docs (loop_ota_client sha256 i s)"
proof (cases "oi_wifi i")
  case False
  then show ?thesis using assms by (simp add: loop_ota_client_def)
next
  case True
  show ?thesis
  proof (cases "ot_state s")
    case OTA_DOWNLOADING
    then show ?thesis using downloading_inv [OF assms(1)] True by (simp add: loop_ota_client_def)
  next
    case OTA_APPLYING
    then show ?thesis using applying_inv [OF assms(1)] True by (simp add: loop_ota_client_def)
  next
    case OTA_CHECKING
    then show ?thesis using assms True by (simp add: loop_ota_client_def ota_inv_def [of _ _ s] checking_inv)
  next
    case OTA_IDLE
    have "released (t\<lparr> ot_last_poll_ms := a \<rparr>) = released t" "released (t\<lparr> ot_state := st \<rparr>) = released t" for t a st
      by (simp_all add: released_def)
    then show ?thesis using assms True OTA_IDLE
      by (auto simp: loop_ota_client_def ota_inv_def [of _ _ s] set_ota_state_def intro!: checking_inv)
  qed (use assms True in \<open>auto simp: loop_ota_client_def ota_inv_def\<close>)
qed

section \<open>Runs\<close>

datatype ota_op = Tick ota_in | Trigger | Set_interval u32

fun ota_step :: "(bytes \<Rightarrow> bytes) \<Rightarrow> ota_op \<Rightarrow> ota \<Rightarrow> ota" where
  "ota_step sha256 (Tick i) s = loop_ota_client sha256 i s"
| "ota_step sha256 Trigger s = ota_trigger_check s"
| "ota_step sha256 (Set_interval v) s = ota_set_poll_interval v s"

definition ota_run :: "(bytes \<Rightarrow> bytes) \<Rightarrow> ota_op list \<Rightarrow> ota \<Rightarrow> ota" where
  "ota_run sha256 ops s = fold (ota_step sha256) ops s"

definition answers :: "ota_op list \<Rightarrow> ota_doc set" where
  "answers ops = {d. \<exists>i. Tick i \<in> set ops \<and> oi_doc i = Inr d}"

lemma run_inv: "ota_inv sha256 (answers ops) (ota_run sha256 ops (init_ota_client now (ota0 n)))"
proof (induction ops rule: rev_induct)
  case Nil
  show ?case by (simp add: ota_run_def init_ota_client_def ota0_def ota_inv_def set_ota_state_def released_def)
next
  case (snoc op ops)
  define s where "s = ota_run sha256 ops (init_ota_client now (ota0 n))"
  have m: "dl_held d s \<Longrightarrow> d \<subseteq> d' \<Longrightarrow> dl_held d' s" for d d' unfolding dl_held_def by blast
  have sub: "answers ops \<subseteq> answers (ops @ [op])" by (auto simp: answers_def)
  have i: "ota_inv sha256 (answers (ops @ [op])) s"
    using snoc.IH sub boots_ok_mono [OF _ sub] m [OF _ sub]
    unfolding s_def [symmetric] ota_inv_def by (auto split: OtaState.splits)
  have "ota_inv sha256 (answers (ops @ [op])) (ota_step sha256 op s)"
  proof (cases op)
    case (Tick x)
    then show ?thesis using loop_inv [OF i, of x] by (auto simp: answers_def)
  next
    case Trigger
    have "released (t\<lparr> ot_last_poll_ms := a, ot_last_error := e \<rparr>) = released t"
      "released (t\<lparr> ot_state := st \<rparr>) = released t" for t a e st by (simp_all add: released_def)
    then show ?thesis using i Trigger
      by (auto simp: ota_trigger_check_def ota_inv_def set_ota_state_def)
  next
    case (Set_interval v)
    then show ?thesis using i by (simp add: ota_inv_def split: OtaState.splits)
  qed
  then show ?case by (simp add: ota_run_def s_def)
qed

text \<open>C3: The boot partition is switched only to a verified image: whatever the backend, the network and the flash
answer, every switch to a partition happens when that partition holds, since the last time it was opened, exactly the
bytes whose number and SHA-256 an answer of the backend announced (the number modulo \<open>2^32\<close>, and exactly unless
it comes within one chunk of that).\<close>

theorem boot_only_verified_image:
  assumes "ot_trace (ota_run sha256 ops (init_ota_client now (ota0 n))) = before @ Set_boot p # rest"
  shows "\<exists>sz img i d sha. flash_image before = Some (p, sz, img) \<and> Tick i \<in> set ops \<and> oi_doc i = Inr d \<and>
    dc_binary_size d = Some sz \<and> dc_sha256 d = Some sha \<and> of_nat (length img) = sz \<and>
    (unat sz + 1024 \<le> 2 ^ 32 \<longrightarrow> length img = unat sz) \<and>
    strcasecmp_eq (computed_hex (sha256 img)) (take 64 sha)"
proof -
  have "boot_ok sha256 (answers ops) before p"
    using run_inv [of sha256 ops now n] assms unfolding ota_inv_def boots_ok_def by blast
  then show ?thesis unfolding boot_ok_def answers_def by blast
qed

text \<open>A whole update of three bytes, with a hash function that is constant.\<close>

definition demo_doc :: ota_doc where
  "demo_doc = \<lparr> dc_update_available = Some True, dc_version = Some (str_bytes ''2.0.1''),
     dc_sha256 = Some (replicate 64 48), dc_binary_size = Some 3, dc_poll_interval_seconds = None,
     dc_binary_url = Some (str_bytes ''u'') \<rparr>"

definition demo_in :: ota_in where
  "demo_in = \<lparr> oi_wifi = True, oi_now = 0, oi_now_after = 0, oi_serial = [], oi_begin = True, oi_rc = 200,
     oi_doc = Inr demo_doc, oi_bin_begin = True, oi_bin_rc = 200, oi_partition = Some 1, oi_ota_begin = Inr 7,
     oi_stream = True, oi_read = [1, 2, 3], oi_connected = True, oi_write = None, oi_end = None, oi_set_boot = None \<rparr>"

definition demo_nvs :: nvs where
  "demo_nvs = (\<lambda>ns. if ns = ''pm-ota'' then [''backend_url'' \<mapsto> str_bytes ''h''] else Map.empty)"

definition demo_ops :: "ota_op list" where
  "demo_ops = [Trigger, Tick demo_in, Tick demo_in, Tick demo_in]"

definition demo_trace :: "ota_eff list" where
  "demo_trace = ot_trace (ota_run (\<lambda>_. replicate 32 0) demo_ops (init_ota_client 0 (ota0 demo_nvs)))"

lemma demo_boot: "drop 8 demo_trace \<noteq> [] \<and> hd (drop 8 demo_trace) = Set_boot 1"
  by code_simp

lemma boot_only_verified_image_witness:
  "\<exists>sz img sha. flash_image (take 8 demo_trace) = Some (1, sz, img) \<and> of_nat (length img) = sz \<and>
    strcasecmp_eq (computed_hex (replicate 32 0)) (take 64 sha)"
proof -
  have "demo_trace = take 8 demo_trace @ Set_boot 1 # tl (drop 8 demo_trace)"
    using demo_boot by (metis append_take_drop_id list.exhaust_sel)
  then show ?thesis
    using boot_only_verified_image [of "\<lambda>_. replicate 32 0" demo_ops 0 demo_nvs "take 8 demo_trace" 1
        "tl (drop 8 demo_trace)"]
    unfolding demo_trace_def [symmetric] by blast
qed


section \<open>The confirmation\<close>

text \<open>The sensor task's use of it: \<open>ota_confirmed\<close> is a static of the loop. \<open>confirm_step\<close> is one cycle at the
clock \<open>now\<close>; the result tells whether the image was confirmed in it.\<close>

definition confirm_step :: "u32 \<times> bool option \<times> bool \<Rightarrow> bool \<times> ota \<Rightarrow> bool \<times> bool \<times> ota" where
  "confirm_step x y =
    (case x of (now, part, mark_ok) \<Rightarrow> let (ota_confirmed, s) = y in
      if \<not> ota_confirmed then let (c, s') = ota_confirm_valid now part mark_ok s in (c, True, s') else (False, ota_confirmed, s))"

fun confirm_run :: "(u32 \<times> bool option \<times> bool) list \<Rightarrow> bool \<times> ota \<Rightarrow> bool list" where
  "confirm_run [] y = []"
| "confirm_run (x # xs) y = (let (c, y') = confirm_step x y in c # confirm_run xs y')"

lemma confirm_run_after: "confirm_run xs (True, s) = replicate (length xs) False"
  by (induction xs) (auto simp: confirm_step_def split: prod.splits)

text \<open>A new image is never confirmed when the sensor task's first cycle comes before the 60 s of grace, as it
does: the only call returns early and the task's flag prevents another one, however long the device then runs, so a
bootloader with rollback enabled returns to the old image at the next reset.\<close>

theorem update_never_confirmed:
  assumes "now < 60000"
  shows "confirm_run ((now, part, mark_ok) # later) (False, s) = replicate (Suc (length later)) False"
  using assms by (simp add: confirm_step_def ota_confirm_valid_def confirm_run_after)

text \<open>An image pending verification, first cycle at 4 s, then an hour of cycles.\<close>

lemma update_never_confirmed_witness:
  "True \<notin> set (confirm_run ((4000, Some True, True) # map (\<lambda>k. (4000 + 1000 * of_nat k, Some True, True)) [1..<3600])
     (False, ota0 (\<lambda>_. Map.empty)))"
  by (subst update_never_confirmed) (simp_all del: upt_Suc)

end
