(* ===== verification/Json_Doc.thy ===== *)
theory Json_Doc
  imports Settings
begin

text \<open>
  Parsed JSON documents as the command handlers see them. The parser (ArduinoJson) is outside; the documents it
  yields are values of \<open>json\<close>, numbers without a fraction \<open>JInt\<close> and the others the nearest float \<open>JReal\<close>. The
  accessors are ArduinoJson's documented ones: \<open>doc[key] | default\<close> takes the default unless \<open>is<T>()\<close> of the default's
  type holds (an integer type: an integer in its range; \<open>float\<close>: any number), \<open>as<T>()\<close> gives zero for what does not
  convert. An object keeps the order of its members; a lookup finds the first.
\<close>

datatype json =
    JNull
  | JBool bool
  | JInt int
  | JReal f32
  | JStr bytes
  | JArr "json list"
  | JObj "(string \<times> json) list"

definition jget :: "json \<Rightarrow> string \<Rightarrow> json" where
  "jget d k = (case d of JObj ms \<Rightarrow> (case map_of ms k of None \<Rightarrow> JNull | Some v \<Rightarrow> v) | _ \<Rightarrow> JNull)"

definition int_in :: "int \<Rightarrow> int \<Rightarrow> json \<Rightarrow> bool" where
  "int_in lo hi v = (case v of JInt i \<Rightarrow> lo \<le> i \<and> i \<le> hi | _ \<Rightarrow> False)"

definition is_int :: "json \<Rightarrow> bool" where
  "is_int v = int_in (- (2 ^ 31)) (2 ^ 31 - 1) v"

definition is_str :: "json \<Rightarrow> bool" where
  "is_str v = (case v of JStr _ \<Rightarrow> True | _ \<Rightarrow> False)"

definition the_int :: "json \<Rightarrow> int" where
  "the_int v = (case v of JInt i \<Rightarrow> i | _ \<Rightarrow> 0)"

text \<open>\<open>as<const char*>()\<close> of a string.\<close>

definition the_str :: "json \<Rightarrow> bytes" where
  "the_str v = (case v of JStr s \<Rightarrow> s | _ \<Rightarrow> [])"

text \<open>\<open>v | d\<close> for the types the handlers use; an \<open>int\<close> stored in a narrower type is cut to it.\<close>

definition or_int :: "json \<Rightarrow> int \<Rightarrow> int" where
  "or_int v d = (if is_int v then the_int v else d)"

definition or_u8 :: "json \<Rightarrow> u8 \<Rightarrow> u8" where
  "or_u8 v d = (if int_in 0 255 v then word_of_int (the_int v) else d)"

definition or_u16 :: "json \<Rightarrow> u16 \<Rightarrow> u16" where
  "or_u16 v d = (if int_in 0 65535 v then word_of_int (the_int v) else d)"

definition or_bool :: "json \<Rightarrow> bool \<Rightarrow> bool" where
  "or_bool v d = (case v of JBool b \<Rightarrow> b | _ \<Rightarrow> d)"

definition or_float :: "json \<Rightarrow> f32 \<Rightarrow> f32" where
  "or_float v d = (case v of JInt i \<Rightarrow> f_of_int i | JReal x \<Rightarrow> x | _ \<Rightarrow> d)"

definition or_str :: "json \<Rightarrow> bytes \<Rightarrow> bytes" where
  "or_str v d = (case v of JStr s \<Rightarrow> s | _ \<Rightarrow> d)"

definition as_uint :: "nat \<Rightarrow> json \<Rightarrow> int" where
  "as_uint n v = (let i = (case v of JInt i \<Rightarrow> i | JReal x \<Rightarrow> f_trunc x | JBool b \<Rightarrow> (if b then 1 else 0) | _ \<Rightarrow> 0)
     in if 0 \<le> i \<and> i < 2 ^ n then i else 0)"

text \<open>A \<open>JsonVariant\<close> as a condition: present and not false, null or zero (\<open>as<bool>()\<close>).\<close>

definition truthy :: "json \<Rightarrow> bool" where
  "truthy v = (case v of JNull \<Rightarrow> False | JBool b \<Rightarrow> b | JInt i \<Rightarrow> i \<noteq> 0 | JReal x \<Rightarrow> \<not> f_eq x 0 | _ \<Rightarrow> True)"

text \<open>\<open>atoi\<close> on a C string: leading blanks, a sign, digits. The values the handlers give it fit an \<open>int\<close> or are cut to
32 bits.\<close>

definition digit_val :: "u8 \<Rightarrow> int" where
  "digit_val b = int (unat b) - 48"

definition is_digit_byte :: "u8 \<Rightarrow> bool" where
  "is_digit_byte b = (48 \<le> b \<and> b \<le> 57)"

definition atoi :: "bytes \<Rightarrow> int" where
  "atoi s = (let s1 = dropWhile (\<lambda>b. b = 32 \<or> (9 \<le> b \<and> b \<le> 13)) (c_str s);
     (neg, s2) = (case s1 of [] \<Rightarrow> (False, []) | b # r \<Rightarrow> if b = 45 then (True, r) else if b = 43 then (False, r) else (False, s1));
     v = foldl (\<lambda>a b. a * 10 + digit_val b) 0 (takeWhile is_digit_byte s2)
   in if neg then - v else v)"

text \<open>\<open>strlcpy\<close> into a buffer: the copy and its NUL, the bytes behind them untouched.\<close>

definition strlcpy :: "bytes \<Rightarrow> bytes \<Rightarrow> bytes" where
  "strlcpy dst src = (if dst = [] then [] else
     let s = take (length dst - 1) (c_str src) in s @ [0] @ drop (length s + 1) dst)"

lemma length_strlcpy [simp]: "length (strlcpy dst src) = length dst"
  by (cases dst) (auto simp: strlcpy_def Let_def)

lemma jget_simps [simp]:
  "jget (JObj ((k, v) # ms)) k' = (if k = k' then v else jget (JObj ms) k')" "jget (JObj []) k' = JNull"
  by (auto simp: jget_def)

text \<open>Objects with string constants, as the responses are.\<close>

abbreviation jstr :: "string \<Rightarrow> json" where "jstr s \<equiv> JStr (str_bytes s)"

definition ok_msg :: "string \<Rightarrow> json" where
  "ok_msg m = JObj [(''ok'', JBool True), (''msg'', jstr m)]"

definition err_msg :: "string \<Rightarrow> json" where
  "err_msg e = JObj [(''ok'', JBool False), (''error'', jstr e)]"

end
