(* ===== verification/Wifi.thy ===== *)
theory Wifi
  imports Settings
begin

text \<open>
  The link side of \<open>connectivity_manager.cpp\<close>: the WiFi state machine with its post-connect steps, the time
  synchronisation, the MQTT identity and reconnect limit, the deferred backend writes and \<open>loop_connectivity\<close>
  that drives them. One tick has one reading of the clock; the answers of the WiFi, SNTP and MQTT libraries in a tick
  are its input \<open>net_in\<close>, the compiled-in credentials are an argument, what the tick does outside is the trace
  \<open>nt_out\<close>. \<open>nt_ble\<close> is \<open>ble_initialized\<close> of \<open>ble_provisioner.cpp\<close>.
\<close>

section \<open>State\<close>

datatype WifiState = WST_INIT | WST_CONNECTING | WST_CONNECTED | WST_RETRY_BACKOFF
datatype PostConnectStep = PCS_IDLE | PCS_NTP | PCS_CAL | PCS_MQTT | PCS_DONE
datatype SyncResult = SYNC_OK | SYNC_TIMEOUT | SYNC_NO_WIFI

datatype net_eff =
    Wifi_begin bytes bytes
  | Set_epoch int
  | Epoch_valid bool
  | Sync_calibration
  | Sync_channels
  | Sync_ble_pin
  | Publish_switch u8 bool
  | Mqtt_connect bytes "bytes option"
  | Mqtt_loop
  | Tls_reset

record net =
  nt_state :: WifiState
  nt_entered_ms :: u32
  nt_deadline :: u32
  nt_post :: PostConnectStep
  nt_skip :: bool
  nt_epoch :: int
  nt_synced :: bool
  nt_sntp :: bool
  nt_warned :: bool
  nt_last_sync_ms :: u32
  nt_was_connected :: bool
  nt_last_mqtt_retry :: u32
  nt_deferred :: u16
  nt_cooldown :: u32
  nt_relay_idx :: u8
  nt_relay_state :: bool
  nt_ble :: bool
  nt_out :: "net_eff list"

definition net0 :: net where
  "net0 = \<lparr> nt_state = WST_INIT, nt_entered_ms = 0, nt_deadline = 0, nt_post = PCS_IDLE, nt_skip = False, nt_epoch = 0,
     nt_synced = False, nt_sntp = False, nt_warned = False, nt_last_sync_ms = 0, nt_was_connected = False,
     nt_last_mqtt_retry = - 30000, nt_deferred = 0, nt_cooldown = 0, nt_relay_idx = 0, nt_relay_state = False,
     nt_ble = False, nt_out = [] \<rparr>"

text \<open>\<open>ni_polls\<close> are the clock and \<open>time()\<close> readings of the waiting loop of \<open>sync_time\<close>, \<open>ni_mac\<close> the MAC as text.\<close>

record net_in =
  ni_now :: u32
  ni_link :: bool
  ni_polls :: "(u32 \<times> int) list"
  ni_mqtt_up :: bool
  ni_mac :: bytes

definition nemit :: "net_eff \<Rightarrow> net \<Rightarrow> net" where
  "nemit e s = s\<lparr> nt_out := nt_out s @ [e] \<rparr>"

section \<open>Time\<close>

definition start_sntp :: "net \<Rightarrow> net" where
  "start_sntp s = (if nt_sntp s then s else s\<lparr> nt_sntp := True \<rparr>)"

fun poll_time :: "u32 \<Rightarrow> int \<Rightarrow> (u32 \<times> int) list \<Rightarrow> int" where
  "poll_time deadline t [] = t"
| "poll_time deadline t ((now, tm) # ps) =
    (if now < deadline then (if 1700000000 < tm then tm else poll_time deadline tm ps) else t)"

definition sync_time :: "net_in \<Rightarrow> net \<Rightarrow> SyncResult \<times> net" where
  "sync_time i s =
    (if nt_skip s then (SYNC_NO_WIFI, s)
     else
       let s1 = start_sntp s; t = poll_time (ni_now i + 5000) 0 (ni_polls i)
       in if t < 1700000000 then
            (SYNC_TIMEOUT, (nemit (Epoch_valid False) (s1\<lparr> nt_warned := True \<rparr>))\<lparr> nt_synced := False \<rparr>)
          else
            (SYNC_OK, (nemit (Epoch_valid True) (nemit (Set_epoch t) (s1\<lparr> nt_epoch := t \<rparr>)))
              \<lparr> nt_synced := True, nt_warned := False \<rparr>))"

definition try_sync_epoch_time :: "net_in \<Rightarrow> net \<Rightarrow> bool \<times> net" where
  "try_sync_epoch_time i s =
    (if 0 < nt_epoch s \<and> ni_now i - nt_last_sync_ms s < 3600000 then (True, s)
     else case sync_time i s of
         (SYNC_OK, s1) \<Rightarrow> (True, s1\<lparr> nt_last_sync_ms := ni_now i \<rparr>)
       | (_, s1) \<Rightarrow> (0 < nt_epoch s1, s1))"

section \<open>MQTT\<close>

definition is_xdigit :: "u8 \<Rightarrow> bool" where
  "is_xdigit b = ((48 \<le> b \<and> b \<le> 57) \<or> (65 \<le> b \<and> b \<le> 70) \<or> (97 \<le> b \<and> b \<le> 102))"

definition is_valid_uuid :: "bytes \<Rightarrow> bool" where
  "is_valid_uuid s =
    (if length s \<noteq> 36 then False
     else list_all (\<lambda>i. if i = 8 \<or> i = 13 \<or> i = 18 \<or> i = 23 then s ! i = 45 else is_xdigit (s ! i)) [0..<36])"

definition get_mqtt_identity :: "kv \<Rightarrow> bytes \<Rightarrow> nat \<Rightarrow> bytes" where
  "get_mqtt_identity m mac key_len =
    (case settings_load_supabase_device_key 64 m of
       Some dk \<Rightarrow> if is_valid_uuid dk then take (key_len - 1) dk else take (key_len - 1) (str_bytes ''dev-'' @ mac)
     | None \<Rightarrow> take (key_len - 1) (str_bytes ''dev-'' @ mac))"

definition connect_mqtt :: "kv \<Rightarrow> net_in \<Rightarrow> net \<Rightarrow> net" where
  "connect_mqtt m i s =
    (if nt_skip s then s
     else if ni_now i - nt_last_mqtt_retry s < 30000 then s
     else
       let s1 = s\<lparr> nt_last_mqtt_retry := ni_now i \<rparr>; dk = get_mqtt_identity m (ni_mac i) 64;
           auth = (case settings_load_supabase_api_key 128 m of Some k \<Rightarrow> if k \<noteq> [] then Some k else None | None \<Rightarrow> None)
       in nemit (Mqtt_connect dk auth) s1)"

section \<open>The WiFi state machine\<close>

definition wifi_state_enter :: "u32 \<Rightarrow> WifiState \<Rightarrow> net \<Rightarrow> net" where
  "wifi_state_enter now st s = s\<lparr> nt_state := st, nt_entered_ms := now \<rparr>"

text \<open>The stored credentials, or the compiled-in ones unless they are the placeholder.\<close>

definition wifi_credentials :: "kv \<Rightarrow> bytes \<times> bytes \<Rightarrow> (bytes \<times> bytes) option" where
  "wifi_credentials m def =
    (case settings_load_wifi 64 m of
       Some c \<Rightarrow> Some c
     | None \<Rightarrow> if 5 < length (fst def) \<and> fst def \<noteq> str_bytes ''YOUR_SSID'' then Some def else None)"

definition wifi_post_connect :: "kv \<Rightarrow> net_in \<Rightarrow> net \<Rightarrow> net" where
  "wifi_post_connect m i s =
    (if nt_post s = PCS_NTP then
       (let (r, s1) = sync_time i s in s1\<lparr> nt_post := (if r = SYNC_OK then PCS_CAL else PCS_MQTT) \<rparr>)
     else if nt_post s = PCS_CAL then (nemit Sync_calibration s)\<lparr> nt_post := PCS_MQTT \<rparr>
     else if nt_post s = PCS_MQTT then
       (case settings_load_mqtt 64 m of Some _ \<Rightarrow> connect_mqtt m i s | None \<Rightarrow> s)\<lparr> nt_post := PCS_DONE \<rparr>
     else s)"

definition wifi_state_tick :: "kv \<Rightarrow> bytes \<times> bytes \<Rightarrow> net_in \<Rightarrow> net \<Rightarrow> net" where
  "wifi_state_tick m def i s =
    (case nt_state s of
       WST_INIT \<Rightarrow>
         (case wifi_credentials m def of
            None \<Rightarrow> wifi_state_enter (ni_now i) WST_RETRY_BACKOFF (s\<lparr> nt_skip := True \<rparr>)
          | Some (ssid, pass) \<Rightarrow>
              wifi_state_enter (ni_now i) WST_CONNECTING
                ((nemit (Wifi_begin ssid pass) s)\<lparr> nt_deadline := ni_now i + 5000 \<rparr>))
     | WST_CONNECTING \<Rightarrow>
         if ni_link i then
           wifi_state_enter (ni_now i) WST_CONNECTED (s\<lparr> nt_ble := False, nt_post := PCS_NTP \<rparr>)
         else if nt_deadline s \<le> ni_now i then
           wifi_state_enter (ni_now i) WST_RETRY_BACKOFF (s\<lparr> nt_skip := True \<rparr>)
         else s
     | WST_CONNECTED \<Rightarrow> wifi_post_connect m i s
     | WST_RETRY_BACKOFF \<Rightarrow>
         if 30000 \<le> ni_now i - nt_entered_ms s then
           wifi_state_enter (ni_now i) WST_INIT (s\<lparr> nt_skip := False \<rparr>)
         else s)"

definition init_connectivity :: "u32 \<Rightarrow> net \<Rightarrow> net" where
  "init_connectivity now s = s\<lparr> nt_state := WST_INIT, nt_entered_ms := now, nt_skip := False, nt_synced := False \<rparr>"

section \<open>The loop\<close>

text \<open>One deferred write, the lowest bit first, at most one every two seconds.\<close>

definition run_deferred :: "net_in \<Rightarrow> net \<Rightarrow> net" where
  "run_deferred i s =
    (if nt_deferred s = 0 then s
     else if ni_now i - nt_cooldown s < 2000 then s
     else
       let s1 = s\<lparr> nt_cooldown := ni_now i \<rparr>; d = nt_deferred s in
       if d AND 1 \<noteq> 0 then nemit Sync_channels (s1\<lparr> nt_deferred := d AND NOT 1 \<rparr>)
       else if d AND 2 \<noteq> 0 then nemit Sync_ble_pin (s1\<lparr> nt_deferred := d AND NOT 2 \<rparr>)
       else if d AND 4 \<noteq> 0 then nemit (Publish_switch (nt_relay_idx s) (nt_relay_state s)) (s1\<lparr> nt_deferred := d AND NOT 4 \<rparr>)
       else if d AND 8 \<noteq> 0 then nemit Sync_calibration (s1\<lparr> nt_deferred := d AND NOT 8 \<rparr>)
       else s1)"

definition loop_connectivity :: "kv \<Rightarrow> bytes \<times> bytes \<Rightarrow> net_in \<Rightarrow> net \<Rightarrow> net" where
  "loop_connectivity m def i s0 =
    (let s1 = wifi_state_tick m def i s0;
         s2 = (if nt_skip s1 \<and> ni_link i \<and> nt_state s1 = WST_CONNECTED
               then nemit Tls_reset (s1\<lparr> nt_skip := False \<rparr>) else s1);
         s3 = (if nt_was_connected s2 \<and> \<not> ni_link i then nemit Tls_reset (s2\<lparr> nt_ble := True \<rparr>) else s2);
         s4 = s3\<lparr> nt_was_connected := ni_link i \<rparr>
     in if nt_skip s4 \<or> \<not> ni_link i then s4
        else
          let s5 = (case settings_load_mqtt 64 m of
                Some _ \<Rightarrow> nemit Mqtt_loop (if \<not> ni_mqtt_up i then connect_mqtt m i s4 else s4)
              | None \<Rightarrow> s4)
          in run_deferred i s5)"

text \<open>The reconnect after new credentials (\<open>apply_settings_posthook("set_wifi")\<close>).\<close>

definition reconnect_wifi :: "kv \<Rightarrow> u32 \<Rightarrow> net \<Rightarrow> net" where
  "reconnect_wifi m now s =
    (case settings_load_wifi 64 m of
       None \<Rightarrow> s
     | Some (ssid, pass) \<Rightarrow>
         (wifi_state_enter now WST_CONNECTING ((nemit (Wifi_begin ssid pass) s)\<lparr> nt_post := PCS_IDLE \<rparr>))
           \<lparr> nt_deadline := now + 5000, nt_synced := False \<rparr>)"

section \<open>What a tick does to the link\<close>

lemma nemit_fields [simp]:
  "nt_state (nemit e s) = nt_state s" "nt_post (nemit e s) = nt_post s" "nt_skip (nemit e s) = nt_skip s"
  "nt_ble (nemit e s) = nt_ble s" "nt_entered_ms (nemit e s) = nt_entered_ms s" "nt_deadline (nemit e s) = nt_deadline s"
  "nt_was_connected (nemit e s) = nt_was_connected s"
  by (simp_all add: nemit_def)

lemma connect_mqtt_fields [simp]:
  "nt_state (connect_mqtt m i s) = nt_state s" "nt_post (connect_mqtt m i s) = nt_post s"
  "nt_skip (connect_mqtt m i s) = nt_skip s" "nt_ble (connect_mqtt m i s) = nt_ble s"
  "nt_entered_ms (connect_mqtt m i s) = nt_entered_ms s" "nt_deadline (connect_mqtt m i s) = nt_deadline s"
  "nt_was_connected (connect_mqtt m i s) = nt_was_connected s"
  by (simp_all add: connect_mqtt_def Let_def)

lemma run_deferred_fields [simp]:
  "nt_state (run_deferred i s) = nt_state s" "nt_post (run_deferred i s) = nt_post s"
  "nt_skip (run_deferred i s) = nt_skip s" "nt_ble (run_deferred i s) = nt_ble s"
  "nt_entered_ms (run_deferred i s) = nt_entered_ms s" "nt_deadline (run_deferred i s) = nt_deadline s"
  "nt_was_connected (run_deferred i s) = nt_was_connected s"
  by (simp_all add: run_deferred_def Let_def)

lemma sync_time_fields [simp]:
  "nt_state (snd (sync_time i s)) = nt_state s" "nt_skip (snd (sync_time i s)) = nt_skip s"
  "nt_ble (snd (sync_time i s)) = nt_ble s" "nt_was_connected (snd (sync_time i s)) = nt_was_connected s"
  by (simp_all add: sync_time_def start_sntp_def Let_def)

lemma post_connect_fields [simp]:
  "nt_state (wifi_post_connect m i s) = nt_state s" "nt_skip (wifi_post_connect m i s) = nt_skip s"
  "nt_ble (wifi_post_connect m i s) = nt_ble s" "nt_was_connected (wifi_post_connect m i s) = nt_was_connected s"
  by (simp_all add: wifi_post_connect_def case_prod_beta Let_def split: option.splits)

lemma loop_fields:
  "nt_state (loop_connectivity m def i s) = nt_state (wifi_state_tick m def i s)"
  "nt_post (loop_connectivity m def i s) = nt_post (wifi_state_tick m def i s)"
  "nt_skip (loop_connectivity m def i s) =
    (nt_skip (wifi_state_tick m def i s) \<and> \<not> (ni_link i \<and> nt_state (wifi_state_tick m def i s) = WST_CONNECTED))"
  "nt_ble (loop_connectivity m def i s) =
    (nt_ble (wifi_state_tick m def i s) \<or> (nt_was_connected (wifi_state_tick m def i s) \<and> \<not> ni_link i))"
  "nt_was_connected (loop_connectivity m def i s) = ni_link i"
  by (simp_all add: loop_connectivity_def Let_def split: option.splits)

section \<open>Recovery\<close>

text \<open>How far a state is from being online while the link is up.\<close>

definition stage :: "net \<Rightarrow> nat" where
  "stage s = (case nt_state s of WST_RETRY_BACKOFF \<Rightarrow> 6 | WST_INIT \<Rightarrow> 5 | WST_CONNECTING \<Rightarrow> 4
     | WST_CONNECTED \<Rightarrow> (case nt_post s of PCS_NTP \<Rightarrow> 3 | PCS_CAL \<Rightarrow> 2 | PCS_MQTT \<Rightarrow> 1 | _ \<Rightarrow> 0))"

lemma post_connect_stage:
  "nt_state s = WST_CONNECTED \<Longrightarrow> stage (wifi_post_connect m i s) \<le> stage s - 1"
  by (cases "nt_post s") (simp_all add: stage_def wifi_post_connect_def case_prod_beta Let_def split: option.splits)

lemma loop_progress:
  assumes "ni_link i" "wifi_credentials m def \<noteq> None" "nt_state s = WST_RETRY_BACKOFF \<longrightarrow> 30000 \<le> ni_now i - nt_entered_ms s"
  shows "stage (loop_connectivity m def i s) \<le> stage s - 1"
    "nt_state (loop_connectivity m def i s) \<noteq> WST_RETRY_BACKOFF"
    "nt_state (loop_connectivity m def i s) = WST_CONNECTED \<Longrightarrow> \<not> nt_skip (loop_connectivity m def i s)"
proof -
  have st: "stage (loop_connectivity m def i s) = stage (wifi_state_tick m def i s)"
    unfolding stage_def loop_fields by (rule refl)
  have "stage (wifi_state_tick m def i s) \<le> stage s - 1 \<and> nt_state (wifi_state_tick m def i s) \<noteq> WST_RETRY_BACKOFF"
  proof (cases "nt_state s")
    case WST_CONNECTED
    then show ?thesis using post_connect_stage [of s m i] by (simp add: wifi_state_tick_def)
  next
    case WST_INIT
    then show ?thesis using assms by (auto simp: wifi_state_tick_def wifi_state_enter_def stage_def)
  qed (use assms in \<open>simp_all add: wifi_state_tick_def wifi_state_enter_def stage_def\<close>)
  then show "stage (loop_connectivity m def i s) \<le> stage s - 1"
    "nt_state (loop_connectivity m def i s) \<noteq> WST_RETRY_BACKOFF" by (simp_all add: st loop_fields)
  show "nt_state (loop_connectivity m def i s) = WST_CONNECTED \<Longrightarrow> \<not> nt_skip (loop_connectivity m def i s)"
    using assms(1) by (simp add: loop_fields)
qed

lemma loop_run_progress:
  assumes "\<forall>i \<in> set xs. ni_link i" "wifi_credentials m def \<noteq> None" "nt_state s \<noteq> WST_RETRY_BACKOFF" "xs \<noteq> []"
  shows "stage (fold (loop_connectivity m def) xs s) \<le> stage s - length xs \<and>
    (nt_state (fold (loop_connectivity m def) xs s) = WST_CONNECTED \<longrightarrow> \<not> nt_skip (fold (loop_connectivity m def) xs s))"
  using assms
proof (induction xs arbitrary: s)
  case (Cons i xs)
  have p: "stage (loop_connectivity m def i s) \<le> stage s - 1"
    "nt_state (loop_connectivity m def i s) \<noteq> WST_RETRY_BACKOFF"
    "nt_state (loop_connectivity m def i s) = WST_CONNECTED \<longrightarrow> \<not> nt_skip (loop_connectivity m def i s)"
    using loop_progress [of i m def s] Cons.prems by auto
  show ?case
  proof (cases "xs = []")
    case True
    then show ?thesis using p by simp
  next
    case False
    then show ?thesis using Cons.IH [of "loop_connectivity m def i s"] Cons.prems p by auto
  qed
qed simp


definition demo_tick :: "u32 \<Rightarrow> bool \<Rightarrow> net_in" where
  "demo_tick now link = \<lparr> ni_now = now, ni_link = link, ni_polls = [], ni_mqtt_up = False, ni_mac = [] \<rparr>"


text \<open>A connection attempt is given five seconds, but not around the wrap of the clock: the deadline is compared
by magnitude, so an attempt begun in the last five seconds before \<open>millis()\<close> wraps is given up at its first tick.\<close>

theorem connect_window:
  assumes "nt_state s = WST_INIT" "wifi_credentials m def = Some c" "\<not> ni_link j" "ni_now i \<le> ni_now j"
  shows "nt_state (wifi_state_tick m def j (wifi_state_tick m def i s)) =
    (if unat (ni_now i) + 5000 < 2 ^ 32
     then (if unat (ni_now i) + 5000 \<le> unat (ni_now j) then WST_RETRY_BACKOFF else WST_CONNECTING)
     else WST_RETRY_BACKOFF)"
proof -
  have t: "nt_state (wifi_state_tick m def j (wifi_state_tick m def i s)) =
      (if ni_now i + 5000 \<le> ni_now j then WST_RETRY_BACKOFF else WST_CONNECTING)"
    using assms by (simp add: wifi_state_tick_def wifi_state_enter_def case_prod_beta)
  have u: "unat (ni_now i + 5000) = (unat (ni_now i) + 5000) mod 2 ^ 32"
    by (simp add: unat_word_ariths)
  show ?thesis
  proof (cases "unat (ni_now i) + 5000 < 2 ^ 32")
    case True
    then show ?thesis using u by (simp add: t word_le_nat_alt)
  next
    case False
    have "unat (ni_now i) < 2 ^ 32" using unsigned_less [of "ni_now i", where ?'a = nat] by simp
    then have "(unat (ni_now i) + 5000) mod 2 ^ 32 = unat (ni_now i) + 5000 - 2 ^ 32"
      using False by (simp add: mod_if)
    then have "unat (ni_now i + 5000) \<le> unat (ni_now j)"
      using u assms(4) by (simp add: word_le_nat_alt)
    then show ?thesis using False by (simp add: t word_le_nat_alt)
  qed
qed

lemma connect_window_witness:
  "nt_state (wifi_state_tick [''wifi_ssid'' \<mapsto> [65]] ([], []) (demo_tick 4294966010 False)
     (wifi_state_tick [''wifi_ssid'' \<mapsto> [65]] ([], []) (demo_tick 4294966000 False) net0)) = WST_RETRY_BACKOFF"
  by (subst connect_window [where c = "([65], [])"])
    (simp_all add: net0_def demo_tick_def wifi_credentials_def settings_load_wifi_def pf_isKey_def pf_getString_def)

text \<open>The BLE stack is shut down when WiFi connects, to make room for TLS, but only then: after the link has dropped
once and come back by itself the machine is still in \<open>WST_CONNECTED\<close>, so the stack that the drop brought up stays up
beside TLS, whatever happens to the link afterwards.\<close>

theorem ble_stays_up_after_drop:
  assumes "nt_state s = WST_CONNECTED" "nt_was_connected s" "\<not> ni_link d"
  shows "nt_state (fold (loop_connectivity m def) (d # xs) s) = WST_CONNECTED \<and>
    nt_ble (fold (loop_connectivity m def) (d # xs) s)"
proof -
  have "nt_state (loop_connectivity m def d s) = WST_CONNECTED \<and> nt_ble (loop_connectivity m def d s)"
    using assms by (simp add: loop_fields wifi_state_tick_def)
  moreover have "nt_state t = WST_CONNECTED \<and> nt_ble t \<Longrightarrow> nt_state (fold (loop_connectivity m def) xs t) = WST_CONNECTED \<and>
      nt_ble (fold (loop_connectivity m def) xs t)" for t
    by (induction xs arbitrary: t) (simp_all add: loop_fields wifi_state_tick_def)
  ultimately show ?thesis by simp
qed

lemma ble_stays_up_after_drop_witness:
  "nt_ble (fold (loop_connectivity Map.empty ([], [])) (demo_tick 0 False # replicate 100 (demo_tick 10 True))
     (net0\<lparr> nt_state := WST_CONNECTED, nt_post := PCS_DONE, nt_was_connected := True \<rparr>))"
  using ble_stays_up_after_drop [of "net0\<lparr> nt_state := WST_CONNECTED, nt_post := PCS_DONE, nt_was_connected := True \<rparr>"
      "demo_tick 0 False" Map.empty "([], [])" "replicate 100 (demo_tick 10 True)"]
  by (simp add: demo_tick_def)

end
