(* ===== verification/Device.thy ===== *)
theory Device
  imports Cycle_Counter Switches Ota Json_Doc Wifi
begin

text \<open>
  The device as the command handlers see it: the NVS partition, the state of every component and the order in which
  things leave the device. Components that keep their own copy of a namespace (switches, battery storage, update
  client) get the partition put in before an operation and taken out after it (\<open>on_sw\<close>, \<open>on_bat\<close>, \<open>on_ota\<close>), so
  \<open>dv_nvs\<close> is the one store; their inner copies are meaningless in between, like \<open>nt_ble\<close> of \<open>dv_net\<close>, for which
  \<open>bl_initialized\<close> stands. A handler runs in one step with one reading of the clock.
\<close>

section \<open>State\<close>

text \<open>The statics of \<open>ble_provisioner.cpp\<close>; the characteristics exist exactly while \<open>bl_initialized\<close>. The queue is
\<open>None\<close> until it is created.\<close>

record ble =
  bl_connected :: bool
  bl_initialized :: bool
  bl_advertising :: bool
  bl_queue :: "bytes list option"
  bl_rate_count :: u16
  bl_rate_window :: u32
  bl_rate_last :: u32
  bl_last_fail :: u32
  bl_last_status :: u32

definition ble0 :: ble where
  "ble0 = \<lparr> bl_connected = False, bl_initialized = False, bl_advertising = False, bl_queue = None, bl_rate_count = 0,
     bl_rate_window = 0, bl_rate_last = 0, bl_last_fail = 0, bl_last_status = 0 \<rparr>"

datatype dev_eff =
    E_response json
  | E_status json
  | E_restart
  | E_drop_overflow
  | E_mqtt_server bytes u16
  | E_http_reset
  | E_sync_pin
  | E_sync_calibration
  | E_result int bool

record device =
  dv_nvs :: nvs
  dv_id :: identity
  dv_sens :: sensors
  dv_coul :: counter
  dv_sw :: sw
  dv_bat :: battery
  dv_cyc :: cycle
  dv_ota :: ota
  dv_net :: net
  dv_ble :: ble
  dv_last_poll :: u32
  dv_out :: "dev_eff list"

text \<open>The surroundings during one command: the clock, the board, the \<open>Preferences\<close> library, which INA226
addresses answer, the bytes on the stack behind the table of default pins, the fields of a status response
(a telemetry snapshot), and the logger's entry count, capacity in bytes and overflow flag.
The last two are what handlers find in local structs they do not initialise when a load fails.\<close>

record cmd_env =
  ce_now :: u32
  ce_board :: board
  ce_prefs :: prefs_env
  ce_probe :: "u8 \<Rightarrow> bool"
  ce_stack :: "nat \<Rightarrow> u8"
  ce_snapshot :: "(string \<times> json) list"
  ce_log :: "int \<times> int \<times> bool"
  ce_uninit_state :: BatteryState
  ce_uninit_cal :: ChannelCalibration

section \<open>Running a component on the device\<close>

abbreviation kv_of :: "device \<Rightarrow> kv" where "kv_of d \<equiv> dv_nvs d ''pm-settings''"

definition demit :: "dev_eff \<Rightarrow> device \<Rightarrow> device" where
  "demit e d = d\<lparr> dv_out := dv_out d @ [e] \<rparr>"

definition on_nvs :: "(nvs \<Rightarrow> nvs) \<Rightarrow> device \<Rightarrow> device" where
  "on_nvs f d = d\<lparr> dv_nvs := f (dv_nvs d) \<rparr>"

definition on_kv :: "(kv \<Rightarrow> kv) \<Rightarrow> device \<Rightarrow> device" where
  "on_kv f d = d\<lparr> dv_nvs := (dv_nvs d)(''pm-settings'' := f (kv_of d)) \<rparr>"

definition on_ble :: "(ble \<Rightarrow> ble) \<Rightarrow> device \<Rightarrow> device" where
  "on_ble f d = d\<lparr> dv_ble := f (dv_ble d) \<rparr>"

definition on_net :: "(net \<Rightarrow> net) \<Rightarrow> device \<Rightarrow> device" where
  "on_net f d = d\<lparr> dv_net := f (dv_net d) \<rparr>"

definition on_sens :: "(kv \<times> sensors \<Rightarrow> kv \<times> sensors) \<Rightarrow> device \<Rightarrow> device" where
  "on_sens f d = (let r = f (kv_of d, dv_sens d) in
     d\<lparr> dv_nvs := (dv_nvs d)(''pm-settings'' := fst r), dv_sens := snd r \<rparr>)"

definition on_coul :: "(kv \<times> counter \<Rightarrow> kv \<times> counter) \<Rightarrow> device \<Rightarrow> device" where
  "on_coul f d = (let r = f (kv_of d, dv_coul d) in
     d\<lparr> dv_nvs := (dv_nvs d)(''pm-settings'' := fst r), dv_coul := snd r \<rparr>)"

definition sw0 :: sw where
  "sw0 = \<lparr> sw_kv = Map.empty, sw_states = replicate 8 ss0, sw_auto = False, sw_pcf = pcf0, sw_gpio = (\<lambda>_. False),
     sw_pub = [] \<rparr>"

definition sw_of :: "device \<Rightarrow> sw" where
  "sw_of d = (dv_sw d)\<lparr> sw_kv := kv_of d \<rparr>"

definition on_sw :: "(sw \<Rightarrow> sw) \<Rightarrow> device \<Rightarrow> device" where
  "on_sw f d = (let w = f (sw_of d) in
     d\<lparr> dv_nvs := (dv_nvs d)(''pm-settings'' := sw_kv w), dv_sw := w \<rparr>)"

definition bat_of :: "device \<Rightarrow> battery" where
  "bat_of d = (dv_bat d)\<lparr> bt_nvs := dv_nvs d \<rparr>"

definition put_bat :: "battery \<Rightarrow> device \<Rightarrow> device" where
  "put_bat b d = d\<lparr> dv_nvs := bt_nvs b, dv_bat := b \<rparr>"

definition on_bat :: "(battery \<Rightarrow> battery) \<Rightarrow> device \<Rightarrow> device" where
  "on_bat f d = put_bat (f (bat_of d)) d"

definition on_cyc :: "(battery \<times> cycle \<Rightarrow> battery \<times> cycle) \<Rightarrow> device \<Rightarrow> device" where
  "on_cyc f d = (let r = f (bat_of d, dv_cyc d) in (put_bat (fst r) d)\<lparr> dv_cyc := snd r \<rparr>)"

definition ota_of :: "device \<Rightarrow> ota" where
  "ota_of d = (dv_ota d)\<lparr> ot_nvs := dv_nvs d \<rparr>"

definition on_ota :: "(ota \<Rightarrow> ota) \<Rightarrow> device \<Rightarrow> device" where
  "on_ota f d = (let s = f (ota_of d) in d\<lparr> dv_nvs := ot_nvs s, dv_ota := s \<rparr>)"

lemma demit_fields [simp]:
  "dv_nvs (demit e d) = dv_nvs d" "dv_ble (demit e d) = dv_ble d" "dv_ota (demit e d) = dv_ota d"
  "dv_out (demit e d) = dv_out d @ [e]" "dv_sw (demit e d) = dv_sw d" "dv_net (demit e d) = dv_net d"
  by (simp_all add: demit_def)

lemma on_kv_fields [simp]:
  "dv_nvs (on_kv f d) = (dv_nvs d)(''pm-settings'' := f (kv_of d))" "dv_ble (on_kv f d) = dv_ble d"
  "dv_ota (on_kv f d) = dv_ota d" "dv_out (on_kv f d) = dv_out d" "dv_sw (on_kv f d) = dv_sw d"
  by (simp_all add: on_kv_def)

lemma on_ble_fields [simp]:
  "dv_nvs (on_ble f d) = dv_nvs d" "dv_ble (on_ble f d) = f (dv_ble d)" "dv_ota (on_ble f d) = dv_ota d"
  "dv_out (on_ble f d) = dv_out d" "dv_sw (on_ble f d) = dv_sw d"
  by (simp_all add: on_ble_def)

lemma on_nvs_fields [simp]:
  "dv_nvs (on_nvs f d) = f (dv_nvs d)" "dv_ble (on_nvs f d) = dv_ble d" "dv_ota (on_nvs f d) = dv_ota d"
  "dv_out (on_nvs f d) = dv_out d" "dv_sw (on_nvs f d) = dv_sw d"
  by (simp_all add: on_nvs_def)

lemma on_net_fields [simp]:
  "dv_nvs (on_net f d) = dv_nvs d" "dv_ble (on_net f d) = dv_ble d" "dv_ota (on_net f d) = dv_ota d"
  "dv_out (on_net f d) = dv_out d" "dv_sw (on_net f d) = dv_sw d"
  by (simp_all add: on_net_def)

lemma on_ota_fields [simp]:
  "dv_ble (on_ota f d) = dv_ble d" "dv_out (on_ota f d) = dv_out d" "dv_ota (on_ota f d) = f (ota_of d)"
  "dv_nvs (on_ota f d) = ot_nvs (f (ota_of d))"
  by (simp_all add: on_ota_def Let_def)

end
