(* ===== verification/Ble_Link.thy ===== *)
theory Ble_Link
  imports Device
begin

text \<open>
  The link half of \<open>ble_provisioner.cpp\<close>: responses, the burst limit, the PIN check with its persistent fail counter
  and exponential cool-off, the command queue between the BLE host task and the network task, and the life cycle of
  the stack. The NimBLE calls that do not decide anything are left out; \<open>started\<close> is the answer of
  \<open>NimBLEAdvertising::start\<close>. Responses are JSON values (\<open>serializeJson\<close> into the response buffers is not modelled).
\<close>

section \<open>Responses\<close>

definition send_response :: "json \<Rightarrow> device \<Rightarrow> device" where
  "send_response j d =
    (if \<not> bl_connected (dv_ble d) \<or> \<not> bl_initialized (dv_ble d) then d else demit (E_response j) d)"

definition send_error :: "bytes \<Rightarrow> string \<Rightarrow> device \<Rightarrow> device" where
  "send_error cmd err d = send_response
    (JObj ([(''ok'', JBool False), (''error'', jstr err)] @ (if cmd \<noteq> [] then [(''cmd'', JStr cmd)] else []))) d"

definition send_ok :: "bytes \<Rightarrow> string \<Rightarrow> device \<Rightarrow> device" where
  "send_ok cmd msg d = send_response (JObj [(''ok'', JBool True), (''cmd'', JStr cmd), (''msg'', jstr msg)]) d"

definition valid_channel :: "u8 \<Rightarrow> bool" where
  "valid_channel ch = (ch < 16)"

section \<open>Burst limit\<close>

definition check_rate_limit :: "u32 \<Rightarrow> device \<Rightarrow> bool \<times> device" where
  "check_rate_limit now d =
    (let d1 = (if 10000 \<le> now - bl_rate_window (dv_ble d)
               then on_ble (\<lambda>b. b\<lparr> bl_rate_window := now, bl_rate_count := 0 \<rparr>) d else d)
     in if now - bl_rate_last (dv_ble d1) < 100 then
          (let d2 = on_ble (\<lambda>b. b\<lparr> bl_rate_count := bl_rate_count b + 1 \<rparr>) d1
           in if 10 < bl_rate_count (dv_ble d2) then (False, send_response (err_msg ''rate_limited'') d2)
              else (True, on_ble (\<lambda>b. b\<lparr> bl_rate_last := now \<rparr>) d2))
        else (True, on_ble (\<lambda>b. b\<lparr> bl_rate_count := 0, bl_rate_last := now \<rparr>) d1))"

section \<open>The PIN\<close>

definition cooloff :: "u16 \<Rightarrow> u32" where
  "cooloff fails =
    (if 0 < fails then
       (let unit = push_bit (if 12 < fails then 12 else unat fails) 1000
        in if 3600000 < unit then 3600000 else unit)
     else 1000)"

text \<open>The PIN of a command, as a number or as a string of digits.\<close>

definition pin_given :: "json \<Rightarrow> u32" where
  "pin_given doc = (let p = jget doc ''pin'' in
     if is_str p then word_of_int (atoi (the_str p)) else word_of_int (or_int p 0))"

definition cooling_off :: "u32 \<Rightarrow> device \<Rightarrow> bool" where
  "cooling_off now d = (let fails = settings_load_ble_fail_count (kv_of d) in
     0 < fails \<and> now - bl_last_fail (dv_ble d) < cooloff fails)"

definition check_pin :: "u32 \<Rightarrow> json \<Rightarrow> device \<Rightarrow> bool \<times> device" where
  "check_pin now doc d =
    (let expected = settings_load_ble_pin (kv_of d); fails = settings_load_ble_fail_count (kv_of d) in
     if expected = 0 then (False, d)
     else if cooling_off now d then (False, send_response (err_msg ''rate_limited'') d)
     else if pin_given doc \<noteq> expected then
       (let d1 = on_ble (\<lambda>b. b\<lparr> bl_last_fail := now \<rparr>) d;
            d2 = on_kv (settings_save_ble_fail_count (if fails < 65535 then fails + 1 else fails)) d1
        in (False, send_response (err_msg ''invalid_pin'') d2))
     else (True, if fails \<noteq> 0 then on_kv (settings_save_ble_fail_count 0) d else d))"

section \<open>Connection, queue and stack\<close>

definition on_connect :: "u32 \<Rightarrow> device \<Rightarrow> device" where
  "on_connect now = on_ble (\<lambda>b. b\<lparr> bl_connected := True, bl_rate_window := now, bl_rate_count := 0 \<rparr>)"

definition on_disconnect :: "device \<Rightarrow> device" where
  "on_disconnect = on_ble (\<lambda>b. b\<lparr> bl_connected := False \<rparr>)"

text \<open>The queue holds four commands of at most 1024 bytes.\<close>

definition on_write :: "bytes \<Rightarrow> device \<Rightarrow> device" where
  "on_write val d =
    (if val = [] then d
     else if 1024 < length val then send_response (err_msg ''payload_too_large'') d
     else case bl_queue (dv_ble d) of
         None \<Rightarrow> send_response (err_msg ''server_busy'') d
       | Some q \<Rightarrow>
           if 4 \<le> length q then send_response (err_msg ''server_busy'') d
           else on_ble (\<lambda>b. b\<lparr> bl_queue := Some (q @ [take 1024 val]) \<rparr>) d)"

definition start_ble_advertising :: "bool \<Rightarrow> ble \<Rightarrow> ble" where
  "start_ble_advertising started b =
    (if \<not> bl_initialized b \<or> bl_advertising b then b
     else if started then b\<lparr> bl_advertising := True \<rparr> else b)"

definition stop_ble_advertising :: "ble \<Rightarrow> ble" where
  "stop_ble_advertising b =
    (if \<not> bl_initialized b \<or> \<not> bl_advertising b then b else b\<lparr> bl_advertising := False \<rparr>)"

definition init_ble_provisioner :: "bool \<Rightarrow> ble \<Rightarrow> ble" where
  "init_ble_provisioner started b =
    (if bl_initialized b then b
     else let b1 = (if bl_queue b = None then b\<lparr> bl_queue := Some [] \<rparr> else b)
          in start_ble_advertising started (b1\<lparr> bl_initialized := True \<rparr>))"

definition deinit_ble_provisioner :: "ble \<Rightarrow> ble" where
  "deinit_ble_provisioner b =
    (if \<not> bl_initialized b then b
     else (stop_ble_advertising b)\<lparr> bl_initialized := False, bl_connected := False \<rparr>)"

section \<open>What sending and checking leave alone\<close>

text \<open>Two devices that differ at most in the link's own bookkeeping: the BLE statics, the PIN fail counter and
what was sent.\<close>

definition same_but_link :: "device \<Rightarrow> device \<Rightarrow> bool" where
  "same_but_link d d' = (\<exists>b out f. d' = d\<lparr> dv_ble := b, dv_out := dv_out d @ out,
      dv_nvs := (dv_nvs d)(''pm-settings'' := f) \<rparr> \<and> (\<forall>k. k \<noteq> ''ble_fail'' \<longrightarrow> f k = kv_of d k) \<and>
      (\<forall>e \<in> set out. \<exists>j. e = E_response j))"

lemma same_but_link_refl [simp]: "same_but_link d d"
  unfolding same_but_link_def
  by (rule exI [of _ "dv_ble d"], rule exI [of _ "[]"], rule exI [of _ "kv_of d"]) simp

lemma same_but_link_trans [trans]: "\<lbrakk> same_but_link a b; same_but_link b c \<rbrakk> \<Longrightarrow> same_but_link a c"
  unfolding same_but_link_def
proof (elim exE conjE)
  fix b1 o1 f1 b2 o2 f2
  assume 1: "b = a\<lparr> dv_ble := b1, dv_out := dv_out a @ o1, dv_nvs := (dv_nvs a)(''pm-settings'' := f1) \<rparr>"
    "\<forall>k. k \<noteq> ''ble_fail'' \<longrightarrow> f1 k = kv_of a k" "\<forall>e\<in>set o1. \<exists>j. e = E_response j"
    and 2: "c = b\<lparr> dv_ble := b2, dv_out := dv_out b @ o2, dv_nvs := (dv_nvs b)(''pm-settings'' := f2) \<rparr>"
    "\<forall>k. k \<noteq> ''ble_fail'' \<longrightarrow> f2 k = kv_of b k" "\<forall>e\<in>set o2. \<exists>j. e = E_response j"
  show "\<exists>b' out f. c = a\<lparr> dv_ble := b', dv_out := dv_out a @ out, dv_nvs := (dv_nvs a)(''pm-settings'' := f) \<rparr> \<and>
      (\<forall>k. k \<noteq> ''ble_fail'' \<longrightarrow> f k = kv_of a k) \<and> (\<forall>e\<in>set out. \<exists>j. e = E_response j)"
    using 1 2 by (intro exI [of _ b2] exI [of _ "o1 @ o2"] exI [of _ f2]) auto
qed

lemma send_response_link [simp]: "same_but_link d (send_response j d)"
  unfolding same_but_link_def send_response_def demit_def
  by (rule exI [of _ "dv_ble d"], rule exI [of _ "if \<not> bl_connected (dv_ble d) \<or> \<not> bl_initialized (dv_ble d) then []
    else [E_response j]"], rule exI [of _ "kv_of d"]) simp

lemma on_ble_link [simp]: "same_but_link d (on_ble f d)"
  unfolding same_but_link_def on_ble_def
  by (rule exI [of _ "f (dv_ble d)"], rule exI [of _ "[]"], rule exI [of _ "kv_of d"]) simp

lemma save_fail_link [simp]: "same_but_link d (on_kv (settings_save_ble_fail_count n) d)"
  unfolding same_but_link_def on_kv_def
  by (rule exI [of _ "dv_ble d"], rule exI [of _ "[]"],
      rule exI [of _ "settings_save_ble_fail_count n (kv_of d)"])
     (simp add: settings_save_ble_fail_count_def pf_putUShort_def)

lemma link_step [intro]:
  "same_but_link d d' \<Longrightarrow> same_but_link d (send_response j d')"
  "same_but_link d d' \<Longrightarrow> same_but_link d (on_ble g d')"
  "same_but_link d d' \<Longrightarrow> same_but_link d (on_kv (settings_save_ble_fail_count n) d')"
  by (erule same_but_link_trans, simp)+

lemma send_error_link [intro]: "same_but_link d d' \<Longrightarrow> same_but_link d (send_error c e d')"
  by (simp add: send_error_def link_step)

lemma check_rate_limit_link: "same_but_link d (snd (check_rate_limit now d))"
  by (auto simp: check_rate_limit_def Let_def intro!: link_step)

lemma check_pin_link: "same_but_link d (snd (check_pin now doc d))"
  by (auto simp: check_pin_def Let_def intro!: link_step)

lemma send_response_fields [simp]:
  "dv_nvs (send_response j d) = dv_nvs d" "dv_ble (send_response j d) = dv_ble d"
  "dv_ota (send_response j d) = dv_ota d" "dv_sw (send_response j d) = dv_sw d"
  by (simp_all add: send_response_def)

end
