(* ===== verification/Switch_Command.thy ===== *)
theory Switch_Command
  imports Ble_Link
begin

text \<open>
  The rule payload of \<open>set_switch\<close> / \<open>set_relay\<close>, which the BLE and the cloud handlers of \<open>ble_provisioner.cpp\<close> read
  the same way up to a few defaults: the list shape with its conditions, and the legacy flat shape with one threshold
  per field. An \<open>int\<close> default makes ArduinoJson yield an \<open>int\<close>, which the narrower field then cuts. A missing operator means \<open>SCO_GT\<close> in both handlers (\<open>">"\<close> and \<open>"gt"\<close>).
\<close>

definition u8_or :: "json \<Rightarrow> int \<Rightarrow> u8" where "u8_or v d = word_of_int (or_int v d)"
definition u16_or :: "json \<Rightarrow> int \<Rightarrow> u16" where "u16_or v d = word_of_int (or_int v d)"
definition u32_or :: "json \<Rightarrow> int \<Rightarrow> u32" where "u32_or v d = word_of_int (or_int v d)"

abbreviation jw :: "'a::len word \<Rightarrow> json" where "jw w \<equiv> JInt (uint w)"

text \<open>A C string field of the payload.\<close>

definition text_of :: "json \<Rightarrow> string" where
  "text_of v = bytes_str (the_str v)"

definition or_text :: "json \<Rightarrow> string \<Rightarrow> string" where
  "or_text v d = (if is_str v then text_of v else d)"

section \<open>Conditions\<close>

definition cond_kind :: "string \<Rightarrow> u8" where
  "cond_kind k =
    (if k = ''OVERCURRENT'' then SCK_OVERCURRENT
     else if k = ''UNDERVOLTAGE'' then SCK_UNDERVOLTAGE
     else if k = ''SOC_LOW'' then SCK_SOC_LOW
     else if k = ''SOC_HIGH'' then SCK_SOC_HIGH
     else if k = ''CHANNEL_ABOVE'' then SCK_CHANNEL_ABOVE
     else if k = ''CHANNEL_BELOW'' then SCK_CHANNEL_BELOW
     else if k = ''SCHEDULE_WINDOW'' then SCK_SCHEDULE_WINDOW
     else SCK_DISABLED)"

definition ble_op :: "string \<Rightarrow> u8" where
  "ble_op p =
    (if p = ''>'' then SCO_GT else if p = ''<'' then SCO_LT else if p = ''>='' then SCO_GTE
     else if p = ''<='' then SCO_LTE else if p = ''=='' then SCO_EQ else SCO_GT)"

definition cloud_op :: "string \<Rightarrow> u8" where
  "cloud_op p =
    (if p = ''>'' then SCO_GT else if p = ''<'' then SCO_LT else if p = ''>='' then SCO_GTE
     else if p = ''<='' then SCO_LTE else if p = ''=='' then SCO_EQ
     else if p = ''gt'' then SCO_GT else if p = ''lt'' then SCO_LT else if p = ''gte'' then SCO_GTE
     else if p = ''lte'' then SCO_LTE else if p = ''eq'' then SCO_EQ else SCO_GT)"

definition read_mask :: "json \<Rightarrow> bytes" where
  "read_mask v = (case v of JArr ms \<Rightarrow> fit 21 0 (map (\<lambda>m. word_of_int (as_uint 8 m)) (take 21 ms))
     | _ \<Rightarrow> replicate 21 0)"

definition read_cond :: "(string \<Rightarrow> u8) \<Rightarrow> json \<Rightarrow> SwitchCondition" where
  "read_cond op_of co =
    \<lparr> cd_kind = cond_kind (or_text (jget co ''kind'') ''OVERCURRENT''),
      cd_op = op_of (or_text (jget co ''op'') ''>''),
      cd_ref_channel = word_of_int (or_int (jget co ''ref_channel'') (- 1)),
      cd_value = or_float (jget co ''value'') 0,
      cd_schedule_mask = read_mask (jget co ''schedule_mask'') \<rparr>"

text \<open>The flat shape: one condition per field above its threshold.\<close>

definition flat_cond :: "u8 \<Rightarrow> u8 \<Rightarrow> f32 \<Rightarrow> SwitchCondition" where
  "flat_cond kind cop v = cond0\<lparr> cd_kind := kind, cd_op := cop, cd_ref_channel := - 1, cd_value := v \<rparr>"

definition flat_conds :: "json \<Rightarrow> SwitchCondition list" where
  "flat_conds doc =
    (let overA = or_float (jget doc ''overcurrent_A'') 0; undV = or_float (jget doc ''undervoltage_V'') 0;
         socLo = or_float (jget doc ''soc_low_pct'') 0; socHi = or_float (jget doc ''soc_high_pct'') 0
     in (if f_gt overA (f_lit 1 1000000) then [flat_cond SCK_OVERCURRENT SCO_GT overA] else []) @
        (if f_gt undV (f_lit 1 1000000) then [flat_cond SCK_UNDERVOLTAGE SCO_LT undV] else []) @
        (if f_gt socLo (f_lit 1 1000) then [flat_cond SCK_SOC_LOW SCO_LT socLo] else []) @
        (if f_gt socHi (f_lit 1 1000) then [flat_cond SCK_SOC_HIGH SCO_GT socHi] else []))"

definition read_conds :: "(string \<Rightarrow> u8) \<Rightarrow> json \<Rightarrow> SwitchCondition list" where
  "read_conds op_of doc = (case jget doc ''conditions'' of
     JArr cs \<Rightarrow> map (read_cond op_of) (take 4 cs) | _ \<Rightarrow> flat_conds doc)"

section \<open>Rules\<close>

text \<open>\<open>chan\<close> and \<open>en\<close> are the fields whose key or default differ between the two handlers.\<close>

definition read_rule :: "(string \<Rightarrow> u8) \<Rightarrow> u8 \<Rightarrow> bool \<Rightarrow> u8 \<Rightarrow> json \<Rightarrow> SwitchRule" where
  "read_rule op_of chan en idx doc =
    (let cs = read_conds op_of doc in
     \<lparr> sr_switch_idx = idx, sr_channel = chan,
       sr_trip_delay_ms = u16_or (jget doc ''trip_delay_ms'') 1000,
       sr_reset_delay_ms = u16_or (jget doc ''reset_delay_ms'') 5000,
       sr_logic = (if is_str (jget doc ''logic'') \<and> text_of (jget doc ''logic'') = ''AND'' then SL_AND else 0),
       sr_min_conditions = u8_or (jget doc ''min_conditions'') 0,
       sr_condition_count = of_nat (length cs), sr_enabled = b8 en,
       sr_hysteresis = or_float (jget doc ''hysteresis'') 0,
       sr_condition_latched = replicate 4 False, sr_conditions = fit 4 cond0 cs \<rparr>)"

definition default_name :: "u8 \<Rightarrow> bytes" where
  "default_name idx = fit 24 0 (take 23 (str_bytes (''Switch '' @ dec (unat idx))))"

lemma wf_cond0 [simp]: "wf_cond cond0"
  by (simp add: wf_cond_def cond0_def)

lemma wf_read_cond [simp]: "wf_cond (read_cond op_of co)"
  by (simp add: wf_cond_def read_cond_def read_mask_def split: json.splits)

lemma wf_flat_conds: "list_all wf_cond (flat_conds doc)"
  by (simp add: flat_conds_def Let_def flat_cond_def wf_cond_def cond0_def)

lemma length_flat_conds: "length (flat_conds doc) \<le> 4"
  by (simp add: flat_conds_def Let_def)

lemma read_conds_ok: "list_all wf_cond (read_conds op_of doc)" "length (read_conds op_of doc) \<le> 4"
  by (auto simp: read_conds_def wf_flat_conds length_flat_conds list.pred_map list.pred_True comp_def list_all_iff
      split: json.splits dest: wf_flat_conds [unfolded list_all_iff, rule_format])

lemma wf_read_rule: "wf_rule (read_rule op_of chan en idx doc)"
  using read_conds_ok [of op_of doc]
  by (auto simp: wf_rule_def read_rule_def Let_def list_all_iff fit_def dest: in_set_takeD)

lemma rule_count_bounded: "unat (sr_condition_count (read_rule op_of chan en idx doc)) \<le> 4"
  using read_conds_ok(2) [of op_of doc] by (simp add: read_rule_def Let_def unat_of_nat take_bit_nat_eq_self)

lemma length_default_name [simp]: "length (default_name idx) = 24"
  by (simp add: default_name_def)

end
