(* ===== verification/Ble_Commands.thy ===== *)
theory Ble_Commands
  imports Switch_Command
begin

text \<open>
  \<open>handle_command\<close> of \<open>ble_provisioner.cpp\<close>: one definition per command, in the order of the code, each a function of
  the surroundings, the command's name, the parsed document and the device, and the table of commands in that order
  (of two entries with one name only the first is reachable, as in the code's \<open>else if\<close> chain). The parser
  (\<open>deserializeJson\<close>) is an argument of \<open>handle_command\<close>.
\<close>

type_synonym handler = "cmd_env \<Rightarrow> bytes \<Rightarrow> json \<Rightarrow> device \<Rightarrow> device"

definition with_pin :: "(device \<Rightarrow> device) \<Rightarrow> cmd_env \<Rightarrow> json \<Rightarrow> device \<Rightarrow> device" where
  "with_pin body env doc d = (let (ok, d1) = check_pin (ce_now env) doc d in if ok then body d1 else d1)"

abbreviation saved :: "string \<Rightarrow> device \<Rightarrow> device" where "saved m \<equiv> send_response (ok_msg m)"
abbreviation refused :: "string \<Rightarrow> device \<Rightarrow> device" where "refused m \<equiv> send_response (err_msg m)"
abbreviation channel_of :: "json \<Rightarrow> u8" where "channel_of doc \<equiv> u8_or (jget doc ''channel'') 0"

section \<open>The hook after a settings change\<close>

definition apply_settings_posthook :: "cmd_env \<Rightarrow> string \<Rightarrow> device \<Rightarrow> device" where
  "apply_settings_posthook env c d =
    (if c = ''set_wifi'' then on_net (reconnect_wifi (kv_of d) (ce_now env)) d
     else if c = ''set_mqtt'' then
       (case settings_load_mqtt 64 (kv_of d) of
          Some (broker, port, topic) \<Rightarrow> demit (E_mqtt_server broker port) d | None \<Rightarrow> d)
     else if c = ''set_supabase'' then demit E_http_reset d
     else if c = ''set_shunt'' \<or> c = ''set_volt_ratio'' \<or> c = ''set_resistors'' then
       d\<lparr> dv_sens := reinit_sensors (kv_of d) (dv_sens d) \<rparr>
     else d)"

section \<open>Connection settings\<close>

definition cmd_set_wifi :: handler where
  "cmd_set_wifi env cmd doc = with_pin (\<lambda>d.
     let d1 = on_kv (settings_save_wifi (the_str (jget doc ''ssid'')) (the_str (jget doc ''pass''))) d
     in saved ''wifi_saved_reconnecting'' (apply_settings_posthook env ''set_wifi'' d1)) env doc"

definition cmd_set_mqtt :: handler where
  "cmd_set_mqtt env cmd doc = with_pin (\<lambda>d.
     let d1 = on_kv (settings_save_mqtt (the_str (jget doc ''broker'')) (word_of_int (as_uint 16 (jget doc ''port'')))
                (the_str (jget doc ''topic''))) d
     in saved ''mqtt_saved'' (apply_settings_posthook env ''set_mqtt'' d1)) env doc"

definition cmd_set_http :: handler where
  "cmd_set_http env cmd doc = with_pin (\<lambda>d.
     let enabled = or_bool (jget doc ''enabled'') True;
         d1 = on_kv (settings_save_http_endpoint (the_str (jget doc ''url'')) (the_str (jget doc ''token''))) d;
         d2 = on_kv (settings_save_http_enabled enabled) d1
     in send_response (JObj [(''ok'', JBool True), (''msg'', jstr ''http_saved''), (''enabled'', JBool enabled)]) d2)
     env doc"

section \<open>Switches\<close>

text \<open>The pin of a \<open>set_switch\<close>: explicit, or the board's default for the first four.\<close>

definition switch_pin :: "board \<Rightarrow> u8 \<Rightarrow> json \<Rightarrow> i8 option" where
  "switch_pin b idx doc =
    (if is_int (jget doc ''gpio_pin'') then Some (word_of_int (the_int (jget doc ''gpio_pin'')))
     else if idx < 4 then Some (bd_relay_pins b ! unat idx) else None)"

text \<open>The name: given, else the stored one, else a default.\<close>

definition switch_name :: "u8 \<Rightarrow> json \<Rightarrow> kv \<Rightarrow> bytes" where
  "switch_name idx doc m =
    (if is_str (jget doc ''name'') then strlcpy (replicate 24 0) (the_str (jget doc ''name''))
     else if idx < settings_load_switch_count m then
       (case settings_load_switch idx m of
          Some ex \<Rightarrow> if ch_name ex ! 0 \<noteq> 0 then strlcpy (replicate 24 0) (ch_name ex) else default_name idx
        | None \<Rightarrow> default_name idx)
     else default_name idx)"

definition cmd_set_switch :: handler where
  "cmd_set_switch env cmd doc = with_pin (\<lambda>d.
     let idx = u8_or (jget doc ''idx'') 0 in
     if 7 < idx then send_error cmd ''invalid_idx'' d
     else case switch_pin (ce_board env) idx doc of
         None \<Rightarrow> send_error cmd ''gpio_required'' d
       | Some pin \<Rightarrow>
          if \<not> switch_gpio_allowed (ce_board env) pin then send_error cmd ''gpio_reserved'' d
          else
            let ch = \<lparr> ch_idx = idx, ch_type = u8_or (jget doc ''type'') 0, ch_gpio_pin = pin,
                  ch_active_high = or_bool (jget doc ''active_high'') True,
                  ch_enabled = or_bool (jget doc ''enabled'') True,
                  ch_is_energized = get_switch_state (sw_of d) idx, ch_name = switch_name idx doc (kv_of d) \<rparr>;
                rule = read_rule ble_op (or_u8 (jget doc ''channel'') idx) (or_bool (jget doc ''rule_enabled'') True) idx doc;
                d1 = on_kv (settings_save_switch_rule idx rule) (on_kv (settings_save_switch idx ch) d)
            in saved ''switch_saved'' (on_sw (publish_switch_state idx (ch_is_energized ch)) d1)) env doc"

section \<open>Battery and sensor parameters\<close>

definition cmd_set_battery :: handler where
  "cmd_set_battery env cmd doc = with_pin (\<lambda>d.
     if is_int (jget doc ''v'') \<and> the_int (jget doc ''v'') = 2 then
       let ch = channel_of doc in
       if \<not> valid_channel ch then send_error cmd ''bad_channel'' d
       else
         let pid_in = or_int (jget doc ''profile_id'') (- 1);
             bound = (\<lambda>pid. send_response (JObj [(''ok'', JBool True), (''msg'', jstr ''battery_bound''), (''channel'', jw ch),
               (''profile_id'', if pid = NO_BINDING then JInt (- 1) else jw pid)]))
         in if pid_in < 0 then bound NO_BINDING (on_bat (battery_channel_clear (ce_prefs env) ch) d)
            else
              let pid = word_of_int pid_in; r = battery_channel_set_profile (ce_prefs env) ch pid (bat_of d);
                  d1 = put_bat (snd r) d
              in if \<not> fst r then refused ''set_failed'' d1 else bound pid d1
     else
       let bat = \<lparr> bc_channel = channel_of doc, bc_capacity_mAh = or_float (jget doc ''capacity_mAh'') 0,
             bc_initial_soc_pct = or_float (jget doc ''initial_soc_pct'') (f_of_int 100) \<rparr>
       in saved ''battery_saved'' (on_kv (settings_save_battery (bc_channel bat) bat) d)) env doc"

definition cmd_set_shunt :: handler where
  "cmd_set_shunt env cmd doc = with_pin (\<lambda>d.
     saved ''shunt_saved'' (apply_settings_posthook env ''set_shunt''
       (on_kv (settings_save_shunt (channel_of doc) (or_float (jget doc ''ohms'') 0)) d))) env doc"

definition cmd_set_volt_ratio :: handler where
  "cmd_set_volt_ratio env cmd doc = with_pin (\<lambda>d.
     saved ''vratio_saved'' (apply_settings_posthook env ''set_volt_ratio''
       (on_kv (settings_save_volt_ratio (channel_of doc) (or_float (jget doc ''ratio'') 0)) d))) env doc"

definition cmd_set_resistors :: handler where
  "cmd_set_resistors env cmd doc = with_pin (\<lambda>d.
     saved ''resistors_saved'' (apply_settings_posthook env ''set_resistors''
       (on_kv (settings_save_resistors (channel_of doc) (or_float (jget doc ''r_high'') 0)
         (or_float (jget doc ''r_low'') 0)) d))) env doc"

section \<open>PIN, status, counters and discovery\<close>

definition cmd_set_pin :: handler where
  "cmd_set_pin env cmd doc d =
    (let old = settings_load_ble_pin (kv_of d); provided = u32_or (jget doc ''old_pin'') 0 in
     if old \<noteq> 0 \<and> provided \<noteq> old then refused ''invalid_old_pin'' d
     else
       let new_pin = u32_or (jget doc ''new_pin'') 0 in
       if new_pin = 0 \<or> 999999 < new_pin then send_error cmd ''pin must be 1..999999, 0 not allowed'' d
       else saved ''pin_updated'' (demit E_sync_pin (on_kv (settings_save_ble_pin new_pin) d)))"

definition cmd_get_status :: handler where
  "cmd_get_status env cmd doc d =
    (let (ok, d1) = check_pin (ce_now env) doc d in
     if \<not> ok then send_error cmd ''pin required'' d1
     else send_response (JObj ([(''ok'', JBool True), (''cmd'', JStr cmd)] @ ce_snapshot env)) d1)"

definition cmd_reset_coulomb :: handler where
  "cmd_reset_coulomb env cmd doc = with_pin (\<lambda>d.
     if \<not> valid_channel (channel_of doc) then send_error cmd ''bad_channel'' d
     else saved ''coulomb_reset'' (on_coul (reset_coulomb_counter (channel_of doc)) d)) env doc"

text \<open>The baseline calibration is compiled out: the call only logs.\<close>

definition cmd_calibrate_baseline :: handler where
  "cmd_calibrate_baseline env cmd doc = with_pin (saved ''baseline_calibration_started'') env doc"

definition cmd_discover_sensors :: handler where
  "cmd_discover_sensors env cmd doc = with_pin (\<lambda>d.
     saved ''discovery_complete'' (on_sens (discover_sensors (ce_probe env)) d)) env doc"

section \<open>Reading settings back\<close>

definition switch_condition_kind_name :: "u8 \<Rightarrow> string" where
  "switch_condition_kind_name k =
    (if k = SCK_OVERCURRENT then ''OVERCURRENT'' else if k = SCK_UNDERVOLTAGE then ''UNDERVOLTAGE''
     else if k = SCK_SOC_LOW then ''SOC_LOW'' else if k = SCK_SOC_HIGH then ''SOC_HIGH''
     else if k = SCK_CHANNEL_ABOVE then ''CHANNEL_ABOVE'' else if k = SCK_CHANNEL_BELOW then ''CHANNEL_BELOW''
     else if k = SCK_SCHEDULE_WINDOW then ''SCHEDULE_WINDOW'' else if k = SCK_DISABLED then ''DISABLED''
     else ''UNKNOWN'')"

definition switch_condition_op_name :: "u8 \<Rightarrow> string" where
  "switch_condition_op_name p =
    (if p = SCO_GT then ''>'' else if p = SCO_LT then ''<'' else if p = SCO_GTE then ''>=''
     else if p = SCO_LTE then ''<='' else if p = SCO_EQ then ''=='' else ''?'')"

definition show_cond :: "SwitchCondition \<Rightarrow> json" where
  "show_cond c = JObj ([(''kind'', jstr (switch_condition_kind_name (cd_kind c))),
     (''op'', jstr (switch_condition_op_name (cd_op c))), (''value'', JReal (cd_value c)),
     (''ref_channel'', JInt (sint (cd_ref_channel c)))] @
     (if cd_kind c = SCK_SCHEDULE_WINDOW then [(''schedule_mask'', JArr (map jw (cd_schedule_mask c)))] else []))"

definition show_switch :: "u8 \<Rightarrow> SwitchChannel \<Rightarrow> SwitchRule \<Rightarrow> json" where
  "show_switch idx ch r = JObj
    [(''ok'', JBool True), (''idx'', jw idx), (''type'', jw (ch_type ch)), (''gpio_pin'', jw (ch_gpio_pin ch)),
     (''active_high'', JBool (ch_active_high ch)), (''enabled'', JBool (ch_enabled ch)),
     (''is_energized'', JBool (ch_is_energized ch)), (''channel'', jw (sr_channel r)),
     (''trip_delay_ms'', jw (sr_trip_delay_ms r)), (''reset_delay_ms'', jw (sr_reset_delay_ms r)),
     (''logic'', jstr (if sr_logic r = SL_AND then ''AND'' else ''OR'')), (''min_conditions'', jw (sr_min_conditions r)),
     (''rule_enabled'', jw (sr_enabled r)), (''hysteresis'', JReal (sr_hysteresis r)),
     (''condition_count'', jw (sr_condition_count r)),
     (''conditions'', JArr (map show_cond (take (min 4 (unat (sr_condition_count r))) (sr_conditions r))))]"

definition cmd_get_switch :: handler where
  "cmd_get_switch env cmd doc = with_pin (\<lambda>d.
     let idx = u8_or (jget doc ''idx'') 0 in
     case settings_load_switch idx (kv_of d) of
       None \<Rightarrow> refused ''switch_not_found'' d
     | Some ch \<Rightarrow> (case settings_load_switch_rule idx (kv_of d) of
         None \<Rightarrow> refused ''switch_not_found'' d
       | Some r \<Rightarrow> send_response (show_switch idx ch r) d)) env doc"

definition cmd_get_battery :: handler where
  "cmd_get_battery env cmd doc = with_pin (\<lambda>d.
     case settings_load_battery (channel_of doc) (kv_of d) of
       None \<Rightarrow> refused ''battery_not_found'' d
     | Some b \<Rightarrow> send_response (JObj [(''ok'', JBool True), (''channel'', jw (bc_channel b)),
         (''capacity_mAh'', JReal (bc_capacity_mAh b)), (''initial_soc_pct'', JReal (bc_initial_soc_pct b))]) d) env doc"

definition cmd_get_wifi :: handler where
  "cmd_get_wifi env cmd doc = with_pin (\<lambda>d.
     case settings_load_wifi 64 (kv_of d) of
       None \<Rightarrow> refused ''wifi_not_set'' d
     | Some (ssid, pass) \<Rightarrow> send_response (JObj [(''ok'', JBool True), (''ssid'', JStr ssid), (''pass'', jstr ''***'')]) d)
     env doc"

definition cmd_get_mqtt :: handler where
  "cmd_get_mqtt env cmd doc = with_pin (\<lambda>d.
     case settings_load_mqtt 64 (kv_of d) of
       None \<Rightarrow> refused ''mqtt_not_set'' d
     | Some (broker, port, topic) \<Rightarrow> send_response (JObj [(''ok'', JBool True), (''broker'', JStr broker),
         (''port'', jw port), (''topic'', JStr topic)]) d) env doc"

text \<open>The token is loaded with the length of the URL's buffer, 128.\<close>

definition cmd_get_http :: handler where
  "cmd_get_http env cmd doc = with_pin (\<lambda>d.
     case settings_load_http_endpoint 128 (kv_of d) of
       None \<Rightarrow> refused ''http_not_set'' d
     | Some (url, token) \<Rightarrow> send_response (JObj [(''ok'', JBool True), (''url'', JStr url), (''token'', jstr ''***''),
         (''enabled'', JBool (settings_load_http_enabled (kv_of d)))]) d) env doc"

text \<open>A field of a partial update: stored only when it is a non-empty string.\<close>

definition save_if_given :: "(bytes \<Rightarrow> kv \<Rightarrow> kv) \<Rightarrow> json \<Rightarrow> device \<Rightarrow> device" where
  "save_if_given sv v d = (if is_str v \<and> the_str v \<noteq> [] then on_kv (sv (the_str v)) d else d)"

definition cmd_set_supabase :: handler where
  "cmd_set_supabase env cmd doc = with_pin (\<lambda>d.
     let d1 = save_if_given settings_save_supabase_url (jget doc ''url'') d;
         d2 = save_if_given settings_save_supabase_anon_key (jget doc ''anon_key'') d1;
         d3 = save_if_given settings_save_supabase_api_key (jget doc ''api_key'') d2;
         d4 = save_if_given settings_save_supabase_device_key (jget doc ''device_key'') d3
     in saved ''supabase_saved'' (apply_settings_posthook env ''set_supabase'' d4)) env doc"

definition cmd_get_supabase :: handler where
  "cmd_get_supabase env cmd doc = with_pin (\<lambda>d.
     let m = kv_of d in
     case (settings_load_supabase_url 128 m, settings_load_supabase_anon_key 128 m,
           settings_load_supabase_device_key 64 m, settings_load_supabase_api_key 64 m) of
       (Some url, Some anon, Some dkey, Some apikey) \<Rightarrow>
         send_response (JObj [(''ok'', JBool True), (''url'', JStr url), (''anon_key'', jstr ''***''),
           (''api_key'', JStr apikey), (''device_key'', JStr dkey)]) d
     | _ \<Rightarrow> refused ''supabase_not_configured'' d) env doc"

definition read_group :: "json \<Rightarrow> ChannelGroup" where
  "read_group doc = \<lparr> cg_group_id = u8_or (jget doc ''group_id'') 0,
     cg_name = strlcpy (replicate 24 0) (or_str (jget doc ''name'') []), cg_icon = u8_or (jget doc ''icon'') 0,
     cg_channel_mask = u8_or (jget doc ''channel_mask'') 0 \<rparr>"

definition cmd_set_channel_group :: handler where
  "cmd_set_channel_group env cmd doc = with_pin (\<lambda>d.
     let cg = read_group doc in
     saved ''group_saved'' (on_kv (settings_save_channel_group (cg_group_id cg) cg) d)) env doc"

definition cmd_get_channel_group :: handler where
  "cmd_get_channel_group env cmd doc = with_pin (\<lambda>d.
     case settings_load_channel_group (u8_or (jget doc ''group_id'') 0) (kv_of d) of
       None \<Rightarrow> refused ''group_not_found'' d
     | Some cg \<Rightarrow> send_response (JObj [(''ok'', JBool True), (''group_id'', jw (cg_group_id cg)),
         (''name'', JStr (c_str (cg_name cg))), (''icon'', jw (cg_icon cg)),
         (''channel_mask'', jw (cg_channel_mask cg))]) d) env doc"

section \<open>Battery profiles\<close>

text \<open>The fields of a chemistry profile given in the document override the stored ones.\<close>

definition merge_profile :: "u8 \<Rightarrow> json \<Rightarrow> BatteryChemistryProfile option \<Rightarrow> BatteryChemistryProfile" where
  "merge_profile i doc existing =
    (let p = (case existing of Some e \<Rightarrow> e | None \<Rightarrow> zero_bcp) in
     \<lparr> bcp_id = i,
       bcp_name = (if is_str (jget doc ''name'') then strlcpy (bcp_name p) (the_str (jget doc ''name'')) else bcp_name p),
       bcp_chemistry = (if is_int (jget doc ''chemistry'') then or_u8 (jget doc ''chemistry'') (bcp_chemistry p)
                        else bcp_chemistry p),
       bcp_nominal_voltage = or_float (jget doc ''nominal_voltage'') (bcp_nominal_voltage p),
       bcp_rated_capacity_Ah = or_float (jget doc ''rated_capacity_Ah'') (bcp_rated_capacity_Ah p),
       bcp_c_rating = or_float (jget doc ''c_rating'') (bcp_c_rating p),
       bcp_cutoff_voltage = or_float (jget doc ''cutoff_voltage'') (bcp_cutoff_voltage p),
       bcp_float_voltage = or_float (jget doc ''float_voltage'') (bcp_float_voltage p),
       bcp_charge_efficiency = or_float (jget doc ''charge_efficiency'') (bcp_charge_efficiency p),
       bcp_cycle_life_rated = or_u16 (jget doc ''cycle_life_rated'') (bcp_cycle_life_rated p),
       bcp_min_soc_pct = or_float (jget doc ''min_soc_pct'') (bcp_min_soc_pct p),
       bcp_max_soc_pct = or_float (jget doc ''max_soc_pct'') (bcp_max_soc_pct p) \<rparr>)"

definition read_battery_profile :: "u8 \<Rightarrow> f32 \<Rightarrow> json \<Rightarrow> BatteryProfile" where
  "read_battery_profile chem sysv doc =
    \<lparr> bp_channel = channel_of doc, bp_name = strlcpy (replicate 24 0) (or_str (jget doc ''name'') []),
      bp_chemistry = chem, bp_system_voltage = sysv, bp_capacity_mAh = or_float (jget doc ''capacity_mAh'') 0,
      bp_initial_soc_pct = or_float (jget doc ''initial_soc_pct'') (f_of_int 100),
      bp_cell_count = or_float (jget doc ''cell_count'') f_one, bp_full_voltage = or_float (jget doc ''full_voltage'') 0,
      bp_cutoff_voltage = or_float (jget doc ''cutoff_voltage'') 0,
      bp_float_voltage = or_float (jget doc ''float_voltage'') 0 \<rparr>"

definition cmd_set_battery_profile :: handler where
  "cmd_set_battery_profile env cmd doc = with_pin (\<lambda>d.
     if is_int (jget doc ''v'') \<and> the_int (jget doc ''v'') = 2 then
       let i = u8_or (jget doc ''id'') 0 in
       if 16 \<le> i then send_error cmd ''invalid_id'' d
       else
         let p = merge_profile i doc (battery_profile_get (bat_of d) i);
             r = battery_profile_set (ce_prefs env) p (bat_of d); d1 = put_bat (snd r) d
         in if \<not> fst r then refused ''set_failed'' d1 else saved ''profile_saved'' d1
     else
       let bp = read_battery_profile (u8_or (jget doc ''chemistry'') 0) 0 doc
       in saved ''battery_profile_saved'' (on_kv (settings_save_battery_profile (bp_channel bp) bp) d)) env doc"

definition cmd_get_battery_profile :: handler where
  "cmd_get_battery_profile env cmd doc = with_pin (\<lambda>d.
     case settings_load_battery_profile (channel_of doc) (kv_of d) of
       None \<Rightarrow> refused ''battery_profile_not_found'' d
     | Some bp \<Rightarrow> send_response (JObj [(''ok'', JBool True), (''channel'', jw (bp_channel bp)),
         (''name'', JStr (c_str (bp_name bp))), (''chemistry'', jw (bp_chemistry bp)),
         (''capacity_mAh'', JReal (bp_capacity_mAh bp)), (''initial_soc_pct'', JReal (bp_initial_soc_pct bp)),
         (''cell_count'', JReal (bp_cell_count bp)), (''full_voltage'', JReal (bp_full_voltage bp)),
         (''cutoff_voltage'', JReal (bp_cutoff_voltage bp)), (''float_voltage'', JReal (bp_float_voltage bp))]) d) env doc"

end
