(* ===== verification/Ble_Dispatch.thy ===== *)
theory Ble_Dispatch
  imports Ble_Commands
begin

text \<open>
  The second half of \<open>handle_command\<close> of \<open>ble_provisioner.cpp\<close> (names, calibration, virtual channels, profiles by id,
  cycle state, reset, update client), the command table, \<open>handle_command\<close> itself and the network task's
  \<open>loop_ble_provisioner\<close>, which drains the queue the BLE host task fills.
\<close>

section \<open>Names and calibration\<close>

definition cmd_set_channel_name :: handler where
  "cmd_set_channel_name env cmd doc = with_pin (\<lambda>d.
     saved ''channel_name_saved'' (on_kv (settings_save_channel_name (channel_of doc) (or_str (jget doc ''name'') [])) d))
     env doc"

definition cmd_get_channel_name :: handler where
  "cmd_get_channel_name env cmd doc = with_pin (\<lambda>d.
     let name = (case settings_load_channel_name (channel_of doc) 24 (kv_of d) of None \<Rightarrow> [] | Some n \<Rightarrow> n)
     in send_response (JObj [(''ok'', JBool True), (''channel'', jw (channel_of doc)), (''name'', JStr name)]) d) env doc"

text \<open>The legacy calibration commands accept the first three channels.\<close>

definition with_channel3 :: "u8 \<Rightarrow> (u8 \<Rightarrow> device \<Rightarrow> device) \<Rightarrow> bytes \<Rightarrow> json \<Rightarrow> device \<Rightarrow> device" where
  "with_channel3 hi body cmd doc d =
    (let ch = channel_of doc in if hi < ch then send_error cmd ''invalid_channel'' d else body ch d)"

definition cmd_set_calibration :: handler where
  "cmd_set_calibration env cmd doc = with_pin (with_channel3 2 (\<lambda>ch d.
     let d1 = on_sens (sensor_set_calibration ch (u8_or (jget doc ''type'') 0) (or_float (jget doc ''value'') 0)) d
     in saved ''calibration_saved'' (demit E_sync_calibration d1)) cmd doc) env doc"

definition cmd_get_calibration :: handler where
  "cmd_get_calibration env cmd doc = with_pin (with_channel3 2 (\<lambda>ch d.
     case sensor_get_calibration ch (dv_sens d) of
       (vo, vg, co, cg) \<Rightarrow> send_response (JObj [(''ok'', JBool True), (''channel'', jw ch), (''volt_offset_mv'', JReal vo),
         (''volt_gain'', JReal vg), (''curr_offset_ma'', JReal co), (''curr_gain'', JReal cg)]) d) cmd doc) env doc"

definition cmd_reset_calibration :: handler where
  "cmd_reset_calibration env cmd doc = with_pin (with_channel3 2 (\<lambda>ch d.
     saved ''calibration_reset'' (on_sens (sensor_reset_calibration ch) d)) cmd doc) env doc"

definition cmd_set_invert_curr :: handler where
  "cmd_set_invert_curr env cmd doc = with_pin (with_channel3 2 (\<lambda>ch d.
     saved ''invert_curr_saved'' (on_sens (sensor_set_invert_curr ch (or_bool (jget doc ''invert'') False)) d)) cmd doc)
     env doc"

text \<open>The result of the load is not checked: without a stored calibration the answer is what was on the stack.\<close>

definition cmd_get_invert_curr :: handler where
  "cmd_get_invert_curr env cmd doc = with_pin (with_channel3 2 (\<lambda>ch d.
     let (loaded, m) = settings_load_channel_calibration (kv_of d);
         cal = (case loaded of Some c \<Rightarrow> c | None \<Rightarrow> ce_uninit_cal env)
     in send_response (JObj [(''ok'', JBool True), (''channel'', jw ch),
          (''invert_curr'', JBool (cal_invert_curr cal ! unat ch))]) (on_kv (\<lambda>_. m) d)) cmd doc) env doc"

definition cmd_reset_invert_curr :: handler where
  "cmd_reset_invert_curr env cmd doc = with_pin (with_channel3 2 (\<lambda>ch d.
     saved ''invert_curr_reset'' (on_sens (sensor_reset_invert_curr ch) d)) cmd doc) env doc"

section \<open>Virtual channels\<close>

definition read_vc :: "json \<Rightarrow> VirtualChannelConfig" where
  "read_vc doc = \<lparr> vc_voltage_src = u8_or (jget doc ''voltage_src'') 0, vc_voltage_idx = u8_or (jget doc ''voltage_idx'') 0,
     vc_current_src = u8_or (jget doc ''current_src'') 0, vc_current_idx = u8_or (jget doc ''current_idx'') 0 \<rparr>"

definition cmd_set_virtual_channel :: handler where
  "cmd_set_virtual_channel env cmd doc = with_pin (with_channel3 3 (\<lambda>ch d.
     saved ''virtual_channel_saved'' (on_kv (settings_save_virtual_channel ch (read_vc doc)) d)) cmd doc) env doc"

definition cmd_get_virtual_channel :: handler where
  "cmd_get_virtual_channel env cmd doc = with_pin (\<lambda>d.
     case settings_load_virtual_channel (channel_of doc) (kv_of d) of
       None \<Rightarrow> refused ''virtual_channel_not_found'' d
     | Some vc \<Rightarrow> send_response (JObj [(''ok'', JBool True), (''channel'', jw (channel_of doc)),
         (''voltage_src'', jw (vc_voltage_src vc)), (''voltage_idx'', jw (vc_voltage_idx vc)),
         (''current_src'', jw (vc_current_src vc)), (''current_idx'', jw (vc_current_idx vc))]) d) env doc"

section \<open>Profiles by id, cycle state\<close>

definition show_profile_row :: "BatteryChemistryProfile \<Rightarrow> json" where
  "show_profile_row p = JObj [(''id'', jw (bcp_id p)), (''name'', JStr (c_str (bcp_name p))),
     (''chemistry'', jw (bcp_chemistry p)), (''chemistry_name'', jstr (battery_chemistry_name (bcp_chemistry p))),
     (''nominal_voltage'', JReal (bcp_nominal_voltage p)), (''rated_capacity_Ah'', JReal (bcp_rated_capacity_Ah p)),
     (''cutoff_voltage'', JReal (bcp_cutoff_voltage p)), (''float_voltage'', JReal (bcp_float_voltage p))]"

definition cmd_list_battery_profiles :: handler where
  "cmd_list_battery_profiles env cmd doc = with_pin (\<lambda>d.
     let ids = battery_profile_list_ids (bat_of d) 16
     in send_response (JObj [(''ok'', JBool True), (''profiles'', JArr (concat (map (\<lambda>i.
          case battery_profile_get (bat_of d) i of None \<Rightarrow> [] | Some p \<Rightarrow> [show_profile_row p]) ids)))]) d) env doc"

definition cmd_get_profile_by_id :: handler where
  "cmd_get_profile_by_id env cmd doc = with_pin (\<lambda>d.
     case battery_profile_get (bat_of d) (u8_or (jget doc ''id'') 0) of
       None \<Rightarrow> refused ''profile_not_found'' d
     | Some p \<Rightarrow> send_response (JObj [(''ok'', JBool True), (''id'', jw (bcp_id p)), (''name'', JStr (c_str (bcp_name p))),
         (''chemistry'', jw (bcp_chemistry p)), (''chemistry_name'', jstr (battery_chemistry_name (bcp_chemistry p))),
         (''nominal_voltage'', JReal (bcp_nominal_voltage p)), (''rated_capacity_Ah'', JReal (bcp_rated_capacity_Ah p)),
         (''c_rating'', JReal (bcp_c_rating p)), (''cutoff_voltage'', JReal (bcp_cutoff_voltage p)),
         (''float_voltage'', JReal (bcp_float_voltage p)), (''charge_efficiency'', JReal (bcp_charge_efficiency p)),
         (''cycle_life_rated'', jw (bcp_cycle_life_rated p)), (''min_soc_pct'', JReal (bcp_min_soc_pct p)),
         (''max_soc_pct'', JReal (bcp_max_soc_pct p))]) d) env doc"

definition cmd_delete_battery_profile :: handler where
  "cmd_delete_battery_profile env cmd doc = with_pin (\<lambda>d.
     let r = battery_profile_delete (ce_prefs env) (u8_or (jget doc ''id'') 0) (bat_of d); d1 = put_bat (snd r) d
     in if \<not> fst r then refused ''delete_failed'' d1 else saved ''profile_deleted'' d1) env doc"

text \<open>\<open>cycle_counter_get\<close> on the device: the state (what the local held before when it fails) and the new device.\<close>

definition get_cycle :: "cmd_env \<Rightarrow> u8 \<Rightarrow> device \<Rightarrow> BatteryState \<times> device" where
  "get_cycle env ch d =
    (let (r, b, c) = cycle_counter_get (ce_prefs env) ch (bat_of d, dv_cyc d)
     in (case r of Some st \<Rightarrow> st | None \<Rightarrow> ce_uninit_state env, (put_bat b d)\<lparr> dv_cyc := c \<rparr>))"

definition cmd_get_binding :: handler where
  "cmd_get_binding env cmd doc = with_pin (\<lambda>d.
     let ch = channel_of doc; pid = battery_channel_profile (bat_of d) ch; (st, d1) = get_cycle env ch d
     in send_response (JObj [(''ok'', JBool True), (''channel'', jw ch),
          (''profile_id'', if pid = NO_BINDING then JInt (- 1) else jw pid),
          (''cumulative_Ah_in'', JReal (bs_cumulative_Ah_in st)), (''cumulative_Ah_out'', JReal (bs_cumulative_Ah_out st)),
          (''equivalent_full_cycles'', JReal (bs_equivalent_full_cycles st)), (''last_SoC_pct'', JReal (bs_last_SoC_pct st)),
          (''last_V'', JReal (bs_last_V st)), (''last_I'', JReal (bs_last_I st)), (''last_update_ms'', jw (bs_last_update_ms st)),
          (''soh_pct'', JReal (bs_soh_pct st)), (''soh_samples'', jw (bs_soh_samples st))]) d1) env doc"

definition cmd_reset_battery :: handler where
  "cmd_reset_battery env cmd doc = with_pin (\<lambda>d.
     saved ''battery_reset'' (on_cyc (cycle_counter_reset (ce_prefs env) (channel_of doc)) d)) env doc"

definition cmd_get_cycle_state :: handler where
  "cmd_get_cycle_state env cmd doc = with_pin (\<lambda>d.
     let ch = channel_of doc; (st, d1) = get_cycle env ch d
     in send_response (JObj [(''ok'', JBool True), (''channel'', jw ch),
          (''cumulative_Ah_in'', JReal (bs_cumulative_Ah_in st)), (''cumulative_Ah_out'', JReal (bs_cumulative_Ah_out st)),
          (''equivalent_full_cycles'', JReal (bs_equivalent_full_cycles st)),
          (''last_session_start_pct'', JReal (bs_last_session_start_pct st)),
          (''last_SoC_pct'', JReal (bs_last_SoC_pct st))]) d1) env doc"

section \<open>Reset, reboot and updates\<close>

text \<open>\<open>settings_factory_reset\<close> on the device; the overflow file is the logger's business.\<close>

definition device_wipe :: "cmd_env \<Rightarrow> device \<Rightarrow> device" where
  "device_wipe env d = demit E_drop_overflow (on_nvs (factory_wipe (ce_prefs env)) d)"

definition cmd_factory_reset :: handler where
  "cmd_factory_reset env cmd doc = with_pin (\<lambda>d. saved ''factory_reset_done_reboot'' (device_wipe env d)) env doc"

definition cmd_reboot :: handler where
  "cmd_reboot env cmd doc = with_pin (\<lambda>d. demit E_restart (on_kv mark_clean_shutdown (saved ''rebooting'' d))) env doc"

definition cmd_ota_check :: handler where
  "cmd_ota_check env cmd doc d = send_ok cmd ''ota check triggered'' (on_ota ota_trigger_check d)"

definition ota_state_index :: "OtaState \<Rightarrow> int" where
  "ota_state_index st = (case st of OTA_IDLE \<Rightarrow> 0 | OTA_CHECKING \<Rightarrow> 1 | OTA_DOWNLOADING \<Rightarrow> 2 | OTA_APPLYING \<Rightarrow> 3
     | OTA_REBOOTING \<Rightarrow> 4 | OTA_FAILED \<Rightarrow> 5)"

definition ota_state_name :: "OtaState \<Rightarrow> string" where
  "ota_state_name st = (case st of OTA_IDLE \<Rightarrow> ''idle'' | OTA_CHECKING \<Rightarrow> ''checking'' | OTA_DOWNLOADING \<Rightarrow> ''downloading''
     | OTA_APPLYING \<Rightarrow> ''applying'' | OTA_REBOOTING \<Rightarrow> ''rebooting'' | OTA_FAILED \<Rightarrow> ''failed'')"

definition cmd_ota_status :: handler where
  "cmd_ota_status env cmd doc d =
    (let s = dv_ota d in send_response (JObj [(''ok'', JBool True), (''cmd'', JStr cmd),
       (''state'', JInt (ota_state_index (ot_state s))), (''state_name'', jstr (ota_state_name (ot_state s))),
       (''version'', JStr (ot_version s)), (''progress'', jw (ot_progress_pct s)), (''error'', JStr (ot_last_error s)),
       (''poll_interval_s'', jw (ot_poll_interval_s s))]) d)"

definition cmd_ota_set_interval :: handler where
  "cmd_ota_set_interval env cmd doc d =
    send_ok cmd ''poll interval updated'' (on_ota (ota_set_poll_interval (clamp_poll (u32_or (jget doc ''interval'') 0))) d)"

definition cmd_ota_start :: handler where
  "cmd_ota_start env cmd doc d = send_ok cmd ''ota check triggered'' (on_ota ota_trigger_check d)"

definition cmd_ota_set_backend_url :: handler where
  "cmd_ota_set_backend_url env cmd doc d =
    (let url = or_str (jget doc ''url'') [] in
     if url = [] then send_error cmd ''url required'' d
     else send_ok cmd ''backend URL updated'' (on_nvs (settings_save_ota_backend_url url) d))"

section \<open>Dispatch\<close>

definition handlers :: "(string \<times> handler) list" where
  "handlers =
    [(''set_wifi'', cmd_set_wifi), (''set_mqtt'', cmd_set_mqtt), (''set_http'', cmd_set_http),
     (''set_switch'', cmd_set_switch), (''set_relay'', cmd_set_switch), (''set_battery'', cmd_set_battery),
     (''set_shunt'', cmd_set_shunt), (''set_volt_ratio'', cmd_set_volt_ratio), (''set_resistors'', cmd_set_resistors),
     (''set_pin'', cmd_set_pin), (''get_status'', cmd_get_status), (''reset_coulomb'', cmd_reset_coulomb),
     (''calibrate_baseline'', cmd_calibrate_baseline), (''discover_sensors'', cmd_discover_sensors),
     (''get_switch'', cmd_get_switch), (''get_relay'', cmd_get_switch), (''get_battery'', cmd_get_battery),
     (''get_wifi'', cmd_get_wifi), (''get_mqtt'', cmd_get_mqtt), (''get_http'', cmd_get_http),
     (''set_supabase'', cmd_set_supabase), (''get_supabase'', cmd_get_supabase),
     (''set_channel_group'', cmd_set_channel_group), (''get_channel_group'', cmd_get_channel_group),
     (''set_battery_profile'', cmd_set_battery_profile), (''get_battery_profile'', cmd_get_battery_profile),
     (''set_channel_name'', cmd_set_channel_name), (''get_channel_name'', cmd_get_channel_name),
     (''set_calibration'', cmd_set_calibration), (''get_calibration'', cmd_get_calibration),
     (''reset_calibration'', cmd_reset_calibration), (''set_invert_curr'', cmd_set_invert_curr),
     (''get_invert_curr'', cmd_get_invert_curr), (''reset_invert_curr'', cmd_reset_invert_curr),
     (''set_virtual_channel'', cmd_set_virtual_channel), (''get_virtual_channel'', cmd_get_virtual_channel),
     (''list_battery_profiles'', cmd_list_battery_profiles), (''get_battery_profile'', cmd_get_profile_by_id),
     (''delete_battery_profile'', cmd_delete_battery_profile), (''get_battery'', cmd_get_binding),
     (''reset_battery'', cmd_reset_battery), (''get_cycle_state'', cmd_get_cycle_state),
     (''factory_reset'', cmd_factory_reset), (''reboot'', cmd_reboot), (''ota_check'', cmd_ota_check),
     (''ota_status'', cmd_ota_status), (''ota_set_interval'', cmd_ota_set_interval), (''ota_start'', cmd_ota_start),
     (''ota_set_backend_url'', cmd_ota_set_backend_url)]"

definition run_command :: "cmd_env \<Rightarrow> json \<Rightarrow> device \<Rightarrow> device" where
  "run_command env doc d =
    (let cmd = or_str (jget doc ''cmd'') [] in
     case map_of handlers (bytes_str cmd) of
       Some h \<Rightarrow> h env cmd doc d
     | None \<Rightarrow> send_error cmd ''unknown_cmd'' d)"

definition handle_command :: "(bytes \<Rightarrow> json option) \<Rightarrow> cmd_env \<Rightarrow> bytes \<Rightarrow> device \<Rightarrow> device" where
  "handle_command parse env text d =
    (let (ok, d1) = check_rate_limit (ce_now env) d in
     if \<not> ok then d1
     else case parse text of
         None \<Rightarrow> refused ''bad_json'' d1
       | Some doc \<Rightarrow> run_command env doc d1)"

text \<open>The drain of the queue, then the status broadcast every two seconds.\<close>

definition loop_ble_provisioner :: "(bytes \<Rightarrow> json option) \<Rightarrow> cmd_env \<Rightarrow> device \<Rightarrow> device" where
  "loop_ble_provisioner parse env d =
    (if \<not> bl_initialized (dv_ble d) then d
     else
       let d1 = (case bl_queue (dv_ble d) of
             None \<Rightarrow> d
           | Some q \<Rightarrow> fold (\<lambda>buf. handle_command parse env (c_str buf)) q
               (on_ble (\<lambda>b. b\<lparr> bl_queue := Some [] \<rparr>) d))
       in if \<not> bl_connected (dv_ble d1) then d1
          else if 2000 \<le> ce_now env - bl_last_status (dv_ble d1) then
            demit (E_status (case ce_log env of (entries, cap, ovf) \<Rightarrow>
                JObj [(''uptime_s'', JInt (uint (ce_now env) div 1000)), (''entries'', JInt entries),
                  (''buffer_kb'', JInt (cap div 1024)), (''overflow'', JBool ovf)]))
              (on_ble (\<lambda>b. b\<lparr> bl_last_status := ce_now env \<rparr>) d1)
          else d1)"

end
