(* ===== verification/Ble_Security.thy ===== *)
theory Ble_Security
  imports Ble_Dispatch
begin

text \<open>
  What protects the device on the BLE side: which commands the PIN gates, how fast PINs can be guessed through
  \<open>check_pin\<close>, and the two ways around it (\<open>set_pin\<close>, which compares the old PIN without the cool-off, and the
  update commands, which need none).
\<close>

section \<open>The PIN gates\<close>

definition open_commands :: "string set" where
  "open_commands = {''set_pin'', ''ota_check'', ''ota_status'', ''ota_set_interval'', ''ota_start'', ''ota_set_backend_url''}"

definition gated :: "handler \<Rightarrow> bool" where
  "gated h = (\<forall>env cmd doc d. \<not> fst (check_pin (ce_now env) doc d) \<longrightarrow> same_but_link d (h env cmd doc d))"

lemma with_pin_denied:
  "\<not> fst (check_pin (ce_now env) doc d) \<Longrightarrow> same_but_link d (with_pin body env doc d)"
  using check_pin_link [of d "ce_now env" doc] by (simp add: with_pin_def case_prod_beta Let_def)

lemma gated_handlers [simp]:
  "gated cmd_set_wifi" "gated cmd_set_mqtt" "gated cmd_set_http" "gated cmd_set_switch" "gated cmd_set_battery"
  "gated cmd_set_shunt" "gated cmd_set_volt_ratio" "gated cmd_set_resistors" "gated cmd_reset_coulomb"
  "gated cmd_calibrate_baseline" "gated cmd_discover_sensors" "gated cmd_get_switch" "gated cmd_get_battery"
  "gated cmd_get_wifi" "gated cmd_get_mqtt" "gated cmd_get_http" "gated cmd_set_supabase" "gated cmd_get_supabase"
  "gated cmd_set_channel_group" "gated cmd_get_channel_group" "gated cmd_set_battery_profile"
  "gated cmd_get_battery_profile" "gated cmd_set_channel_name" "gated cmd_get_channel_name" "gated cmd_set_calibration"
  "gated cmd_get_calibration" "gated cmd_reset_calibration" "gated cmd_set_invert_curr" "gated cmd_get_invert_curr"
  "gated cmd_reset_invert_curr" "gated cmd_set_virtual_channel" "gated cmd_get_virtual_channel"
  "gated cmd_list_battery_profiles" "gated cmd_get_profile_by_id" "gated cmd_delete_battery_profile"
  "gated cmd_get_binding" "gated cmd_reset_battery" "gated cmd_get_cycle_state" "gated cmd_factory_reset" "gated cmd_reboot"
  unfolding gated_def cmd_set_wifi_def cmd_set_mqtt_def cmd_set_http_def cmd_set_switch_def cmd_set_battery_def
    cmd_set_shunt_def cmd_set_volt_ratio_def cmd_set_resistors_def cmd_reset_coulomb_def cmd_calibrate_baseline_def
    cmd_discover_sensors_def cmd_get_switch_def cmd_get_battery_def cmd_get_wifi_def cmd_get_mqtt_def cmd_get_http_def
    cmd_set_supabase_def cmd_get_supabase_def cmd_set_channel_group_def cmd_get_channel_group_def
    cmd_set_battery_profile_def cmd_get_battery_profile_def cmd_set_channel_name_def cmd_get_channel_name_def
    cmd_set_calibration_def cmd_get_calibration_def cmd_reset_calibration_def cmd_set_invert_curr_def
    cmd_get_invert_curr_def cmd_reset_invert_curr_def cmd_set_virtual_channel_def cmd_get_virtual_channel_def
    cmd_list_battery_profiles_def cmd_get_profile_by_id_def cmd_delete_battery_profile_def cmd_get_binding_def
    cmd_reset_battery_def cmd_get_cycle_state_def cmd_factory_reset_def cmd_reboot_def
  by (intro allI impI with_pin_denied; assumption)+

lemma gated_get_status [simp]: "gated cmd_get_status"
  unfolding gated_def cmd_get_status_def
  using check_pin_link by (auto simp: case_prod_beta Let_def intro!: send_error_link)

lemma handlers_gated: "map_of handlers n = Some h \<Longrightarrow> n \<notin> open_commands \<Longrightarrow> gated h"
proof -
  assume m: "map_of handlers n = Some h" and o: "n \<notin> open_commands"
  have "list_all (\<lambda>(n, h). n \<in> open_commands \<or> gated h) handlers"
    unfolding handlers_def by (simp add: open_commands_def)
  then show ?thesis using map_of_SomeD [OF m] o by (auto simp: list_all_iff)
qed

lemma rate_limit_fields:
  "dv_nvs (snd (check_rate_limit now d)) = dv_nvs d"
  "bl_last_fail (dv_ble (snd (check_rate_limit now d))) = bl_last_fail (dv_ble d)"
  by (simp_all add: check_rate_limit_def Let_def)

lemma check_pin_accepts:
  "fst (check_pin now doc d) \<longleftrightarrow> settings_load_ble_pin (kv_of d) \<noteq> 0 \<and> \<not> cooling_off now d \<and>
    pin_given doc = settings_load_ble_pin (kv_of d)"
  by (simp add: check_pin_def Let_def)

text \<open>C2: The PIN gates every command but six: while no PIN is set, the cool-off lasts or the command carries another
PIN than the stored one, a command that is not \<open>set_pin\<close> or one of the five update commands changes nothing of the
device except the link's own statics, the fail counter and the responses sent.\<close>

theorem pin_gates_commands:
  assumes "parse text = Some doc" "bytes_str (or_str (jget doc ''cmd'') []) \<notin> open_commands"
    "settings_load_ble_pin (kv_of d) = 0 \<or> cooling_off (ce_now env) d \<or>
      pin_given doc \<noteq> settings_load_ble_pin (kv_of d)"
  shows "same_but_link d (handle_command parse env text d)"
proof -
  define d1 where "d1 = snd (check_rate_limit (ce_now env) d)"
  have l: "same_but_link d d1" by (simp add: d1_def check_rate_limit_link)
  have denied: "\<not> fst (check_pin (ce_now env) doc d1)"
    using assms(3) by (simp add: check_pin_accepts d1_def cooling_off_def rate_limit_fields)
  have "same_but_link d1 (run_command env doc d1)"
    using handlers_gated [OF _ assms(2)] denied send_error_link [OF same_but_link_refl]
    by (auto simp: run_command_def Let_def gated_def split: option.splits)
  then show ?thesis
    using l same_but_link_trans assms(1)
    by (auto simp: handle_command_def case_prod_beta Let_def d1_def)
qed

text \<open>A device as flashed, with the default PIN 123456, a connected client and the clock at \<open>t\<close>.\<close>

definition demo_env :: "u32 \<Rightarrow> cmd_env" where
  "demo_env t = \<lparr> ce_now = t, ce_board = esp32c3, ce_prefs = host_env, ce_probe = (\<lambda>_. False), ce_stack = (\<lambda>_. 0),
     ce_snapshot = [], ce_log = (0, 0, False), ce_uninit_state = batstate0, ce_uninit_cal = dec_cal [] \<rparr>"

definition demo_device :: "device" where
  "demo_device = \<lparr> dv_nvs = (\<lambda>_. Map.empty), dv_id = identity0, dv_sens = sensors0, dv_coul = counter0, dv_sw = sw0,
     dv_bat = battery0 (\<lambda>_. Map.empty), dv_cyc = cycle0, dv_ota = ota0 (\<lambda>_. Map.empty), dv_net = net0,
     dv_ble = ble0\<lparr> bl_connected := True, bl_initialized := True \<rparr>, dv_last_poll = 0, dv_out = [] \<rparr>"

lemma pin_gates_commands_witness:
  "same_but_link demo_device (handle_command (\<lambda>_. Some (JObj [(''cmd'', jstr ''factory_reset''), (''pin'', JInt 654321)]))
     (demo_env 5000) [] demo_device)"
  by (rule pin_gates_commands [where doc = "JObj [(''cmd'', jstr ''factory_reset''), (''pin'', JInt 654321)]"])
    (simp_all add: open_commands_def or_str_def pin_given_def is_str_def or_int_def is_int_def int_in_def the_int_def
      demo_device_def settings_load_ble_pin_def pf_getUInt_def)

lemma demo_pin [simp]: "settings_load_ble_pin (kv_of demo_device) = 123456" "bl_last_fail (dv_ble demo_device) = 0"
  by (simp_all add: demo_device_def ble0_def settings_load_ble_pin_def pf_getUInt_def)

section \<open>How fast PINs can be guessed\<close>

text \<open>A session from boot: each try waits some milliseconds (of real time, the clock wraps) and offers a PIN. Counted
are the tries in which the PIN was compared at all.\<close>

definition compared :: "u32 \<Rightarrow> device \<Rightarrow> bool" where
  "compared now d = (settings_load_ble_pin (kv_of d) \<noteq> 0 \<and> \<not> cooling_off now d)"

fun guesses :: "nat \<Rightarrow> (nat \<times> json) list \<Rightarrow> device \<Rightarrow> nat" where
  "guesses t [] d = 0"
| "guesses t ((gap, doc) # xs) d =
    (if compared (of_nat (t + gap)) d then 1 else 0) +
    guesses (t + gap) xs (snd (check_pin (of_nat (t + gap)) doc d))"

lemma fail_cell [simp]:
  "settings_load_ble_fail_count (settings_save_ble_fail_count n s) = n"
  "settings_load_ble_pin (settings_save_ble_fail_count n s) = settings_load_ble_pin s"
  by (simp_all add: settings_load_ble_fail_count_def settings_save_ble_fail_count_def settings_load_ble_pin_def
    pf_getUShort_def pf_putUShort_def pf_getUInt_def)

lemma cooloff_capped: "12 \<le> f \<Longrightarrow> cooloff f = 3600000"
proof -
  assume "12 \<le> f"
  then have "(if 12 < f then 12 else unat f) = 12"
    by (auto simp: word_less_nat_alt word_le_nat_alt)
  moreover have "0 < f" using \<open>12 \<le> f\<close> by (simp add: word_less_nat_alt word_le_nat_alt)
  ultimately show ?thesis by (simp add: cooloff_def Let_def push_bit_eq_mult)
qed

lemma wrong_pin:
  assumes "pin_given doc \<noteq> settings_load_ble_pin (kv_of d)"
  shows "settings_load_ble_pin (kv_of (snd (check_pin now doc d))) = settings_load_ble_pin (kv_of d)"
    and "compared now d \<Longrightarrow> bl_last_fail (dv_ble (snd (check_pin now doc d))) = now"
    and "compared now d \<Longrightarrow> settings_load_ble_fail_count (kv_of (snd (check_pin now doc d))) =
      (if settings_load_ble_fail_count (kv_of d) < 65535 then settings_load_ble_fail_count (kv_of d) + 1
       else settings_load_ble_fail_count (kv_of d))"
    and "\<not> compared now d \<Longrightarrow> dv_nvs (snd (check_pin now doc d)) = dv_nvs d"
    and "\<not> compared now d \<Longrightarrow> dv_ble (snd (check_pin now doc d)) = dv_ble d"
  using assms by (auto simp: check_pin_def Let_def compared_def)

lemma elapsed_real: "tf \<le> t \<Longrightarrow> unat (of_nat t - of_nat tf :: u32) \<le> t - tf"
proof -
  assume "tf \<le> t"
  then have "(of_nat t - of_nat tf :: u32) = of_nat (t - tf)" by simp
  then show ?thesis by (simp add: unat_of_nat)
qed

lemma guesses_bound:
  assumes "bl_last_fail (dv_ble d) = of_nat tf" "tf \<le> t"
    "\<forall>(gap, doc) \<in> set xs. pin_given doc \<noteq> settings_load_ble_pin (kv_of d)"
  shows "guesses t xs d \<le> (12 - unat (settings_load_ble_fail_count (kv_of d))) +
    (t + sum_list (map fst xs) - tf) div 3600000"
  using assms
proof (induction xs arbitrary: t tf d)
  case (Cons x xs)
  obtain gap doc where x: "x = (gap, doc)" by (cases x)
  define t' where "t' = t + gap"
  define d' where "d' = snd (check_pin (of_nat t') doc d)"
  define f where "f = settings_load_ble_fail_count (kv_of d)"
  have w: "pin_given doc \<noteq> settings_load_ble_pin (kv_of d)" using Cons.prems(3) x by auto
  note wp = wrong_pin [OF w, of "of_nat t'", folded d'_def f_def]
  have rest: "\<forall>(gap, doc) \<in> set xs. pin_given doc \<noteq> settings_load_ble_pin (kv_of d')"
    using Cons.prems(3) wp(1) by auto
  have g: "guesses t (x # xs) d = (if compared (of_nat t') d then 1 else 0) + guesses t' xs d'"
    by (simp add: x t'_def d'_def)
  have s: "t + sum_list (map fst (x # xs)) = t' + sum_list (map fst xs)" by (simp add: x t'_def)
  show ?case
  proof (cases "compared (of_nat t') d")
    case False
    have "guesses t' xs d' \<le> (12 - unat f) + (t' + sum_list (map fst xs) - tf) div 3600000"
      using Cons.IH [of d' tf t'] Cons.prems(1,2) wp(4,5) [OF False] rest by (simp add: t'_def f_def)
    then show ?thesis using False by (simp only: g s f_def [symmetric]) simp
  next
    case True
    define n where "n = sum_list (map fst xs)"
    define f' where "f' = settings_load_ble_fail_count (kv_of d')"
    have ih: "guesses t' xs d' \<le> (12 - unat f') + n div 3600000"
      using Cons.IH [of d' t' t'] wp(2) [OF True] rest by (simp add: f'_def n_def)
    have f': "unat f' = (if unat f < 65535 then unat f + 1 else unat f)"
      using wp(3) [OF True] unsigned_less [of f, where ?'a = nat] by (auto simp: f'_def word_less_nat_alt unat_word_ariths)
    have tf_le: "tf \<le> t'" using Cons.prems(2) by (simp add: t'_def)
    show ?thesis
    proof (cases "unat f < 12")
      case True
      have "n div 3600000 \<le> (t' + n - tf) div 3600000" using tf_le by (intro div_le_mono) simp
      then show ?thesis using ih f' True \<open>compared (of_nat t') d\<close>
        by (simp only: g s f_def [symmetric] n_def [symmetric]) simp
    next
      case False
      then have "12 \<le> f" by (simp add: word_le_nat_alt)
      then have "\<not> of_nat t' - of_nat tf < (3600000 :: u32)"
        using True Cons.prems(1) cooloff_capped [of f]
        by (auto simp: compared_def cooling_off_def f_def [symmetric] Let_def word_less_nat_alt word_le_nat_alt)
      then have "3600000 \<le> t' - tf" using elapsed_real [OF tf_le] by (simp add: word_less_nat_alt)
      then have "n div 3600000 + 1 \<le> (t' + n - tf) div 3600000"
        using div_le_mono [of "n + 3600000" "t' + n - tf" 3600000] tf_le by simp
      then show ?thesis using ih f' False True
        by (simp only: g s f_def [symmetric] n_def [symmetric]) (simp split: if_splits)
    qed
  qed
qed simp

text \<open>C10: PIN guesses through the gate are rationed, across reboots too: in a session from boot in which every command
carries a wrong PIN, however the commands are spaced, at most twelve PINs (fewer by the failures already counted
in NVS) plus one per hour of uptime are compared with the stored one.\<close>

theorem pin_guesses_rationed:
  assumes "\<forall>(gap, doc) \<in> set xs. pin_given doc \<noteq> settings_load_ble_pin (kv_of d)" "bl_last_fail (dv_ble d) = 0"
  shows "guesses 0 xs d \<le> (12 - unat (settings_load_ble_fail_count (kv_of d))) + sum_list (map fst xs) div 3600000"
  using guesses_bound [of d 0 0 xs] assms by simp

text \<open>Twenty failures in NVS: a thousand commands in the hundred seconds after a reboot get nowhere.\<close>

lemma pin_guesses_rationed_witness:
  "guesses 0 (replicate 1000 (100, JObj [(''pin'', JInt 1)])) (on_kv (settings_save_ble_fail_count 20) demo_device) = 0"
proof -
  have "pin_given (JObj [(''pin'', JInt 1)]) = 1"
    by (simp add: pin_given_def is_str_def or_int_def is_int_def int_in_def the_int_def)
  then show ?thesis
    using pin_guesses_rationed [of "replicate 1000 (100, JObj [(''pin'', JInt 1)])"
        "on_kv (settings_save_ble_fail_count 20) demo_device"]
    by (simp add: sum_list_replicate)
qed

section \<open>The way around\<close>

lemma set_pin_handler: "map_of handlers ''set_pin'' = Some cmd_set_pin"
  by (simp add: handlers_def)

definition set_pin_doc :: "int \<Rightarrow> int \<Rightarrow> json" where
  "set_pin_doc old new = JObj [(''cmd'', jstr ''set_pin''), (''old_pin'', JInt old), (''new_pin'', JInt new)]"

lemma run_set_pin: "run_command env (set_pin_doc old new) d = cmd_set_pin env (str_bytes ''set_pin'') (set_pin_doc old new) d"
  by (simp add: run_command_def set_pin_doc_def or_str_def set_pin_handler Let_def)

lemma small_int: "\<lbrakk> 0 \<le> i; i \<le> 999999 \<rbrakk> \<Longrightarrow> u32_or (JInt i) 0 = word_of_int i"
  by (simp add: u32_or_def or_int_def is_int_def int_in_def the_int_def)

lemma slow_command_passes:
  "100 \<le> now - bl_rate_last (dv_ble d) \<Longrightarrow> fst (check_rate_limit now d) \<and>
    bl_rate_last (dv_ble (snd (check_rate_limit now d))) = now"
  by (auto simp: check_rate_limit_def Let_def)

lemma set_pin_try:
  assumes "parse text = Some (set_pin_doc i q)" "100 \<le> ce_now env - bl_rate_last (dv_ble d)"
    "1 \<le> i" "i \<le> 999999" "1 \<le> q" "q \<le> 999999" "settings_load_ble_pin (kv_of d) \<noteq> 0"
  shows "dv_nvs (handle_command parse env text d) =
      (if settings_load_ble_pin (kv_of d) = word_of_int i
       then (dv_nvs d)(''pm-settings'' := settings_save_ble_pin (word_of_int q) (kv_of d)) else dv_nvs d)"
    and "bl_rate_last (dv_ble (handle_command parse env text d)) = ce_now env"
proof -
  define d1 where "d1 = snd (check_rate_limit (ce_now env) d)"
  have r: "fst (check_rate_limit (ce_now env) d)" "bl_rate_last (dv_ble d1) = ce_now env" "dv_nvs d1 = dv_nvs d"
    using slow_command_passes [OF assms(2)] by (simp_all add: d1_def rate_limit_fields)
  have h: "handle_command parse env text d = cmd_set_pin env (str_bytes ''set_pin'') (set_pin_doc i q) d1"
    using r(1) assms(1) by (simp add: handle_command_def case_prod_beta Let_def d1_def run_set_pin)
  have o: "u32_or (jget (set_pin_doc i q) ''old_pin'') 0 = word_of_int i"
    "u32_or (jget (set_pin_doc i q) ''new_pin'') 0 = word_of_int q"
    using assms(3-6) by (simp_all add: set_pin_doc_def small_int)
  have q: "word_of_int q \<noteq> (0 :: u32)" "\<not> (999999 :: u32) < word_of_int q"
    using assms(5,6) zdvd_imp_le [of 4294967296 q]
    by (auto simp: word_less_def word_of_int_eq_0_iff uint_word_of_int take_bit_int_eq_self)
  show "dv_nvs (handle_command parse env text d) =
      (if settings_load_ble_pin (kv_of d) = word_of_int i
       then (dv_nvs d)(''pm-settings'' := settings_save_ble_pin (word_of_int q) (kv_of d)) else dv_nvs d)"
    "bl_rate_last (dv_ble (handle_command parse env text d)) = ce_now env"
    using r q assms(7) by (auto simp: h cmd_set_pin_def o Let_def)
qed

definition sweep_env :: "cmd_env \<Rightarrow> u32 \<Rightarrow> nat \<Rightarrow> cmd_env" where
  "sweep_env env t i = env\<lparr> ce_now := t + 100 * of_nat i \<rparr>"

lemma sweep_fails:
  assumes "\<forall>i. 1 \<le> i \<and> i \<le> n \<longrightarrow> parse (msg i) = Some (set_pin_doc (int i) q)" "n < unat p" "p \<le> 999999"
    "1 \<le> q" "q \<le> 999999" "settings_load_ble_pin (kv_of d) = p" "bl_rate_last (dv_ble d) = t"
  shows "let d' = fold (\<lambda>i. handle_command parse (sweep_env env t i) (msg i)) [1..<Suc n] d in
    dv_nvs d' = dv_nvs d \<and> bl_rate_last (dv_ble d') = t + 100 * of_nat n"
  using assms(1,2)
proof (induction n)
  case 0
  then show ?case using assms(7) by simp
next
  case (Suc n)
  define d' where "d' = fold (\<lambda>i. handle_command parse (sweep_env env t i) (msg i)) [1..<Suc n] d"
  have ih: "dv_nvs d' = dv_nvs d" "bl_rate_last (dv_ble d') = t + 100 * of_nat n"
    using Suc.IH Suc.prems by (simp_all add: d'_def Let_def)
  have p: "unat p \<le> 999999" using assms(3) by (simp add: word_le_nat_alt)
  have ne: "p \<noteq> word_of_int (int (Suc n))"
  proof
    assume "p = word_of_int (int (Suc n))"
    then have "unat p = unat (of_nat (Suc n) :: u32)" by simp
    also have "\<dots> = Suc n" using Suc.prems(2) p by (simp add: unat_of_nat take_bit_nat_eq_self del: of_nat_Suc)
    finally show False using Suc.prems(2) by simp
  qed
  have gap: "100 \<le> ce_now (sweep_env env t (Suc n)) - bl_rate_last (dv_ble d')"
    by (simp add: sweep_env_def ih algebra_simps)
  have pin: "settings_load_ble_pin (kv_of d') = p" "p \<noteq> 0" using ih assms(6) Suc.prems(2) by auto
  have pt: "parse (msg (Suc n)) = Some (set_pin_doc (int (Suc n)) q)" using Suc.prems(1) by simp
  have st: "dv_nvs (handle_command parse (sweep_env env t (Suc n)) (msg (Suc n)) d') = dv_nvs d'"
    "bl_rate_last (dv_ble (handle_command parse (sweep_env env t (Suc n)) (msg (Suc n)) d')) = ce_now (sweep_env env t (Suc n))"
    using set_pin_try [of parse "msg (Suc n)" "int (Suc n)" q "sweep_env env t (Suc n)" d', OF pt gap]
      assms(4,5) pin ne p Suc.prems(2) by simp_all
  have "fold (\<lambda>i. handle_command parse (sweep_env env t i) (msg i)) [1..<Suc (Suc n)] d =
      handle_command parse (sweep_env env t (Suc n)) (msg (Suc n)) d'"
    by (simp add: d'_def)
  then show ?case using st ih by (simp only: Let_def) (simp add: sweep_env_def)
qed

text \<open>C28: Through \<open>set_pin\<close> the same PIN can be guessed ten times a second: whatever PIN \<open>p\<close> is stored, sending
\<open>set_pin\<close> with the old PINs 1, 2, ..., \<open>p\<close> every 100 ms is never limited and replaces the PIN by the
attacker's in \<open>p\<close> tenths of a second (at most 28 hours), leaving no trace in the fail counter.\<close>

theorem set_pin_unthrottled:
  assumes "\<forall>i. 1 \<le> i \<and> i \<le> unat p \<longrightarrow> parse (msg i) = Some (set_pin_doc (int i) q)" "1 \<le> p" "p \<le> 999999"
    "1 \<le> q" "q \<le> 999999" "settings_load_ble_pin (kv_of d) = p" "bl_rate_last (dv_ble d) = t"
  shows "let d' = fold (\<lambda>i. handle_command parse (sweep_env env t i) (msg i)) [1..<Suc (unat p)] d in
    settings_load_ble_pin (kv_of d') = word_of_int q \<and>
    settings_load_ble_fail_count (kv_of d') = settings_load_ble_fail_count (kv_of d)"
proof -
  obtain n where n: "unat p = Suc n" using assms(2) by (cases "unat p") (auto simp: word_le_nat_alt)
  define d1 where "d1 = fold (\<lambda>i. handle_command parse (sweep_env env t i) (msg i)) [1..<Suc n] d"
  have d1: "dv_nvs d1 = dv_nvs d" "bl_rate_last (dv_ble d1) = t + 100 * of_nat n"
    using sweep_fails [of n parse msg q p d t env] assms n by (simp_all add: d1_def Let_def)
  have gap: "100 \<le> ce_now (sweep_env env t (Suc n)) - bl_rate_last (dv_ble d1)"
    by (simp add: sweep_env_def d1 algebra_simps)
  have p: "p = word_of_int (int (Suc n))" "int (Suc n) \<le> 999999" "p \<noteq> 0"
  proof -
    have "int (Suc n) = uint p" by (simp flip: n)
    then show "p = word_of_int (int (Suc n))" by simp
    show "int (Suc n) \<le> 999999" using n assms(3) by (simp add: word_le_nat_alt)
    show "p \<noteq> 0" using n by auto
  qed
  have pt: "parse (msg (Suc n)) = Some (set_pin_doc (int (Suc n)) q)" using assms(1) n by simp
  have "dv_nvs (handle_command parse (sweep_env env t (Suc n)) (msg (Suc n)) d1) =
      (dv_nvs d)(''pm-settings'' := settings_save_ble_pin (word_of_int q) (kv_of d))"
    using set_pin_try(1) [of parse "msg (Suc n)" "int (Suc n)" q "sweep_env env t (Suc n)" d1, OF pt gap]
      assms(4-6) d1 p by simp
  moreover have "settings_load_ble_pin (settings_save_ble_pin w m) = w"
    "settings_load_ble_fail_count (settings_save_ble_pin w m) = settings_load_ble_fail_count m" for w m
    by (simp_all add: settings_load_ble_pin_def settings_save_ble_pin_def settings_load_ble_fail_count_def
      pf_getUInt_def pf_putUInt_def pf_getUShort_def)
  moreover have "fold (\<lambda>i. handle_command parse (sweep_env env t i) (msg i)) [1..<Suc (unat p)] d =
      handle_command parse (sweep_env env t (Suc n)) (msg (Suc n)) d1"
    by (simp add: d1_def n)
  ultimately show ?thesis by (simp only: Let_def) simp
qed

lemma demo_rate: "bl_rate_last (dv_ble demo_device) = 0"
  by (simp add: demo_device_def ble0_def)

lemma set_pin_unthrottled_witness:
  "settings_load_ble_pin (kv_of (fold (\<lambda>i. handle_command (\<lambda>s. Some (set_pin_doc (int (length s)) 7))
     (sweep_env (demo_env 0) 0 i) (replicate i 0)) [1..<Suc (unat (123456 :: u32))] demo_device)) = 7"
  using set_pin_unthrottled [of 123456 "\<lambda>s. Some (set_pin_doc (int (length s)) 7)" "\<lambda>i. replicate i 0" 7 demo_device 0
      "demo_env 0"]
  by (simp add: Let_def demo_rate del: upt_Suc)

section \<open>The update source\<close>

text \<open>The update client only appends to its trace.\<close>

definition grows :: "ota \<Rightarrow> ota \<Rightarrow> bool" where
  "grows s s' = (\<exists>r. ot_trace s' = ot_trace s @ r)"

lemma grows_same: "ot_trace s' = ot_trace s \<Longrightarrow> grows s s'"
  by (simp add: grows_def)

lemma grows_trans [trans]: "\<lbrakk> grows a b; grows b c \<rbrakk> \<Longrightarrow> grows a c"
  by (auto simp: grows_def)

lemma grows_emit: "grows s (emit e s)"
  by (simp add: grows_def)

lemma grows_give_up: "grows s (give_up m s)"
  by (simp add: grows_def give_up_def set_error_def set_ota_state_def)

lemma grows_drop: "grows s (drop_download m s)"
  by (simp add: grows_def drop_download_def cleanup_download_def set_error_def set_ota_state_def Let_def)

lemma grows_take_update: "grows s (take_update v h n q s)"
  by (simp add: grows_def take_update_def publish_status_def ota_set_poll_interval_def Let_def)

lemma grows_start_download: "grows s (start_download i url s)"
proof -
  define s1 where "s1 = emit (Http_begin url) (s\<lparr> ot_tls := True, ot_http := True \<rparr>)"
  have 1: "grows s (s1\<lparr> ot_partition := p \<rparr>)" "grows s s1" for p by (simp_all add: s1_def grows_def)
  have 2: "grows s (drop_download m (s1\<lparr> ot_partition := p \<rparr>))" "grows s (drop_download m s1)" for m p
    by (rule grows_trans [OF 1(1) grows_drop], rule grows_trans [OF 1(2) grows_drop])
  show ?thesis unfolding start_download_def Let_def s1_def [symmetric]
    using 1 2 by (auto simp: set_ota_state_def grows_def split: option.splits sum.splits)
qed

lemma grows_use_doc: "grows s (use_doc i d s)"
proof -
  have u: "grows s (give_up m (take_update v h n q s))" "grows s (start_download i url (take_update v h n q s))"
    for m v h n q url
    by (rule grows_trans [OF grows_take_update grows_give_up], rule grows_trans [OF grows_take_update grows_start_download])
  show ?thesis unfolding use_doc_def Let_def
    using u grows_give_up by (simp add: set_ota_state_def ota_set_poll_interval_def grows_same)
qed

lemma checking_contacts_backend:
  assumes "settings_load_ota_backend_url 128 (ot_nvs s) = Some url"
  shows "\<exists>rest. ot_trace (ota_checking i s) = ot_trace s @ Http_begin (check_url url (oi_serial i)) # rest"
proof -
  define s1 where "s1 = emit (Http_begin (check_url url (oi_serial i))) s"
  have "grows s1 (ota_checking i s)"
    unfolding ota_checking_def assms option.case Let_def s1_def [symmetric]
    using grows_give_up grows_use_doc by (auto split: sum.splits)
  then show ?thesis by (auto simp: grows_def s1_def)
qed

lemma stored_backend_url:
  assumes "u \<noteq> []" "0 \<notin> set u"
  shows "settings_load_ota_backend_url 128 (settings_save_ota_backend_url u n) = Some (take 127 u)"
proof -
  have "c_str u = u" using assms(2) by (auto simp: c_str_def takeWhile_eq_all_conv)
  then show ?thesis using assms(1)
    by (simp add: settings_load_ota_backend_url_def settings_save_ota_backend_url_def pf_getStringD_def pf_putString_def Let_def)
qed

definition set_url_doc :: "bytes \<Rightarrow> json" where
  "set_url_doc u = JObj [(''cmd'', jstr ''ota_set_backend_url''), (''url'', JStr u)]"

definition ota_start_doc :: json where
  "ota_start_doc = JObj [(''cmd'', jstr ''ota_start'')]"

lemma ota_handlers:
  "map_of handlers ''ota_set_backend_url'' = Some cmd_ota_set_backend_url"
  "map_of handlers ''ota_start'' = Some cmd_ota_start"
  by (simp_all add: handlers_def)

lemma rate_limit_ota: "dv_ota (snd (check_rate_limit now d)) = dv_ota d"
  by (simp add: check_rate_limit_def Let_def)

lemma set_url_step:
  assumes "parse m = Some (set_url_doc u)" "u \<noteq> []" "100 \<le> ce_now env - bl_rate_last (dv_ble d)"
  shows "dv_nvs (handle_command parse env m d) = settings_save_ota_backend_url u (dv_nvs d) \<and>
    dv_ota (handle_command parse env m d) = dv_ota d \<and> bl_rate_last (dv_ble (handle_command parse env m d)) = ce_now env"
  using slow_command_passes [OF assms(3)] assms(1,2)
  by (simp add: handle_command_def case_prod_beta Let_def run_command_def set_url_doc_def or_str_def ota_handlers
    cmd_ota_set_backend_url_def send_ok_def rate_limit_fields rate_limit_ota)

text \<open>C29: The update source can be changed without the PIN: from any PIN state, a client that sends
\<open>ota_set_backend_url\<close> and then \<open>ota_start\<close> makes the idle update client's next tick with the link up ask the
client's own server (its first 127 bytes) for an update, and the image and hash it then trusts come from there.\<close>

theorem update_source_needs_no_pin:
  assumes "parse m1 = Some (set_url_doc u)" "parse m2 = Some ota_start_doc" "u \<noteq> []" "0 \<notin> set u"
    "ot_state (dv_ota d) = OTA_IDLE" "100 \<le> ce_now e1 - bl_rate_last (dv_ble d)" "100 \<le> ce_now e2 - ce_now e1" "oi_wifi i"
  shows "\<exists>rest. ot_trace (loop_ota_client sha256 i (ota_of (handle_command parse e2 m2 (handle_command parse e1 m1 d)))) =
    ot_trace (dv_ota d) @ Http_begin (check_url (take 127 u) (oi_serial i)) # rest"
proof -
  define d1 where "d1 = handle_command parse e1 m1 d"
  note s1 = set_url_step [of parse m1 u e1 d, OF assms(1,3,6), folded d1_def]
  have gap: "100 \<le> ce_now e2 - bl_rate_last (dv_ble d1)" using s1 assms(7) by simp
  define d2 where "d2 = snd (check_rate_limit (ce_now e2) d1)"
  have "handle_command parse e2 m2 d1 = cmd_ota_start e2 (str_bytes ''ota_start'') ota_start_doc d2"
    using slow_command_passes [OF gap] assms(2)
    by (simp add: handle_command_def case_prod_beta Let_def d2_def run_command_def ota_start_doc_def or_str_def ota_handlers)
  then have "ota_of (handle_command parse e2 m2 d1) = ota_trigger_check (ota_of d2)"
    by (simp add: cmd_ota_start_def send_ok_def ota_of_def on_ota_def ota_trigger_check_def set_ota_state_def Let_def)
  moreover have "dv_nvs d2 = settings_save_ota_backend_url u (dv_nvs d)" "dv_ota d2 = dv_ota d"
    using s1 by (simp_all add: d2_def rate_limit_fields rate_limit_ota)
  ultimately have "loop_ota_client sha256 i (ota_of (handle_command parse e2 m2 d1)) = ota_checking i (ota_trigger_check (ota_of d2))"
    "settings_load_ota_backend_url 128 (ot_nvs (ota_trigger_check (ota_of d2))) = Some (take 127 u)"
    "ot_trace (ota_trigger_check (ota_of d2)) = ot_trace (dv_ota d)"
    using assms(5,8) stored_backend_url [OF assms(3,4)]
    by (simp_all add: loop_ota_client_def ota_trigger_check_def set_ota_state_def ota_of_def)
  then show ?thesis using checking_contacts_backend [of "ota_trigger_check (ota_of d2)" "take 127 u" i]
    by (simp add: d1_def)
qed

definition demo_parse :: "bytes \<Rightarrow> json option" where
  "demo_parse s = Some (if s = [] then ota_start_doc else set_url_doc (str_bytes ''https://evil''))"

lemma update_source_needs_no_pin_witness:
  "\<exists>rest. ot_trace (loop_ota_client (\<lambda>_. []) demo_in (ota_of (handle_command demo_parse (demo_env 300) []
     (handle_command demo_parse (demo_env 200) [1] demo_device)))) = Http_begin (check_url (str_bytes ''https://evil'') []) # rest"
proof -
  have z: "0 \<notin> set (str_bytes ''https://evil'')" by code_simp
  have i: "ot_trace (dv_ota demo_device) = []" "ot_state (dv_ota demo_device) = OTA_IDLE" "oi_wifi demo_in" "oi_serial demo_in = []"
    by (simp_all add: demo_device_def ota0_def demo_in_def)
  have p: "demo_parse [1] = Some (set_url_doc (str_bytes ''https://evil''))" "demo_parse [] = Some ota_start_doc"
    by (simp_all add: demo_parse_def)
  have t: "ce_now (demo_env t) = t" for t by (simp add: demo_env_def)
  have u: "str_bytes ''https://evil'' \<noteq> []" "take 127 (str_bytes ''https://evil'') = str_bytes ''https://evil''"
    by (simp_all add: str_bytes_def)
  show ?thesis
    using update_source_needs_no_pin [OF p u(1) z i(2) _ _ i(3), of "demo_env 200" "demo_env 300" "\<lambda>_. []"]
    unfolding t demo_rate u i by simp
qed

end
