(* ===== verification/Cloud_Commands.thy ===== *)
theory Cloud_Commands
  imports Ble_Dispatch
begin

text \<open>
  The cloud command channel: \<open>apply_settings_command\<close> of \<open>ble_provisioner.cpp\<close>, one definition per command in the order
  of the code, and \<open>check_settings_commands\<close> of \<open>connectivity_manager.cpp\<close>, which polls the backend, runs at most four
  commands and reports each result. A command's result is \<open>None\<close> when it ended in \<open>ESP.restart()\<close>: nothing after the
  call runs.
\<close>

type_synonym cloud_handler = "cmd_env \<Rightarrow> json \<Rightarrow> device \<Rightarrow> bool option \<times> device"

definition supa_pin_ok :: "json \<Rightarrow> device \<Rightarrow> bool" where
  "supa_pin_ok doc d = (let expected = settings_load_ble_pin (kv_of d) in
     if expected = 0 then True else pin_given doc = expected)"

abbreviation applied :: "device \<Rightarrow> bool option \<times> device" where "applied d \<equiv> (Some True, d)"
abbreviation rejected :: "device \<Rightarrow> bool option \<times> device" where "rejected d \<equiv> (Some False, d)"

section \<open>Connection settings\<close>

definition cloud_set_wifi :: cloud_handler where
  "cloud_set_wifi env doc d =
    (if truthy (jget doc ''ssid'') \<and> truthy (jget doc ''pass'') then
       applied (on_kv (settings_save_wifi (the_str (jget doc ''ssid'')) (the_str (jget doc ''pass''))) d)
     else rejected d)"

definition cloud_set_mqtt :: cloud_handler where
  "cloud_set_mqtt env doc d =
    (if truthy (jget doc ''broker'') then
       let broker = or_str (jget doc ''broker'') []; port = word_of_int (or_int (jget doc ''port'') 1883);
           topic = (if is_str (jget doc ''topic'') then the_str (jget doc ''topic'')
             else case settings_load_mqtt 64 (kv_of d) of Some (_, _, cur) \<Rightarrow> cur | None \<Rightarrow> [])
       in applied (on_kv (settings_save_mqtt broker port topic) d)
     else rejected d)"

definition cloud_set_http :: cloud_handler where
  "cloud_set_http env doc d =
    (if truthy (jget doc ''url'') then
       let d1 = on_kv (settings_save_http_endpoint (the_str (jget doc ''url'')) (or_str (jget doc ''token'') [])) d
       in applied (on_kv (settings_save_http_enabled (or_bool (jget doc ''enabled'') True)) d1)
     else rejected d)"

definition cloud_set_supabase :: cloud_handler where
  "cloud_set_supabase env doc d =
    (if truthy (jget doc ''url'') then
       let d1 = on_kv (settings_save_supabase_url (the_str (jget doc ''url''))) d;
           d2 = save_if_given settings_save_supabase_anon_key (jget doc ''anon_key'') d1;
           d3 = save_if_given settings_save_supabase_api_key (jget doc ''api_key'') d2
       in applied (save_if_given settings_save_supabase_device_key (jget doc ''device_key'') d3)
     else rejected d)"

section \<open>Sensor parameters and switches\<close>

definition cloud_set_shunt :: cloud_handler where
  "cloud_set_shunt env doc d = applied (on_kv (settings_save_shunt (channel_of doc) (or_float (jget doc ''ohms'') 0)) d)"

definition cloud_set_volt_ratio :: cloud_handler where
  "cloud_set_volt_ratio env doc d =
    applied (on_kv (settings_save_volt_ratio (channel_of doc) (or_float (jget doc ''ratio'') 0)) d)"

definition cloud_set_resistors :: cloud_handler where
  "cloud_set_resistors env doc d =
    applied (on_kv (settings_save_resistors (channel_of doc) (or_float (jget doc ''r_high'') 0)
      (or_float (jget doc ''r_low'') 0)) d)"

text \<open>The table of default pins has four entries; an index from four on reads behind it.\<close>

definition default_pin :: "cmd_env \<Rightarrow> u8 \<Rightarrow> u8" where
  "default_pin env idx = (if idx < 4 then bd_relay_pins (ce_board env) ! unat idx else ce_stack env (unat idx))"

definition cloud_switch :: "cmd_env \<Rightarrow> u8 \<Rightarrow> json \<Rightarrow> SwitchChannel" where
  "cloud_switch env idx doc =
    \<lparr> ch_idx = idx, ch_type = u8_or (jget doc ''type'') 0,
      ch_gpio_pin = or_u8 (jget doc ''gpio_pin'') (default_pin env idx),
      ch_active_high = or_bool (jget doc ''active_high'') True, ch_enabled = or_bool (jget doc ''enabled'') True,
      ch_is_energized = False, ch_name = default_name idx \<rparr>"

definition cloud_rule :: "u8 \<Rightarrow> json \<Rightarrow> SwitchRule" where
  "cloud_rule idx doc = read_rule cloud_op (channel_of doc) (or_bool (jget doc ''enabled'') True) idx doc"

definition cloud_set_switch :: cloud_handler where
  "cloud_set_switch env doc d =
    (let idx = u8_or (jget doc ''idx'') 0 in
     if 7 < idx then rejected d
     else
       let ch = cloud_switch env idx doc in
       if is_int (jget doc ''gpio_pin'') \<and> \<not> switch_gpio_allowed (ce_board env) (ch_gpio_pin ch) then rejected d
       else applied (on_kv (settings_save_switch_rule idx (cloud_rule idx doc)) (on_kv (settings_save_switch idx ch) d)))"

section \<open>Batteries\<close>

definition cloud_set_battery :: cloud_handler where
  "cloud_set_battery env doc d =
    (let bat = \<lparr> bc_channel = channel_of doc, bc_capacity_mAh = or_float (jget doc ''capacity_mAh'') 0,
           bc_initial_soc_pct = or_float (jget doc ''initial_soc_pct'') (f_of_int 100) \<rparr>
     in applied (on_kv (settings_save_battery (bc_channel bat) bat) d))"

definition chemistry_code :: "string \<Rightarrow> u8" where
  "chemistry_code c =
    (if c = ''lead_acid'' then 0 else if c = ''lipol'' then 1 else if c = ''liion'' then 2 else if c = ''nimh'' then 3
     else if c = ''lifepo4'' then 4 else if c = ''agm'' then 5 else if c = ''fla'' then 6 else 0)"

definition cloud_set_battery_profile :: cloud_handler where
  "cloud_set_battery_profile env doc d =
    (if is_int (jget doc ''id'') \<or> int_in 0 (2 ^ 32 - 1) (jget doc ''id'') then
       let i = u8_or (jget doc ''id'') 0 in
       if 16 \<le> i then rejected d
       else
         let p = merge_profile i doc (battery_profile_get (bat_of d) i);
             r = battery_profile_set (ce_prefs env) p (bat_of d); d1 = put_bat (snd r) d
         in if \<not> fst r then rejected d1 else applied d1
     else
       let bp = read_battery_profile (chemistry_code (or_text (jget doc ''chemistry'') ''''))
             (or_float (jget doc ''system_voltage'') 0) doc
       in applied (on_kv (settings_save_battery_profile (bp_channel bp) bp) d))"

definition cloud_delete_battery_profile :: cloud_handler where
  "cloud_delete_battery_profile env doc d =
    (let r = battery_profile_delete (ce_prefs env) (u8_or (jget doc ''id'') 0) (bat_of d); d1 = put_bat (snd r) d
     in if \<not> fst r then rejected d1 else applied d1)"

definition cloud_reset_battery :: cloud_handler where
  "cloud_reset_battery env doc d =
    (let ch = channel_of doc in
     if 16 \<le> ch then rejected d
     else
       let d1 = on_cyc (cycle_counter_reset (ce_prefs env) ch) d; d2 = on_coul (reset_coulomb_counter ch) d1
       in applied (on_bat (battery_state_reset (ce_prefs env) ch) d2))"

section \<open>Calibration, channels and names\<close>

text \<open>The legacy calibration commands accept the first channels only.\<close>

definition cloud_channel :: "u8 \<Rightarrow> (u8 \<Rightarrow> device \<Rightarrow> device) \<Rightarrow> json \<Rightarrow> device \<Rightarrow> bool option \<times> device" where
  "cloud_channel hi body doc d = (let ch = channel_of doc in if hi < ch then rejected d else applied (body ch d))"

definition cloud_set_calibration :: cloud_handler where
  "cloud_set_calibration env doc = cloud_channel 2 (\<lambda>ch.
     on_sens (sensor_set_calibration ch (u8_or (jget doc ''type'') 0) (or_float (jget doc ''value'') 0))) doc"

definition cloud_reset_calibration :: cloud_handler where
  "cloud_reset_calibration env doc = cloud_channel 2 (\<lambda>ch. on_sens (sensor_reset_calibration ch)) doc"

definition cloud_set_invert_curr :: cloud_handler where
  "cloud_set_invert_curr env doc = cloud_channel 2 (\<lambda>ch.
     on_sens (sensor_set_invert_curr ch (or_bool (jget doc ''invert'') False))) doc"

definition cloud_reset_invert_curr :: cloud_handler where
  "cloud_reset_invert_curr env doc = cloud_channel 2 (\<lambda>ch. on_sens (sensor_reset_invert_curr ch)) doc"

definition cloud_reset_coulomb :: cloud_handler where
  "cloud_reset_coulomb env doc d = applied (on_coul (reset_coulomb_counter (channel_of doc)) d)"

definition cloud_set_virtual_channel :: cloud_handler where
  "cloud_set_virtual_channel env doc = cloud_channel 3 (\<lambda>ch. on_kv (settings_save_virtual_channel ch (read_vc doc))) doc"

definition cloud_set_channel_group :: cloud_handler where
  "cloud_set_channel_group env doc d =
    (let cg = read_group doc in applied (on_kv (settings_save_channel_group (cg_group_id cg) cg) d))"

definition cloud_set_channel_name :: cloud_handler where
  "cloud_set_channel_name env doc d =
    applied (on_kv (settings_save_channel_name (channel_of doc) (or_str (jget doc ''name'') [])) d)"

section \<open>PIN, discovery, reset and updates\<close>

definition cloud_set_pin :: cloud_handler where
  "cloud_set_pin env doc d =
    (let expected = settings_load_ble_pin (kv_of d); v = jget doc ''old_pin'' in
     if expected \<noteq> 0 \<and> \<not> supa_pin_ok doc d then rejected d
     else
       let old_pin = (if is_str v then word_of_int (atoi (the_str v)) else u32_or v 0) in
       if expected \<noteq> 0 \<and> old_pin \<noteq> expected then rejected d
       else
         let new_pin = u32_or (jget doc ''new_pin'') 0 in
         if new_pin = 0 \<or> 999999 < new_pin then rejected d
         else applied (demit E_sync_pin (on_kv (settings_save_ble_pin new_pin) d)))"

definition cloud_calibrate_baseline :: cloud_handler where
  "cloud_calibrate_baseline env doc d = applied (demit E_sync_calibration d)"

definition cloud_discover_sensors :: cloud_handler where
  "cloud_discover_sensors env doc d = applied (on_sens (discover_sensors (ce_probe env)) d)"

definition cloud_factory_reset :: cloud_handler where
  "cloud_factory_reset env doc d =
    (if \<not> supa_pin_ok doc d then rejected d else (None, demit E_restart (device_wipe env d)))"

definition cloud_reboot :: cloud_handler where
  "cloud_reboot env doc d = (if \<not> supa_pin_ok doc d then rejected d else (None, demit E_restart d))"

definition cloud_ota_start :: cloud_handler where
  "cloud_ota_start env doc d = (if \<not> supa_pin_ok doc d then rejected d else applied (on_ota ota_trigger_check d))"

definition cloud_ota_check :: cloud_handler where
  "cloud_ota_check env doc d = applied (on_ota ota_trigger_check d)"

definition cloud_ota_status :: cloud_handler where
  "cloud_ota_status env doc d = applied d"

definition cloud_ota_set_interval :: cloud_handler where
  "cloud_ota_set_interval env doc d = applied (on_ota (ota_set_poll_interval (u32_or (jget doc ''interval'') 0)) d)"

definition cloud_ota_set_backend_url :: cloud_handler where
  "cloud_ota_set_backend_url env doc d =
    (let url = or_str (jget doc ''url'') [] in
     applied (if url \<noteq> [] then on_nvs (settings_save_ota_backend_url url) d else d))"

section \<open>Dispatch\<close>

definition cloud_handlers :: "(string \<times> cloud_handler) list" where
  "cloud_handlers =
    [(''set_wifi'', cloud_set_wifi), (''set_mqtt'', cloud_set_mqtt), (''set_http'', cloud_set_http),
     (''set_supabase'', cloud_set_supabase), (''set_shunt'', cloud_set_shunt), (''set_volt_ratio'', cloud_set_volt_ratio),
     (''set_resistors'', cloud_set_resistors), (''set_switch'', cloud_set_switch), (''set_relay'', cloud_set_switch),
     (''set_battery'', cloud_set_battery), (''set_battery_profile'', cloud_set_battery_profile),
     (''delete_battery_profile'', cloud_delete_battery_profile), (''reset_battery'', cloud_reset_battery),
     (''set_calibration'', cloud_set_calibration), (''reset_calibration'', cloud_reset_calibration),
     (''set_invert_curr'', cloud_set_invert_curr), (''reset_invert_curr'', cloud_reset_invert_curr),
     (''reset_coulomb'', cloud_reset_coulomb), (''set_virtual_channel'', cloud_set_virtual_channel),
     (''set_channel_group'', cloud_set_channel_group), (''set_channel_name'', cloud_set_channel_name),
     (''set_pin'', cloud_set_pin), (''calibrate_baseline'', cloud_calibrate_baseline),
     (''discover_sensors'', cloud_discover_sensors), (''factory_reset'', cloud_factory_reset), (''reboot'', cloud_reboot),
     (''ota_start'', cloud_ota_start), (''ota_check'', cloud_ota_check), (''ota_status'', cloud_ota_status),
     (''ota_set_interval'', cloud_ota_set_interval), (''ota_set_backend_url'', cloud_ota_set_backend_url)]"

definition apply_settings_command ::
  "(bytes \<Rightarrow> json option) \<Rightarrow> cmd_env \<Rightarrow> string \<Rightarrow> bytes \<Rightarrow> device \<Rightarrow> bool option \<times> device" where
  "apply_settings_command parse env cmd_type payload d =
    (case parse payload of
       None \<Rightarrow> rejected d
     | Some doc \<Rightarrow> (case map_of cloud_handlers cmd_type of
         None \<Rightarrow> rejected d
       | Some h \<Rightarrow> h env doc d))"

section \<open>The poll\<close>

text \<open>The JSON library: parsing, and writing a value (into a buffer of the given size).\<close>

record json_lib =
  jl_parse :: "bytes \<Rightarrow> json option"
  jl_print :: "nat \<Rightarrow> json \<Rightarrow> bytes"

text \<open>A relay command carries the wanted state beside the rule.\<close>

definition toggle_relay :: "cmd_env \<Rightarrow> json \<Rightarrow> device \<Rightarrow> device" where
  "toggle_relay env payload d =
    (case payload of
       JObj _ \<Rightarrow>
        (let idx = u8_or (jget payload ''idx'') 0; v = jget payload ''is_energized'' in
         if v \<noteq> JNull then
           on_net (\<lambda>n. n\<lparr> nt_deferred := nt_deferred n AND NOT 4 \<rparr>) (on_sw (switch_set (ce_board env) idx (truthy v)) d)
         else
           on_net (\<lambda>n. n\<lparr> nt_relay_idx := idx, nt_relay_state := get_switch_state (sw_of d) idx,
             nt_deferred := nt_deferred n OR 4 \<rparr>) d)
     | _ \<Rightarrow> d)"

definition run_cloud_command :: "json_lib \<Rightarrow> cmd_env \<Rightarrow> json \<Rightarrow> device \<Rightarrow> bool \<times> device" where
  "run_cloud_command lib env cmd d =
    (let cmd_id = (if int_in (- (2 ^ 63)) (2 ^ 63 - 1) (jget cmd ''id'') then the_int (jget cmd ''id'') else 0);
         cmd_type = or_text (jget cmd ''cmd_type'') '''' in
     if cmd_id = 0 \<or> cmd_type = '''' then (True, d)
     else
       let payload = jget cmd ''payload'';
           buf = (if is_str payload then take 1023 (the_str payload) else jl_print lib 1024 payload)
       in case apply_settings_command (jl_parse lib) env cmd_type buf d of
           (None, d1) \<Rightarrow> (False, d1)
         | (Some False, d1) \<Rightarrow> (True, demit (E_result cmd_id False) d1)
         | (Some True, d1) \<Rightarrow>
            (let d2 = apply_settings_posthook env cmd_type d1;
                 d3 = on_net (\<lambda>n. n\<lparr> nt_deferred := nt_deferred n OR 1 \<rparr>) d2;
                 d4 = (if cmd_type = ''set_relay'' then toggle_relay env payload d3 else d3)
             in (True, demit (E_result cmd_id True) d4)))"

text \<open>The loop over the commands, which ends early when one of them restarts the device.\<close>

fun run_cloud_commands :: "json_lib \<Rightarrow> cmd_env \<Rightarrow> json list \<Rightarrow> device \<Rightarrow> bool \<times> device" where
  "run_cloud_commands lib env [] d = (True, d)"
| "run_cloud_commands lib env (c # cs) d =
    (case run_cloud_command lib env c d of
       (True, d1) \<Rightarrow> run_cloud_commands lib env cs d1 | (False, d1) \<Rightarrow> (False, d1))"

text \<open>\<open>reply\<close> is the parsed body of the backend's answer, \<open>None\<close> when the request or the parse fails. The result
tells whether the device is still running.\<close>

definition poll_due :: "bool \<Rightarrow> cmd_env \<Rightarrow> device \<Rightarrow> bool" where
  "poll_due heap_ok env d = (\<not> nt_skip (dv_net d) \<and> heap_ok \<and> 5000 \<le> ce_now env - dv_last_poll d)"

definition check_settings_commands :: "json_lib \<Rightarrow> bool \<Rightarrow> cmd_env \<Rightarrow> json option \<Rightarrow> device \<Rightarrow> bool \<times> device" where
  "check_settings_commands lib heap_ok env reply d =
    (if \<not> poll_due heap_ok env d then (True, d)
     else
       let d1 = d\<lparr> dv_last_poll := ce_now env \<rparr>; m = kv_of d1 in
       if settings_load_ota_backend_url 128 (dv_nvs d1) = None \<or> settings_load_supabase_device_key 64 m = None \<or>
          settings_load_supabase_api_key 64 m = None then (True, d1)
       else case reply of
           Some (JArr cmds) \<Rightarrow> run_cloud_commands lib env (take 4 cmds) d1
         | _ \<Rightarrow> (True, d1))"

end
