(* ===== verification/Cloud_Safety.thy ===== *)
theory Cloud_Safety
  imports Cloud_Commands Ble_Security Device_Identity
begin

text \<open>
  What the cloud channel guarantees and what it does not: the commands a PIN protects, a remote reboot seen by the
  crash counter, a relay command seen by the stored rule, and a burst of commands seen by the backend's table.
\<close>

section \<open>Destructive commands need the PIN\<close>

definition pin_commands :: "string set" where
  "pin_commands = {''set_pin'', ''factory_reset'', ''reboot'', ''ota_start''}"

lemma pin_command_handlers:
  "map_of cloud_handlers ''set_pin'' = Some cloud_set_pin" "map_of cloud_handlers ''factory_reset'' = Some cloud_factory_reset"
  "map_of cloud_handlers ''reboot'' = Some cloud_reboot" "map_of cloud_handlers ''ota_start'' = Some cloud_ota_start"
  "map_of cloud_handlers ''ota_check'' = Some cloud_ota_check" "map_of cloud_handlers ''set_relay'' = Some cloud_set_switch"
  "map_of cloud_handlers ''set_http'' = Some cloud_set_http"
  by (simp_all add: cloud_handlers_def)


text \<open>A library that parses everything to one document.\<close>

definition demo_lib :: "json \<Rightarrow> json_lib" where
  "demo_lib j = \<lparr> jl_parse = (\<lambda>_. Some j), jl_print = (\<lambda>_ _. []) \<rparr>"

lemma demo_lib_simps [simp]: "jl_parse (demo_lib j) s = Some j" "jl_print (demo_lib j) n v = []"
  by (simp_all add: demo_lib_def)

lemma pin_given_1 [simp]: "pin_given (JObj [(''pin'', JInt 1)]) = 1" "pin_given (JObj [(''pin'', JInt 123456)]) = 123456"
  by (simp_all add: pin_given_def is_str_def or_int_def is_int_def int_in_def the_int_def)


section \<open>A relay command and the stored rule\<close>

text \<open>The payload of the web UI's \<open>setRelayEnergized\<close>: the wanted state and no rule.\<close>

definition toggle_payload :: "u8 \<Rightarrow> bool \<Rightarrow> json" where
  "toggle_payload idx on = JObj [(''idx'', jw idx), (''is_energized'', JBool on), (''active_high'', JBool True),
     (''enabled'', JBool True)]"

definition toggle_command :: "int \<Rightarrow> u8 \<Rightarrow> bool \<Rightarrow> json" where
  "toggle_command i idx on = JObj [(''id'', JInt i), (''cmd_type'', jstr ''set_relay''), (''payload'', toggle_payload idx on)]"

lemma u8_or_jw [simp]: "u8_or (jw (w :: u8)) n = w"
proof -
  have "- 2147483648 \<le> uint w" "uint w \<le> 2147483647"
    using unsigned_less [of w, where ?'a = int] uint_ge_0 [of w] by (linarith, simp)
  then show ?thesis by (simp add: u8_or_def or_int_def is_int_def int_in_def the_int_def)
qed

lemma toggle_fields [simp]:
  "jget (toggle_payload idx on) ''idx'' = jw idx" "jget (toggle_payload idx on) ''is_energized'' = JBool on"
  "jget (toggle_payload idx on) ''gpio_pin'' = JNull" "jget (toggle_payload idx on) ''conditions'' = JNull"
  "jget (toggle_payload idx on) ''type'' = JNull" "jget (toggle_payload idx on) ''overcurrent_A'' = JNull"
  "jget (toggle_payload idx on) ''undervoltage_V'' = JNull" "jget (toggle_payload idx on) ''soc_low_pct'' = JNull"
  "jget (toggle_payload idx on) ''soc_high_pct'' = JNull"
  by (simp_all add: toggle_payload_def)

lemma no_threshold: "\<not> f_gt 0 (f_lit 1 1000000)" "\<not> f_gt 0 (f_lit 1 1000)"
  by code_simp+

lemma toggle_rule: "sr_condition_count (cloud_rule idx (toggle_payload idx on)) = 0"
  by (simp add: cloud_rule_def read_rule_def Let_def read_conds_def flat_conds_def or_float_def no_threshold)

lemma wf_cloud_switch: "wf_channel (cloud_switch env idx doc)"
  by (simp add: cloud_switch_def wf_channel_def)

lemma toggle_applied:
  assumes "idx < 8"
  shows "cloud_set_switch env (toggle_payload idx on) d =
    applied (on_kv (settings_save_switch_rule idx (cloud_rule idx (toggle_payload idx on)))
      (on_kv (settings_save_switch idx (cloud_switch env idx (toggle_payload idx on))) d))"
  using assms by (simp add: cloud_set_switch_def is_int_def int_in_def Let_def word_less_nat_alt)

lemma switch_set_keeps:
  "settings_load_switch_rule j (sw_kv (switch_set b i v w)) = settings_load_switch_rule j (sw_kv w)"
  "settings_load_switch i (sw_kv w) = Some ch \<Longrightarrow> unat i < 8 \<Longrightarrow>
    settings_load_switch i (sw_kv (switch_set b i v w)) = Some (ch\<lparr> ch_is_energized := v \<rparr>)"
  using load_switch_wf [of i "sw_kv w"]
  by (auto simp: switch_set_def Let_def publish_switch_state_def wf_channel_def split: option.splits)

lemma on_sw_kv: "kv_of (on_sw f d) = sw_kv (f (sw_of d))"
  by (simp add: on_sw_def Let_def)

lemma toggle_keeps:
  "settings_load_switch_rule j (kv_of (toggle_relay env (toggle_payload idx on) d)) = settings_load_switch_rule j (kv_of d)"
  "settings_load_switch idx (kv_of d) = Some ch \<Longrightarrow> idx < 8 \<Longrightarrow>
    settings_load_switch idx (kv_of (toggle_relay env (toggle_payload idx on) d)) = Some (ch\<lparr> ch_is_energized := on \<rparr>)"
proof -
  have t: "toggle_relay env (toggle_payload idx on) d =
      on_net (\<lambda>n. n\<lparr> nt_deferred := nt_deferred n AND NOT 4 \<rparr>) (on_sw (switch_set (ce_board env) idx on) d)"
    by (simp add: toggle_relay_def toggle_payload_def truthy_def Let_def)
  have k: "sw_kv (sw_of d) = kv_of d" by (simp add: sw_of_def)
  show "settings_load_switch_rule j (kv_of (toggle_relay env (toggle_payload idx on) d)) = settings_load_switch_rule j (kv_of d)"
    by (simp add: t on_sw_kv switch_set_keeps k)
  show "settings_load_switch idx (kv_of d) = Some ch \<Longrightarrow> idx < 8 \<Longrightarrow>
    settings_load_switch idx (kv_of (toggle_relay env (toggle_payload idx on) d)) = Some (ch\<lparr> ch_is_energized := on \<rparr>)"
    using switch_set_keeps(2) [of idx "sw_of d" ch] by (simp add: t on_sw_kv k word_less_nat_alt)
qed

text \<open>C26: Toggling a relay from the web UI destroys its rule: whatever switch and rule are stored at \<open>idx\<close>, after the
command (its payload names only the index, the state and two flags) the stored rule has no condition, so nothing
trips the switch any more, and the stored switch has the default name and the default pin of its index.\<close>

theorem relay_toggle_wipes_rule:
  assumes "idx < 8" "0 < i" "i < 2 ^ 63"
    "jl_parse lib (jl_print lib 1024 (toggle_payload idx on)) = Some (toggle_payload idx on)"
  shows "let (alive, d') = run_cloud_command lib env (toggle_command i idx on) d in
    alive \<and>
    (\<exists>r. settings_load_switch_rule idx (kv_of d') = Some r \<and> sr_condition_count r = 0) \<and>
    (\<exists>ch. settings_load_switch idx (kv_of d') = Some ch \<and> ch_name ch = default_name idx \<and>
      ch_gpio_pin ch = default_pin env idx \<and> ch_is_energized ch = on)"
proof -
  define p where "p = toggle_payload idx on"
  define d1 where "d1 = on_kv (settings_save_switch_rule idx (cloud_rule idx p)) (on_kv (settings_save_switch idx (cloud_switch env idx p)) d)"
  define d2 where "d2 = on_net (\<lambda>n. n\<lparr> nt_deferred := nt_deferred n OR 1 \<rparr>) d1"
  have f: "jget (toggle_command i idx on) ''id'' = JInt i" "jget (toggle_command i idx on) ''payload'' = p"
    "or_text (jget (toggle_command i idx on) ''cmd_type'') '''' = ''set_relay''"
    by (simp_all add: toggle_command_def p_def or_text_def is_str_def text_of_def the_str_def)
  have "\<not> is_str p" by (simp add: p_def toggle_payload_def is_str_def)
  moreover have "apply_settings_command (jl_parse lib) env ''set_relay'' (jl_print lib 1024 p) d = (Some True, d1)"
    using assms(1,4) by (simp add: apply_settings_command_def pin_command_handlers toggle_applied d1_def p_def)
  moreover have "apply_settings_posthook env ''set_relay'' d1 = d1" by (simp add: apply_settings_posthook_def)
  ultimately have r: "run_cloud_command lib env (toggle_command i idx on) d = (True, demit (E_result i True) (toggle_relay env p d2))"
    using assms(2,3) by (simp add: run_cloud_command_def f Let_def int_in_def the_int_def d2_def)
  have w: "wf_channel (cloud_switch env idx p)" "wf_rule (cloud_rule idx p)"
    by (simp_all add: wf_cloud_switch cloud_rule_def wf_read_rule)
  have "settings_load_switch_rule idx (kv_of d2) = Some (cloud_rule idx p)"
    "settings_load_switch idx (kv_of d2) = Some (cloud_switch env idx p)"
    using w by (simp_all add: d2_def d1_def)
  then show ?thesis
    using toggle_keeps(1) [of idx env idx on d2] toggle_keeps(2) [of idx d2 "cloud_switch env idx p" env on] assms(1)
    by (simp add: r p_def [symmetric]) (simp add: p_def toggle_rule cloud_switch_def or_u8_def int_in_def)
qed

lemma relay_toggle_wipes_rule_witness:
  "\<exists>r. settings_load_switch_rule 2 (kv_of (snd (run_cloud_command (demo_lib (toggle_payload 2 True)) (demo_env 0)
     (toggle_command 5 2 True) demo_device))) = Some r \<and> sr_condition_count r = 0"
  using relay_toggle_wipes_rule [of 2 5 "demo_lib (toggle_payload 2 True)" True "demo_env 0" demo_device]
  by (simp add: case_prod_beta)

section \<open>A remote reboot and the crash counter\<close>

definition with_kv :: "device \<Rightarrow> kv \<Rightarrow> device" where
  "with_kv d s = d\<lparr> dv_nvs := (dv_nvs d)(''pm-settings'' := s) \<rparr>"

text \<open>A session that a reboot command ends, and the boot after it: the command comes from the cloud or over BLE, to a
device that holds what the last boot left in the store.\<close>

definition remote_session :: "json_lib \<Rightarrow> cmd_env \<Rightarrow> json \<Rightarrow> bytes \<Rightarrow> device \<Rightarrow> kv \<times> identity \<Rightarrow> kv \<times> identity" where
  "remote_session lib env cmd mac d x = boot mac (kv_of (snd (run_cloud_command lib env cmd (with_kv d (fst x)))))"

definition ble_session :: "cmd_env \<Rightarrow> bytes \<Rightarrow> json \<Rightarrow> bytes \<Rightarrow> device \<Rightarrow> kv \<times> identity \<Rightarrow> kv \<times> identity" where
  "ble_session env cmd doc mac d x = boot mac (kv_of (cmd_reboot env cmd doc (with_kv d (fst x))))"

definition reboot_command :: "int \<Rightarrow> bytes \<Rightarrow> json" where
  "reboot_command i buf = JObj [(''id'', JInt i), (''cmd_type'', jstr ''reboot''), (''payload'', JStr buf)]"

lemma with_kv_kv [simp]: "kv_of (with_kv d s) = s"
  by (simp add: with_kv_def)

lemma boot_frame:
  "k \<notin> {''dev_serial'', ''crash_count'', ''clean_boot_flag''} \<Longrightarrow> fst (boot mac s) k = s k"
  by (simp add: boot_eq case_prod_beta Let_def settings_save_bool_def settings_save_u32_def pf_putBool_def pf_putUInt_def
    load_serial_frame)

lemma boot_keeps_pin [simp]:
  "settings_load_ble_pin (fst (boot mac s)) = settings_load_ble_pin s"
  "settings_load_ble_fail_count (fst (boot mac s)) = settings_load_ble_fail_count s"
  by (rule pin_cell.load_local, simp add: boot_frame) (rule fail_cell.load_local, simp add: boot_frame)

lemma mark_clean_pin [simp]:
  "settings_load_ble_pin (mark_clean_shutdown s) = settings_load_ble_pin s"
  "settings_load_ble_fail_count (mark_clean_shutdown s) = settings_load_ble_fail_count s"
  by (rule pin_cell.load_local, simp add: mark_clean_shutdown_def settings_save_bool_def pf_putBool_def)
    (rule fail_cell.load_local, simp add: mark_clean_shutdown_def settings_save_bool_def pf_putBool_def)

lemma mark_clean_stored [simp]: "stored_count (mark_clean_shutdown s) = stored_count s" "stored_clean (mark_clean_shutdown s)"
  by (simp_all add: mark_clean_shutdown_def stored_save)

lemma remote_reboot_runs:
  assumes "jl_parse lib buf = Some doc" "pin_given doc = settings_load_ble_pin (kv_of d)" "length buf \<le> 1023" "0 < i" "i < 2 ^ 63"
  shows "run_cloud_command lib env (reboot_command i buf) d = (False, demit E_restart d)"
proof -
  have f: "or_text (jget (reboot_command i buf) ''cmd_type'') '''' = ''reboot''" "jget (reboot_command i buf) ''id'' = JInt i"
    "jget (reboot_command i buf) ''payload'' = JStr buf"
    by (simp_all add: reboot_command_def or_text_def is_str_def text_of_def the_str_def)
  have "apply_settings_command (jl_parse lib) env ''reboot'' buf d = (None, demit E_restart d)"
    using assms(1,2) by (simp add: apply_settings_command_def pin_command_handlers cloud_reboot_def supa_pin_ok_def Let_def)
  then show ?thesis
    using assms(3-5) by (simp add: run_cloud_command_def f Let_def int_in_def the_int_def is_str_def the_str_def)
qed

lemma ble_reboot_kv:
  assumes "pin_given doc = settings_load_ble_pin (kv_of d)" "settings_load_ble_pin (kv_of d) \<noteq> 0"
    "settings_load_ble_fail_count (kv_of d) = 0"
  shows "kv_of (cmd_reboot env cmd doc d) = mark_clean_shutdown (kv_of d)"
  using assms by (simp add: cmd_reboot_def with_pin_def check_pin_def cooling_off_def Let_def)

text \<open>The fields a reboot session keeps, as one invariant over the stores of successive sessions.\<close>

definition booted :: "json \<Rightarrow> kv \<times> identity \<Rightarrow> bool" where
  "booted doc x = (settings_load_ble_pin (fst x) = pin_given doc \<and> settings_load_ble_fail_count (fst x) = 0 \<and>
     \<not> stored_clean (fst x) \<and> stored_count (fst x) = id_crash_count (snd x))"

lemma remote_session_step:
  assumes "jl_parse lib buf = Some doc" "length buf \<le> 1023" "0 < i" "i < 2 ^ 63" "booted doc x"
  shows "booted doc (remote_session lib env (reboot_command i buf) mac d x) \<and>
    id_crash_count (snd (remote_session lib env (reboot_command i buf) mac d x)) = id_crash_count (snd x) + 1"
  using assms remote_reboot_runs [of lib buf doc "with_kv d (fst x)" i env]
  by (simp add: remote_session_def booted_def boot_count)

lemma ble_session_step:
  assumes "booted doc x" "pin_given doc \<noteq> 0"
  shows "booted doc (ble_session env cmd doc mac d x) \<and>
    id_crash_count (snd (ble_session env cmd doc mac d x)) = id_crash_count (snd x)"
  using assms ble_reboot_kv [of doc "with_kv d (fst x)" env cmd]
  by (simp add: ble_session_def booted_def boot_count)

text \<open>C27: A reboot asked for through the cloud counts as a crash, the same reboot asked for over BLE does not: after
\<open>n\<close> remote reboots the boot sees a crash count raised by \<open>n\<close>, so five of them put the device into safe mode, in
which neither channel can reach it.\<close>

theorem remote_reboots_end_in_safe_mode:
  assumes "jl_parse lib buf = Some doc" "length buf \<le> 1023" "0 < i" "i < 2 ^ 63" "pin_given doc \<noteq> 0"
    "settings_load_ble_pin s = pin_given doc" "settings_load_ble_fail_count s = 0"
  shows "let x = boot mac s; remote = remote_session lib env (reboot_command i buf) mac d; ble = ble_session env cmd doc mac d in
    id_crash_count (snd ((remote ^^ n) x)) = id_crash_count (snd x) + of_nat n \<and>
    id_crash_count (snd ((ble ^^ n) x)) = id_crash_count (snd x) \<and>
    (id_crash_count (snd x) < 5 \<longrightarrow> safe_mode (snd ((remote ^^ 5) x)))"
proof -
  define x where "x = boot mac s"
  define remote where "remote = remote_session lib env (reboot_command i buf) mac d"
  define ble where "ble = ble_session env cmd doc mac d"
  have b: "booted doc x" using assms(6,7) by (simp add: booted_def x_def boot_count)
  have r: "booted doc ((remote ^^ n) x) \<and> id_crash_count (snd ((remote ^^ n) x)) = id_crash_count (snd x) + of_nat n" for n
    by (induction n) (use b remote_session_step [OF assms(1-4)] in \<open>auto simp: remote_def algebra_simps\<close>)
  have l: "booted doc ((ble ^^ n) x) \<and> id_crash_count (snd ((ble ^^ n) x)) = id_crash_count (snd x)"
    by (induction n) (use b ble_session_step [OF _ assms(5)] in \<open>auto simp: ble_def\<close>)
  have "id_crash_count (snd x) < 5 \<Longrightarrow> 5 \<le> id_crash_count (snd x) + of_nat 5"
    by (simp add: word_less_nat_alt word_le_nat_alt unat_word_ariths)
  then show ?thesis using r [of n] l r [of 5] by (simp only: x_def [symmetric] remote_def [symmetric] ble_def [symmetric] Let_def safe_mode_def) simp
qed

text \<open>From the factory state: the first boot counts one crash already, five remote reboots end in safe mode.\<close>

lemma remote_reboots_end_in_safe_mode_witness:
  "safe_mode (snd ((remote_session (demo_lib (JObj [(''pin'', JInt 123456)])) (demo_env 0) (reboot_command 1 [])
     [1, 2, 3, 4, 5, 6] demo_device ^^ 5) (boot [1, 2, 3, 4, 5, 6] Map.empty)))"
proof -
  have p: "settings_load_ble_pin Map.empty = 123456" "settings_load_ble_fail_count Map.empty = 0"
    by (simp_all add: settings_load_ble_pin_def pf_getUInt_def settings_load_ble_fail_count_def pf_getUShort_def)
  have b: "id_crash_count (snd (boot [1, 2, 3, 4, 5, 6] Map.empty)) = 1"
    by (simp add: boot_count stored_count_def stored_clean_def settings_load_u32_def settings_load_bool_def pf_isKey_def)
  show ?thesis
    using remote_reboots_end_in_safe_mode [of "demo_lib (JObj [(''pin'', JInt 123456)])" "[]"
        "JObj [(''pin'', JInt 123456)]" 1 "Map.empty" "[1, 2, 3, 4, 5, 6]" "demo_env 0" demo_device]
    by (simp only: Let_def p b demo_lib_simps pin_given_1) simp
qed

section \<open>A burst of commands\<close>

text \<open>The backend's table of commands for one device (\<open>commands.go\<close>): a poll claims every pending row in one statement,
a reported result ends a row. Ids are assigned by the database.\<close>

datatype cmd_status = Pending | Claimed | Applied | Failed

record row =
  rw_id :: int
  rw_type :: string
  rw_payload :: json
  rw_status :: cmd_status

definition row_json :: "row \<Rightarrow> json" where
  "row_json r = JObj [(''id'', JInt (rw_id r)), (''cmd_type'', jstr (rw_type r)), (''payload'', rw_payload r)]"

definition claim_row :: "row \<Rightarrow> row" where
  "claim_row r = (if rw_status r = Pending then r\<lparr> rw_status := Claimed \<rparr> else r)"

definition get_pending_commands :: "row list \<Rightarrow> row list \<times> row list" where
  "get_pending_commands rows = (map claim_row (filter (\<lambda>r. rw_status r = Pending) rows), map claim_row rows)"

definition update_command_result :: "dev_eff \<Rightarrow> row list \<Rightarrow> row list" where
  "update_command_result e rows = (case e of
     E_result i ok \<Rightarrow> map (\<lambda>r. if rw_id r = i then r\<lparr> rw_status := if ok then Applied else Failed \<rparr> else r) rows
   | _ \<Rightarrow> rows)"

text \<open>Whether a device asks at all, and the table after its poll with the results it reported.\<close>

definition asks :: "bool \<Rightarrow> cmd_env \<Rightarrow> device \<Rightarrow> bool" where
  "asks heap_ok env d = (poll_due heap_ok env d \<and> settings_load_ota_backend_url 128 (dv_nvs d) \<noteq> None \<and>
     settings_load_supabase_device_key 64 (kv_of d) \<noteq> None \<and> settings_load_supabase_api_key 64 (kv_of d) \<noteq> None)"

definition poll_table :: "json_lib \<Rightarrow> bool \<Rightarrow> cmd_env \<Rightarrow> device \<Rightarrow> row list \<Rightarrow> row list" where
  "poll_table lib heap_ok env d rows =
    (if \<not> asks heap_ok env d then rows
     else
       let (claimed, rows1) = get_pending_commands rows;
           (alive, d1) = check_settings_commands lib heap_ok env (Some (JArr (map row_json claimed))) d
       in fold update_command_result (drop (length (dv_out d)) (dv_out d1)) rows1)"

datatype table_ev = Enqueue row | Poll bool cmd_env device

definition table_step :: "json_lib \<Rightarrow> table_ev \<Rightarrow> row list \<Rightarrow> row list" where
  "table_step lib e rows = (case e of Enqueue r \<Rightarrow> rows @ [r] | Poll heap_ok env d \<Rightarrow> poll_table lib heap_ok env d rows)"

subsection \<open>Who reports results\<close>

text \<open>\<open>d'\<close> has sent something more than \<open>d\<close>, and the results among it are for ids in \<open>ids\<close>.\<close>

fun result_ids :: "dev_eff list \<Rightarrow> int set" where
  "result_ids [] = {}"
| "result_ids (E_result i ok # es) = insert i (result_ids es)"
| "result_ids (e # es) = result_ids es"

lemma result_ids_append [simp]: "result_ids (xs @ ys) = result_ids xs \<union> result_ids ys"
  by (induction xs rule: result_ids.induct) auto

definition reports :: "int set \<Rightarrow> device \<Rightarrow> device \<Rightarrow> bool" where
  "reports ids d d' = (\<exists>new. dv_out d' = dv_out d @ new \<and> result_ids new \<subseteq> ids)"

lemma reports_refl [simp]: "dv_out d' = dv_out d \<Longrightarrow> reports ids d d'"
  by (simp add: reports_def)

lemma reports_trans: "\<lbrakk> reports A a b; reports B b c \<rbrakk> \<Longrightarrow> reports (A \<union> B) a c"
  unfolding reports_def by fastforce

lemma reports_demit [simp]: "\<lbrakk> reports ids d d'; result_ids [e] \<subseteq> ids \<rbrakk> \<Longrightarrow> reports ids d (demit e d')"
  unfolding reports_def by fastforce

lemma out_frames [simp]:
  "dv_out (on_sens f d) = dv_out d" "dv_out (on_coul g d) = dv_out d" "dv_out (on_sw h d) = dv_out d"
  "dv_out (put_bat b d) = dv_out d" "dv_out (on_bat k d) = dv_out d" "dv_out (on_cyc m d) = dv_out d"
  by (simp_all add: on_sens_def on_coul_def on_sw_def put_bat_def on_bat_def on_cyc_def Let_def)

lemma save_if_given_out [simp]: "dv_out (save_if_given sv v d) = dv_out d"
  by (simp add: save_if_given_def)

lemma cloud_handlers_report: "list_all (\<lambda>(n, h). \<forall>env doc d. reports {} d (snd (h env doc d))) cloud_handlers"
  unfolding cloud_handlers_def
  by (simp add: cloud_set_wifi_def cloud_set_mqtt_def cloud_set_http_def cloud_set_supabase_def cloud_set_shunt_def
    cloud_set_volt_ratio_def cloud_set_resistors_def cloud_set_switch_def cloud_set_battery_def cloud_set_battery_profile_def
    cloud_delete_battery_profile_def cloud_reset_battery_def cloud_set_calibration_def cloud_reset_calibration_def
    cloud_set_invert_curr_def cloud_reset_invert_curr_def cloud_reset_coulomb_def cloud_set_virtual_channel_def
    cloud_set_channel_group_def cloud_set_channel_name_def cloud_set_pin_def cloud_calibrate_baseline_def
    cloud_discover_sensors_def cloud_factory_reset_def cloud_reboot_def cloud_ota_start_def cloud_ota_check_def
    cloud_ota_status_def cloud_ota_set_interval_def cloud_ota_set_backend_url_def cloud_channel_def device_wipe_def Let_def)

lemma apply_reports: "reports {} d (snd (apply_settings_command parse env c buf d))"
  using cloud_handlers_report
  by (auto simp: apply_settings_command_def list_all_iff split: option.splits dest!: map_of_SomeD)

lemma posthook_reports: "reports {} d (apply_settings_posthook env c d)"
  by (auto simp: apply_settings_posthook_def split: option.splits)

lemma toggle_out [simp]: "dv_out (toggle_relay env p d) = dv_out d"
  by (simp add: toggle_relay_def Let_def split: json.splits)

lemma reports_same [simp]:
  "reports ids d (on_net f d') = reports ids d d'" "reports ids d (toggle_relay env p d') = reports ids d d'"
  by (simp_all add: reports_def)

lemma run_command_reports:
  assumes "jget cmd ''id'' = JInt i"
  shows "reports {i} d (snd (run_cloud_command lib env cmd d))"
proof -
  have a: "reports {i} d d1" if "apply_settings_command parse env c buf d = (r, d1)" for parse c buf r d1
    using apply_reports [of d parse env c buf] that by (auto simp: reports_def)
  have p: "reports {i} d (apply_settings_posthook env c d1)" if "reports {i} d d1" for d1 c
    using reports_trans [OF that posthook_reports [of d1 env c]] by simp
  show ?thesis
    using assms by (auto simp: run_cloud_command_def Let_def int_in_def the_int_def split: prod.splits option.splits bool.splits
      dest!: a intro!: reports_demit p)
qed

lemma run_commands_report:
  "reports (rw_id ` set rs) d (snd (run_cloud_commands lib env (map row_json rs) d))"
proof (induction rs arbitrary: d)
  case (Cons r rs)
  have r: "reports {rw_id r} d (snd (run_cloud_command lib env (row_json r) d))"
    by (rule run_command_reports) (simp add: row_json_def)
  obtain alive d1 where c: "run_cloud_command lib env (row_json r) d = (alive, d1)" by force
  have "reports ({rw_id r} \<union> rw_id ` set rs) d (snd (run_cloud_commands lib env (map row_json rs) d1))"
    using reports_trans [OF _ Cons.IH [of d1], of "{rw_id r}" d] r c by simp
  moreover have "reports ({rw_id r} \<union> rw_id ` set rs) d d1" using r c by (auto simp: reports_def)
  ultimately show ?case by (cases alive) (simp_all add: c)
qed simp

subsection \<open>A claimed row that was not run\<close>

text \<open>\<open>r\<close> is in the table, claimed, and no other row has its id.\<close>

definition lost_row :: "row \<Rightarrow> row list \<Rightarrow> bool" where
  "lost_row r rows = (rw_status r = Claimed \<and> r \<in> set rows \<and> (\<forall>s \<in> set rows. rw_id s = rw_id r \<longrightarrow> s = r))"

lemma claim_row_simps [simp]: "rw_id (claim_row r) = rw_id r" "rw_status r = Claimed \<Longrightarrow> claim_row r = r"
  by (simp_all add: claim_row_def)

lemma lost_row_claim: "lost_row r rows \<Longrightarrow> lost_row r (map claim_row rows)"
  unfolding lost_row_def by (auto intro: rev_image_eqI)

lemma lost_row_result: "\<lbrakk> lost_row r rows; rw_id r \<notin> result_ids [e] \<rbrakk> \<Longrightarrow> lost_row r (update_command_result e rows)"
  unfolding lost_row_def update_command_result_def by (cases e) (auto simp: image_iff)

lemma lost_row_results: "\<lbrakk> lost_row r rows; rw_id r \<notin> result_ids es \<rbrakk> \<Longrightarrow> lost_row r (fold update_command_result es rows)"
proof (induction es arbitrary: rows)
  case (Cons e es)
  have "rw_id r \<notin> result_ids [e]" "rw_id r \<notin> result_ids es" using Cons.prems(2) by (cases e; simp)+
  then show ?case using Cons lost_row_result by simp
qed simp

lemma check_reports:
  assumes "asks heap_ok env d"
  shows "reports (rw_id ` set (take 4 rs)) d (snd (check_settings_commands lib heap_ok env (Some (JArr (map row_json rs))) d))"
proof -
  have "reports (rw_id ` set (take 4 rs)) (d\<lparr> dv_last_poll := ce_now env \<rparr>)
      (snd (run_cloud_commands lib env (map row_json (take 4 rs)) (d\<lparr> dv_last_poll := ce_now env \<rparr>)))"
    by (rule run_commands_report)
  then show ?thesis
    using assms by (simp add: check_settings_commands_def asks_def Let_def take_map reports_def)
qed

lemma poll_results:
  assumes "asks heap_ok env d" "rw_id r \<notin> rw_id ` set (take 4 (filter (\<lambda>r. rw_status r = Pending) rows))"
    "lost_row r (map claim_row rows)"
  shows "lost_row r (poll_table lib heap_ok env d rows)"
proof -
  define claimed where "claimed = map claim_row (filter (\<lambda>r. rw_status r = Pending) rows)"
  obtain new where n: "dv_out (snd (check_settings_commands lib heap_ok env (Some (JArr (map row_json claimed))) d)) = dv_out d @ new"
    "result_ids new \<subseteq> rw_id ` set (take 4 claimed)"
    using check_reports [OF assms(1)] unfolding reports_def by blast
  have "rw_id ` set (take 4 claimed) = rw_id ` set (take 4 (filter (\<lambda>r. rw_status r = Pending) rows))"
    by (simp add: claimed_def take_map image_image)
  then have "rw_id r \<notin> result_ids new" using n(2) assms(2) by auto
  then have "lost_row r (fold update_command_result new (map claim_row rows))" using assms(3) lost_row_results by simp
  then show ?thesis
    using assms(1) n(1) by (simp add: poll_table_def get_pending_commands_def case_prod_beta claimed_def [symmetric])
qed

lemma lost_row_step:
  assumes "lost_row r rows" "\<And>s. e = Enqueue s \<Longrightarrow> rw_id s \<noteq> rw_id r"
  shows "lost_row r (table_step lib e rows)"
proof (cases e)
  case (Enqueue s)
  then show ?thesis using assms by (auto simp: table_step_def lost_row_def)
next
  case (Poll heap_ok env d)
  have "rw_id r \<notin> rw_id ` set (take 4 (filter (\<lambda>r. rw_status r = Pending) rows))"
  proof
    assume "rw_id r \<in> rw_id ` set (take 4 (filter (\<lambda>r. rw_status r = Pending) rows))"
    then obtain s where "rw_id s = rw_id r" "s \<in> set rows" "rw_status s = Pending" by (auto dest: in_set_takeD)
    then show False using assms(1) unfolding lost_row_def by auto
  qed
  then show ?thesis
    using poll_results [of heap_ok env d r rows lib] lost_row_claim [OF assms(1)] assms(1)
    by (cases "asks heap_ok env d") (simp_all add: table_step_def Poll poll_table_def)
qed

text \<open>C25: A burst of more than four commands loses the rest: the poll claims every pending row, the device runs the
first four and drops the others, and a dropped row stays claimed for ever -- whatever is queued and polled later, it
is never handed out again and no result for it is ever reported.\<close>

theorem burst_loses_commands:
  assumes "asks heap_ok env d" "distinct (map rw_id rows)" "r \<in> set (drop 4 (filter (\<lambda>r. rw_status r = Pending) rows))"
    "\<forall>s. Enqueue s \<in> set evs \<longrightarrow> rw_id s \<noteq> rw_id r"
  shows "let rows' = fold (table_step lib) (Poll heap_ok env d # evs) rows in
    r\<lparr> rw_status := Claimed \<rparr> \<in> set rows' \<and> rw_id r \<notin> rw_id ` set (fst (get_pending_commands rows'))"
proof -
  define c where "c = r\<lparr> rw_status := Claimed \<rparr>"
  define pend where "pend = filter (\<lambda>r. rw_status r = Pending) rows"
  have d: "distinct (map rw_id pend)" using assms(2) by (simp add: pend_def distinct_map_filter)
  have rp: "r \<in> set rows" "rw_status r = Pending" using assms(3) by (auto dest!: in_set_dropD)
  have "distinct (map rw_id (take 4 pend @ drop 4 pend))" using d by simp
  then have nt: "rw_id c \<notin> rw_id ` set (take 4 pend)" using assms(3) by (auto simp: c_def pend_def simp del: append_take_drop_id)
  have cr: "claim_row r = c" using rp by (simp add: claim_row_def c_def)
  have "s = r" if "s \<in> set rows" "rw_id s = rw_id r" for s
    using assms(2) that rp(1) by (auto simp: distinct_map dest: inj_onD)
  then have "lost_row c (map claim_row rows)"
    using rp(1) cr by (auto simp: lost_row_def c_def intro: rev_image_eqI)
  then have "lost_row c (poll_table lib heap_ok env d rows)"
    using poll_results [OF assms(1), of c rows lib] nt by (simp add: pend_def)
  moreover have "lost_row c rows0 \<Longrightarrow> lost_row c (fold (table_step lib) es rows0)" if "set es \<subseteq> set evs" for es rows0
    using that
  proof (induction es arbitrary: rows0)
    case (Cons e es)
    have "\<And>s. e = Enqueue s \<Longrightarrow> rw_id s \<noteq> rw_id c" using assms(4) Cons.prems(2) by (auto simp: c_def)
    then have "lost_row c (table_step lib e rows0)" using lost_row_step Cons.prems(1) by blast
    then show ?case using Cons.IH Cons.prems(2) by simp
  qed simp
  ultimately have "lost_row c (fold (table_step lib) (Poll heap_ok env d # evs) rows)" by (simp add: table_step_def)
  then show ?thesis
    unfolding Let_def lost_row_def get_pending_commands_def by (auto simp: c_def)
qed

text \<open>Five identical commands: the fifth is lost.\<close>

definition demo_rows :: "row list" where
  "demo_rows = map (\<lambda>i. \<lparr> rw_id = i, rw_type = ''ota_status'', rw_payload = JObj [], rw_status = Pending \<rparr>) [1, 2, 3, 4, 5]"

definition online_device :: device where
  "online_device = demo_device\<lparr> dv_nvs := (\<lambda>_. [''backend_url'' \<mapsto> [1], ''supa_dev'' \<mapsto> [1], ''supa_api'' \<mapsto> [1]]) \<rparr>"

lemma online_asks: "asks True (demo_env 5000) online_device"
  by (simp add: asks_def poll_due_def online_device_def settings_load_ota_backend_url_def pf_getStringD_def c_str_def
    settings_load_supabase_device_key_def settings_load_supabase_api_key_def load_key_string_def pf_isKey_def)
    (simp add: demo_env_def demo_device_def net0_def)

lemma burst_loses_commands_witness:
  "\<lparr> rw_id = 5, rw_type = ''ota_status'', rw_payload = JObj [], rw_status = Claimed \<rparr> \<in>
    set (fold (table_step (demo_lib (JObj []))) [Poll True (demo_env 5000) online_device, Poll True (demo_env 5000) online_device] demo_rows)"
  using burst_loses_commands [of True "demo_env 5000" online_device demo_rows
      "\<lparr> rw_id = 5, rw_type = ''ota_status'', rw_payload = JObj [], rw_status = Pending \<rparr>"
      "[Poll True (demo_env 5000) online_device]" "demo_lib (JObj [])"] online_asks
  by (simp add: demo_rows_def Let_def)

section \<open>The token buffer\<close>

text \<open>\<open>get_http\<close> and \<open>publish_data_http\<close> declare \<open>char token[64]\<close> and load it with the length of the URL's buffer.\<close>

definition http_token_buf :: nat where "http_token_buf = 64"

lemma stored_token:
  assumes "length tok \<le> 127"
  shows "settings_load_http_endpoint 128 (settings_save_http_enabled en (settings_save_http_endpoint url tok s)) =
    Some (pf_getString (settings_save_http_endpoint url tok s) ''http_url'' 128, tok)"
  using assms by (simp add: settings_load_http_endpoint_def settings_save_http_enabled_def settings_save_http_endpoint_def
    pf_isKey_def pf_getString_def pf_putString_def pf_putBool_def)

text \<open>Setting the HTTP endpoint accepts a token of any length, and loading one of 64 to 127 bytes, as \<open>get_http\<close> and
every HTTP publication do, writes behind the 64-byte buffer.\<close>

theorem http_token_overrun:
  assumes "truthy (jget doc ''url'')" "jget doc ''token'' = JStr tok" "64 \<le> length tok" "length tok \<le> 127"
  shows "fst (cloud_set_http env doc d) = Some True \<and>
    (\<exists>url token. settings_load_http_endpoint 128 (kv_of (snd (cloud_set_http env doc d))) = Some (url, token) \<and>
       token = tok \<and> http_token_buf < length token + 1)"
  using assms stored_token [OF assms(4)]
  by (simp add: cloud_set_http_def or_str_def http_token_buf_def)

lemma http_token_overrun_witness:
  "fst (cloud_set_http (demo_env 0) (JObj [(''url'', jstr ''http://h''), (''token'', JStr (replicate 80 65))]) demo_device) = Some True \<and>
   (\<exists>url token. settings_load_http_endpoint 128 (kv_of (snd (cloud_set_http (demo_env 0)
      (JObj [(''url'', jstr ''http://h''), (''token'', JStr (replicate 80 65))]) demo_device))) = Some (url, token) \<and>
       token = replicate 80 65 \<and> http_token_buf < length token + 1)"
  by (rule http_token_overrun) (simp_all add: truthy_def)

end
