(* ===== verification/Switch_Readback.thy ===== *)
theory Switch_Readback
  imports Ble_Commands
begin

text \<open>
  The two shapes of a rule payload and the way back: the legacy flat shape stores what the list shape would store, and
  a rule shown by \<open>get_switch\<close> and posted back to \<open>set_switch\<close> is stored as it was, up to one field.
\<close>

section \<open>Numbers and names read back\<close>

lemma or_int_jw: "or_int (jw (w :: 'a::len word)) n = (if uint w < 2 ^ 31 then uint w else n)"
proof -
  have "- (2 ^ 31) \<le> uint w" using uint_ge_0 [of w] by (rule order_trans [rotated]) simp
  then show ?thesis by (auto simp: or_int_def is_int_def int_in_def the_int_def)
qed

lemma small_uint: "uint (w :: u8) < 2 ^ 31" "uint (v :: u16) < 2 ^ 31"
  using unsigned_less [of w, where ?'a = int] unsigned_less [of v, where ?'a = int] by simp_all

lemma jw_back [simp]:
  "u8_or (jw w) n = w" "u16_or (jw v) n = v" "or_u8 (jw w) w0 = w"
  using small_uint(1) [of w] small_uint(2) [of v] unsigned_less [of w, where ?'a = int] uint_ge_0 [of w]
  by (simp_all add: u8_or_def u16_or_def or_int_jw or_u8_def int_in_def the_int_def)

lemma text_jstr [simp]: "or_text (jstr s) t = s" "is_str (jstr s)" "text_of (jstr s) = s"
  by (simp_all add: or_text_def is_str_def text_of_def the_str_def)

text \<open>Conditions with a known kind and operator, and no schedule where none is used.\<close>

definition known_cond :: "SwitchCondition \<Rightarrow> bool" where
  "known_cond c = (cd_kind c \<in> {SCK_OVERCURRENT, SCK_UNDERVOLTAGE, SCK_SOC_LOW, SCK_SOC_HIGH, SCK_CHANNEL_ABOVE,
       SCK_CHANNEL_BELOW, SCK_SCHEDULE_WINDOW, SCK_DISABLED} \<and>
     cd_op c \<in> {SCO_GT, SCO_LT, SCO_GTE, SCO_LTE, SCO_EQ} \<and> wf_cond c)"

definition norm_cond :: "SwitchCondition \<Rightarrow> SwitchCondition" where
  "norm_cond c = (if cd_kind c = SCK_SCHEDULE_WINDOW then c else c\<lparr> cd_schedule_mask := replicate 21 0 \<rparr>)"

lemma if_in: "\<lbrakk> x \<in> S; y \<in> S \<rbrakk> \<Longrightarrow> (if b then x else y) \<in> S"
  by simp

lemma cond_kind_known: "cond_kind k \<in> {SCK_OVERCURRENT, SCK_UNDERVOLTAGE, SCK_SOC_LOW, SCK_SOC_HIGH, SCK_CHANNEL_ABOVE,
       SCK_CHANNEL_BELOW, SCK_SCHEDULE_WINDOW, SCK_DISABLED}"
  unfolding cond_kind_def by (intro if_in) simp_all

lemma op_known:
  assumes "op_of \<in> {ble_op, cloud_op}" shows "op_of p \<in> {SCO_GT, SCO_LT, SCO_GTE, SCO_LTE, SCO_EQ}"
proof -
  have "ble_op p \<in> {SCO_GT, SCO_LT, SCO_GTE, SCO_LTE, SCO_EQ}" unfolding ble_op_def by (intro if_in) simp_all
  moreover have "cloud_op p \<in> {SCO_GT, SCO_LT, SCO_GTE, SCO_LTE, SCO_EQ}" unfolding cloud_op_def by (intro if_in) simp_all
  ultimately show ?thesis using assms by blast
qed

lemma kind_name_back:
  "k \<in> {SCK_OVERCURRENT, SCK_UNDERVOLTAGE, SCK_SOC_LOW, SCK_SOC_HIGH, SCK_CHANNEL_ABOVE, SCK_CHANNEL_BELOW,
     SCK_SCHEDULE_WINDOW, SCK_DISABLED} \<Longrightarrow> cond_kind (switch_condition_kind_name k) = k"
  unfolding insert_iff by (elim disjE) (simp_all add: cond_kind_def switch_condition_kind_name_def)

lemma op_name_back:
  assumes "op_of \<in> {ble_op, cloud_op}" "p \<in> {SCO_GT, SCO_LT, SCO_GTE, SCO_LTE, SCO_EQ}"
  shows "op_of (switch_condition_op_name p) = p"
  using assms unfolding insert_iff
  by (elim disjE emptyE; simp add: ble_op_def cloud_op_def switch_condition_op_name_def)

lemma read_known: "op_of \<in> {ble_op, cloud_op} \<Longrightarrow> known_cond (read_cond op_of co)"
  using op_known cond_kind_known wf_read_cond [of op_of co] unfolding known_cond_def by (simp add: read_cond_def)

lemma flat_known: "c \<in> set (flat_conds doc) \<Longrightarrow> known_cond c \<and> norm_cond c = c"
  by (auto simp: flat_conds_def Let_def flat_cond_def known_cond_def norm_cond_def wf_cond_def cond0_def split: if_splits)

lemma read_known_conds: "op_of \<in> {ble_op, cloud_op} \<Longrightarrow> c \<in> set (read_conds op_of doc) \<Longrightarrow> known_cond c"
  using read_known flat_known by (auto simp: read_conds_def split: json.splits)

section \<open>Showing and reading a condition\<close>

lemma mask_back: "length m = 21 \<Longrightarrow> read_mask (JArr (map jw m)) = m"
proof -
  assume l: "length (m :: bytes) = 21"
  have "word_of_int (as_uint 8 (jw w)) = w" for w :: u8
    using unsigned_less [of w, where ?'a = int] uint_ge_0 [of w] by (simp add: as_uint_def)
  then have "map (\<lambda>j. word_of_int (as_uint 8 j)) (map jw m) = m" by (induction m) simp_all
  then show ?thesis using l by (simp add: read_mask_def fit_def)
qed

lemma ref_back: "word_of_int (or_int (JInt (sint (r :: i8))) (- 1)) = r"
proof -
  have "- 128 \<le> sint r" "sint r \<le> 127" using sint_ge [of r] sint_lt [of r] by simp_all
  then show ?thesis by (simp add: or_int_def is_int_def int_in_def the_int_def)
qed

lemma read_show_cond:
  assumes "op_of \<in> {ble_op, cloud_op}" "known_cond c"
  shows "read_cond op_of (show_cond c) = norm_cond c"
proof -
  have "cond_kind (switch_condition_kind_name (cd_kind c)) = cd_kind c" "op_of (switch_condition_op_name (cd_op c)) = cd_op c"
    using assms kind_name_back op_name_back by (simp_all add: known_cond_def)
  then show ?thesis
    using assms(2) by (simp add: read_cond_def show_cond_def ref_back or_float_def norm_cond_def known_cond_def wf_cond_def
      mask_back) (simp add: read_mask_def)
qed

section \<open>Rules\<close>

definition norm_rule :: "SwitchRule \<Rightarrow> SwitchRule" where
  "norm_rule r = r\<lparr> sr_conditions := map norm_cond (sr_conditions r) \<rparr>"

lemma norm_cond0 [simp]: "norm_cond cond0 = cond0"
  by (simp add: norm_cond_def cond0_def)

lemma fit_map_norm: "fit 4 cond0 (map norm_cond cs) = map norm_cond (fit 4 cond0 cs)"
  by (simp add: fit_def take_map)

lemma read_shown_conds:
  assumes "op_of \<in> {ble_op, cloud_op}" "\<forall>c \<in> set cs. known_cond c" "length cs \<le> 4"
    "jget doc ''conditions'' = JArr (map show_cond cs)"
  shows "read_conds op_of doc = map norm_cond cs"
  using assms by (auto simp: read_conds_def read_show_cond comp_def)



text \<open>What \<open>get_switch\<close> shows of a stored rule, posted back to \<open>set_switch\<close>, stores that rule again (schedules nobody
uses are cleared) but for one field: \<open>rule_enabled\<close> is shown as a number and read back as a boolean, so a disabled
rule comes back enabled.\<close>

theorem rule_readback_enables:
  assumes "op_of \<in> {ble_op, cloud_op}"
  shows "let r = read_rule op_of chan en idx doc; shown = show_switch idx ch r in
    read_rule ble_op (or_u8 (jget shown ''channel'') idx) (or_bool (jget shown ''rule_enabled'') True) idx shown =
      (norm_rule r)\<lparr> sr_enabled := 1 \<rparr>"
proof -
  define cs where "cs = read_conds op_of doc"
  define r where "r = read_rule op_of chan en idx doc"
  define shown where "shown = show_switch idx ch r"
  have cs: "\<forall>c \<in> set cs. known_cond c" "length cs \<le> 4"
    using read_known_conds [OF assms] read_conds_ok by (auto simp: cs_def)
  have r: "sr_condition_count r = of_nat (length cs)" "sr_conditions r = fit 4 cond0 cs" "sr_logic r \<in> {0, SL_AND}"
    "sr_switch_idx r = idx" "sr_condition_latched r = replicate 4 False"
    by (simp_all add: r_def read_rule_def cs_def Let_def)
  have n: "min 4 (unat (sr_condition_count r)) = length cs"
    using cs(2) by (simp add: r unat_of_nat take_bit_nat_eq_self)
  have t: "take (length cs) (fit 4 cond0 cs) = cs" using cs(2) by (simp add: fit_def)
  have f: "jget shown ''conditions'' = JArr (map show_cond cs)" "jget shown ''channel'' = jw (sr_channel r)"
    "jget shown ''trip_delay_ms'' = jw (sr_trip_delay_ms r)" "jget shown ''reset_delay_ms'' = jw (sr_reset_delay_ms r)"
    "jget shown ''logic'' = jstr (if sr_logic r = SL_AND then ''AND'' else ''OR'')"
    "jget shown ''min_conditions'' = jw (sr_min_conditions r)" "jget shown ''rule_enabled'' = jw (sr_enabled r)"
    "jget shown ''hysteresis'' = JReal (sr_hysteresis r)"
    by (simp_all add: shown_def show_switch_def n r(2) t)
  have c: "read_conds ble_op shown = map norm_cond cs"
    by (rule read_shown_conds) (use cs f in simp_all)
  have l: "length (map norm_cond cs) = length cs" by simp
  have "read_rule ble_op (or_u8 (jget shown ''channel'') idx) (or_bool (jget shown ''rule_enabled'') True) idx shown =
      (norm_rule r)\<lparr> sr_enabled := 1 \<rparr>"
    using r(3) by (auto simp: read_rule_def Let_def c f or_bool_def or_float_def norm_rule_def r fit_map_norm b8_def
      intro!: SwitchRule.equality)
  then show ?thesis by (simp add: Let_def r_def shown_def)
qed

text \<open>A disabled rule shown and posted back.\<close>

lemma rule_readback_enables_witness:
  "let r = read_rule ble_op 3 False 3 (JObj []); shown = show_switch 3 (default_switch esp32c3 3) r in
    sr_enabled r = 0 \<and>
    sr_enabled (read_rule ble_op (or_u8 (jget shown ''channel'') 3) (or_bool (jget shown ''rule_enabled'') True) 3 shown) = 1"
  using rule_readback_enables [of ble_op 3 False 3 "JObj []" "default_switch esp32c3 3"]
  by (simp add: Let_def) (simp add: read_rule_def Let_def b8_def)

end
