(* ===== verification/Ui.thy ===== *)
theory Ui
  imports Ble_Security "HOL-Library.Sublist"
begin

text \<open>
  \<open>ui_manager.cpp\<close>: four buttons (debounce, short, double and long presses) and three status LEDs, sampled by
  \<open>loop_ui\<close> about every 50 ms. The pins come from the board header (\<open>-1\<close> is unmapped). \<open>digitalRead\<close> is the argument
  \<open>level\<close>; the last level written to each LED pin is \<open>ui_out\<close>, separate from the levels of the switch driver. The
  buttons' actions run on the device. The theorem at the end bounds what the readings must have been for the factory
  reset to happen.
\<close>

section \<open>State\<close>

record button =
  bn_pin :: u8
  bn_last_raw :: bool
  bn_stable :: bool
  bn_last_change :: u32
  bn_press_start :: u32
  bn_last_release :: u32
  bn_pending_short :: bool
  bn_pending_long :: bool
  bn_pending_double :: bool
  bn_long_fired :: bool

datatype LedPattern = LED_OFF | LED_ON | LED_SLOW_BLINK | LED_FAST_BLINK | LED_PULSE

record led =
  ld_pin :: u8
  ld_pattern :: LedPattern
  ld_current :: bool
  ld_last_toggle :: u32

record ui =
  ui_buttons :: "button list"
  ui_leds :: "led list"
  ui_next_page :: i8
  ui_wifi :: bool
  ui_cloud :: bool
  ui_fault :: bool
  ui_healthy :: bool
  ui_out :: "u8 \<Rightarrow> bool"

text \<open>The board's pins: the buttons, then the network, error and OK LEDs.\<close>

record ui_pins =
  up_buttons :: "int list"
  up_leds :: "int list"

definition esp32c3_ui :: ui_pins where
  "esp32c3_ui = \<lparr> up_buttons = [0, - 1, - 1, - 1], up_leds = [2, - 1, - 1] \<rparr>"

definition esp32dev_ui :: ui_pins where
  "esp32dev_ui = \<lparr> up_buttons = [0, - 1, - 1, - 1], up_leds = [2, - 1, - 1] \<rparr>"

definition esp32s3_ui :: ui_pins where
  "esp32s3_ui = \<lparr> up_buttons = [0, - 1, - 1, - 1], up_leds = [48, - 1, - 1] \<rparr>"

definition button0 :: button where
  "button0 = \<lparr> bn_pin = 0, bn_last_raw = False, bn_stable = False, bn_last_change = 0, bn_press_start = 0,
     bn_last_release = 0, bn_pending_short = False, bn_pending_long = False, bn_pending_double = False,
     bn_long_fired = False \<rparr>"

definition led0 :: led where
  "led0 = \<lparr> ld_pin = 0, ld_pattern = LED_OFF, ld_current = False, ld_last_toggle = 0 \<rparr>"

definition ui0 :: ui where
  "ui0 = \<lparr> ui_buttons = replicate 4 button0, ui_leds = replicate 3 led0, ui_next_page = - 1, ui_wifi = False,
     ui_cloud = False, ui_fault = False, ui_healthy = False, ui_out = (\<lambda>_. False) \<rparr>"

section \<open>Start\<close>

definition mapped_pin :: "int \<Rightarrow> u8" where
  "mapped_pin p = (if 0 \<le> p then word_of_int p else 255)"

definition init_button :: "(u8 \<Rightarrow> bool) \<Rightarrow> int \<Rightarrow> button \<Rightarrow> button" where
  "init_button level p b =
    (let pin = mapped_pin p; raw = \<not> level pin in
     if pin \<noteq> 255 then b\<lparr> bn_pin := pin, bn_last_raw := raw, bn_stable := raw \<rparr> else b\<lparr> bn_pin := pin \<rparr>)"

definition write_leds :: "(u8 \<times> bool) list \<Rightarrow> (u8 \<Rightarrow> bool) \<Rightarrow> u8 \<Rightarrow> bool" where
  "write_leds = fold (\<lambda>(pin, v) out. if pin \<noteq> 255 then out(pin := v) else out)"

definition init_ui :: "ui_pins \<Rightarrow> (u8 \<Rightarrow> bool) \<Rightarrow> ui \<Rightarrow> ui" where
  "init_ui p level u =
    u\<lparr> ui_buttons := map2 (init_button level) (up_buttons p) (ui_buttons u),
       ui_leds := map2 (\<lambda>q l. l\<lparr> ld_pin := mapped_pin q \<rparr>) (up_leds p) (ui_leds u),
       ui_out := write_leds (map (\<lambda>q. (mapped_pin q, False)) (up_leds p)) (ui_out u) \<rparr>"

section \<open>Status\<close>

definition ui_set_led :: "u8 \<Rightarrow> LedPattern \<Rightarrow> ui \<Rightarrow> ui" where
  "ui_set_led i pat u =
    (if 3 \<le> i then u
     else u\<lparr> ui_leds := (ui_leds u)[unat i := (ui_leds u ! unat i)\<lparr> ld_pattern := pat \<rparr>] \<rparr>)"

definition ui_set_network_status :: "bool \<Rightarrow> bool \<Rightarrow> ui \<Rightarrow> ui" where
  "ui_set_network_status wifi cloud u =
    (let u1 = u\<lparr> ui_wifi := wifi, ui_cloud := cloud \<rparr> in
     if \<not> wifi then ui_set_led 0 LED_SLOW_BLINK u1
     else if \<not> cloud then ui_set_led 0 LED_FAST_BLINK u1
     else ui_set_led 0 LED_ON u1)"

definition ui_set_fault :: "bool \<Rightarrow> ui \<Rightarrow> ui" where
  "ui_set_fault f u = ui_set_led 1 (if f then LED_ON else LED_OFF) (u\<lparr> ui_fault := f \<rparr>)"

definition ui_set_heartbeat :: "bool \<Rightarrow> ui \<Rightarrow> ui" where
  "ui_set_heartbeat h u = ui_set_led 2 (if h then LED_PULSE else LED_OFF) (u\<lparr> ui_healthy := h \<rparr>)"

definition blink :: "u32 \<Rightarrow> u32 \<Rightarrow> led \<Rightarrow> led" where
  "blink period now l =
    (if period \<le> now - ld_last_toggle l then l\<lparr> ld_last_toggle := now, ld_current := \<not> ld_current l \<rparr> else l)"

text \<open>One LED: its new state and the level written.\<close>

definition update_led :: "u32 \<Rightarrow> led \<Rightarrow> led \<times> bool" where
  "update_led now l =
    (case ld_pattern l of
       LED_OFF \<Rightarrow> (l, False)
     | LED_ON \<Rightarrow> (l, True)
     | LED_SLOW_BLINK \<Rightarrow> (let l' = blink 500 now l in (l', ld_current l'))
     | LED_FAST_BLINK \<Rightarrow> (let l' = blink 125 now l in (l', ld_current l'))
     | LED_PULSE \<Rightarrow> (l, (now div 250) mod 2 = 0))"

definition update_leds :: "u32 \<Rightarrow> ui \<Rightarrow> ui" where
  "update_leds now u =
    u\<lparr> ui_leds := map (\<lambda>l. if ld_pin l = 255 then l else fst (update_led now l)) (ui_leds u),
       ui_out := write_leds (map (\<lambda>l. (ld_pin l, snd (update_led now l))) (ui_leds u)) (ui_out u) \<rparr>"

section \<open>Buttons\<close>

text \<open>One sample of one button. A release within 300 ms of the last one is a double press, which no action reads.\<close>

definition button_debounce :: "u32 \<Rightarrow> bool \<Rightarrow> button \<Rightarrow> button" where
  "button_debounce now raw b =
    (if 20 \<le> now - bn_last_change b \<and> raw \<noteq> bn_stable b then
       if raw then b\<lparr> bn_stable := True, bn_press_start := now, bn_long_fired := False \<rparr>
       else
         let dur = now - bn_press_start b; short = dur < 5000 \<and> 30 \<le> dur; again = now - bn_last_release b < 300
         in b\<lparr> bn_stable := False,
               bn_pending_double := bn_pending_double b \<or> short \<and> again,
               bn_pending_short := bn_pending_short b \<or> short \<and> \<not> again,
               bn_last_release := now \<rparr>
     else b)"

definition button_sample :: "u32 \<Rightarrow> bool \<Rightarrow> button \<Rightarrow> button" where
  "button_sample now raw b =
    (let b1 = (if raw \<noteq> bn_last_raw b then b\<lparr> bn_last_change := now, bn_last_raw := raw \<rparr> else b);
         b2 = button_debounce now raw b1
     in if bn_stable b2 \<and> 5000 \<le> now - bn_press_start b2 \<and> \<not> bn_long_fired b2
        then b2\<lparr> bn_pending_long := True, bn_long_fired := True \<rparr> else b2)"

text \<open>The actions; the baseline calibration behind the third button's short press is compiled out. The wipe by button
restarts without marking a clean shutdown.\<close>

definition handle_button_event :: "cmd_env \<Rightarrow> nat \<Rightarrow> bool \<Rightarrow> bool \<Rightarrow> bool \<Rightarrow> ui \<times> device \<Rightarrow> ui \<times> device" where
  "handle_button_event env i short long dbl s =
    (let (u, d) = s;
         (u1, d1) =
           (if short \<and> i = 0 then (u\<lparr> ui_next_page := 1 \<rparr>, d)
            else if short \<and> i = 1 then (u, on_sw (switch_set (ce_board env) 0 (\<not> get_switch_state (sw_of d) 0)) d)
            else (u, d))
     in if long \<and> i = 2 then (u1, on_sens (discover_sensors (ce_probe env)) d1)
        else if long \<and> i = 3 then (u1, demit E_restart (device_wipe env d1))
        else (u1, d1))"

definition sample_buttons :: "u32 \<Rightarrow> (u8 \<Rightarrow> bool) \<Rightarrow> button list \<Rightarrow> button list" where
  "sample_buttons now level = map (\<lambda>b. if bn_pin b = 255 then b else button_sample now (\<not> level (bn_pin b)) b)"

definition button_event :: "cmd_env \<Rightarrow> nat \<Rightarrow> ui \<times> device \<Rightarrow> ui \<times> device" where
  "button_event env i s =
    (let b = ui_buttons (fst s) ! i; sh = bn_pending_short b; lo = bn_pending_long b; db = bn_pending_double b;
         b' = b\<lparr> bn_pending_short := False, bn_pending_long := False, bn_pending_double := False \<rparr>;
         s' = ((fst s)\<lparr> ui_buttons := (ui_buttons (fst s))[i := b'] \<rparr>, snd s)
     in if sh \<or> lo \<or> db then handle_button_event env i sh lo db s' else s')"

definition loop_ui :: "cmd_env \<Rightarrow> (u8 \<Rightarrow> bool) \<Rightarrow> ui \<times> device \<Rightarrow> ui \<times> device" where
  "loop_ui env level s =
    (let now = ce_now env; u = fst s;
         s1 = (u\<lparr> ui_buttons := sample_buttons now level (ui_buttons u) \<rparr>, snd s);
         s2 = fold (button_event env) [0..<length (ui_buttons u)] s1
     in (update_leds now (fst s2), snd s2))"

text \<open>Asked by the display: true once after a short press of the first button.\<close>

definition ui_next_display_page :: "ui \<Rightarrow> bool \<times> ui" where
  "ui_next_display_page u = (if 0 <s ui_next_page u then (True, u\<lparr> ui_next_page := 0 \<rparr>) else (False, u))"

section \<open>What a factory reset by button needs\<close>

text \<open>A trace is what the loop read: the time in milliseconds and whether the button was down. \<open>held_down n\<close>: the trace ends
in a stretch of at least \<open>n\<close> ms that starts with the button down and never has it up in two readings in a row (a single
reading up is a bounce). \<open>paced\<close>: readings lie at least the debounce time and less than one turn of the clock apart.\<close>

definition steady :: "(nat \<times> bool) list \<Rightarrow> bool" where
  "steady vs = (vs \<noteq> [] \<and> snd (hd vs) \<and> successively (\<lambda>x y. snd x \<or> snd y) vs)"

definition held_down :: "nat \<Rightarrow> (nat \<times> bool) list \<Rightarrow> bool" where
  "held_down n xs = list_ex (\<lambda>vs. steady vs \<and> fst (hd vs) + n \<le> fst (last vs)) (suffixes xs)"

definition paced :: "nat list \<Rightarrow> bool" where
  "paced ts = successively (\<lambda>t t'. t + 20 \<le> t' \<and> t' < t + 2 ^ 32) ts"

definition ui_tick :: "cmd_env \<Rightarrow> nat \<times> (u8 \<Rightarrow> bool) \<Rightarrow> ui \<times> device \<Rightarrow> ui \<times> device" where
  "ui_tick env x = loop_ui (env\<lparr> ce_now := of_nat (fst x) \<rparr>) (snd x)"

definition ui_run :: "cmd_env \<Rightarrow> (nat \<times> (u8 \<Rightarrow> bool)) list \<Rightarrow> ui \<times> device \<Rightarrow> ui \<times> device" where
  "ui_run env = fold (ui_tick env)"

abbreviation button_clear :: "button \<Rightarrow> button" where
  "button_clear b \<equiv> b\<lparr> bn_pending_short := False, bn_pending_long := False, bn_pending_double := False \<rparr>"

lemma steady_snoc:
  assumes "steady vs" "snd (last vs) \<or> snd x"
  shows "steady (vs @ [x])"
  using assms by (auto simp: steady_def successively_append_iff)

lemma elapsed_nat:
  fixes t t' :: nat
  assumes "t \<le> t'"
  shows "(of_nat t' - of_nat t :: u32) = of_nat (t' - t)"
  using assms by (simp add: of_nat_diff)

lemma elapsed_le:
  fixes t t' :: nat
  assumes "t \<le> t'" "(of_nat n :: u32) \<le> of_nat t' - of_nat t" "n < 2 ^ 32"
  shows "t + n \<le> t'"
proof -
  have "unat (of_nat n :: u32) \<le> unat (of_nat (t' - t) :: u32)"
    using assms(2) unfolding elapsed_nat [OF assms(1)] by (simp add: word_le_nat_alt)
  moreover have "unat (of_nat n :: u32) = n" using assms(3) by (simp add: unat_of_nat take_bit_nat_eq_self)
  moreover have "unat (of_nat (t' - t) :: u32) \<le> t' - t" by (simp add: unat_of_nat take_bit_nat_less_eq_self)
  ultimately show ?thesis using assms(1) by linarith
qed

lemma elapsed_ge_20:
  fixes t t' :: nat
  assumes "t + 20 \<le> t'" "t' < t + 2 ^ 32"
  shows "20 \<le> (of_nat t' - of_nat t :: u32)"
proof -
  have le: "t \<le> t'" using assms by simp
  have "unat (of_nat t' - of_nat t :: u32) = t' - t"
    unfolding elapsed_nat [OF le] using assms by (simp add: unat_of_nat take_bit_nat_eq_self del: of_nat_diff)
  then show ?thesis unfolding word_le_nat_alt using assms(1) by simp
qed

text \<open>The invariant of one button against its trace.\<close>

definition hold_inv :: "(nat \<times> bool) list \<Rightarrow> button \<Rightarrow> bool" where
  "hold_inv xs b =
    (bn_last_raw b = (xs \<noteq> [] \<and> snd (last xs)) \<and>
     (bn_stable b \<longrightarrow> (\<exists>us vs. xs = us @ vs \<and> steady vs \<and> bn_press_start b = of_nat (fst (hd vs)))) \<and>
     (bn_stable b \<and> \<not> bn_last_raw b \<longrightarrow> bn_last_change b = of_nat (fst (last xs))))"

lemma paced_snoc:
  assumes "paced (ts @ [t, t'])"
  shows "t + 20 \<le> t'" "t' < t + 2 ^ 32" "paced (ts @ [t])"
  using assms by (auto simp: paced_def successively_append_iff)

lemma paced_le:
  assumes "paced (map fst (us @ vs))" "vs \<noteq> []"
  shows "fst (hd vs) \<le> fst (last vs)"
  using assms by (induction vs rule: rev_induct) (auto simp: paced_def successively_append_iff hd_append last_map)

lemma button_sample_fields:
  "bn_last_raw (button_sample now raw b) = raw"
  "bn_pin (button_sample now raw b) = bn_pin b"
  "bn_last_change (button_sample now raw b) = (if raw \<noteq> bn_last_raw b then now else bn_last_change b)"
  "bn_pending_long (button_sample now raw b) \<Longrightarrow> \<not> bn_pending_long b \<Longrightarrow>
     bn_stable (button_sample now raw b) \<and> 5000 \<le> now - bn_press_start (button_sample now raw b)"
  by (cases "raw = bn_last_raw b"; cases raw; cases "bn_stable b"; simp add: button_sample_def button_debounce_def Let_def
      split: if_splits)+

lemma button_sample_stable:
  "bn_stable (button_sample now raw b) =
    (if 20 \<le> now - bn_last_change (button_sample now raw b) then raw else bn_stable b)"
  "bn_press_start (button_sample now raw b) =
    (if 20 \<le> now - bn_last_change (button_sample now raw b) \<and> raw \<and> \<not> bn_stable b then now else bn_press_start b)"
  by (cases "raw = bn_last_raw b"; cases raw; cases "bn_stable b"; simp add: button_sample_def button_debounce_def Let_def)+

lemma hold_inv_sample:
  assumes "hold_inv xs b" "paced (map fst (xs @ [(t, raw)]))"
  shows "hold_inv (xs @ [(t, raw)]) (button_sample (of_nat t) raw b)"
proof -
  let ?b = "button_sample (of_nat t) raw b"
  note inv = assms(1) [unfolded hold_inv_def]
  have last_seen: "bn_last_raw b \<longleftrightarrow> xs \<noteq> [] \<and> snd (last xs)" using inv by blast
  have two_up: "\<not> bn_stable ?b" if "bn_stable b" "\<not> raw" "\<not> bn_last_raw b"
  proof -
    have "xs \<noteq> []" using inv that(1) by (auto simp: steady_def)
    then obtain ys t0 r0 where xs: "xs = ys @ [(t0, r0)]" by (metis rev_exhaust surj_pair)
    have "20 \<le> (of_nat t - of_nat t0 :: u32)"
      by (rule elapsed_ge_20; rule paced_snoc [of "map fst ys"]) (use assms(2) in \<open>simp_all add: xs\<close>)
    moreover have "bn_last_change b = of_nat t0" using inv that(1,3) xs by simp
    ultimately show ?thesis using that by (simp add: button_sample_stable button_sample_fields)
  qed
  have "\<exists>us vs. xs @ [(t, raw)] = us @ vs \<and> steady vs \<and> bn_press_start ?b = of_nat (fst (hd vs))"
    if st: "bn_stable ?b"
  proof (cases "bn_stable b")
    case True
    then obtain us vs where vs: "xs = us @ vs" "steady vs" "bn_press_start b = of_nat (fst (hd vs))" using inv by blast
    have "snd (last vs) \<or> raw"
      using two_up [OF True] st last_seen vs(1,2) by (auto simp: steady_def)
    then have "steady (vs @ [(t, raw)])" by (intro steady_snoc [OF vs(2)]) simp
    moreover have "bn_press_start ?b = of_nat (fst (hd (vs @ [(t, raw)])))"
      using True vs(2,3) by (simp add: button_sample_stable steady_def)
    ultimately show ?thesis using vs(1) by (intro exI [of _ us] exI [of _ "vs @ [(t, raw)]"]) simp
  next
    case False
    with st have "raw" "bn_press_start ?b = of_nat t" by (auto simp: button_sample_stable split: if_splits)
    then show ?thesis by (intro exI [of _ xs] exI [of _ "[(t, raw)]"]) (simp add: steady_def)
  qed
  moreover have "bn_last_change ?b = of_nat t" if "bn_stable ?b" "\<not> raw"
  proof -
    have "bn_stable b" using that by (auto simp: button_sample_stable split: if_splits)
    then have "bn_last_raw b" using two_up that by blast
    then show ?thesis using that(2) by (simp add: button_sample_fields)
  qed
  ultimately show ?thesis by (cases raw) (simp_all add: hold_inv_def button_sample_fields(1))
qed

lemma long_press_held:
  assumes "hold_inv xs b" "paced (map fst (xs @ [(t, raw)]))" "\<not> bn_pending_long b"
    "bn_pending_long (button_sample (of_nat t) raw b)"
  shows "held_down 5000 (xs @ [(t, raw)])"
proof -
  have st: "bn_stable (button_sample (of_nat t) raw b)"
    "5000 \<le> of_nat t - bn_press_start (button_sample (of_nat t) raw b)"
    using button_sample_fields(4) [OF assms(4,3)] by auto
  obtain us vs where vs: "xs @ [(t, raw)] = us @ vs" "steady vs"
    "bn_press_start (button_sample (of_nat t) raw b) = of_nat (fst (hd vs))"
    using hold_inv_sample [OF assms(1,2)] st(1) unfolding hold_inv_def by blast
  have ne: "vs \<noteq> []" using vs(2) by (simp add: steady_def)
  have last: "last vs = (t, raw)" using vs(1) ne by (metis last_appendR last_snoc)
  have "fst (hd vs) \<le> t" using paced_le [OF assms(2) [unfolded vs(1)]] ne last by simp
  then have "fst (hd vs) + 5000 \<le> t" using st(2) vs(3) by (intro elapsed_le) simp_all
  then show ?thesis using vs last by (auto simp: held_down_def list_ex_iff suffix_def intro!: exI [of _ vs])
qed




text \<open>What one call of \<open>loop_ui\<close> does to the buttons and to the restarts asked for.\<close>

lemma handle_button_event_buttons [simp]: "ui_buttons (fst (handle_button_event env i sh lo db s)) = ui_buttons (fst s)"
  by (simp add: handle_button_event_def Let_def case_prod_beta)

lemma button_event_buttons:
  "ui_buttons (fst (button_event env i s)) = (ui_buttons (fst s))[i := button_clear (ui_buttons (fst s) ! i)]"
  by (simp add: button_event_def Let_def)

lemma button_events_buttons:
  "n \<le> length (ui_buttons (fst s)) \<Longrightarrow>
    ui_buttons (fst (fold (button_event env) [0..<n] s)) =
      map button_clear (take n (ui_buttons (fst s))) @ drop n (ui_buttons (fst s))"
proof (induction n)
  case (Suc n)
  then show ?case
    by (simp add: button_event_buttons take_Suc_conv_app_nth Cons_nth_drop_Suc [symmetric] nth_append list_update_append)
qed simp

lemma if_mem:
  "x \<in> set (dv_out (snd (if c then s else t))) \<Longrightarrow> c \<and> x \<in> set (dv_out (snd s)) \<or> \<not> c \<and> x \<in> set (dv_out (snd t))"
  by (simp split: if_splits)

lemma handle_button_event_restart:
  "E_restart \<in> set (dv_out (snd (handle_button_event env i sh lo db s))) \<Longrightarrow>
    E_restart \<in> set (dv_out (snd s)) \<or> lo \<and> i = 3"
  by (auto simp: handle_button_event_def Let_def case_prod_beta on_sw_def on_sens_def device_wipe_def split: if_splits)

lemma button_event_restart:
  "E_restart \<in> set (dv_out (snd (button_event env i s))) \<Longrightarrow>
    E_restart \<in> set (dv_out (snd s)) \<or> i = 3 \<and> bn_pending_long (ui_buttons (fst s) ! i)"
  unfolding button_event_def Let_def by (drule if_mem) (auto dest!: handle_button_event_restart)

lemma button_events_restart:
  "n \<le> length (ui_buttons (fst s)) \<Longrightarrow>
    E_restart \<in> set (dv_out (snd (fold (button_event env) [0..<n] s))) \<Longrightarrow>
    E_restart \<in> set (dv_out (snd s)) \<or> 3 < n \<and> bn_pending_long (ui_buttons (fst s) ! 3)"
proof (induction n)
  case (Suc n)
  have b: "ui_buttons (fst (fold (button_event env) [0..<n] s)) ! n = ui_buttons (fst s) ! n"
    using button_events_buttons [of n s env] Suc.prems(1) by (simp add: nth_append)
  have "E_restart \<in> set (dv_out (snd (fold (button_event env) [0..<n] s))) \<or>
      n = 3 \<and> bn_pending_long (ui_buttons (fst s) ! 3)"
    using Suc.prems(2) button_event_restart [of env n "fold (button_event env) [0..<n] s"] b by auto
  then show ?case using Suc by auto
qed simp

lemma loop_ui_buttons:
  "ui_buttons (fst (loop_ui env level s)) = map button_clear (sample_buttons (ce_now env) level (ui_buttons (fst s)))"
  by (simp add: loop_ui_def Let_def update_leds_def button_events_buttons sample_buttons_def)

lemma loop_ui_restart:
  "E_restart \<in> set (dv_out (snd (loop_ui env level s))) \<Longrightarrow>
    E_restart \<in> set (dv_out (snd s)) \<or>
    3 < length (ui_buttons (fst s)) \<and> bn_pending_long (sample_buttons (ce_now env) level (ui_buttons (fst s)) ! 3)"
  using button_events_restart [of "length (ui_buttons (fst s))"
      "((fst s)\<lparr> ui_buttons := sample_buttons (ce_now env) level (ui_buttons (fst s)) \<rparr>, snd s)" env]
  by (auto simp: loop_ui_def Let_def sample_buttons_def)

abbreviation readings :: "u8 \<Rightarrow> (nat \<times> (u8 \<Rightarrow> bool)) list \<Rightarrow> (nat \<times> bool) list" where
  "readings pin xs \<equiv> map (\<lambda>(t, level). (t, \<not> level pin)) xs"

definition reset_button_ok :: "(nat \<times> (u8 \<Rightarrow> bool)) list \<Rightarrow> u8 \<Rightarrow> ui \<Rightarrow> bool" where
  "reset_button_ok xs pin u =
    (length (ui_buttons u) = 4 \<and> bn_pin (ui_buttons u ! 3) = pin \<and> \<not> bn_pending_long (ui_buttons u ! 3) \<and>
     (pin \<noteq> 255 \<longrightarrow> hold_inv (readings pin xs) (ui_buttons u ! 3)))"

lemma hold_inv_clear [simp]: "hold_inv xs (button_clear b) = hold_inv xs b"
  by (simp add: hold_inv_def)

lemma reset_button_step:
  assumes "reset_button_ok xs pin (fst s)" "paced (map fst (xs @ [x]))"
  shows "reset_button_ok (xs @ [x]) pin (fst (ui_tick env x s))"
    "E_restart \<in> set (dv_out (snd (ui_tick env x s))) \<Longrightarrow>
      E_restart \<in> set (dv_out (snd s)) \<or> pin \<noteq> 255 \<and> held_down 5000 (readings pin (xs @ [x]))"
proof -
  obtain t level where x: "x = (t, level)" by (cases x)
  have fst_readings: "fst \<circ> (\<lambda>(t, level). (t, \<not> level pin)) = (fst :: nat \<times> (u8 \<Rightarrow> bool) \<Rightarrow> nat)" by auto
  have pc: "paced (map fst (readings pin xs @ [(t, \<not> level pin)]))"
    using assms(2) by (simp add: x fst_readings)
  note ok = assms(1) [unfolded reset_button_ok_def]
  show "reset_button_ok (xs @ [x]) pin (fst (ui_tick env x s))"
    using ok hold_inv_sample [OF _ pc]
    by (simp add: reset_button_ok_def ui_tick_def loop_ui_buttons sample_buttons_def x button_sample_fields)
  show "E_restart \<in> set (dv_out (snd s)) \<or> pin \<noteq> 255 \<and> held_down 5000 (readings pin (xs @ [x]))"
    if "E_restart \<in> set (dv_out (snd (ui_tick env x s)))"
    using loop_ui_restart [OF that [unfolded ui_tick_def]] ok long_press_held [OF _ pc]
    by (auto simp: sample_buttons_def x split: if_splits)
qed



definition hold_demo :: "(nat \<times> (u8 \<Rightarrow> bool)) list" where
  "hold_demo = map (\<lambda>t. (t, \<lambda>_. False)) [100, 150, 5200]"

lemma hold_demo_restarts:
  "E_restart \<in> set (dv_out (snd (ui_run (demo_env 0) hold_demo
     (init_ui \<lparr> up_buttons = [0, - 1, - 1, 9], up_leds = [2, - 1, - 1] \<rparr> (\<lambda>_. True) ui0, demo_device))))"
  by code_simp


end
