(* ===== verification/Telemetry.thy ===== *)
theory Telemetry
  imports Device Data_Logger Device_Identity "HOL-Library.Sublist"
begin

text \<open>
  \<open>telemetry.cpp\<close> and \<open>telemetry_pb.cpp\<close>: the snapshot of the whole device that the network task publishes, the console
  prints and the display shows, and its copy into the protobuf message. A C string field is the list of its characters,
  cut to its buffer. What the snapshot reads from the platform is \<open>tele_in\<close>; reading it may open the SD card, load a
  battery state from NVS or set up the identity, so the device and the logger are passed through. The encoder
  (\<open>pb_encode\<close>, vendored nanopb) is an argument.
\<close>

section \<open>The snapshot\<close>

record TelemetryChannel =
  tc_ch :: u8
  tc_V :: f32
  tc_I :: f32
  tc_P :: f32
  tc_energy_Wh :: f32
  tc_charge_mAh :: f32

record TelemetrySwitch =
  ts_idx :: u8
  ts_type :: u8
  ts_state :: bool
  ts_auto_mode :: bool
  ts_rule_tripped :: bool

record TelemetryBattery =
  tb_ch :: u8
  tb_profile_id :: u8
  tb_chemistry :: u8
  tb_rated_Ah :: f32
  tb_soc_pct :: f32
  tb_V :: f32
  tb_I :: f32
  tb_cumulative_Ah_in :: f32
  tb_cumulative_Ah_out :: f32
  tb_equivalent_full_cycles :: f32
  tb_soh_pct :: f32
  tb_soh_samples :: u32

record TelemetryOTA =
  to_in_progress :: bool
  to_version :: bytes
  to_progress_pct :: u8
  to_status :: bytes
  to_error :: bytes

record TelemetrySnapshot =
  tl_ts :: u32
  tl_ts_ms :: u16
  tl_schema_version :: u8
  tl_schema :: bytes
  tl_id :: bytes
  tl_fw :: bytes
  tl_uptime_ms :: u32
  tl_rssi :: i8
  tl_ip :: bytes
  tl_channels :: "TelemetryChannel list"
  tl_switches :: "TelemetrySwitch list"
  tl_battery :: "TelemetryBattery list"
  tl_log_entries :: u16
  tl_log_overflow :: bool
  tl_heap_free :: u32
  tl_min_free_heap :: u32
  tl_reset_reason :: u8
  tl_hw_rev :: bytes
  tl_crash_count :: u32
  tl_safe_mode :: bool
  tl_ntp_synced :: bool
  tl_ble_active :: bool
  tl_ble_connected :: bool
  tl_mqtt_connected :: bool
  tl_http_configured :: bool
  tl_supabase_configured :: bool
  tl_network_skipped :: bool
  tl_sd_present :: bool
  tl_log_buffer_used_pct :: u8
  tl_sensors_calibrating :: bool
  tl_ota :: TelemetryOTA

text \<open>The platform: \<open>time()\<close>, the clock, the RSSI while connected, the address text, heap figures, reset reason, the MQTT
client's state, the \<open>Preferences\<close> library, the MAC and the ring's size.\<close>

record tele_in =
  ti_time :: int
  ti_now :: u32
  ti_rssi :: "int option"
  ti_ip :: bytes
  ti_heap :: u32
  ti_min_heap :: u32
  ti_reset :: u8
  ti_mqtt :: bool
  ti_prefs :: prefs_env
  ti_mac :: bytes
  ti_ring :: nat

definition cut :: "nat \<Rightarrow> bytes \<Rightarrow> bytes" where
  "cut n s = take (n - 1) (c_str s)"

section \<open>Channels\<close>

text \<open>Voltage, current and power of one logical channel: from the configured sources, else the channel itself. Only
source 3 and channel 3 report the sensor's own power, every other power is the product.\<close>

definition tele_vip :: "kv \<Rightarrow> sensors \<Rightarrow> u8 \<Rightarrow> f32 \<times> f32 \<times> f32" where
  "tele_vip m se ch =
    (case settings_load_virtual_channel ch m of
       Some vc \<Rightarrow>
         if 0 < vc_voltage_src vc \<or> 0 < vc_current_src vc then
           let v = (if 0 < vc_voltage_src vc then get_sensor_voltage (vc_voltage_src vc) (vc_voltage_idx vc) se else 0) in
           if 0 < vc_current_src vc then
             let i = get_sensor_current (vc_current_src vc) (vc_current_idx vc) se in
             (v, i, if vc_current_src vc = 3 then get_sensor_power (vc_current_src vc) (vc_current_idx vc) se
                    else if 0 < vc_voltage_src vc then f_mul v i else 0)
           else (v, 0, 0)
         else (get_channel_voltage se ch, get_channel_current se ch,
           if ch = 3 then get_channel_power se ch else f_mul (get_channel_voltage se ch) (get_channel_current se ch))
     | None \<Rightarrow> (get_channel_voltage se ch, get_channel_current se ch,
         if ch = 3 then get_channel_power se ch else f_mul (get_channel_voltage se ch) (get_channel_current se ch)))"

definition tele_channel :: "kv \<Rightarrow> sensors \<Rightarrow> counter \<Rightarrow> counter \<Rightarrow> u8 \<Rightarrow> TelemetryChannel" where
  "tele_channel m se coul en ch =
    (let (v, i, p) = tele_vip m se ch in
     \<lparr> tc_ch = ch, tc_V = v, tc_I = i, tc_P = p, tc_energy_Wh = get_energy_Wh en ch,
        tc_charge_mAh = get_coulomb_mAh coul ch \<rparr>)"

section \<open>Switches\<close>

definition tele_switch :: "sw \<Rightarrow> u8 \<Rightarrow> TelemetrySwitch" where
  "tele_switch w i =
    (case settings_load_switch i (sw_kv w) of
       None \<Rightarrow> \<lparr> ts_idx = i, ts_type = 0, ts_state = False, ts_auto_mode = False, ts_rule_tripped = False \<rparr>
     | Some ch \<Rightarrow>
         let st = get_switch_state w i in
         \<lparr> ts_idx = i, ts_type = ch_type ch, ts_state = st, ts_auto_mode = switch_get_auto_enabled w,
            ts_rule_tripped = (st \<and> (case settings_load_switch_rule i (sw_kv w) of Some r \<Rightarrow> sr_enabled r \<noteq> 0 | None \<Rightarrow> False)) \<rparr>)"

section \<open>Batteries\<close>

text \<open>One row per bound channel, eight at most; \<open>cycle_counter_snapshot\<close> (that is \<open>cycle_counter_get\<close>) always has a
state below channel 16.\<close>

fun tele_batteries :: "prefs_env \<Rightarrow> u8 list \<Rightarrow> nat \<Rightarrow> battery \<times> cycle \<Rightarrow> TelemetryBattery list \<times> battery \<times> cycle" where
  "tele_batteries env [] n w = ([], w)"
| "tele_batteries env (ch # chs) n w =
    (if 8 \<le> n then ([], w)
     else if battery_channel_profile (fst w) ch = NO_BINDING \<or> \<not> cycle_counter_is_active ch (fst w)
     then tele_batteries env chs n w
     else
       let pid = battery_channel_profile (fst w) ch; bp = battery_profile_get (fst w) pid;
           (so, w1) = cycle_counter_get env ch w; st = (case so of Some s \<Rightarrow> s | None \<Rightarrow> batstate0);
           (rows, w2) = tele_batteries env chs (Suc n) w1
       in (\<lparr> tb_ch = ch, tb_profile_id = pid, tb_chemistry = (case bp of Some p \<Rightarrow> bcp_chemistry p | None \<Rightarrow> 0),
             tb_rated_Ah = (case bp of Some p \<Rightarrow> bcp_rated_capacity_Ah p | None \<Rightarrow> 0), tb_soc_pct = bs_last_SoC_pct st,
             tb_V = bs_last_V st, tb_I = bs_last_I st, tb_cumulative_Ah_in = bs_cumulative_Ah_in st,
             tb_cumulative_Ah_out = bs_cumulative_Ah_out st,
             tb_equivalent_full_cycles = bs_equivalent_full_cycles st, tb_soh_pct = bs_soh_pct st,
             tb_soh_samples = bs_soh_samples st \<rparr> # rows, w2))"

section \<open>Updates\<close>

definition ota_status_text :: "OtaState \<Rightarrow> bytes" where
  "ota_status_text st = str_bytes (case st of OTA_IDLE \<Rightarrow> ''idle'' | OTA_CHECKING \<Rightarrow> ''checking''
     | OTA_DOWNLOADING \<Rightarrow> ''downloading'' | OTA_APPLYING \<Rightarrow> ''applying'' | OTA_REBOOTING \<Rightarrow> ''rebooting''
     | OTA_FAILED \<Rightarrow> ''failed'')"

definition tele_ota :: "ota \<Rightarrow> TelemetryOTA" where
  "tele_ota u = \<lparr> to_in_progress = (ot_state u = OTA_DOWNLOADING \<or> ot_state u = OTA_APPLYING),
     to_version = cut 16 (ot_version u), to_progress_pct = ot_progress_pct u,
     to_status = cut 16 (ota_status_text (ot_state u)), to_error = cut 64 (ot_last_error u) \<rparr>"

section \<open>Building it\<close>

text \<open>The time stamp: the epoch of the last synchronisation, which nothing advances in between, else \<open>time()\<close>.\<close>

definition tele_ts :: "tele_in \<Rightarrow> net \<Rightarrow> u32" where
  "tele_ts ti n = word_of_int (if nt_epoch n \<le> 0 then ti_time ti else nt_epoch n)"

definition telemetry_build ::
  "tele_in \<Rightarrow> ('fs, 'h) sdlib \<Rightarrow> counter \<Rightarrow> 'h logger \<times> 'fs \<Rightarrow> device \<Rightarrow> TelemetrySnapshot \<times> 'h logger \<times> device" where
  "telemetry_build ti sd en lf d =
    (let (serial, m1, id1) = get_device_serial (ti_mac ti) (kv_of d, dv_id d);
         d1 = (on_kv (\<lambda>_. m1) d)\<lparr> dv_id := id1 \<rparr>; se = dv_sens d1;
         n = min (unat (se_logical_count se)) 16;
         sw_count = min (unat (settings_load_switch_count m1)) 8;
         (rows, w) = tele_batteries (ti_prefs ti) (map of_nat [0..<n]) 0 (bat_of d1, dv_cyc d1);
         d2 = (put_bat (fst w) d1)\<lparr> dv_cyc := snd w \<rparr>;
         (ovf, lg) = log_has_overflow_file sd lf;
         snap = \<lparr> tl_ts = tele_ts ti (dv_net d), tl_ts_ms = ucast (ti_now ti mod 1000), tl_schema_version = 1,
           tl_schema = cut 16 (str_bytes ''telemetry_v1''), tl_id = cut 24 serial, tl_fw = cut 16 (str_bytes ''2.0.0''),
           tl_uptime_ms = ti_now ti, tl_rssi = (case ti_rssi ti of Some r \<Rightarrow> word_of_int r | None \<Rightarrow> 0),
           tl_ip = cut 16 (ti_ip ti),
           tl_channels = map (\<lambda>i. tele_channel m1 se (dv_coul d1) en (of_nat i)) [0..<n],
           tl_switches = map (\<lambda>i. tele_switch (sw_of d1) (of_nat i)) [0..<sw_count], tl_battery = rows,
           tl_log_entries = (if 0xFFFF < log_entries_count lg then 0xFFFF else of_nat (log_entries_count lg)),
           tl_log_overflow = ovf, tl_heap_free = ti_heap ti, tl_min_free_heap = ti_min_heap ti,
           tl_reset_reason = ti_reset ti, tl_hw_rev = cut 16 (id_hw_rev id1), tl_crash_count = id_crash_count id1,
           tl_safe_mode = (5 \<le> id_crash_count id1), tl_ntp_synced = nt_synced (dv_net d),
           tl_ble_active = bl_initialized (dv_ble d), tl_ble_connected = bl_connected (dv_ble d),
           tl_mqtt_connected = ti_mqtt ti, tl_http_configured = pf_isKey m1 ''http_url'',
           tl_supabase_configured = (settings_load_supabase_url 128 m1 \<noteq> None),
           tl_network_skipped = nt_skip (dv_net d), tl_sd_present = lg_sd_present lg,
           tl_log_buffer_used_pct = of_nat (log_buffer_used_pct (ti_ring ti) lg), tl_sensors_calibrating = False,
           tl_ota = tele_ota (dv_ota d) \<rparr>
     in (snap, lg, d2))"

section \<open>The protobuf copy\<close>

text \<open>A bytes field holds at most its capacity; the message has no more than these fields, so the states of the network,
the update client and the health figures are not in it.\<close>

record pb_msg =
  pb_ts :: u32
  pb_ts_ms :: u32
  pb_schema_version :: u32
  pb_schema :: bytes
  pb_id :: bytes
  pb_fw :: bytes
  pb_uptime_ms :: u32
  pb_rssi :: i32
  pb_ip :: bytes
  pb_channel_count :: u32
  pb_switch_count :: u32
  pb_num_batteries :: u32
  pb_channels :: "TelemetryChannel list"
  pb_switches :: "TelemetrySwitch list"
  pb_battery :: "TelemetryBattery list"
  pb_entries :: u32
  pb_overflow :: bool
  pb_heap_free :: u32

definition pb_bytes :: "nat \<Rightarrow> bytes \<Rightarrow> bytes" where
  "pb_bytes cap s = (if cap < length s then take cap s else s)"

definition pb_message :: "TelemetrySnapshot \<Rightarrow> pb_msg" where
  "pb_message s = \<lparr> pb_ts = tl_ts s, pb_ts_ms = ucast (tl_ts_ms s), pb_schema_version = ucast (tl_schema_version s),
     pb_schema = pb_bytes 16 (tl_schema s), pb_id = pb_bytes 24 (tl_id s), pb_fw = pb_bytes 16 (tl_fw s),
     pb_uptime_ms = tl_uptime_ms s, pb_rssi = scast (tl_rssi s), pb_ip = pb_bytes 16 (tl_ip s),
     pb_channel_count = of_nat (length (tl_channels s)), pb_switch_count = of_nat (length (tl_switches s)),
     pb_num_batteries = of_nat (length (tl_battery s)), pb_channels = take 16 (tl_channels s),
     pb_switches = take 8 (tl_switches s), pb_battery = take 8 (tl_battery s), pb_entries = ucast (tl_log_entries s),
     pb_overflow = tl_log_overflow s, pb_heap_free = tl_heap_free s \<rparr>"

text \<open>A buffer below 256 bytes is refused outright; the encoder yields nothing when the message does not fit.\<close>

definition encode_telemetry_pb :: "(nat \<Rightarrow> pb_msg \<Rightarrow> bytes option) \<Rightarrow> TelemetrySnapshot \<Rightarrow> nat \<Rightarrow> bytes" where
  "encode_telemetry_pb enc s out_len =
    (if out_len < 256 then [] else case enc out_len (pb_message s) of Some bs \<Rightarrow> bs | None \<Rightarrow> [])"

section \<open>Shape of a snapshot\<close>

lemma length_cut: "length (cut n s) \<le> n - 1"
  by (simp add: cut_def)

lemma pb_bytes_cut: "0 < n \<Longrightarrow> pb_bytes n (cut n s) = cut n s"
  using length_cut [of n s] by (simp add: pb_bytes_def)

definition rows_ok :: "u8 list \<Rightarrow> nat \<Rightarrow> TelemetryBattery list \<Rightarrow> bool" where
  "rows_ok chs n rows \<longleftrightarrow>
    subseq (map tb_ch rows) chs \<and> length rows \<le> 8 - n \<and> list_all (\<lambda>r. tb_profile_id r \<noteq> NO_BINDING) rows"

lemma rows_ok_Nil: "rows_ok chs n []"
  by (simp add: rows_ok_def)

lemma rows_ok_skip: "rows_ok chs n rows \<Longrightarrow> rows_ok (ch # chs) n rows"
  by (auto simp: rows_ok_def)

lemma rows_ok_Cons:
  "rows_ok chs (Suc n) rows \<Longrightarrow> n < 8 \<Longrightarrow> tb_profile_id r \<noteq> NO_BINDING \<Longrightarrow> rows_ok (tb_ch r # chs) n (r # rows)"
  by (auto simp: rows_ok_def)

lemma tele_batteries_rows: "rows_ok chs n (fst (tele_batteries env chs n w))"
proof (induction env chs n w rule: tele_batteries.induct)
  case (2 env ch chs n w)
  show ?case
  proof (cases "8 \<le> n \<or> battery_channel_profile (fst w) ch = NO_BINDING \<or> \<not> cycle_counter_is_active ch (fst w)")
    case True
    then show ?thesis using 2(1) by (auto simp: rows_ok_Nil intro: rows_ok_skip)
  next
    case False
    let ?w1 = "snd (cycle_counter_get env ch w)"
    have "rows_ok chs (Suc n) (fst (tele_batteries env chs (Suc n) ?w1))"
      using 2(2) [OF _ _ refl refl refl prod.collapse refl] False by simp
    then show ?thesis
      using False by (simp add: Let_def case_prod_beta rows_ok_def) linarith
  qed
qed (simp add: rows_ok_Nil)

lemma sorted_of_nat_u8: "n \<le> 16 \<Longrightarrow> sorted_wrt (<) (map of_nat [0..<n] :: u8 list)"
  by (auto simp: sorted_wrt_iff_nth_less word_less_nat_alt unat_of_nat_u8)

lemma unat_of_nat_below: "n \<le> 16 \<Longrightarrow> list_all (\<lambda>c. unat c < n) (map of_nat [0..<n] :: u8 list)"
  by (auto simp: list_all_iff unat_of_nat_u8)

lemma subseq_sorted: "subseq xs ys \<Longrightarrow> sorted_wrt P ys \<Longrightarrow> sorted_wrt P xs"
  by (induction rule: list_emb.induct) (auto dest: list_emb_set)

lemma subseq_list_all: "subseq xs ys \<Longrightarrow> list_all P ys \<Longrightarrow> list_all P xs"
  by (auto simp: list_all_iff dest: list_emb_set)

definition tele_shape :: "TelemetrySnapshot \<Rightarrow> bool" where
  "tele_shape s \<longleftrightarrow> length (tl_channels s) \<le> 16 \<and> length (tl_switches s) \<le> 8 \<and> length (tl_battery s) \<le> 8 \<and>
     sorted_wrt (<) (map tb_ch (tl_battery s)) \<and>
     list_all (\<lambda>c. unat c < length (tl_channels s)) (map tb_ch (tl_battery s)) \<and>
     list_all (\<lambda>r. tb_profile_id r \<noteq> NO_BINDING) (tl_battery s) \<and>
     length (tl_schema s) < 16 \<and> length (tl_id s) < 24 \<and> length (tl_fw s) < 16 \<and> length (tl_ip s) < 16 \<and>
     length (tl_hw_rev s) < 16 \<and> length (to_version (tl_ota s)) < 16 \<and> length (to_status (tl_ota s)) < 16 \<and>
     length (to_error (tl_ota s)) < 64"

definition pb_complete :: "TelemetrySnapshot \<Rightarrow> bool" where
  "pb_complete s \<longleftrightarrow> (let m = pb_message s in
     pb_schema m = tl_schema s \<and> pb_id m = tl_id s \<and> pb_fw m = tl_fw s \<and> pb_ip m = tl_ip s \<and>
     pb_channels m = tl_channels s \<and> pb_switches m = tl_switches s \<and> pb_battery m = tl_battery s)"

lemma tele_shape_complete: "tele_shape s \<Longrightarrow> pb_complete s"
  by (simp add: tele_shape_def pb_complete_def pb_message_def pb_bytes_def Let_def)

text \<open>The fields of a built snapshot the shape speaks of; \<open>tele_device\<close> is the device after the identity is set up.\<close>

definition tele_device :: "tele_in \<Rightarrow> device \<Rightarrow> device" where
  "tele_device ti d = (let (serial, m, ident) = get_device_serial (ti_mac ti) (kv_of d, dv_id d)
     in (on_kv (\<lambda>_. m) d)\<lparr> dv_id := ident \<rparr>)"

definition tele_count :: "device \<Rightarrow> nat" where
  "tele_count d = min (unat (se_logical_count (dv_sens d))) 16"

lemma tele_device_eq:
  "(on_kv (\<lambda>_. fst (snd (get_device_serial (ti_mac ti) (kv_of d, dv_id d)))) d)
     \<lparr> dv_id := snd (snd (get_device_serial (ti_mac ti) (kv_of d, dv_id d))) \<rparr> = tele_device ti d"
  by (simp add: tele_device_def case_prod_beta)

lemma tele_build_fields:
  fixes ti sd en lf d
  defines "s \<equiv> fst (telemetry_build ti sd en lf d)"
  shows "length (tl_channels s) = tele_count (tele_device ti d)" "length (tl_switches s) \<le> 8"
    "tl_battery s = fst (tele_batteries (ti_prefs ti) (map of_nat [0..<tele_count (tele_device ti d)]) 0
       (bat_of (tele_device ti d), dv_cyc (tele_device ti d)))"
    "tl_schema s = cut 16 (str_bytes ''telemetry_v1'')" "tl_id s = cut 24 (fst (get_device_serial (ti_mac ti) (kv_of d, dv_id d)))"
    "tl_fw s = cut 16 (str_bytes ''2.0.0'')" "tl_ip s = cut 16 (ti_ip ti)"
    "\<exists>x. tl_hw_rev s = cut 16 x" "tl_ota s = tele_ota (dv_ota d)"
  unfolding s_def telemetry_build_def Let_def case_prod_beta tele_device_eq tele_count_def [symmetric]
  by (simp_all only: fst_conv TelemetrySnapshot.select_convs length_map length_upt minus_nat.diff_0 min.cobounded2
      simp_thms ex_simps) blast

text \<open>C37: Every snapshot fits its fixed-size fields, whatever the device, the card and the platform hold: at most 16
channels, 8 switches and 8 batteries, the battery rows in increasing order of distinct channels that are in the snapshot
and have a profile bound, every string with room for its terminator; and the protobuf message carries each of these
fields uncut.\<close>

theorem telemetry_fits:
  "tele_shape (fst (telemetry_build ti sd en lf d)) \<and> pb_complete (fst (telemetry_build ti sd en lf d))"
proof -
  let ?s = "fst (telemetry_build ti sd en lf d)" and ?n = "tele_count (tele_device ti d)"
  have n: "?n \<le> 16" by (simp add: tele_count_def)
  have cut_less: "length (cut 16 x) < 16" "length (cut 24 x) < 24" "length (cut 64 x) < 64" for x
    using length_cut [of 16 x] length_cut [of 24 x] length_cut [of 64 x] by simp_all
  obtain rows w where rows: "tele_batteries (ti_prefs ti) (map of_nat [0..<?n]) 0
      (bat_of (tele_device ti d), dv_cyc (tele_device ti d)) = (rows, w)" by (metis surj_pair)
  note f = tele_build_fields [of ti sd en lf d]
  have bat: "tl_battery ?s = rows" using f(3) rows by simp
  have r: "rows_ok (map of_nat [0..<?n]) 0 rows"
    using tele_batteries_rows [of "map of_nat [0..<?n]" 0 "ti_prefs ti" "(bat_of (tele_device ti d), dv_cyc (tele_device ti d))"]
    by (simp add: rows)
  have "sorted_wrt (<) (map tb_ch rows)" "list_all (\<lambda>c. unat c < ?n) (map tb_ch rows)" "length rows \<le> 8"
    "list_all (\<lambda>r. tb_profile_id r \<noteq> NO_BINDING) rows"
    using r [unfolded rows_ok_def] subseq_sorted [OF _ sorted_of_nat_u8 [OF n]] subseq_list_all [OF _ unat_of_nat_below [OF n]] by auto
  moreover have "length (tl_hw_rev ?s) < 16" using f(8) cut_less(1) by metis
  ultimately have "tele_shape ?s"
    unfolding tele_shape_def bat f(1,4,5,6,7,9) tele_ota_def TelemetryOTA.select_convs
    using f(2) n cut_less by blast
  then show ?thesis using tele_shape_complete by blast
qed

section \<open>A snapshot for evaluation\<close>

text \<open>One channel and one switch, nothing else.\<close>

definition demo_snapshot :: TelemetrySnapshot where
  "demo_snapshot = \<lparr> tl_ts = 0, tl_ts_ms = 0, tl_schema_version = 1, tl_schema = str_bytes ''telemetry_v1'', tl_id = [],
     tl_fw = str_bytes ''2.0.0'', tl_uptime_ms = 5000, tl_rssi = - 60, tl_ip = [],
     tl_channels = [\<lparr> tc_ch = 0, tc_V = f_of_int 12, tc_I = f_of_int 1, tc_P = f_of_int 12, tc_energy_Wh = 0, tc_charge_mAh = 0 \<rparr>],
     tl_switches = [\<lparr> ts_idx = 0, ts_type = 0, ts_state = True, ts_auto_mode = False, ts_rule_tripped = False \<rparr>],
     tl_battery = [], tl_log_entries = 0, tl_log_overflow = False, tl_heap_free = 50000, tl_min_free_heap = 40000,
     tl_reset_reason = 1, tl_hw_rev = [], tl_crash_count = 0, tl_safe_mode = False, tl_ntp_synced = False,
     tl_ble_active = False, tl_ble_connected = False, tl_mqtt_connected = True, tl_http_configured = False,
     tl_supabase_configured = False, tl_network_skipped = False, tl_sd_present = True, tl_log_buffer_used_pct = 0,
     tl_sensors_calibrating = False,
     tl_ota = \<lparr> to_in_progress = False, to_version = [], to_progress_pct = 0, to_status = str_bytes ''idle'', to_error = [] \<rparr> \<rparr>"

end
