(* ===== verification/C_Text.thy ===== *)
theory C_Text
  imports Json_Doc "HOL-Library.Sublist"
begin

text \<open>
  The C library's text functions as the serial console uses them: \<open>sscanf\<close> with the conversions \<open>%d\<close>, \<open>%f\<close> and
  \<open>%s\<close> (with an optional width), \<open>atof\<close>, and formatted output. A format is parsed into directives; the result is the
  list of the values assigned, so its length is what \<open>sscanf\<close> returns (0 also stands for \<open>EOF\<close>). \<open>%d\<close> saturates at the
  bounds of \<open>int\<close>; a decimal number is rounded once, to the nearest float (hexadecimal floats are not read). Output is not
  formatted: a message is its format with the arguments.
\<close>

section \<open>Numbers\<close>

definition is_space :: "u8 \<Rightarrow> bool" where
  "is_space b = (b = 32 \<or> (9 \<le> b \<and> b \<le> 13))"

definition scan_sign :: "bytes \<Rightarrow> bool \<times> bytes" where
  "scan_sign s = (case s of [] \<Rightarrow> (False, []) | b # r \<Rightarrow> if b = 45 then (True, r) else if b = 43 then (False, r) else (False, s))"

definition dec_val :: "bytes \<Rightarrow> int" where
  "dec_val ds = foldl (\<lambda>n b. 10 * n + digit_val b) 0 ds"

definition clamp_int :: "int \<Rightarrow> int" where
  "clamp_int v = max (- (2 ^ 31)) (min (2 ^ 31 - 1) v)"

definition scan_int :: "bytes \<Rightarrow> (int \<times> bytes) option" where
  "scan_int s = (let (neg, r) = scan_sign s; ds = takeWhile is_digit_byte r in
     if ds = [] then None
     else Some (clamp_int (if neg then - dec_val ds else dec_val ds), dropWhile is_digit_byte r))"

definition dec_float :: "bool \<Rightarrow> int \<Rightarrow> int \<Rightarrow> f32" where
  "dec_float neg m e = f_make neg
    (if 0 \<le> e then rne (m * 10 ^ nat e * 2 ^ 149) 1 else rne (m * 2 ^ 149) (10 ^ nat (- e)))"

text \<open>The exponent is read only when digits follow its letter.\<close>

definition scan_exponent :: "bytes \<Rightarrow> int \<times> bytes" where
  "scan_exponent s = (case s of [] \<Rightarrow> (0, [])
     | b # r \<Rightarrow>
        if b = 101 \<or> b = 69 then
          let (neg, q) = scan_sign r; ds = takeWhile is_digit_byte q in
          if ds = [] then (0, s) else (if neg then - dec_val ds else dec_val ds, dropWhile is_digit_byte q)
        else (0, s))"

abbreviation lower_is :: "string \<Rightarrow> bytes \<Rightarrow> bool" where
  "lower_is w s \<equiv> map (\<lambda>b. if 65 \<le> b \<and> b \<le> 90 then b + 32 else b) (take (length w) s) = str_bytes w"

definition scan_fraction :: "bytes \<Rightarrow> bytes \<times> bytes" where
  "scan_fraction s = (case s of [] \<Rightarrow> ([], [])
     | b # q \<Rightarrow> if b = 46 then (takeWhile is_digit_byte q, dropWhile is_digit_byte q) else ([], s))"

definition scan_decimal :: "bool \<Rightarrow> bytes \<Rightarrow> (f32 \<times> bytes) option" where
  "scan_decimal neg s =
    (let ip = takeWhile is_digit_byte s; (fp, r) = scan_fraction (dropWhile is_digit_byte s); (e, q) = scan_exponent r in
     if ip @ fp = [] then None else Some (dec_float neg (dec_val (ip @ fp)) (e - int (length fp)), q))"

definition scan_float :: "bytes \<Rightarrow> (f32 \<times> bytes) option" where
  "scan_float s = (let (neg, r) = scan_sign s in
     if lower_is ''nan'' r then Some (f_nan, drop 3 r)
     else if lower_is ''infinity'' r then Some (f_inf neg, drop 8 r)
     else if lower_is ''inf'' r then Some (f_inf neg, drop 3 r)
     else scan_decimal neg r)"

definition atof :: "bytes \<Rightarrow> f32" where
  "atof s = (case scan_float (dropWhile is_space s) of Some (v, _) \<Rightarrow> v | None \<Rightarrow> 0)"

section \<open>sscanf\<close>

datatype directive = D_space | D_char u8 | D_int | D_float | D_str "nat option"

datatype sval = V_int int | V_float f32 | V_str bytes

fun parse_format :: "bytes \<Rightarrow> directive list" where
  "parse_format [] = []"
| "parse_format (b # f) =
    (if b = 37 then
       (case f of
          [] \<Rightarrow> []
        | c # g \<Rightarrow>
            if c = 100 then D_int # parse_format g
            else if c = 102 then D_float # parse_format g
            else if c = 115 then D_str None # parse_format g
            else case g of
                c2 # h \<Rightarrow>
                  if c2 = 115 then D_str (Some (nat (digit_val c))) # parse_format h
                  else (case h of
                      _ # h2 \<Rightarrow> D_str (Some (nat (10 * digit_val c + digit_val c2))) # parse_format h2
                    | [] \<Rightarrow> [])
              | [] \<Rightarrow> [])
     else if is_space b then D_space # parse_format f
     else D_char b # parse_format f)"

fun scan :: "directive list \<Rightarrow> bytes \<Rightarrow> sval list" where
  "scan [] s = []"
| "scan (D_space # f) s = scan f (dropWhile is_space s)"
| "scan (D_char c # f) s = (case s of b # r \<Rightarrow> if b = c then scan f r else [] | [] \<Rightarrow> [])"
| "scan (D_int # f) s =
    (case scan_int (dropWhile is_space s) of Some (v, r) \<Rightarrow> V_int v # scan f r | None \<Rightarrow> [])"
| "scan (D_float # f) s =
    (case scan_float (dropWhile is_space s) of Some (v, r) \<Rightarrow> V_float v # scan f r | None \<Rightarrow> [])"
| "scan (D_str w # f) s =
    (let t = dropWhile is_space s; word = takeWhile (\<lambda>b. \<not> is_space b) t;
         v = (case w of Some n \<Rightarrow> take n word | None \<Rightarrow> word)
     in if v = [] then [] else V_str v # scan f (drop (length v) t))"

definition sscanf :: "bytes \<Rightarrow> string \<Rightarrow> sval list" where
  "sscanf s fmt = scan (parse_format (str_bytes fmt)) (c_str s)"

section \<open>Output\<close>

datatype arg = A_int int | A_float f32 | A_str bytes

type_synonym message = "string \<times> arg list"

abbreviation a_nat :: "nat \<Rightarrow> arg" where "a_nat n \<equiv> A_int (int n)"
abbreviation a_word :: "'a::len word \<Rightarrow> arg" where "a_word w \<equiv> A_int (uint w)"
abbreviation a_bool :: "bool \<Rightarrow> arg" where "a_bool b \<equiv> A_int (if b then 1 else 0)"
abbreviation a_text :: "string \<Rightarrow> arg" where "a_text s \<equiv> A_str (str_bytes s)"

section \<open>How long a word can be\<close>

text \<open>\<open>short_words n s\<close>: no run of \<open>n\<close> bytes without a blank in between. Whatever the format, a word then read from
\<open>s\<close> fits, with its terminator, into a buffer of \<open>n\<close> bytes.\<close>

definition short_words :: "nat \<Rightarrow> bytes \<Rightarrow> bool" where
  "short_words n s = list_all (\<lambda>t. length (takeWhile (\<lambda>b. \<not> is_space b) t) < n) (suffixes s)"

lemma short_words_suffix: "short_words n s \<Longrightarrow> suffix t s \<Longrightarrow> short_words n t"
  by (auto simp: short_words_def list_all_iff)

lemma suffix_scan_sign: "suffix (snd (scan_sign s)) s"
  by (auto simp: scan_sign_def suffix_Cons split: list.split)

lemma suffix_scan_int: "scan_int s = Some (v, r) \<Longrightarrow> suffix r s"
  using suffix_scan_sign [of s] suffix_dropWhile [of is_digit_byte "snd (scan_sign s)"]
  by (auto simp: scan_int_def Let_def case_prod_beta split: if_splits)

lemma suffix_scan_exponent: "suffix (snd (scan_exponent s)) s"
proof (cases s)
  case (Cons b r)
  have "suffix (dropWhile is_digit_byte (snd (scan_sign r))) r"
    by (rule suffix_order.trans [OF suffix_dropWhile suffix_scan_sign])
  then show ?thesis unfolding Cons by (auto simp: scan_exponent_def Let_def case_prod_beta suffix_Cons)
qed (simp add: scan_exponent_def)

lemma suffix_scan_fraction: "suffix (snd (scan_fraction s)) s"
  by (auto simp: scan_fraction_def suffix_Cons suffix_dropWhile split: list.split)

lemma suffix_scan_decimal: "scan_decimal neg s = Some (v, r) \<Longrightarrow> suffix r s"
proof -
  assume a: "scan_decimal neg s = Some (v, r)"
  have "suffix (snd (scan_exponent (snd (scan_fraction (dropWhile is_digit_byte s))))) s"
    by (intro suffix_order.trans [OF suffix_scan_exponent] suffix_order.trans [OF suffix_scan_fraction] suffix_dropWhile)
  then show ?thesis using a by (simp add: scan_decimal_def Let_def case_prod_beta split: if_split_asm)
qed

lemma suffix_scan_float: "scan_float s = Some (v, r) \<Longrightarrow> suffix r s"
proof -
  assume a: "scan_float s = Some (v, r)"
  let ?r = "snd (scan_sign s)"
  have "scan_decimal (fst (scan_sign s)) ?r = Some (v, r) \<or> (\<exists>n. r = drop n ?r)"
    using a unfolding scan_float_def Let_def case_prod_beta by (simp only: split: if_split_asm) blast+
  then have "suffix r ?r" using suffix_scan_decimal suffix_drop by blast
  then show ?thesis by (rule suffix_order.trans [OF _ suffix_scan_sign])
qed

lemma scan_short: "V_str v \<in> set (scan f s) \<Longrightarrow> short_words n s \<Longrightarrow> length v < n"
proof (induction f s rule: scan.induct)
  case (2 f s)
  then show ?case using short_words_suffix [OF _ suffix_dropWhile] by simp
next
  case (3 c f s)
  then show ?case using short_words_suffix by (fastforce simp: suffix_Cons split: list.splits if_splits)
next
  case (4 f s)
  then show ?case
    using short_words_suffix [OF _ suffix_order.trans [OF suffix_scan_int suffix_dropWhile]]
    by (cases "scan_int (dropWhile is_space s)") auto
next
  case (5 f s)
  then show ?case
    using short_words_suffix [OF _ suffix_order.trans [OF suffix_scan_float suffix_dropWhile]]
    by (cases "scan_float (dropWhile is_space s)") auto
next
  case (6 w f s)
  let ?t = "dropWhile is_space s" let ?word = "takeWhile (\<lambda>b. \<not> is_space b) ?t"
  let ?v = "case w of Some k \<Rightarrow> take k ?word | None \<Rightarrow> ?word"
  have "length ?word < n"
    using 6(3) suffix_dropWhile [of is_space s] by (simp add: short_words_def list_all_iff)
  then have "length ?v < n" by (cases w) simp_all
  moreover have "short_words n (drop (length ?v) ?t)"
    by (intro short_words_suffix [OF 6(3)] suffix_order.trans [OF suffix_drop suffix_dropWhile])
  ultimately show ?case using 6(1) [OF refl refl refl] 6(2) by (auto simp: Let_def split: if_splits)
qed simp

lemma sscanf_short: "V_str v \<in> set (sscanf s fmt) \<Longrightarrow> short_words n (c_str s) \<Longrightarrow> length v < n"
  unfolding sscanf_def by (rule scan_short)

end
