(* ===== verification/Publishing.thy ===== *)
theory Publishing
  imports Telemetry Cloud_Commands
begin

text \<open>
  The publishing half of \<open>connectivity_manager.cpp\<close>: the telemetry document and its BLE subset, the HTTPS clients, the
  MQTT, HTTP, BLE and Supabase transports of one snapshot. What leaves the device is a
  trace of messages; the broker, the servers and the heap answer through the inputs of a call. The JSON printer is the
  library's (\<open>jl_print\<close>), \<open>fmt\<close> is the text of \<open>String(x, 4)\<close>. A whole number is a \<open>JInt\<close> whatever C type it came from.
\<close>

section \<open>State and surroundings\<close>

text \<open>A message: an MQTT packet with its retain flag and whether the broker took it, an HTTP request with its method,
the headers added for it, its body and its result code, or a BLE notification.\<close>

datatype msg =
    Mqtt bytes bytes bool bool
  | Http string bytes "(string \<times> bytes) list" bytes int
  | Notify bytes

text \<open>The statics: the last publications, the profile hash, whether the two persistent HTTPS clients are set up, and the
request to rebuild the telemetry client.\<close>

record pub =
  pu_last_mqtt :: u32
  pu_last_heartbeat :: u32
  pu_last_profiles :: u32
  pu_profiles_hash :: u32
  pu_tele_ready :: bool
  pu_tele_error :: bool
  pu_supa_ready :: bool
  pu_sent :: "msg list"

definition pub0 :: pub where
  "pub0 = \<lparr> pu_last_mqtt = 0, pu_last_heartbeat = 0, pu_last_profiles = 0, pu_profiles_hash = 0, pu_tele_ready = False,
     pu_tele_error = False, pu_supa_ready = False, pu_sent = [] \<rparr>"

text \<open>One reading of the clock, the link, the free heap and the broker's state per call; whether the broker takes a packet,
whether \<open>begin\<close> accepts a URL, whether the telemetry connection is alive, the result code of the request that would
be the \<open>n\<close>-th message, the body of a reply, and a byte of the stack that an uninitialised struct shows.\<close>

record pub_in =
  pi_now :: u32
  pi_link :: bool
  pi_heap :: nat
  pi_mqtt :: bool
  pi_mac :: bytes
  pi_takes :: "bytes \<Rightarrow> bytes \<Rightarrow> bool"
  pi_begin :: "bytes \<Rightarrow> bool"
  pi_alive :: bool
  pi_answer :: "nat \<Rightarrow> bytes \<Rightarrow> bytes \<Rightarrow> int"
  pi_reply :: bytes
  pi_stack :: u8

definition transmit :: "msg \<Rightarrow> pub \<Rightarrow> pub" where
  "transmit x s = s\<lparr> pu_sent := pu_sent s @ [x] \<rparr>"

definition mqtt_send :: "pub_in \<Rightarrow> bytes \<Rightarrow> bytes \<Rightarrow> bool \<Rightarrow> pub \<Rightarrow> bool \<times> pub" where
  "mqtt_send i topic payload retained s =
    (pi_takes i topic payload, transmit (Mqtt topic payload retained (pi_takes i topic payload)) s)"

definition http_request :: "pub_in \<Rightarrow> string \<Rightarrow> bytes \<Rightarrow> (string \<times> bytes) list \<Rightarrow> bytes \<Rightarrow> pub \<Rightarrow> int \<times> pub" where
  "http_request i verb url headers body s =
    (let rc = pi_answer i (length (pu_sent s)) url body in (rc, transmit (Http verb url headers body rc) s))"

section \<open>HTTPS clients\<close>

definition telemetry_http_reset :: "pub \<Rightarrow> pub" where
  "telemetry_http_reset s = s\<lparr> pu_tele_ready := False \<rparr>"

definition supabase_http_reset :: "pub \<Rightarrow> pub" where
  "supabase_http_reset s = s\<lparr> pu_supa_ready := False \<rparr>"

definition bearer :: "bytes \<Rightarrow> bytes" where
  "bearer key = take 383 (str_bytes ''Bearer '' @ key)"

definition json_type :: "string \<times> bytes" where
  "json_type = (''Content-Type'', str_bytes ''application/json'')"

text \<open>A connection that is set up anew gets its headers, one that is reused adds none.\<close>

definition telemetry_http_open :: "pub_in \<Rightarrow> bytes \<Rightarrow> bytes \<Rightarrow> pub \<Rightarrow> (string \<times> bytes) list option \<times> pub" where
  "telemetry_http_open i url key s =
    (if \<not> pi_begin i url then (None, s\<lparr> pu_tele_ready := False \<rparr>)
     else (Some [json_type, (''Content-Profile'', str_bytes ''telemetry_v1''), (''apikey'', key), (''Authorization'', bearer key)],
       s\<lparr> pu_tele_ready := True \<rparr>))"

definition telemetry_http_prepare :: "pub_in \<Rightarrow> bytes \<Rightarrow> bytes \<Rightarrow> pub \<Rightarrow> (string \<times> bytes) list option \<times> pub" where
  "telemetry_http_prepare i url key s =
    (if \<not> pi_link i \<or> pi_heap i < 13000 then (None, s)
     else if \<not> pu_tele_ready s then telemetry_http_open i url key s
     else if \<not> pi_alive i \<or> pu_tele_error s then
       telemetry_http_open i url key ((telemetry_http_reset s)\<lparr> pu_tele_error := False \<rparr>)
     else if \<not> pi_begin i url then (None, telemetry_http_reset s) else (Some [], s))"

definition full_url :: "bytes \<Rightarrow> string \<Rightarrow> bytes" where
  "full_url base path = take 255 (base @ str_bytes path)"

definition telemetry_post :: "pub_in \<Rightarrow> string \<Rightarrow> bytes \<Rightarrow> bytes \<Rightarrow> bytes \<Rightarrow> pub \<Rightarrow> int \<times> pub" where
  "telemetry_post i path body base key s =
    (let url = full_url base path in
     case telemetry_http_prepare i url key s of
       (None, s1) \<Rightarrow> (-1, s1)
     | (Some hs, s1) \<Rightarrow>
         let (rc, s2) = http_request i ''POST'' url hs body s1 in
         (rc, if rc < 0 then (telemetry_http_reset s2)\<lparr> pu_tele_error := True \<rparr> else s2))"

text \<open>The client for rare requests is torn down before and after each; a request that fails on the connection is tried
once more.\<close>

definition low_prepare :: "pub_in \<Rightarrow> bytes \<Rightarrow> pub \<Rightarrow> bool \<times> pub" where
  "low_prepare i url s =
    (if \<not> pi_link i \<or> pi_heap i < 8192 then (False, s)
     else if \<not> pi_begin i url then (False, supabase_http_reset s) else (True, s\<lparr> pu_supa_ready := True \<rparr>))"

definition low_send :: "pub_in \<Rightarrow> string \<Rightarrow> bytes \<Rightarrow> (string \<times> bytes) list \<Rightarrow> bytes \<Rightarrow> pub \<Rightarrow> int \<times> pub" where
  "low_send i verb url hs body s =
    (case low_prepare i url s of
       (False, s1) \<Rightarrow> (-1, s1)
     | (True, s1) \<Rightarrow>
         let (rc, s2) = http_request i verb url hs body s1 in
         if 0 \<le> rc then (rc, supabase_http_reset s2)
         else (case low_prepare i url (supabase_http_reset s2) of
             (False, s3) \<Rightarrow> (-1, s3)
           | (True, s3) \<Rightarrow> let (rc, s4) = http_request i verb url hs body s3 in (rc, supabase_http_reset s4)))"

text \<open>A GET is not repeated, and stays open for the caller to read the reply.\<close>

definition low_get :: "pub_in \<Rightarrow> bytes \<Rightarrow> (string \<times> bytes) list \<Rightarrow> pub \<Rightarrow> int \<times> pub" where
  "low_get i url hs s =
    (case low_prepare i url s of
       (False, s1) \<Rightarrow> (-1, s1)
     | (True, s1) \<Rightarrow>
         let (rc, s2) = http_request i ''GET'' url hs [] s1 in (rc, if rc < 0 then supabase_http_reset s2 else s2))"

definition supabase_headers :: "bytes \<Rightarrow> (string \<times> bytes) list" where
  "supabase_headers key = [json_type, (''apikey'', key), (''Authorization'', bearer key)]"

definition backend_headers :: "bytes \<Rightarrow> bytes \<Rightarrow> (string \<times> bytes) list" where
  "backend_headers device_key api_key = [json_type, (''X-Device-Key'', device_key), (''X-Api-Key'', api_key)]"

definition supabase_post :: "pub_in \<Rightarrow> string \<Rightarrow> bytes \<Rightarrow> bytes \<Rightarrow> bytes \<Rightarrow> pub \<Rightarrow> int \<times> pub" where
  "supabase_post i path body base key = low_send i ''POST'' (full_url base path) (supabase_headers key) body"

definition supabase_patch :: "pub_in \<Rightarrow> string \<Rightarrow> bytes \<Rightarrow> bytes \<Rightarrow> bytes \<Rightarrow> pub \<Rightarrow> int \<times> pub" where
  "supabase_patch i path body base key = low_send i ''PATCH'' (full_url base path) (supabase_headers key) body"

definition supabase_get :: "pub_in \<Rightarrow> string \<Rightarrow> bytes \<Rightarrow> bytes \<Rightarrow> pub \<Rightarrow> int \<times> pub" where
  "supabase_get i path base key = low_get i (full_url base path) (supabase_headers key)"

definition backend_get :: "pub_in \<Rightarrow> string \<Rightarrow> bytes \<Rightarrow> bytes \<Rightarrow> bytes \<Rightarrow> pub \<Rightarrow> int \<times> pub" where
  "backend_get i path base device_key api_key = low_get i (full_url base path) (backend_headers device_key api_key)"

definition backend_post :: "pub_in \<Rightarrow> string \<Rightarrow> bytes \<Rightarrow> bytes \<Rightarrow> bytes \<Rightarrow> bytes \<Rightarrow> pub \<Rightarrow> int \<times> pub" where
  "backend_post i path body base device_key api_key =
    low_send i ''POST'' (full_url base path) (backend_headers device_key api_key) body"

section \<open>The telemetry document\<close>

text \<open>What is not finite is written as zero; the number is written as text.\<close>

definition write_float :: "(f32 \<Rightarrow> bytes) \<Rightarrow> string \<Rightarrow> f32 \<Rightarrow> string \<times> json" where
  "write_float fmt k v = (k, JStr (fmt (if f_finite v then v else 0)))"

definition flag_member :: "string \<Rightarrow> bool \<Rightarrow> string \<times> json" where
  "flag_member k b = (k, JInt (if b then 1 else 0))"

definition word_member :: "string \<Rightarrow> 'a::len word \<Rightarrow> string \<times> json" where
  "word_member k w = (k, JInt (uint w))"

definition tele_key :: "string \<Rightarrow> nat \<Rightarrow> string \<Rightarrow> string" where
  "tele_key pre n post = pre @ dec n @ post"

definition channel_fields :: "(f32 \<Rightarrow> bytes) \<Rightarrow> nat \<Rightarrow> TelemetryChannel \<Rightarrow> (string \<times> json) list" where
  "channel_fields fmt n c =
    [write_float fmt (tele_key ''ch'' n ''_V'') (tc_V c), write_float fmt (tele_key ''ch'' n ''_I'') (tc_I c),
     write_float fmt (tele_key ''ch'' n ''_P'') (tc_P c), write_float fmt (tele_key ''ch'' n ''_energy_Wh'') (tc_energy_Wh c),
     write_float fmt (tele_key ''ch'' n ''_charge_mAh'') (tc_charge_mAh c)]"

definition switch_fields :: "nat \<Rightarrow> TelemetrySwitch \<Rightarrow> (string \<times> json) list" where
  "switch_fields n w =
    [flag_member (tele_key ''sw'' n ''_state'') (ts_state w), word_member (tele_key ''sw'' n ''_type'') (ts_type w),
     flag_member (tele_key ''sw'' n ''_auto'') (ts_auto_mode w), flag_member (tele_key ''sw'' n ''_rule_tripped'') (ts_rule_tripped w)]"

definition battery_fields :: "(f32 \<Rightarrow> bytes) \<Rightarrow> nat \<Rightarrow> TelemetryBattery \<Rightarrow> (string \<times> json) list" where
  "battery_fields fmt n b =
    [write_float fmt (tele_key ''bat'' n ''_soc_pct'') (tb_soc_pct b), write_float fmt (tele_key ''bat'' n ''_V'') (tb_V b),
     write_float fmt (tele_key ''bat'' n ''_I'') (tb_I b),
     write_float fmt (tele_key ''bat'' n ''_cumulative_Ah_in'') (tb_cumulative_Ah_in b),
     write_float fmt (tele_key ''bat'' n ''_cumulative_Ah_out'') (tb_cumulative_Ah_out b),
     write_float fmt (tele_key ''bat'' n ''_equivalent_full_cycles'') (tb_equivalent_full_cycles b),
     write_float fmt (tele_key ''bat'' n ''_soh_pct'') (tb_soh_pct b),
     word_member (tele_key ''bat'' n ''_soh_samples'') (tb_soh_samples b)]"

definition health_fields :: "TelemetrySnapshot \<Rightarrow> (string \<times> json) list" where
  "health_fields s =
    [word_member ''log_entries'' (tl_log_entries s), flag_member ''log_overflow'' (tl_log_overflow s),
     word_member ''min_free_heap'' (tl_min_free_heap s), word_member ''reset_reason'' (tl_reset_reason s),
     word_member ''crash_count'' (tl_crash_count s), flag_member ''safe_mode'' (tl_safe_mode s), flag_member ''ntp_synced'' (tl_ntp_synced s),
     flag_member ''ble_active'' (tl_ble_active s), flag_member ''ble_connected'' (tl_ble_connected s),
     flag_member ''mqtt_connected'' (tl_mqtt_connected s), flag_member ''http_configured'' (tl_http_configured s),
     flag_member ''network_skipped'' (tl_network_skipped s), flag_member ''sd_present'' (tl_sd_present s),
     word_member ''log_buffer_used_pct'' (tl_log_buffer_used_pct s), flag_member ''sensors_calibrating'' (tl_sensors_calibrating s),
     flag_member ''ota_in_progress'' (to_in_progress (tl_ota s)), word_member ''ota_progress_pct'' (to_progress_pct (tl_ota s))]"

definition each_numbered :: "(nat \<Rightarrow> 'a \<Rightarrow> 'b list) \<Rightarrow> 'a list \<Rightarrow> 'b list" where
  "each_numbered f xs = concat (map (\<lambda>(n, x). f n x) (enumerate 0 xs))"

definition data_fields :: "(f32 \<Rightarrow> bytes) \<Rightarrow> TelemetrySnapshot \<Rightarrow> (string \<times> json) list" where
  "data_fields fmt s =
    each_numbered (channel_fields fmt) (tl_channels s) @ each_numbered switch_fields (tl_switches s) @
    each_numbered (battery_fields fmt) (tl_battery s) @ health_fields s"

definition serialize_telemetry_core :: "(f32 \<Rightarrow> bytes) \<Rightarrow> bool \<Rightarrow> TelemetrySnapshot \<Rightarrow> json" where
  "serialize_telemetry_core fmt synced s = JObj
    [word_member ''ts'' (tl_ts s), word_member ''ts_ms'' (tl_ts_ms s), (''schema'', JStr (tl_schema s)), (''fw'', JStr (tl_fw s)),
     word_member ''uptime_ms'' (tl_uptime_ms s), (''rssi'', JInt (sint (tl_rssi s))), word_member ''heap_free'' (tl_heap_free s),
     (''hw_rev'', JStr (tl_hw_rev s)), (''time_source'', if tl_ts s = 0 \<or> \<not> synced then jstr ''uptime'' else jstr ''ntp''),
     (''data'', JObj (data_fields fmt s))]"

text \<open>Printed into a buffer; a text that fills it is refused.\<close>

definition print_into :: "json_lib \<Rightarrow> nat \<Rightarrow> json \<Rightarrow> bytes" where
  "print_into lib n doc = (let t = jl_print lib n doc in if t = [] \<or> n \<le> length t then [] else t)"

definition serialize_telemetry :: "json_lib \<Rightarrow> (f32 \<Rightarrow> bytes) \<Rightarrow> bool \<Rightarrow> TelemetrySnapshot \<Rightarrow> nat \<Rightarrow> bytes" where
  "serialize_telemetry lib fmt synced s out_len =
    (if out_len < 256 then [] else print_into lib out_len (serialize_telemetry_core fmt synced s))"

text \<open>The charge is cut to a 32-bit integer; beyond its range the cast is undefined.\<close>

definition ble_document :: "(f32 \<Rightarrow> bytes) \<Rightarrow> TelemetrySnapshot \<Rightarrow> json" where
  "ble_document fmt s = JObj
    [word_member ''v'' (tl_schema_version s), word_member ''ts'' (tl_ts s),
     (''channels'', JArr (map (\<lambda>c. JObj [word_member ''ch'' (tc_ch c), write_float fmt ''V'' (tc_V c), write_float fmt ''I'' (tc_I c),
        write_float fmt ''P'' (tc_P c), (''c'', JInt (f_trunc (tc_charge_mAh c)))]) (tl_channels s))),
     (''battery'', JArr (map (\<lambda>b. JObj [word_member ''ch'' (tb_ch b), write_float fmt ''soc_pct'' (tb_soc_pct b)]) (tl_battery s)))]"

definition serialize_telemetry_ble :: "json_lib \<Rightarrow> (f32 \<Rightarrow> bytes) \<Rightarrow> TelemetrySnapshot \<Rightarrow> nat \<Rightarrow> bytes" where
  "serialize_telemetry_ble lib fmt s out_len = (if out_len < 128 then [] else print_into lib out_len (ble_document fmt s))"

section \<open>Presence and battery profiles\<close>

definition publish_online_status :: "pub_in \<Rightarrow> net \<Rightarrow> bytes \<Rightarrow> bool \<Rightarrow> pub \<Rightarrow> pub" where
  "publish_online_status i n device_key online s =
    (let topic = take 95 (str_bytes ''status/'' @ device_key @ str_bytes ''/online'');
         payload = take 95 (str_bytes ''{\"online\":'' @ str_bytes (if online then ''true'' else ''false'') @
           str_bytes '',\"ts\":'' @ str_bytes (dec_int (sint (word_of_int (nt_epoch n) :: i32))) @
           str_bytes '',\"schema\":\"telemetry_v1\",\"fw\":\"2.0.0\"}'')
     in snd (mqtt_send i topic payload True s))"

definition profile_json :: "(f32 \<Rightarrow> bytes) \<Rightarrow> BatteryChemistryProfile \<Rightarrow> json" where
  "profile_json fmt p =
    (let text = (\<lambda>k v. (k, JStr (fmt v))) in JObj
      [word_member ''id'' (bcp_id p), (''name'', JStr (c_str (bcp_name p))),
       (''chemistry'', jstr (battery_chemistry_name (bcp_chemistry p))), text ''nominal_voltage'' (bcp_nominal_voltage p),
       text ''rated_capacity_Ah'' (bcp_rated_capacity_Ah p), text ''c_rating'' (bcp_c_rating p),
       text ''cutoff_voltage'' (bcp_cutoff_voltage p), text ''float_voltage'' (bcp_float_voltage p),
       text ''charge_efficiency'' (bcp_charge_efficiency p), word_member ''cycle_life_rated'' (bcp_cycle_life_rated p),
       text ''min_soc_pct'' (bcp_min_soc_pct p), text ''max_soc_pct'' (bcp_max_soc_pct p)])"

text \<open>FNV-1a over the name, the chemistry and the capacity in mAh cut to a byte (from 256 mAh on the cast is undefined;
its low byte here).\<close>

definition fnv :: "u32 \<Rightarrow> u8 \<Rightarrow> u32" where
  "fnv h b = (h * 16777619) XOR ucast b"

definition profile_hash :: "BatteryChemistryProfile \<Rightarrow> u32 \<Rightarrow> u32" where
  "profile_hash p h =
    foldl fnv h (c_str (bcp_name p) @ [bcp_chemistry p, word_of_int (f_trunc (f_mul (bcp_rated_capacity_Ah p) (f_of_int 1000)))])"

definition present_profiles :: "battery \<Rightarrow> BatteryChemistryProfile list" where
  "present_profiles b = List.map_filter (\<lambda>i. battery_profile_get b (of_nat i)) [0..<16]"

definition profiles_document :: "(f32 \<Rightarrow> bytes) \<Rightarrow> bytes \<Rightarrow> battery \<Rightarrow> json" where
  "profiles_document fmt device_key b =
    JObj [(''p_device_key'', JStr device_key), (''p_profiles'', JArr (map (profile_json fmt) (present_profiles b)))]"

definition publish_battery_profiles_heartbeat ::
  "json_lib \<Rightarrow> (f32 \<Rightarrow> bytes) \<Rightarrow> pub_in \<Rightarrow> device \<Rightarrow> bytes \<Rightarrow> bytes \<Rightarrow> pub \<Rightarrow> pub" where
  "publish_battery_profiles_heartbeat lib fmt i d url anon s =
    (if nt_skip (dv_net d) then s
     else case (settings_load_supabase_device_key 64 (kv_of d), settings_load_supabase_api_key 64 (kv_of d)) of
       (Some dk, Some ak) \<Rightarrow>
         if \<not> is_valid_uuid ak then s
         else
           let body = jl_print lib 1024 (profiles_document fmt dk (bat_of d));
               hash = fold profile_hash (present_profiles (bat_of d)) 0
           in if body = [] then s
              else if pi_now i - pu_last_profiles s < 60000 \<and> hash = pu_profiles_hash s then s
              else snd (telemetry_post i ''/rest/v1/rpc/sync_battery_profiles'' body url anon
                (s\<lparr> pu_last_profiles := pi_now i, pu_profiles_hash := hash \<rparr>))
     | _ \<Rightarrow> s)"

definition telemetry_kick_battery_profiles :: "pub \<Rightarrow> pub" where
  "telemetry_kick_battery_profiles s = s\<lparr> pu_last_profiles := 0, pu_profiles_hash := 0 \<rparr>"

section \<open>One publication\<close>

definition telemetry_topic :: "pub_in \<Rightarrow> kv \<Rightarrow> bytes" where
  "telemetry_topic i m = take 127 (str_bytes ''telemetry/power_monitor_v2/'' @ get_mqtt_identity m (pi_mac i) 64)"

definition mqtt_ready :: "pub_in \<Rightarrow> kv \<Rightarrow> bool" where
  "mqtt_ready i m = (settings_load_mqtt 64 m \<noteq> None \<and> pi_mqtt i)"

text \<open>The oldest line of the card's queue is sent again, and queued anew at the end when the broker refuses it.\<close>

definition drain_pending_telemetry_overflow ::
  "('fs, 'h) sdlib \<Rightarrow> pub_in \<Rightarrow> kv \<Rightarrow> ('h logger \<times> 'fs) \<times> pub \<Rightarrow> ('h logger \<times> 'fs) \<times> pub" where
  "drain_pending_telemetry_overflow sd i m w =
    (let (lf, s) = w in
     if \<not> lg_sd_present (fst lf) \<or> \<not> mqtt_ready i m then (lf, s)
     else
       let (payload, lf1) = drain_telemetry_overflow sd 2048 lf in
       if payload = [] then (lf1, s)
       else
         let (ok, s1) = mqtt_send i (telemetry_topic i m) payload False s in
         (if ok then lf1 else snd (save_telemetry_overflow sd payload lf1), s1))"

text \<open>An empty token adds no header; a token of 64 bytes and more has overrun its buffer by then.\<close>

definition publish_data_http :: "pub_in \<Rightarrow> kv \<Rightarrow> bytes \<Rightarrow> pub \<Rightarrow> pub" where
  "publish_data_http i m body s =
    (if pi_heap i < 4096 \<or> \<not> settings_load_http_enabled m then s
     else case settings_load_http_endpoint 128 m of
       None \<Rightarrow> s
     | Some (url, token) \<Rightarrow>
         if \<not> pi_begin i url then s
         else snd (http_request i ''POST'' url (json_type # (if token = [] then [] else [(''Authorization'', token)])) body s))"

text \<open>\<open>publish(topic, buffer, len)\<close> with a \<open>char*\<close> is the overload \<open>(topic, text, retained)\<close> of the MQTT library: the length
is the retain flag.\<close>

definition publish_mqtt ::
  "('fs, 'h) sdlib \<Rightarrow> pub_in \<Rightarrow> device \<Rightarrow> bytes \<Rightarrow> ('h logger \<times> 'fs) \<times> pub \<Rightarrow> ('h logger \<times> 'fs) \<times> pub" where
  "publish_mqtt sd i d body w =
    (let (lf, s) = w; m = kv_of d in
     if \<not> mqtt_ready i m \<or> pi_now i - pu_last_mqtt s < 1000 then (lf, s)
     else
       let (ok, s1) = mqtt_send i (telemetry_topic i m) body (body \<noteq> []) (s\<lparr> pu_last_mqtt := pi_now i \<rparr>);
           lf1 = (if ok then lf else snd (save_telemetry_overflow sd body lf))
       in (lf1, if pi_now i - pu_last_heartbeat s1 < 45000 then s1
                else publish_online_status i (dv_net d) (get_mqtt_identity m (pi_mac i) 64) True
                  (s1\<lparr> pu_last_heartbeat := pi_now i \<rparr>)))"

definition ble_notify_sensor_data :: "ble \<Rightarrow> bytes \<Rightarrow> pub \<Rightarrow> pub" where
  "ble_notify_sensor_data b text s = (if bl_initialized b \<and> bl_connected b then transmit (Notify text) s else s)"

definition publish_ble :: "json_lib \<Rightarrow> (f32 \<Rightarrow> bytes) \<Rightarrow> ble \<Rightarrow> TelemetrySnapshot \<Rightarrow> pub \<Rightarrow> pub" where
  "publish_ble lib fmt b snap s =
    (let text = serialize_telemetry_ble lib fmt snap 256 in if text = [] then s else ble_notify_sensor_data b text s)"

definition publish_profiles :: "json_lib \<Rightarrow> (f32 \<Rightarrow> bytes) \<Rightarrow> pub_in \<Rightarrow> device \<Rightarrow> pub \<Rightarrow> pub" where
  "publish_profiles lib fmt i d s =
    (case (settings_load_supabase_url 128 (kv_of d), settings_load_supabase_anon_key 128 (kv_of d)) of
       (Some url, Some anon) \<Rightarrow> publish_battery_profiles_heartbeat lib fmt i d url anon s
     | _ \<Rightarrow> s)"

definition publish_snapshot ::
  "json_lib \<Rightarrow> ('fs, 'h) sdlib \<Rightarrow> (f32 \<Rightarrow> bytes) \<Rightarrow> pub_in \<Rightarrow> device \<Rightarrow> TelemetrySnapshot
    \<Rightarrow> ('h logger \<times> 'fs) \<times> pub \<Rightarrow> ('h logger \<times> 'fs) \<times> pub" where
  "publish_snapshot lib sd fmt i d snap w =
    (if nt_skip (dv_net d) then w
     else
       let w1 = drain_pending_telemetry_overflow sd i (kv_of d) w;
           body = serialize_telemetry lib fmt (nt_synced (dv_net d)) snap 4096
       in if body = [] then w1
          else
            let (lf, s) = publish_mqtt sd i d body w1 in
            (lf, publish_profiles lib fmt i d (publish_ble lib fmt (dv_ble d) snap (publish_data_http i (kv_of d) body s))))"

definition publish_data ::
  "json_lib \<Rightarrow> ('fs, 'h) sdlib \<Rightarrow> (f32 \<Rightarrow> bytes) \<Rightarrow> pub_in \<Rightarrow> tele_in \<Rightarrow> counter
    \<Rightarrow> (('h logger \<times> 'fs) \<times> pub) \<times> device \<Rightarrow> (('h logger \<times> 'fs) \<times> pub) \<times> device" where
  "publish_data lib sd fmt i ti en x =
    (let ((lf, s), d) = x in
     if nt_skip (dv_net d) then x
     else
       let (snap, lg, d1) = telemetry_build ti sd en lf d in
       (publish_snapshot lib sd fmt i d1 snap ((lg, snd lf), s), d1))"

section \<open>Inputs for evaluation\<close>

definition demo_pub :: pub_in where
  "demo_pub = \<lparr> pi_now = 5000, pi_link = True, pi_heap = 50000, pi_mqtt = True, pi_mac = str_bytes ''AABBCC'',
     pi_takes = (\<lambda>_ _. False), pi_begin = (\<lambda>_. True), pi_alive = True, pi_answer = (\<lambda>_ _ _. 200), pi_reply = [],
     pi_stack = 0 \<rparr>"

end
