(* ===== verification/Cloud_Sync.thy ===== *)
theory Cloud_Sync
  imports Publishing
begin

text \<open>
  The configuration syncs of \<open>connectivity_manager.cpp\<close>: channels, calibration, the BLE PIN, a switch state, the update
  status and the request for the PIN. Each loads its credentials, builds a document, prints it into a buffer of fixed
  size (the printer stops at the end of the buffer) and posts what is there. \<open>publish_calibration_status\<close> does nothing
  while no baseline calibration runs, and the one that could is compiled out.
\<close>

section \<open>Credentials\<close>

definition supabase_keys :: "kv \<Rightarrow> (bytes \<times> bytes \<times> bytes) option" where
  "supabase_keys m =
    (case (settings_load_supabase_url 128 m, settings_load_supabase_anon_key 128 m, settings_load_supabase_device_key 64 m) of
       (Some url, Some anon, Some dk) \<Rightarrow> Some (url, anon, dk)
     | _ \<Rightarrow> None)"

section \<open>Channels\<close>

definition name_of_channel :: "kv \<Rightarrow> u8 \<Rightarrow> json" where
  "name_of_channel m ch = JObj [word_member ''channel'' ch,
     (''name'', JStr (case settings_load_channel_name ch 24 m of Some s \<Rightarrow> s | None \<Rightarrow> []))]"

definition chemistry_text :: "u8 \<Rightarrow> string" where
  "chemistry_text c =
    (if c < 7 then [''lead_acid'', ''lipol'', ''liion'', ''nimh'', ''lifepo4'', ''agm'', ''fla''] ! unat c else ''lead_acid'')"

definition battery_of_channel :: "u8 \<Rightarrow> BatteryProfile \<Rightarrow> json" where
  "battery_of_channel ch b = JObj
    [word_member ''channel'' ch, (''name'', JStr (c_str (bp_name b))), (''chemistry'', jstr (chemistry_text (bp_chemistry b))),
     (''system_voltage'', JReal (bp_system_voltage b)), (''capacity_mAh'', JReal (bp_capacity_mAh b)),
     (''initial_soc_pct'', JReal (bp_initial_soc_pct b)), (''cell_count'', JReal (bp_cell_count b)),
     (''full_voltage'', JReal (bp_full_voltage b)), (''cutoff_voltage'', JReal (bp_cutoff_voltage b)),
     (''float_voltage'', JReal (bp_float_voltage b))]"

definition group_json :: "ChannelGroup \<Rightarrow> json" where
  "group_json g = JObj [word_member ''group_id'' (cg_group_id g), (''name'', JStr (c_str (cg_name g))),
     word_member ''icon'' (cg_icon g), word_member ''channel_mask'' (cg_channel_mask g)]"

definition virtual_json :: "u8 \<Rightarrow> VirtualChannelConfig \<Rightarrow> json" where
  "virtual_json ch v = JObj [word_member ''channel'' ch, word_member ''voltage_src'' (vc_voltage_src v),
     word_member ''voltage_idx'' (vc_voltage_idx v), word_member ''current_src'' (vc_current_src v),
     word_member ''current_idx'' (vc_current_idx v)]"

text \<open>The first three channels of the calibration.\<close>

definition calibration_json :: "ChannelCalibration \<Rightarrow> json" where
  "calibration_json c =
    (let reals = (\<lambda>xs. JArr (map (\<lambda>i. JReal (xs ! i)) [0..<3])) in JObj
      [(''volt_offset_mv'', reals (cal_volt_offset_mv c)), (''volt_gain'', reals (cal_volt_gain c)),
       (''curr_offset_ma'', reals (cal_curr_offset_ma c)), (''curr_gain'', reals (cal_curr_gain c)),
       (''invert_curr'', JArr (map (\<lambda>i. JBool (cal_invert_curr c ! i)) [0..<3]))])"

text \<open>The loops over the four channels, and over the groups counted by the settings.\<close>

definition over_channels :: "(u8 \<Rightarrow> 'a option) \<Rightarrow> (u8 \<Rightarrow> 'a \<Rightarrow> json) \<Rightarrow> nat \<Rightarrow> json" where
  "over_channels load row n =
    JArr (List.map_filter (\<lambda>i. map_option (row (of_nat i)) (load (of_nat i))) [0..<n])"

definition channels_payload :: "kv \<Rightarrow> ChannelCalibration option \<Rightarrow> json" where
  "channels_payload m cal = JObj
    [(''channel_names'', JArr (map (\<lambda>i. name_of_channel m (of_nat i)) [0..<4])),
     (''battery_profiles'', over_channels (\<lambda>ch. settings_load_battery_profile ch m) battery_of_channel 4),
     (''channel_calibration'', case cal of Some c \<Rightarrow> calibration_json c | None \<Rightarrow> JNull),
     (''virtual_channels'', over_channels (\<lambda>ch. settings_load_virtual_channel ch m) virtual_json 4),
     (''channel_groups'', over_channels (\<lambda>i. settings_load_channel_group i m) (\<lambda>_. group_json)
        (unat (settings_load_channel_group_count m)))]"

text \<open>Loading the calibration may migrate it, so the store is returned.\<close>

definition sync_device_channels_to_supabase :: "json_lib \<Rightarrow> pub_in \<Rightarrow> kv \<times> pub \<Rightarrow> kv \<times> pub" where
  "sync_device_channels_to_supabase lib i w =
    (let (m, s) = w in
     if pi_heap i < 8192 then w
     else case supabase_keys m of
       None \<Rightarrow> w
     | Some (url, anon, dk) \<Rightarrow>
         let (cal, m1) = settings_load_channel_calibration m;
             body = jl_print lib 1024 (JObj [(''p_device_key'', JStr dk), (''p_payload'', channels_payload m cal)])
         in (m1, snd (supabase_post i ''/rest/v1/rpc/sync_device_channels'' body url anon s)))"

section \<open>Calibration, PIN and switch state\<close>

text \<open>These drop the telemetry connection first, to free its memory.\<close>

definition sync_calibration_to_supabase :: "json_lib \<Rightarrow> pub_in \<Rightarrow> bool \<Rightarrow> kv \<times> pub \<Rightarrow> kv \<times> pub" where
  "sync_calibration_to_supabase lib i skip w =
    (let (m, s) = w in
     if skip \<or> pi_heap i < 4096 then w
     else
       let s1 = telemetry_http_reset s in
       case (supabase_keys m, settings_load_supabase_api_key 64 m) of
         (Some (url, anon, dk), Some _) \<Rightarrow>
           (case settings_load_channel_calibration m of
              (None, m1) \<Rightarrow> (m1, s1)
            | (Some c, m1) \<Rightarrow>
                let body = jl_print lib 512 (JObj [(''p_device_key'', JStr dk), (''p_calibration'', calibration_json c)])
                in (m1, snd (supabase_post i ''/rest/v1/rpc/sync_device_calibration'' body url anon s1)))
       | _ \<Rightarrow> (m, s1))"

definition sync_ble_pin_to_supabase :: "json_lib \<Rightarrow> pub_in \<Rightarrow> bool \<Rightarrow> kv \<Rightarrow> pub \<Rightarrow> pub" where
  "sync_ble_pin_to_supabase lib i skip m s =
    (if skip \<or> pi_heap i < 4096 then s
     else
       let s1 = telemetry_http_reset s in
       case (supabase_keys m, settings_load_supabase_api_key 64 m) of
         (Some (url, anon, dk), Some _) \<Rightarrow>
           let pin = str_bytes (dec (unat (settings_load_ble_pin m)));
               body = jl_print lib 256 (JObj [(''p_device_key'', JStr dk), (''p_ble_pin'', JStr pin)])
           in snd (supabase_post i ''/rest/v1/rpc/sync_ble_pin'' body url anon s1)
       | _ \<Rightarrow> s1)"

text \<open>Without a stored rule the channel is what an uninitialised struct holds.\<close>

definition switch_state_json :: "bytes \<Rightarrow> u8 \<Rightarrow> bool \<Rightarrow> SwitchChannel \<Rightarrow> u8 \<Rightarrow> json" where
  "switch_state_json dk idx on ch rule_channel = JObj
    [(''p_device_key'', JStr dk), word_member ''p_switch_index'' idx, word_member ''p_gpio_pin'' (ch_gpio_pin ch),
     (''p_is_energized'', JBool on), (''p_active_high'', JBool (ch_active_high ch)),
     word_member ''p_switch_type'' (ch_type ch), word_member ''p_channel'' rule_channel]"

definition post_switch_state :: "json_lib \<Rightarrow> pub_in \<Rightarrow> bool \<Rightarrow> kv \<Rightarrow> u8 \<Rightarrow> bool \<Rightarrow> pub \<Rightarrow> pub" where
  "post_switch_state lib i skip m idx on s =
    (if skip \<or> pi_heap i < 3072 then s
     else
       let s1 = telemetry_http_reset s in
       case (supabase_keys m, settings_load_switch idx m) of
         (Some (url, anon, dk), Some ch) \<Rightarrow>
           let rc = (case settings_load_switch_rule idx m of Some r \<Rightarrow> sr_channel r | None \<Rightarrow> pi_stack i);
               body = jl_print lib 256 (switch_state_json dk idx on ch rc)
           in snd (supabase_post i ''/rest/v1/rpc/sync_switch_state'' body url anon s1)
       | _ \<Rightarrow> s1)"

section \<open>Update status and the PIN from the server\<close>

text \<open>\<open>publish(topic, 0, false, buf)\<close> is the overload \<open>(topic, bytes, length, retained)\<close> of the MQTT library: no bytes,
length zero, retained. The document is built and printed, and not sent.\<close>

definition ota_status_json :: "bytes \<Rightarrow> bytes \<Rightarrow> u8 \<Rightarrow> bytes \<Rightarrow> json" where
  "ota_status_json status version pct err = JObj
    ((''status'', JStr status) # (if version = [] then [] else [(''version'', JStr version)]) @
     (if 0 < pct then [word_member ''progress'' pct] else []) @ (if err = [] then [] else [(''error'', JStr err)]))"

definition publish_ota_status ::
  "json_lib \<Rightarrow> pub_in \<Rightarrow> bytes \<Rightarrow> bytes \<Rightarrow> u8 \<Rightarrow> bytes \<Rightarrow> (kv \<times> identity) \<times> pub \<Rightarrow> (kv \<times> identity) \<times> pub" where
  "publish_ota_status lib i status version pct err w =
    (let (x, s) = w in
     if \<not> pi_mqtt i then w
     else
       let dk = (case settings_load_supabase_device_key 64 (fst x) of Some k \<Rightarrow> k | None \<Rightarrow> []);
           (key, x1) = (if dk = [] then (let (serial, y) = get_device_serial (pi_mac i) x in (take 63 serial, y)) else (dk, x));
           topic = take 127 (str_bytes ''status/'' @ key @ str_bytes ''/ota'');
           text = jl_print lib 256 (ota_status_json status version pct err)
       in (x1, if text = [] then s else snd (mqtt_send i topic [] True s)))"

text \<open>The reply is a quoted text; its quotes are cut off and it must fit the caller's buffer.\<close>

definition pin_of_reply :: "bytes \<Rightarrow> nat \<Rightarrow> bytes option" where
  "pin_of_reply reply len =
    (let body = take 255 reply; n = length body in
     if 2 < n \<and> hd body = 34 \<and> n - 2 < len then
       (let pin = c_str (take (n - 2) (drop 1 body)) in if pin \<noteq> [] then Some pin else None)
     else None)"

definition get_ble_pin_from_supabase :: "json_lib \<Rightarrow> pub_in \<Rightarrow> kv \<Rightarrow> nat \<Rightarrow> pub \<Rightarrow> bytes option \<times> pub" where
  "get_ble_pin_from_supabase lib i m len s =
    (case (supabase_keys m, settings_load_supabase_api_key 64 m) of
       (Some (url, anon, dk), Some _) \<Rightarrow>
         let body = jl_print lib 256 (JObj [(''p_device_key'', JStr dk)]);
             full = full_url url ''/rest/v1/rpc/get_device_ble_pin''
         in case low_prepare i full (supabase_http_reset s) of
              (False, s1) \<Rightarrow> (None, s1)
            | (True, s1) \<Rightarrow>
                let (rc, s2) = http_request i ''POST'' full (supabase_headers anon) body s1
                in (if rc = 200 then pin_of_reply (pi_reply i) len else None, supabase_http_reset s2)
     | _ \<Rightarrow> (None, s))"

section \<open>The effects of the connectivity loop\<close>

text \<open>What the loop of \<open>Wifi\<close> leaves as effects, carried out in its order. The first component is \<open>skip_network\<close> when
the effect happens: the loop clears it together with the telemetry connection it drops. A connect attempt announces the
device when the broker is connected after it.\<close>

fun link_effect :: "json_lib \<Rightarrow> pub_in \<Rightarrow> net \<Rightarrow> net_eff \<Rightarrow> bool \<times> kv \<times> pub \<Rightarrow> bool \<times> kv \<times> pub" where
  "link_effect lib i n Sync_calibration (skip, w) = (skip, sync_calibration_to_supabase lib i skip w)"
| "link_effect lib i n Sync_channels (skip, w) = (skip, sync_device_channels_to_supabase lib i w)"
| "link_effect lib i n Sync_ble_pin (skip, m, s) = (skip, m, sync_ble_pin_to_supabase lib i skip m s)"
| "link_effect lib i n (Publish_switch idx on) (skip, m, s) = (skip, m, post_switch_state lib i skip m idx on s)"
| "link_effect lib i n (Mqtt_connect dk auth) (skip, m, s) =
    (skip, m, if pi_mqtt i then publish_online_status i n dk True s else s)"
| "link_effect lib i n Tls_reset (skip, m, s) = (False, m, telemetry_http_reset s)"
| "link_effect lib i n _ w = w"

definition link_effects :: "json_lib \<Rightarrow> pub_in \<Rightarrow> net \<Rightarrow> net \<Rightarrow> kv \<times> pub \<Rightarrow> kv \<times> pub" where
  "link_effects lib i n n' w =
    snd (fold (link_effect lib i n') (drop (length (nt_out n)) (nt_out n')) (nt_skip n, w))"

end
