(* ===== verification/Display.thy ===== *)
theory Display
  imports Telemetry Ui C_Text
begin

text \<open>
  \<open>display_manager.cpp\<close>: the OLED pages and their order. What is drawn is a list of calls of the graphics library; texts
  are printed with the format the code gives and formatted by the library. \<open>HAS_DISPLAY\<close> is on. The frame of the page
  shown is the trace since the last clearing.
\<close>

section \<open>State\<close>

datatype draw =
    D_clear
  | D_show
  | D_size nat
  | D_cursor int int
  | D_text bytes
  | D_format string "arg list"
  | D_float f32 nat
  | D_rect int int int int
  | D_fill int int int int

text \<open>\<open>ds_on\<close>: \<open>display\<close> is not null.\<close>

record display =
  ds_on :: bool
  ds_page :: u8
  ds_last_switch :: u32
  ds_wire :: bool
  ds_out :: "draw list"

definition display0 :: display where
  "display0 = \<lparr> ds_on = False, ds_page = 0, ds_last_switch = 0, ds_wire = False, ds_out = [] \<rparr>"

abbreviation d_str :: "string \<Rightarrow> draw" where "d_str s \<equiv> D_text (str_bytes s)"

section \<open>Pages\<close>

text \<open>The filled part is cut to an integer; below one pixel nothing is drawn.\<close>

definition soc_fill :: "int \<Rightarrow> f32 \<Rightarrow> int" where
  "soc_fill width soc = f_trunc (f_div (f_mul (f_of_int (width - 2)) soc) (f_of_int 100))"

definition draw_soc_bar :: "int \<Rightarrow> int \<Rightarrow> int \<Rightarrow> f32 \<Rightarrow> draw list" where
  "draw_soc_bar cx cy width soc =
    D_rect (cx - width div 2) (cy - 1) width 3 #
    (if 0 < soc_fill width soc then [D_fill (cx - width div 2 + 1) cy (soc_fill width soc) 1] else [])"

text \<open>The power is printed into twelve characters, which a value of a billion watts and more would leave.\<close>

definition draw_status_page ::
  "('fs, 'h) sdlib \<Rightarrow> u32 \<Rightarrow> bytes \<Rightarrow> f32 \<Rightarrow> f32 \<Rightarrow> 'h logger \<times> 'fs \<Rightarrow> draw list \<times> 'h logger" where
  "draw_status_page sd now ip total_power temp w =
    (let (ovf, lg) = log_has_overflow_file sd w in
     ([D_size 1, D_cursor 0 2, D_text ip, D_size 2, D_cursor 0 12, D_format ''%5.1f'' [A_float total_power], D_size 1,
       D_cursor 54 14, d_str ''W'', D_size 1, D_cursor 0 30, d_str ''LOG:'', D_format ''%u'' [a_nat (log_entries_count (fst w))],
       d_str '' ent''] @ (if ovf then [d_str '' [OVF]''] else []) @
      [D_cursor 0 52, D_format ''%4.1f'' [A_float temp], d_str ''C '', D_format ''%lu'' [a_word (now div 1000 div 60)], d_str ''m''],
      lg))"

definition channel_name :: "kv \<Rightarrow> u8 \<Rightarrow> bytes" where
  "channel_name m ch =
    (case settings_load_channel_name ch 24 m of
       Some (c # cs) \<Rightarrow> c # cs
     | _ \<Rightarrow> str_bytes (if ch = 0 then ''Battery'' else if ch = 1 then ''Solar'' else ''Output''))"

definition current_text :: "f32 \<Rightarrow> draw" where
  "current_text i =
    (if f_lt (f_abs i) (f_of_int 1) then D_format ''%d mA'' [A_int (f_trunc (f_mul i (f_of_int 1000)))]
     else D_format ''%.2f A'' [A_float i])"

definition power_text :: "f32 \<Rightarrow> draw" where
  "power_text p = D_format (if f_lt (f_abs p) (f_of_int 10) then ''%.2f W'' else ''%.1f W'') [A_float p]"

text \<open>The state of charge from the charge counted since the initial one, between 0 and 100.\<close>

definition shown_soc :: "BatteryConfig \<Rightarrow> f32 \<Rightarrow> f32" where
  "shown_soc bat charge =
    (let soc = f_add (bc_initial_soc_pct bat) (f_mul (f_div charge (bc_capacity_mAh bat)) (f_of_int 100));
         soc1 = (if f_lt soc 0 then 0 else soc)
     in if f_gt soc1 (f_of_int 100) then f_of_int 100 else soc1)"

definition charge_lines :: "kv \<Rightarrow> u8 \<Rightarrow> f32 \<Rightarrow> draw list" where
  "charge_lines m ch charge =
    (case settings_load_battery ch m of
       Some bat \<Rightarrow>
         if f_gt (bc_capacity_mAh bat) (f_lit 1 1000) then
           [D_size 1, D_cursor 0 50, d_str ''SoC '', D_float (shown_soc bat charge) 0, d_str ''%''] @
           draw_soc_bar 85 57 18 (shown_soc bat charge)
         else [D_size 1, D_cursor 0 56, d_str ''mAh:'',
           if f_lt (f_abs charge) (f_of_int 1000) then D_float charge 0 else D_float (f_div charge (f_of_int 1000)) 2]
     | None \<Rightarrow> [D_size 1, D_cursor 0 56, d_str ''mAh:'',
         if f_lt (f_abs charge) (f_of_int 1000) then D_float charge 0 else D_float (f_div charge (f_of_int 1000)) 2])"

definition draw_channel_page :: "kv \<Rightarrow> u8 \<Rightarrow> f32 \<Rightarrow> f32 \<Rightarrow> f32 \<Rightarrow> f32 \<Rightarrow> draw list" where
  "draw_channel_page m ch v i p charge =
    [D_size 1, D_cursor 0 2, D_text (channel_name m ch), D_cursor (128 - 24) 2, d_str ''CH'', D_format ''%u'' [a_word ch],
     D_size 1, D_cursor 0 16, d_str ''V:'', D_float v 2, d_str ''V'', D_cursor 0 26, d_str ''I:'', current_text i,
     D_cursor 0 36, d_str ''P:'', D_size 2, power_text p, D_size 1] @ charge_lines m ch charge"

section \<open>The display loop\<close>

text \<open>A press of the button turns the page and restarts the timer, three seconds without one turn it too.\<close>

definition turn_page :: "u32 \<Rightarrow> bool \<Rightarrow> u8 \<times> u32 \<Rightarrow> u8 \<times> u32" where
  "turn_page now pressed pt =
    (let (page, since) = (if pressed then ((fst pt + 1) mod 5, now) else pt) in
     if 3000 \<le> now - since then ((page + 1) mod 5, now) else (page, since))"

definition page_frame ::
  "('fs, 'h) sdlib \<Rightarrow> kv \<Rightarrow> u32 \<Rightarrow> f32 \<Rightarrow> TelemetrySnapshot \<Rightarrow> u8 \<Rightarrow> 'h logger \<times> 'fs \<Rightarrow> draw list \<times> 'h logger" where
  "page_frame sd m now temp snap page w =
    (if page = 0 then
       draw_status_page sd now (tl_ip snap) (foldl f_add 0 (map tc_P (take 4 (tl_channels snap)))) temp w
     else
       let k = unat (page - 1) in
       (if k < length (tl_channels snap) then
          (let c = tl_channels snap ! k in draw_channel_page m (page - 1) (tc_V c) (tc_I c) (tc_P c) (tc_charge_mAh c))
        else [], fst w))"

definition update_display ::
  "('fs, 'h) sdlib \<Rightarrow> kv \<Rightarrow> u32 \<Rightarrow> f32 \<Rightarrow> TelemetrySnapshot \<Rightarrow> 'fs \<Rightarrow> ui \<times> 'h logger \<times> display \<Rightarrow> ui \<times> 'h logger \<times> display" where
  "update_display sd m now temp snap fs x =
    (let (u, lg, s) = x in
     if \<not> ds_on s then x
     else
       let (pressed, u1) = ui_next_display_page u;
           (page, since) = turn_page now pressed (ds_page s, ds_last_switch s);
           (ops, lg1) = page_frame sd m now temp snap page (lg, fs)
       in (u1, lg1, s\<lparr> ds_page := page, ds_last_switch := since, ds_out := ds_out s @ [D_clear] @ ops @ [D_show] \<rparr>))"

definition init_display :: "bool \<Rightarrow> display \<Rightarrow> display" where
  "init_display begins s =
    (if \<not> begins then s\<lparr> ds_on := False \<rparr>
     else s\<lparr> ds_on := True, ds_wire := True, ds_out := ds_out s @
       [D_clear, D_size 1, D_cursor 0 0, d_str ''Init...'', D_show, D_clear, D_size 2, D_cursor 20 20, d_str ''Power'',
        D_cursor 20 40, d_str ''Monitor'', D_show] \<rparr>)"

section \<open>The button does not choose the page\<close>

text \<open>The network task updates at most every five seconds, later than the pages turn by themselves: each update turns to
the next page, with or without a press.\<close>

definition display_run ::
  "('fs, 'h) sdlib \<Rightarrow> kv \<Rightarrow> TelemetrySnapshot \<Rightarrow> 'fs \<Rightarrow> (u32 \<times> f32 \<times> ui) list \<Rightarrow> 'h logger \<times> display \<Rightarrow> 'h logger \<times> display" where
  "display_run sd m snap fs =
    fold (\<lambda>(now, temp, u) (lg, s). snd (update_display sd m now temp snap fs (u, lg, s)))"

fun update_pace :: "u32 \<Rightarrow> (u32 \<times> f32 \<times> ui) list \<Rightarrow> bool" where
  "update_pace since [] = True"
| "update_pace since ((now, temp, u) # xs) = (3000 \<le> now - since \<and> update_pace now xs)"

lemma turn_page_paced: "3000 \<le> now - snd pt \<Longrightarrow> turn_page now pressed pt = ((fst pt + 1) mod 5, now)"
  by (cases pt) (simp add: turn_page_def Let_def)

lemma update_display_page:
  assumes "ds_on s" "3000 \<le> now - ds_last_switch s"
  shows "let s' = snd (snd (update_display sd m now temp snap fs (u, lg, s))) in
    ds_on s' \<and> ds_page s' = (ds_page s + 1) mod 5 \<and> ds_last_switch s' = now"
  using assms turn_page_paced [of now "(ds_page s, ds_last_switch s)" "fst (ui_next_display_page u)"]
  by (simp add: update_display_def Let_def case_prod_beta)

lemma unat_next_page: "unat p < 5 \<Longrightarrow> unat (((p :: u8) + 1) mod 5) = (unat p + 1) mod 5"
proof -
  assume "unat p < 5"
  then have "unat (p + 1) = unat p + 1" by (simp add: unat_word_ariths)
  then show ?thesis by (simp add: unat_mod)
qed

text \<open>A press of the page button has no effect on what the display shows: while updates come at least three seconds
apart (the network task leaves five) each turns to the next page exactly once, whatever the buttons did, so after
\<open>n\<close> updates the page is the \<open>n\<close>-th after the first.\<close>

theorem page_ignores_button:
  assumes "ds_on s" "unat (ds_page s) < 5" "update_pace (ds_last_switch s) xs"
  shows "unat (ds_page (snd (display_run sd m snap fs xs (lg, s)))) = (unat (ds_page s) + length xs) mod 5"
  using assms
proof (induction xs arbitrary: lg s)
  case (Cons x xs)
  obtain now temp u where x: "x = (now, temp, u)" by (cases x) auto
  let ?w = "snd (update_display sd m now temp snap fs (u, lg, s))"
  have pace: "3000 \<le> now - ds_last_switch s" "update_pace now xs" using Cons.prems(3) x by simp_all
  have n: "ds_on (snd ?w)" "ds_page (snd ?w) = (ds_page s + 1) mod 5" "ds_last_switch (snd ?w) = now"
    using update_display_page [OF Cons.prems(1) pace(1), of sd m temp snap fs u lg] by (simp_all add: Let_def)
  have p: "unat (ds_page (snd ?w)) = (unat (ds_page s) + 1) mod 5" using n(2) unat_next_page [OF Cons.prems(2)] by simp
  have "unat (ds_page (snd (display_run sd m snap fs xs ?w))) = (unat (ds_page (snd ?w)) + length xs) mod 5"
    using Cons.IH [of "snd ?w" "fst ?w"] n(1,3) p pace(2) by simp
  then show ?case using p x by (simp add: display_run_def) presburger
qed (simp add: display_run_def)

lemma page_ignores_button_witness:
  "unat (ds_page (snd (display_run map_card Map.empty demo_snapshot (\<lambda>_. None)
     [(5000, 0, ui0), (10000, 0, ui0\<lparr> ui_next_page := 1 \<rparr>)] (logger0, display0\<lparr> ds_on := True \<rparr>)))) = 2"
  using page_ignores_button [of "display0\<lparr> ds_on := True \<rparr>" "[(5000, 0, ui0), (10000, 0, ui0\<lparr> ui_next_page := 1 \<rparr>)]"
      map_card Map.empty demo_snapshot "\<lambda>_. None" logger0]
  by (simp add: display0_def)

end
