(* ===== verification/Firmware.thy ===== *)
theory Firmware
  imports Cloud_Commands Ui Telemetry C_Text Cloud_Sync Display
begin

text \<open>
  \<open>main.cpp\<close>: what \<open>setup()\<close> initialises and in which order, one round of the sensor task and one round of the network
  task and the UI task, each as one function on the state of the whole firmware. The watchdog has no
  part in it; the tasks' rounds are the interleaving grain (the mutexes inside the components are not represented). What
  the rounds read from outside is collected in \<open>plant\<close> (fixed for a boot) and \<open>sensor_in\<close> / \<open>net_round\<close> (new each
  round).
\<close>

section \<open>State and surroundings\<close>

text \<open>\<open>sy_fed\<close> are the network task's \<open>last_wifi\<close> and \<open>last_cloud\<close>, \<open>sy_line\<close> and \<open>sy_print\<close> the console's line buffer and
what it printed, \<open>sy_test\<close> the switches the console still has to test, each with whether its pulse was started.\<close>

record ('fs, 'h) system =
  sy_dev :: device
  sy_energy :: counter
  sy_log :: "'h logger"
  sy_fs :: 'fs
  sy_queue :: "SensorSnapshot list"
  sy_confirmed :: bool
  sy_last_tick :: u32
  sy_ntp_retry :: u32
  sy_network_task :: bool
  sy_ui :: ui
  sy_fed :: "bool \<times> bool"
  sy_line :: bytes
  sy_print :: "message list"
  sy_test :: "(nat \<times> bool) list"
  sy_pub :: pub
  sy_display :: display
  sy_last_display :: u32

record ('fs, 'h) plant =
  pl_sd :: "('fs, 'h) sdlib"
  pl_ring :: nat
  pl_row :: "SensorSnapshot \<Rightarrow> u32 \<Rightarrow> int \<Rightarrow> bytes"
  pl_path :: "bool \<Rightarrow> int \<Rightarrow> u32 \<Rightarrow> string"
  pl_header :: bytes
  pl_board :: board
  pl_prefs :: prefs_env
  pl_ical :: "nat \<Rightarrow> ina_cal"
  pl_bl :: "PodState \<Rightarrow> PodState"
  pl_mac :: bytes
  pl_probe :: "u8 \<Rightarrow> bool"
  pl_begins :: "u8 \<Rightarrow> bool"
  pl_adv :: bool
  pl_sha256 :: "bytes \<Rightarrow> bytes"
  pl_json :: json_lib
  pl_ids :: "bytes \<times> bytes"
  pl_ui :: ui_pins
  pl_localtime :: "int \<Rightarrow> (u8 \<times> u8) option"
  pl_float_text :: "f32 \<Rightarrow> bytes"
  pl_oled :: bool

text \<open>A sensor round: the RTOS tick count, the clock, the INA226 readings, the link, and the update partition's state for
the confirmation.\<close>

record sensor_in =
  si_ticks :: u32
  si_now :: u32
  si_ina :: "u8 \<Rightarrow> f32 \<times> f32"
  si_link :: bool
  si_part :: "bool option"
  si_mark :: bool

section \<open>The sensor task\<close>

text \<open>\<open>push_sensor_data\<close>: sixteen snapshots at most, a full queue drops the new one; no queue before
\<open>init_core_shared\<close> is not represented, the tasks start after it.\<close>

definition push_sensor_data :: "SensorSnapshot \<Rightarrow> SensorSnapshot list \<Rightarrow> SensorSnapshot list" where
  "push_sensor_data x q = (if length q < 16 then q @ [x] else q)"

text \<open>The seconds since the last round, from the tick counter (1000 Hz); what is not in (0, 10] counts as one second.\<close>

definition sample_dt :: "u32 \<Rightarrow> u32 \<Rightarrow> f32" where
  "sample_dt now_ticks prev =
    (let dt = f_div (f_of_int (uint (now_ticks - prev))) (f_of_int 1000) in
     if f_le dt 0 \<or> f_gt dt (f_of_int 10) then f_of_int 1 else dt)"

text \<open>What \<open>eval_schedule\<close> takes for the local time: the epoch of the last synchronisation, once the logger trusts it.\<close>

definition local_time :: "('fs, 'h) plant \<Rightarrow> 'h logger \<Rightarrow> net \<Rightarrow> (u8 \<times> u8) option" where
  "local_time p lg n = (if \<not> lg_epoch_valid lg \<or> nt_epoch n = 0 then None else pl_localtime p (nt_epoch n))"

definition sensor_round :: "('fs, 'h) plant \<Rightarrow> sensor_in \<Rightarrow> ('fs, 'h) system \<Rightarrow> ('fs, 'h) system" where
  "sensor_round p i s =
    (let dt = sample_dt (si_ticks i) (sy_last_tick s); now = si_now i; d = sy_dev s;
         (snap, sens) = read_sensors (si_ina i) (pl_ical p) (pl_bl p) now (dv_sens d);
         (lg, fs) = log_sample (pl_sd p) (pl_ring p) (\<not> si_link i) (pl_row p) (pl_path p) (pl_header p) now snap now
           (sy_log s, sy_fs s);
         d1 = on_coul (update_coulomb_counter sens dt now now) (d\<lparr> dv_sens := sens \<rparr>);
         (m, en) = update_energy_counter sens dt now now (kv_of d1, sy_energy s);
         d2 = on_cyc (update_cycle_counter (pl_prefs p) m (dv_coul d1) snap dt now) (on_kv (\<lambda>_. m) d1);
         d3 = on_sw (evaluate_switches (pl_board p)
           \<lparr> en_coul = get_coulomb_mAh (dv_coul d2), en_lt = local_time p lg (dv_net d2), en_snap = snap \<rparr> now) d2;
         d4 = (if \<not> sy_confirmed s then on_ota (\<lambda>u. snd (ota_confirm_valid now (si_part i) (si_mark i) u)) d3 else d3)
     in s\<lparr> sy_dev := d4, sy_energy := en, sy_log := lg, sy_fs := fs, sy_queue := push_sensor_data snap (sy_queue s),
          sy_confirmed := True, sy_last_tick := si_ticks i \<rparr>)"

section \<open>The network task\<close>

text \<open>A network round: the connectivity inputs, the update client's, the command surroundings, whether the heap allows a
poll and the backend's reply.\<close>

record net_round =
  nr_net :: net_in
  nr_ota :: ota_in
  nr_env :: cmd_env
  nr_heap :: bool
  nr_reply :: "json option"
  nr_tele :: tele_in
  nr_pub :: pub_in
  nr_temp :: f32

text \<open>\<open>loop_connectivity\<close> on the device: \<open>nt_ble\<close> is \<open>bl_initialized\<close>, and a change of it is the start or stop of the BLE
stack.\<close>

definition on_connectivity :: "bytes \<times> bytes \<Rightarrow> bool \<Rightarrow> net_in \<Rightarrow> device \<Rightarrow> device" where
  "on_connectivity ids started i d =
    (let n = loop_connectivity (kv_of d) ids i ((dv_net d)\<lparr> nt_ble := bl_initialized (dv_ble d) \<rparr>);
         b = dv_ble d
     in d\<lparr> dv_net := n,
           dv_ble := (if nt_ble n then init_ble_provisioner started b else deinit_ble_provisioner b) \<rparr>)"

text \<open>What a synchronisation tells the logger.\<close>

fun clock_effect :: "u32 \<Rightarrow> net_eff \<Rightarrow> 'h logger \<Rightarrow> 'h logger" where
  "clock_effect now (Set_epoch t) lg = log_set_epoch t now lg"
| "clock_effect now (Epoch_valid b) lg = log_epoch_valid_set b lg"
| "clock_effect now _ lg = lg"

definition clock_effects :: "u32 \<Rightarrow> net \<Rightarrow> net \<Rightarrow> 'h logger \<Rightarrow> 'h logger" where
  "clock_effects now n n' = fold (clock_effect now) (drop (length (nt_out n)) (nt_out n'))"

definition is_cloud_connected :: "kv \<Rightarrow> bool \<Rightarrow> bool" where
  "is_cloud_connected m up = (settings_load_mqtt 64 m \<noteq> None \<and> up)"

text \<open>The network LED is told of a change only; both flags start false.\<close>

definition feed_ui :: "bool \<Rightarrow> bool \<Rightarrow> ('fs, 'h) system \<Rightarrow> ('fs, 'h) system" where
  "feed_ui wifi cloud s =
    (if (wifi, cloud) \<noteq> sy_fed s
     then s\<lparr> sy_fed := (wifi, cloud), sy_ui := ui_set_network_status wifi cloud (sy_ui s) \<rparr> else s)"

text \<open>At most one reading is taken from the queue each round; the snapshot built for it is published, and drawn when the
last drawing is five seconds old.\<close>

definition show_page :: "('fs, 'h) plant \<Rightarrow> f32 \<Rightarrow> u32 \<Rightarrow> TelemetrySnapshot \<Rightarrow> ('fs, 'h) system \<Rightarrow> ('fs, 'h) system" where
  "show_page p temp now snap s =
    (let (u, lg, ds) = update_display (pl_sd p) (kv_of (sy_dev s)) now temp snap (sy_fs s) (sy_ui s, sy_log s, sy_display s)
     in s\<lparr> sy_ui := u, sy_log := lg, sy_display := ds \<rparr>)"

lemma show_page_simps [simp]:
  "sy_dev (show_page p temp now snap s) = sy_dev s" "sy_energy (show_page p temp now snap s) = sy_energy s"
  "sy_fs (show_page p temp now snap s) = sy_fs s" "sy_queue (show_page p temp now snap s) = sy_queue s"
  "sy_line (show_page p temp now snap s) = sy_line s" "sy_print (show_page p temp now snap s) = sy_print s"
  "sy_test (show_page p temp now snap s) = sy_test s" "sy_network_task (show_page p temp now snap s) = sy_network_task s"
  "sy_pub (show_page p temp now snap s) = sy_pub s" "sy_last_display (show_page p temp now snap s) = sy_last_display s"
  by (simp_all add: show_page_def case_prod_beta)

lemma show_pages_dev [simp]: "sy_dev (fold (\<lambda>k. show_page p temp (f k) snap) ks s) = sy_dev s"
  by (induction ks arbitrary: s) simp_all

definition process_reading :: "('fs, 'h) plant \<Rightarrow> net_round \<Rightarrow> ('fs, 'h) system \<Rightarrow> ('fs, 'h) system" where
  "process_reading p i s =
    (if sy_queue s = [] then s
     else
       let now = ce_now (nr_env i);
           (snap, lg, d) = telemetry_build (nr_tele i) (pl_sd p) (sy_energy s) (sy_log s, sy_fs s) (sy_dev s);
           ((lg1, fs), pb) = publish_snapshot (pl_json p) (pl_sd p) (pl_float_text p) (nr_pub i) d snap ((lg, sy_fs s), sy_pub s);
           s1 = s\<lparr> sy_dev := d, sy_log := lg1, sy_fs := fs, sy_pub := pb, sy_queue := drop 1 (sy_queue s) \<rparr>
       in if now - sy_last_display s < 5000 then s1 else show_page p (nr_temp i) now snap (s1\<lparr> sy_last_display := now \<rparr>))"

lemma process_reading_dev:
  "sy_dev (process_reading p i s) = (if sy_queue s = [] then sy_dev s
    else snd (snd (telemetry_build (nr_tele i) (pl_sd p) (sy_energy s) (sy_log s, sy_fs s) (sy_dev s))))"
  by (simp add: process_reading_def Let_def case_prod_beta)

lemma feed_ui_simps [simp]:
  "sy_queue (feed_ui wifi cloud s) = sy_queue s" "sy_energy (feed_ui wifi cloud s) = sy_energy s"
  "sy_log (feed_ui wifi cloud s) = sy_log s" "sy_fs (feed_ui wifi cloud s) = sy_fs s"
  by (simp_all add: feed_ui_def)

definition network_round :: "('fs, 'h) plant \<Rightarrow> net_round \<Rightarrow> ('fs, 'h) system \<Rightarrow> ('fs, 'h) system" where
  "network_round p i s =
    (let now = ce_now (nr_env i); d0 = sy_dev s;
         dl = on_connectivity (pl_ids p) (pl_adv p) (nr_net i) d0;
         (m, pb) = link_effects (pl_json p) (nr_pub i) (dv_net d0) (dv_net dl) (kv_of dl, sy_pub s);
         d1 = on_kv (\<lambda>_. m) dl;
         d2 = loop_ble_provisioner (jl_parse (pl_json p)) (nr_env i) d1;
         d3 = on_ota (loop_ota_client (pl_sha256 p) (nr_ota i)) d2;
         wifi = ni_link (nr_net i);
         s1 = feed_ui wifi (wifi \<and> is_cloud_connected (kv_of d3) (ni_mqtt_up (nr_net i))) s;
         s2 = process_reading p i (s1\<lparr> sy_dev := d3, sy_pub := pb \<rparr>);
         d4 = snd (check_settings_commands (pl_json p) (nr_heap i) (nr_env i) (nr_reply i) (sy_dev s2));
         retry = 60000 \<le> now - sy_ntp_retry s;
         d5 = (if retry then on_net (\<lambda>n. snd (try_sync_epoch_time (nr_net i) n)) d4 else d4)
     in s2\<lparr> sy_dev := d5, sy_log := clock_effects now (dv_net d0) (dv_net d5) (sy_log s2),
           sy_ntp_retry := (if retry then now else sy_ntp_retry s) \<rparr>)"

section \<open>The UI task\<close>

definition ui_round :: "cmd_env \<Rightarrow> (u8 \<Rightarrow> bool) \<Rightarrow> ('fs, 'h) system \<Rightarrow> ('fs, 'h) system" where
  "ui_round env level s = (let (u, d) = loop_ui env level (sy_ui s, sy_dev s) in s\<lparr> sy_ui := u, sy_dev := d \<rparr>)"

section \<open>Boot\<close>

text \<open>The statics before \<open>setup()\<close>: everything zero, the store as it was left.\<close>

definition blank_device :: "nvs \<Rightarrow> device" where
  "blank_device n = \<lparr> dv_nvs = n, dv_id = identity0, dv_sens = sensors0, dv_coul = counter0, dv_sw = sw0,
     dv_bat = battery0 n, dv_cyc = cycle0, dv_ota = ota0 n, dv_net = net0, dv_ble = ble0, dv_last_poll = 0, dv_out = [] \<rparr>"

definition blank_system :: "nvs \<Rightarrow> 'fs \<Rightarrow> ('fs, 'h) system" where
  "blank_system n fs = \<lparr> sy_dev = blank_device n, sy_energy = counter0, sy_log = logger0, sy_fs = fs, sy_queue = [],
     sy_confirmed = False, sy_last_tick = 0, sy_ntp_retry = 0, sy_network_task = False,
     sy_ui = ui0, sy_fed = (False, False), sy_line = [], sy_print = [], sy_test = [], sy_pub = pub0, sy_display = display0,
     sy_last_display = 0 \<rparr>"

text \<open>\<open>setup()\<close>: in safe mode only the sensors, the logger, the switches and the UI are initialised, and only the sensor
task is created; \<open>vTaskDelete(NULL)\<close> then ends the task that would run \<open>loop()\<close>, so neither the console nor the UI task
runs (\<open>sy_network_task\<close> is false). The counters, batteries, the update client and BLE keep their zero state. The epoch
of the logger is \<open>get_epoch_time()\<close>, zero at boot. The sensor task starts with the tick count \<open>ticks\<close>; \<open>level\<close> are the
pins' levels.\<close>

definition setup_firmware ::
  "('fs, 'h) plant \<Rightarrow> u32 \<Rightarrow> u32 \<Rightarrow> (u8 \<Rightarrow> bool) \<Rightarrow> ('fs, 'h) system \<Rightarrow> ('fs, 'h) system" where
  "setup_firmware p now ticks level s =
    (let d0 = sy_dev s; u = ui_set_heartbeat True (init_ui (pl_ui p) level (sy_ui s));
         (m, ident) = init_device_identity (pl_mac p) (kv_of d0, dv_id d0);
         d1 = on_sens (init_sensors (pl_probe p) (pl_begins p)) ((on_kv (\<lambda>_. m) d0)\<lparr> dv_id := ident \<rparr>)
     in if safe_mode ident then
          s\<lparr> sy_dev := on_sw (init_switches (pl_board p)) d1,
             sy_log := init_data_logger (pl_sd p) (sy_fs s) (sy_log s), sy_last_tick := ticks, sy_ui := u \<rparr>
        else
          let lg = init_data_logger (pl_sd p) (sy_fs s) (log_set_epoch (nt_epoch (dv_net d1)) now (sy_log s));
              d2 = d1\<lparr> dv_coul := init_coulomb_counter (kv_of d1) (dv_sens d1) now (dv_coul d1) \<rparr>;
              en = init_energy_counter (kv_of d2) (dv_sens d2) now (sy_energy s);
              d3 = on_bat (\<lambda>b. init_battery_bindings (pl_prefs p) (init_battery_profiles (pl_prefs p) b)) d2;
              d4 = d3\<lparr> dv_cyc := init_cycle_counter now (dv_cyc d3) \<rparr>;
              d5 = on_ota (init_ota_client now) (on_sw (init_switches (pl_board p)) d4);
              d6 = on_ble (init_ble_provisioner (pl_adv p)) d5;
              d7 = on_ble (start_ble_advertising (pl_adv p)) d6
          in s\<lparr> sy_dev := on_net (init_connectivity now) d7, sy_energy := en, sy_log := lg, sy_last_tick := ticks,
             sy_network_task := True, sy_ui := u,
             sy_display := init_display (pl_oled p) (sy_display s) \<rparr>)"

end
