(* ===== verification/Serial_Cli.thy ===== *)
theory Serial_Cli
  imports Firmware
begin

text \<open>
  The serial console (\<open>handle_serial_cli\<close> and \<open>print_status\<close> of \<open>main.cpp\<close>): the line editor, one definition per
  command, and the chain of \<open>strncmp\<close> / \<open>strcmp\<close> tests as a table in the order of the code. A command runs on the state
  of the whole firmware and yields nothing when a word read by \<open>sscanf\<close> with a bare \<open>%s\<close> does not fit its buffer (the
  write past a stack buffer is undefined). What is printed is a list of formats with their arguments; the dump of
  the event log (\<open>dump_event_log_serial\<close>) is one message. Non-ASCII dashes and arrows in the
  texts are written in ASCII.
\<close>

section \<open>Surroundings\<close>

text \<open>A console pass: the command surroundings, the sensors' readings, the telemetry inputs, the pins' levels, which I2C
addresses answer, and the figures of the \<open>mem\<close> command.\<close>

record cli_in =
  ci_env :: cmd_env
  ci_ina :: "u8 \<Rightarrow> f32 \<times> f32"
  ci_tele :: tele_in
  ci_level :: "u8 \<Rightarrow> bool"
  ci_i2c :: "u8 \<Rightarrow> bool"
  ci_mem :: "arg list"
  ci_temp :: f32

type_synonym ('fs, 'h) cli = "('fs, 'h) plant \<Rightarrow> cli_in \<Rightarrow> bytes \<Rightarrow> ('fs, 'h) system \<Rightarrow> ('fs, 'h) system option"

definition say :: "string \<Rightarrow> arg list \<Rightarrow> ('fs, 'h) system \<Rightarrow> ('fs, 'h) system" where
  "say fmt args s = s\<lparr> sy_print := sy_print s @ [(fmt, args)] \<rparr>"

definition on_dev :: "(device \<Rightarrow> device) \<Rightarrow> ('fs, 'h) system \<Rightarrow> ('fs, 'h) system" where
  "on_dev f s = s\<lparr> sy_dev := f (sy_dev s) \<rparr>"

abbreviation sy_kv :: "('fs, 'h) system \<Rightarrow> kv" where "sy_kv s \<equiv> kv_of (sy_dev s)"

definition cli_read_sensors :: "('fs, 'h) plant \<Rightarrow> cli_in \<Rightarrow> ('fs, 'h) system \<Rightarrow> ('fs, 'h) system" where
  "cli_read_sensors p i = on_dev (\<lambda>d. d\<lparr> dv_sens :=
     snd (read_sensors (ci_ina i) (pl_ical p) (pl_bl p) (ce_now (ci_env i)) (dv_sens d)) \<rparr>)"

definition fits :: "nat \<Rightarrow> bytes \<Rightarrow> bool" where
  "fits n word = (length word < n)"

definition rows :: "('a \<Rightarrow> ('fs, 'h) system \<Rightarrow> ('fs, 'h) system) \<Rightarrow> 'a list \<Rightarrow> ('fs, 'h) system \<Rightarrow> ('fs, 'h) system" where
  "rows f xs s = fold f xs s"

section \<open>Switches and counters\<close>

definition cli_switch :: "('fs, 'h) cli" where
  "cli_switch p i line s =
    (case sscanf line ''%7s %d %d'' of
       [V_str c, V_int idx, V_int st] \<Rightarrow>
         if 0 \<le> idx \<and> idx < 8 then
           Some (say ''Switch %d set to %d'' [A_int idx, A_int st]
             (on_dev (on_sw (switch_set (ce_board (ci_env i)) (word_of_int idx) (st \<noteq> 0))) s))
         else Some (say ''Switch index out of range (0-7)'' [] s)
     | _ \<Rightarrow> Some s)"

definition cli_reset_coulomb :: "('fs, 'h) cli" where
  "cli_reset_coulomb p i line s =
    (case sscanf line ''reset coulomb %d'' of
       [V_int ch] \<Rightarrow>
         if 0 \<le> ch \<and> ch \<le> 3 then
           Some (say ''Coulomb counter ch%d reset'' [A_int ch] (on_dev (on_coul (reset_coulomb_counter (word_of_int ch))) s))
         else Some s
     | _ \<Rightarrow> Some s)"

definition cli_reset_energy :: "('fs, 'h) cli" where
  "cli_reset_energy p i line s =
    (case sscanf line ''reset energy %d'' of
       [V_int ch] \<Rightarrow>
         if 0 \<le> ch \<and> ch \<le> 3 then
           let (m, en) = reset_energy_counter (word_of_int ch) (sy_kv s, sy_energy s) in
           Some (say ''Energy counter ch%d reset'' [A_int ch] (on_dev (on_kv (\<lambda>_. m)) (s\<lparr> sy_energy := en \<rparr>)))
         else Some s
     | _ \<Rightarrow> Some s)"

definition cli_test_switch :: "('fs, 'h) cli" where
  "cli_test_switch p i line s =
    (case sscanf line ''test %7s %d'' of
       [V_str c, V_int idx] \<Rightarrow>
         if 0 \<le> idx \<and> idx < 8 then
           Some (on_dev (on_sw (switch_pulse (ce_board (ci_env i)) (word_of_int idx) 3000 (ce_now (ci_env i))))
             (say ''Testing switch %d for 3s...'' [A_int idx] s))
         else Some (say ''Usage: test switch/relay 0-7'' [] s)
     | _ \<Rightarrow> Some (say ''Usage: test switch/relay 0-7'' [] s))"

section \<open>Measurement parameters\<close>

definition cli_shunt_show :: "('fs, 'h) cli" where
  "cli_shunt_show p i line s = Some (rows (\<lambda>ch s. case settings_load_shunt (word_of_int ch) (sy_kv s) of
       Some x \<Rightarrow> say ''CH%d shunt: %s'' [A_int ch, A_float x] s
     | None \<Rightarrow> say ''CH%d shunt: (default)'' [A_int ch] s) [0, 1, 2] s)"

definition cli_shunt :: "('fs, 'h) cli" where
  "cli_shunt p i line s =
    (case sscanf line ''shunt %d %f'' of
       [V_int ch, V_float ohms] \<Rightarrow>
         if 0 \<le> ch \<and> ch \<le> 3 then
           Some (on_dev (\<lambda>d. apply_settings_posthook (ci_env i) ''set_shunt'' (on_kv (settings_save_shunt (word_of_int ch) ohms) d))
             (if f_le ohms 0 then say ''CH%d shunt cleared (using default)'' [A_int ch] s
              else say ''CH%d shunt set to %.6f Ohm'' [A_int ch, A_float ohms] s))
         else Some (say ''Usage: shunt N ohms (e.g. shunt 0 0.0003) or shunt N 0 to clear'' [] s)
     | _ \<Rightarrow> Some (say ''Usage: shunt N ohms (e.g. shunt 0 0.0003) or shunt N 0 to clear'' [] s))"

definition default_ratio :: "int \<Rightarrow> f32" where
  "default_ratio ch = (if ch = 0 then f_lit 3521 1000 else f_lit 142353 10000)"

definition cli_vratio_show :: "('fs, 'h) cli" where
  "cli_vratio_show p i line s = Some (rows (\<lambda>ch s. case settings_load_volt_ratio (word_of_int ch) (sy_kv s) of
       Some x \<Rightarrow> say ''CH%d vratio: %.4f'' [A_int ch, A_float x] s
     | None \<Rightarrow> say ''CH%d vratio: default:%.4f'' [A_int ch, A_float (default_ratio ch)] s) [0, 1, 2] s)"

definition cli_vratio :: "('fs, 'h) cli" where
  "cli_vratio p i line s =
    (case sscanf line ''vratio %d %f'' of
       [V_int ch, V_float ratio] \<Rightarrow>
         if 0 \<le> ch \<and> ch \<le> 2 then
           Some (on_dev (\<lambda>d. apply_settings_posthook (ci_env i) ''set_volt_ratio''
               (on_kv (settings_save_volt_ratio (word_of_int ch) ratio) d))
             (if f_le ratio 0 then say ''CH%d vratio cleared'' [A_int ch] s
              else say ''CH%d vratio set to %.4f'' [A_int ch, A_float ratio] s))
         else Some (say ''Usage: vratio N ratio (e.g. vratio 2 3.521) or vratio N 0 to clear'' [] s)
     | _ \<Rightarrow> Some (say ''Usage: vratio N ratio (e.g. vratio 2 3.521) or vratio N 0 to clear'' [] s))"

definition cli_resistor_show :: "('fs, 'h) cli" where
  "cli_resistor_show p i line s = Some (rows (\<lambda>ch s. case settings_load_resistors (word_of_int ch) (sy_kv s) of
       Some (rh, rl) \<Rightarrow> say ''CH%d resistors: %.0f+%.0f = %.4f''
         [A_int ch, A_float rh, A_float rl, A_float (f_div (f_add rh rl) rl)] s
     | None \<Rightarrow> say ''CH%d resistors: (not set)'' [A_int ch] s) [0, 1, 2] s)"

definition cli_resistor :: "('fs, 'h) cli" where
  "cli_resistor p i line s =
    (case sscanf line ''resistor %d %f %f'' of
       [V_int ch, V_float rh, V_float rl] \<Rightarrow>
         if 0 \<le> ch \<and> ch \<le> 2 then
           Some (on_dev (\<lambda>d. apply_settings_posthook (ci_env i) ''set_resistors''
               (on_kv (settings_save_resistors (word_of_int ch) rh rl) d))
             (if f_le rh 0 \<or> f_le rl 0 then say ''CH%d resistors cleared'' [A_int ch] s
              else say ''CH%d R=%.0f+%.0f -> ratio=%.4f''
                [A_int ch, A_float rh, A_float rl, A_float (f_div (f_add rh rl) rl)] s))
         else Some (say ''Usage: resistor N r_high r_low (e.g. resistor 2 900000 68000)'' [] s)
     | _ \<Rightarrow> Some (say ''Usage: resistor N r_high r_low (e.g. resistor 2 900000 68000)'' [] s))"

definition cli_cal_show :: "('fs, 'h) cli" where
  "cli_cal_show p i line s = Some (rows (\<lambda>ch s.
     let (vo, vg, co, cg) = sensor_get_calibration (word_of_int ch) (dv_sens (sy_dev s)) in
     say ''CH%d: vo=%.2fmV vg=%.4f co=%.2fmA cg=%.4f'' [A_int ch, A_float vo, A_float vg, A_float co, A_float cg] s)
     [0, 1, 2] s)"

definition cli_cal :: "('fs, 'h) cli" where
  "cli_cal p i line s =
    (case sscanf line ''cal %d %d %f'' of
       [V_int ch, V_int ty, V_float v] \<Rightarrow>
         if 0 \<le> ch \<and> ch \<le> 2 \<and> 0 \<le> ty \<and> ty \<le> 3 then
           Some (say ''CH%d cal type=%d value=%.4f saved'' [A_int ch, A_int ty, A_float v]
             (on_dev (on_sens (sensor_set_calibration (word_of_int ch) (word_of_int ty) v)) s))
         else Some (say ''Usage: cal N type value'' [] s)
     | _ \<Rightarrow> Some (say ''Usage: cal N type value'' [] s))"

section \<open>Connections\<close>

definition stored_wifi :: "kv \<Rightarrow> bytes \<times> bytes" where
  "stored_wifi m = (case settings_load_wifi 64 m of Some w \<Rightarrow> w | None \<Rightarrow> ([], []))"

definition cli_wifi_ssid :: "('fs, 'h) cli" where
  "cli_wifi_ssid p i line s =
    (case sscanf line ''wifi_ssid %s'' of
       [V_str ssid] \<Rightarrow>
         if fits 64 ssid then
           Some (say ''WiFi SSID set to: %s'' [A_str ssid]
             (on_dev (on_kv (\<lambda>m. settings_save_wifi ssid (snd (stored_wifi m)) m)) s))
         else None
     | _ \<Rightarrow> Some (say ''Usage: wifi_ssid <ssid>'' [] s))"

definition cli_wifi_pass :: "('fs, 'h) cli" where
  "cli_wifi_pass p i line s =
    (case sscanf line ''wifi_pass %s'' of
       [V_str pass] \<Rightarrow>
         if fits 64 pass then
           Some (say ''WiFi password updated'' [] (on_dev (on_kv (\<lambda>m. settings_save_wifi (fst (stored_wifi m)) pass m)) s))
         else None
     | _ \<Rightarrow> Some (say ''Usage: wifi_pass <pass>'' [] s))"

definition cli_set_wifi :: "('fs, 'h) cli" where
  "cli_set_wifi p i line s =
    (case sscanf line ''set_wifi %s %s'' of
       [V_str ssid, V_str pass] \<Rightarrow>
         if fits 64 ssid \<and> fits 64 pass then
           Some (say ''WiFi set: %s (reconnecting)'' [A_str ssid]
             (on_dev (\<lambda>d. apply_settings_posthook (ci_env i) ''set_wifi'' (on_kv (settings_save_wifi ssid pass) d)) s))
         else None
     | [V_str ssid] \<Rightarrow> if fits 64 ssid then Some (say ''Usage: set_wifi <ssid> <pass>'' [] s) else None
     | _ \<Rightarrow> Some (say ''Usage: set_wifi <ssid> <pass>'' [] s))"

text \<open>Every word assigned before the match stops has been written to its buffer.\<close>

fun words_fit :: "nat list \<Rightarrow> sval list \<Rightarrow> bool" where
  "words_fit (n # ns) (V_str w # vs) = (fits n w \<and> words_fit ns vs)"
| "words_fit _ _ = True"

definition cli_supabase :: "('fs, 'h) cli" where
  "cli_supabase p i line s =
    (let vs = sscanf line ''supabase %s %s %s %s'' in
     if \<not> words_fit [128, 128, 128, 64] vs then None
     else case vs of
         [V_str url, V_str anon, V_str api, V_str key] \<Rightarrow>
           Some (say ''Supabase configured (client reset).'' []
             (on_dev (\<lambda>d. apply_settings_posthook (ci_env i) ''set_supabase''
               (on_kv (settings_save_supabase_device_key key) (on_kv (settings_save_supabase_api_key api)
                 (on_kv (settings_save_supabase_anon_key anon) (on_kv (settings_save_supabase_url url) d))))) s))
       | _ \<Rightarrow> Some (say ''Usage: supabase <url> <anon_key> <device_api_key> <device_key>'' [] s))"

section \<open>Readings\<close>

text \<open>The INA3221 is compiled out: its shunt voltage reads 0.\<close>

definition cli_test_sensor :: "('fs, 'h) cli" where
  "cli_test_sensor p i line s =
    (case sscanf line ''test sensor %d'' of
       [V_int ch] \<Rightarrow>
         if 0 \<le> ch \<and> ch \<le> 2 then
           let s1 = cli_read_sensors p i s; se = dv_sens (sy_dev s1); c = word_of_int ch in
           Some (say ''  raw shunt voltage: %.2fmV'' [A_float (f_mul 0 (f_of_int 1000))]
             (say ''Sensor CH%d: %.3fV, %.3fA'' [A_int ch, A_float (get_channel_voltage se c), A_float (get_channel_current se c)] s1))
         else Some (say ''Usage: test sensor 0-2'' [] s)
     | _ \<Rightarrow> Some (say ''Usage: test sensor 0-2'' [] s))"

definition vc_args :: "int \<Rightarrow> VirtualChannelConfig \<Rightarrow> arg list" where
  "vc_args ch vc = [A_int ch, a_word (vc_voltage_src vc), a_word (vc_voltage_idx vc), a_word (vc_current_src vc),
     a_word (vc_current_idx vc)]"

definition cli_virtual_channel :: "('fs, 'h) cli" where
  "cli_virtual_channel p i line s =
    (let usage = say ''Usage: virtual_channel show | virtual_channel N | virtual_channel N vs vidx cs cidx'' [] s in
     case sscanf line ''virtual_channel %d %d %d %d %d'' of
       [V_int ch] \<Rightarrow>
         if 0 \<le> ch \<and> ch \<le> 3 then
           Some (case settings_load_virtual_channel (word_of_int ch) (sy_kv s) of
               Some vc \<Rightarrow> say ''CH%d: V=src%d:idx%d I=src%d:idx%d'' (vc_args ch vc) s
             | None \<Rightarrow> say ''CH%d: not configured'' [A_int ch] s)
         else Some usage
     | [V_int ch, V_int vs, V_int vidx, V_int cs, V_int cidx] \<Rightarrow>
         if 0 \<le> ch \<and> ch \<le> 3 \<and> 0 \<le> vs \<and> 0 \<le> vidx \<and> 0 \<le> cs \<and> 0 \<le> cidx then
           Some (say ''CH%d: V=src%d:idx%d I=src%d:idx%d saved'' [A_int ch, A_int vs, A_int vidx, A_int cs, A_int cidx]
             (on_dev (on_kv (settings_save_virtual_channel (word_of_int ch)
               \<lparr> vc_voltage_src = word_of_int vs, vc_voltage_idx = word_of_int vidx, vc_current_src = word_of_int cs,
                  vc_current_idx = word_of_int cidx \<rparr>)) s))
         else Some usage
     | _ \<Rightarrow> Some usage)"

text \<open>A display page on the console. Page 0 is the summary, page \<open>n + 1\<close> channel \<open>n\<close>.\<close>

definition page_name :: "u8 \<Rightarrow> kv \<Rightarrow> bytes" where
  "page_name ch m = (let n = (case settings_load_channel_name ch 24 m of Some n \<Rightarrow> n | None \<Rightarrow> []) in
     if n \<noteq> [] \<and> hd n \<noteq> 0 then n
     else if ch = 0 then str_bytes ''Battery'' else if ch = 1 then str_bytes ''Solar'' else str_bytes ''Output'')"

definition page_soc :: "u8 \<Rightarrow> kv \<Rightarrow> f32 \<Rightarrow> f32 option" where
  "page_soc ch m mAh =
    (case settings_load_battery ch m of
       Some bat \<Rightarrow>
         if f_gt (bc_capacity_mAh bat) (f_lit 1 1000) then
           let soc = f_add (bc_initial_soc_pct bat) (f_mul (f_div mAh (bc_capacity_mAh bat)) (f_of_int 100));
               soc1 = (if f_lt soc 0 then 0 else soc)
           in Some (if f_gt soc1 (f_of_int 100) then f_of_int 100 else soc1)
         else None
     | None \<Rightarrow> None)"

definition total_power :: "sensors \<Rightarrow> f32" where
  "total_power se = foldl (\<lambda>t ch. f_add t (get_channel_power se ch)) 0 [0, 1, 2, 3]"

definition print_page :: "('fs, 'h) plant \<Rightarrow> cli_in \<Rightarrow> int \<Rightarrow> ('fs, 'h) system \<Rightarrow> ('fs, 'h) system" where
  "print_page p i pn s =
    (let s1 = say ''=== Display page %d ==='' [A_int pn] s; se = dv_sens (sy_dev s1) in
     if pn = 0 then
       let (ovf, lg) = log_has_overflow_file (pl_sd p) (sy_log s1, sy_fs s1) in
       say ''  IP: %s | Power: %.1fW | Log: %lu %s'' [A_str (ti_ip (ci_tele i)), A_float (total_power se),
         a_nat (log_entries_count lg), a_text (if ovf then ''[OVF]'' else '''')] (s1\<lparr> sy_log := lg \<rparr>)
     else
       let ch = word_of_int (pn - 1); v = get_channel_voltage se ch; c = get_channel_current se ch;
           mAh = get_coulomb_mAh (dv_coul (sy_dev s1)) ch;
           s2 = say ''  Ch%d (%s): %.2fV %.3fA %.2fW''
             [a_word ch, A_str (page_name ch (sy_kv s1)), A_float v, A_float c, A_float (f_mul v c)] s1
       in case page_soc ch (sy_kv s1) mAh of
            Some soc \<Rightarrow> say ''  SoC: %.0f%% | mAh: %.0f'' [A_float soc, A_float mAh] s2
          | None \<Rightarrow> say ''  mAh: %.0f'' [A_float mAh] s2)"

definition cli_display :: "('fs, 'h) cli" where
  "cli_display p i line s =
    (let s1 = cli_read_sensors p i s; se = dv_sens (sy_dev s1) in
     if c_str line = str_bytes ''display all'' then
       Some (say ''INA226: %.2fV %.3fA %.2fW'' [A_float (get_channel_voltage se 3), A_float (get_channel_current se 3),
         A_float (get_channel_power se 3)] (rows (print_page p i) [0, 1, 2, 3, 4] s1))
     else case sscanf line ''display page %d'' of
         [V_int pn] \<Rightarrow> if 0 \<le> pn \<and> pn \<le> 4 then Some (print_page p i pn s1)
                       else Some (say ''Usage: display page 0-4  |  display all'' [] s1)
       | _ \<Rightarrow> Some (say ''Usage: display page 0-4  |  display all'' [] s1))"

section \<open>Status\<close>

definition status_lines :: "TelemetrySnapshot \<Rightarrow> message list" where
  "status_lines t =
    [(''-- System'', []),
     (''Uptime: %lu s  Heap: %u/%u min  Reset: %u  Crashes: %u%s'',
        [a_word (tl_uptime_ms t div 1000), a_word (tl_heap_free t), a_word (tl_min_free_heap t), a_word (tl_reset_reason t),
         a_word (tl_crash_count t), if tl_safe_mode t then a_text '' SAFE MODE'' else A_str []]),
     (''Device: %s rev %s fw %s'', [A_str (tl_id t), A_str (tl_hw_rev t), A_str (tl_fw t)]),
     (''-- WiFi'', []),
     (''Connected: %d  RSSI: %d dBm  IP: %s  NTP: %d'',
        [a_bool (tl_rssi t \<noteq> 0), A_int (sint (tl_rssi t)), A_str (if tl_rssi t \<noteq> 0 then tl_ip t else str_bytes ''-''),
         a_bool (tl_ntp_synced t)]),
     (''-- BLE'', []),
     (''Active: %d  Connected: %d'', [a_bool (tl_ble_active t), a_bool (tl_ble_connected t)]),
     (''-- Services'', []),
     (''MQTT: %d  HTTP: %d  Supabase: %d  Offline: %d'', [a_bool (tl_mqtt_connected t), a_bool (tl_http_configured t),
         a_bool (tl_supabase_configured t), a_bool (tl_network_skipped t)]),
     (''-- Storage'', []),
     (''SD: %d  Log: %u entries (%u%%)  Overflow: %d'', [a_bool (tl_sd_present t), a_word (tl_log_entries t),
         a_word (tl_log_buffer_used_pct t), a_bool (tl_log_overflow t)]),
     (''-- Sensors'', []),
     (''Channels: %u  Switches: %u  Calibrating: %d'', [a_nat (length (tl_channels t)), a_nat (length (tl_switches t)),
         a_bool (tl_sensors_calibrating t)])] @
    map (\<lambda>c. (''Ch%d: %.3fV %.3fA %.2fW  mAh:%.0f  Wh:%.2f'', [a_word (tc_ch c), A_float (tc_V c), A_float (tc_I c),
         A_float (tc_P c), A_float (tc_charge_mAh c), A_float (tc_energy_Wh c)])) (take 4 (tl_channels t)) @
    [(''-- Batteries'', [])] @
    map (\<lambda>b. (''Ch%d: SoC=%.1f%%  SoH=%.1f%%  cycles=%.2f  Ah_in=%.2f  Ah_out=%.2f'', [a_word (tb_ch b),
         A_float (tb_soc_pct b), A_float (tb_soh_pct b), A_float (tb_equivalent_full_cycles b),
         A_float (tb_cumulative_Ah_in b), A_float (tb_cumulative_Ah_out b)])) (tl_battery t) @
    [(''-- OTA'', []),
     (''State: %s  Version: %s  Progress: %u%%  Error: %s'', [A_str (to_status (tl_ota t)), A_str (to_version (tl_ota t)),
         a_word (to_progress_pct (tl_ota t)), A_str (to_error (tl_ota t))])]"

definition cli_snapshot :: "('fs, 'h) plant \<Rightarrow> cli_in \<Rightarrow> ('fs, 'h) system \<Rightarrow> TelemetrySnapshot \<times> ('fs, 'h) system" where
  "cli_snapshot p i s =
    (let (t, lg, d) = telemetry_build (ci_tele i) (pl_sd p) (sy_energy s) (sy_log s, sy_fs s) (sy_dev s)
     in (t, s\<lparr> sy_log := lg, sy_dev := d \<rparr>))"

definition cli_status :: "('fs, 'h) cli" where
  "cli_status p i line s =
    (let (t, s1) = cli_snapshot p i s in Some (s1\<lparr> sy_print := sy_print s1 @ status_lines t \<rparr>))"

definition mem_lines :: "string list" where
  "mem_lines = [''Free heap: %u bytes'', ''Heap size: %u bytes'', ''Min free heap: %u bytes'', ''CPU temperature: %.1f C'',
     ''PSRAM: %u bytes'']"

definition cli_mem :: "('fs, 'h) cli" where
  "cli_mem p i line s = Some (rows (\<lambda>(fmt, x). say fmt [x]) (zip mem_lines (ci_mem i)) s)"

definition cli_log :: "('fs, 'h) cli" where
  "cli_log p i line s = Some (say ''dump_event_log_serial'' [] s)"

text \<open>The INA3221's voltage module reads 0 too.\<close>

definition print_sensor_data :: "('fs, 'h) system \<Rightarrow> ('fs, 'h) system" where
  "print_sensor_data s =
    (let se = dv_sens (sy_dev s);
         s1 = rows (\<lambda>k. say ''CH%d: %.2fV %.3fA (cal)''
           [A_int k, A_float (get_channel_voltage se (word_of_int k)), A_float (get_channel_current se (word_of_int k))]) [0, 1, 2] s;
         s2 = rows (\<lambda>k. say ''CH%d=%.2fmV '' [A_int k, A_float (f_mul 0 (f_of_int 1000))]) [0, 1, 2]
           (say ''Raw INA3221 volt module (0x42): '' [] s1)
     in say ''INA226: %.2fV %.3fA %.2fW'' [A_float (get_channel_voltage se 3), A_float (get_channel_current se 3),
          A_float (get_channel_power se 3)] s2)"

definition cli_sensors :: "('fs, 'h) cli" where
  "cli_sensors p i line s = Some (print_sensor_data (cli_read_sensors p i s))"

definition cli_switch_status :: "('fs, 'h) cli" where
  "cli_switch_status p i line s = Some (rows (\<lambda>k s. case settings_load_switch (of_nat k) (sy_kv s) of
       Some ch \<Rightarrow> say ''Switch %d: type=%d pin=%d state=%d name=%s''
         [a_nat k, a_word (ch_type ch), A_int (sint (ch_gpio_pin ch)), a_bool (ci_level i (ch_gpio_pin ch)), A_str (c_str (ch_name ch))] s
     | None \<Rightarrow> s) [0..<min (unat (settings_load_switch_count (sy_kv s))) 8] s)"

text \<open>\<open>switch_logic_name\<close> is a table of the switch controller.\<close>

definition switch_logic_name :: "u8 \<Rightarrow> string" where
  "switch_logic_name l = (if l = 1 then ''AND'' else ''OR'')"

definition cond_line :: "nat \<Rightarrow> SwitchCondition \<Rightarrow> message" where
  "cond_line k c = (''  [%u] %s %s %.4f (ref_ch=%d)'', [a_nat k, a_text (switch_condition_kind_name (cd_kind c)),
     a_text (switch_condition_op_name (cd_op c)), A_float (cd_value c), A_int (sint (cd_ref_channel c))])"

definition cli_switch_rules :: "('fs, 'h) cli" where
  "cli_switch_rules p i line s =
    (case sscanf (drop (if hd line = 115 then 13 else 12) line) ''%d'' of
       [V_int idx] \<Rightarrow>
         if 0 \<le> idx \<and> idx < 8 then
           Some (case settings_load_switch_rule (word_of_int idx) (sy_kv s) of
               Some r \<Rightarrow>
                 let s1 = say ''Switch %d rule: ch=%u logic=%s min=%u trip=%ums reset=%ums hyst=%.2f en=%d conds=%u''
                   [A_int idx, a_word (sr_channel r), a_text (switch_logic_name (sr_logic r)), a_word (sr_min_conditions r),
                    a_word (sr_trip_delay_ms r), a_word (sr_reset_delay_ms r), A_float (sr_hysteresis r), a_word (sr_enabled r),
                    a_word (sr_condition_count r)] s
                 in s1\<lparr> sy_print := sy_print s1 @ map (\<lambda>k. cond_line k (sr_conditions r ! k)) [0..<n_conds r] \<rparr>
             | None \<Rightarrow> say ''Switch %d rule: not configured'' [A_int idx] s)
         else Some (say ''Usage: switch rules N   (N = 0..7)'' [] s)
     | _ \<Rightarrow> Some (say ''Usage: switch rules N   (N = 0..7)'' [] s))"

section \<open>Batteries\<close>

abbreviation sy_bat :: "('fs, 'h) system \<Rightarrow> battery" where "sy_bat s \<equiv> bat_of (sy_dev s)"

definition cli_battery_list :: "('fs, 'h) cli" where
  "cli_battery_list p i line s = Some (rows (\<lambda>k s. let pid = battery_channel_profile (sy_bat s) (of_nat k) in
     if pid = NO_BINDING then say ''CH%-2u : (no battery)'' [a_nat k] s
     else case battery_profile_get (sy_bat s) pid of
         Some q \<Rightarrow> say ''CH%-2u : profile %u  %s  %.2fV  %.2fAh''
           [a_nat k, a_word pid, A_str (c_str (bcp_name q)), A_float (bcp_nominal_voltage q), A_float (bcp_rated_capacity_Ah q)] s
       | None \<Rightarrow> say ''CH%-2u : profile %u (missing)'' [a_nat k, a_word pid] s) [0..<16] s)"

definition cli_battery_bind :: "('fs, 'h) cli" where
  "cli_battery_bind p i line s =
    (let env = pl_prefs p in
     case sscanf line ''battery bind %d %d'' of
       [V_int ch, V_int pid] \<Rightarrow>
         if 0 \<le> ch \<and> ch < 16 then
           if pid < 0 then
             Some (say ''CH%u cleared'' [A_int ch] (on_dev (on_bat (battery_channel_clear env (word_of_int ch))) s))
           else
             let (ok, b) = battery_channel_set_profile env (word_of_int ch) (word_of_int pid) (sy_bat s);
                 s1 = on_dev (put_bat b) s
             in Some (if ok then say ''CH%u bound to profile %d'' [A_int ch, A_int pid] s1
                      else say ''bind failed (invalid id?)'' [] s1)
         else Some (say ''Usage: battery bind <ch> <profile_id_or_-1>'' [] s)
     | _ \<Rightarrow> Some (say ''Usage: battery bind <ch> <profile_id_or_-1>'' [] s))"

definition cli_battery_show :: "('fs, 'h) cli" where
  "cli_battery_show p i line s =
    (case sscanf line ''battery show %d'' of
       [V_int ch] \<Rightarrow>
         if 0 \<le> ch \<and> ch < 16 then
           let (st, d) = get_cycle (ci_env i) (word_of_int ch) (sy_dev s);
               pid = battery_channel_profile (bat_of d) (word_of_int ch);
               s1 = say ''CH%u  profile='' [A_int ch] (s\<lparr> sy_dev := d \<rparr>);
               s2 = (case battery_profile_get (bat_of d) pid of
                   Some q \<Rightarrow> say ''  chemistry=%s  rated=%.2fAh  cutoff=%.2fV  float=%.2fV''
                     [a_text (battery_chemistry_name (bcp_chemistry q)), A_float (bcp_rated_capacity_Ah q),
                      A_float (bcp_cutoff_voltage q), A_float (bcp_float_voltage q)]
                     (say ''%u (%s)'' [a_word pid, A_str (c_str (bcp_name q))] s1)
                 | None \<Rightarrow> say ''(no profile)'' [] s1)
           in Some (say ''  SoH=%.1f%% (%u samples)'' [A_float (bs_soh_pct st), a_word (bs_soh_samples st)]
                (say ''  cum_Ah_in=%.2f  cum_Ah_out=%.2f  equiv_cycles=%.3f'' [A_float (bs_cumulative_Ah_in st),
                   A_float (bs_cumulative_Ah_out st), A_float (bs_equivalent_full_cycles st)]
                  (say ''  SoC=%.1f%%  V=%.3f  I=%.3f'' [A_float (bs_last_SoC_pct st), A_float (bs_last_V st),
                     A_float (bs_last_I st)] s2)))
         else Some (say ''Usage: battery show <ch>'' [] s)
     | _ \<Rightarrow> Some (say ''Usage: battery show <ch>'' [] s))"

definition cli_profile_show :: "('fs, 'h) cli" where
  "cli_profile_show p i line s =
    (case sscanf line ''battery profile show %d'' of
       [V_int pid] \<Rightarrow>
         if 0 \<le> pid \<and> pid < 16 then
           Some (case battery_profile_get (sy_bat s) (word_of_int pid) of
               Some q \<Rightarrow>
                 say ''  soc_min=%.1f  soc_max=%.1f'' [A_float (bcp_min_soc_pct q), A_float (bcp_max_soc_pct q)]
                  (say ''  cutoff=%.2fV  float=%.2fV  eff=%.2f  cycles=%u'' [A_float (bcp_cutoff_voltage q),
                     A_float (bcp_float_voltage q), A_float (bcp_charge_efficiency q), a_word (bcp_cycle_life_rated q)]
                   (say ''  chemistry=%s  nom=%.2fV  rated=%.2fAh  C=%.2f'' [a_text (battery_chemistry_name (bcp_chemistry q)),
                      A_float (bcp_nominal_voltage q), A_float (bcp_rated_capacity_Ah q), A_float (bcp_c_rating q)]
                    (say ''Profile %u: %s'' [A_int pid, A_str (c_str (bcp_name q))] s)))
             | None \<Rightarrow> say ''(empty slot)'' [] s)
         else Some (say ''Usage: battery profile show <id>'' [] s)
     | _ \<Rightarrow> Some (say ''Usage: battery profile show <id>'' [] s))"

definition cli_profile_reset :: "('fs, 'h) cli" where
  "cli_profile_reset p i line s =
    (case sscanf line ''battery profile reset %d'' of
       [V_int pid] \<Rightarrow>
         if 0 \<le> pid \<and> pid < 4 then
           Some (say ''Profile %u reset to built-in defaults'' [A_int pid]
             (on_dev (on_bat (battery_profile_reset_builtin (pl_prefs p) (word_of_int pid))) s))
         else Some (say ''Usage: battery profile reset <0..3>'' [] s)
     | _ \<Rightarrow> Some (say ''Usage: battery profile reset <0..3>'' [] s))"

definition cli_profile_delete :: "('fs, 'h) cli" where
  "cli_profile_delete p i line s =
    (case sscanf line ''battery profile delete %d'' of
       [V_int pid] \<Rightarrow>
         if 4 \<le> pid \<and> pid < 16 then
           let (ok, b) = battery_profile_delete (pl_prefs p) (word_of_int pid) (sy_bat s); s1 = on_dev (put_bat b) s in
           Some (if ok then say ''Profile %u deleted'' [A_int pid] s1 else say ''delete failed'' [] s1)
         else Some (say ''Usage: battery profile delete <4..15>'' [] s)
     | _ \<Rightarrow> Some (say ''Usage: battery profile delete <4..15>'' [] s))"

definition set_profile_field :: "bytes \<Rightarrow> bytes \<Rightarrow> BatteryChemistryProfile \<Rightarrow> BatteryChemistryProfile option" where
  "set_profile_field field val q =
    (let v = atof val in
     if field = str_bytes ''name'' then Some (q\<lparr> bcp_name := strlcpy (bcp_name q) val \<rparr>)
     else if field = str_bytes ''chemistry'' then Some (q\<lparr> bcp_chemistry := word_of_int (atoi val) \<rparr>)
     else if field = str_bytes ''nominal_voltage'' then Some (q\<lparr> bcp_nominal_voltage := v \<rparr>)
     else if field = str_bytes ''rated_capacity_Ah'' then Some (q\<lparr> bcp_rated_capacity_Ah := v \<rparr>)
     else if field = str_bytes ''c_rating'' then Some (q\<lparr> bcp_c_rating := v \<rparr>)
     else if field = str_bytes ''cutoff_voltage'' then Some (q\<lparr> bcp_cutoff_voltage := v \<rparr>)
     else if field = str_bytes ''float_voltage'' then Some (q\<lparr> bcp_float_voltage := v \<rparr>)
     else if field = str_bytes ''charge_efficiency'' then Some (q\<lparr> bcp_charge_efficiency := v \<rparr>)
     else if field = str_bytes ''cycle_life_rated'' then Some (q\<lparr> bcp_cycle_life_rated := word_of_int (atoi val) \<rparr>)
     else if field = str_bytes ''min_soc_pct'' then Some (q\<lparr> bcp_min_soc_pct := v \<rparr>)
     else if field = str_bytes ''max_soc_pct'' then Some (q\<lparr> bcp_max_soc_pct := v \<rparr>)
     else None)"

text \<open>The result of \<open>battery_profile_set\<close> is not looked at. An unknown field returns from the whole handler, which leaves
the rest of the input to the next call.\<close>

definition cli_profile_set :: "('fs, 'h) cli" where
  "cli_profile_set p i line s =
    (case sscanf line ''battery profile set %d %23s %31s'' of
       [V_int pid, V_str field, V_str val] \<Rightarrow>
         if 0 \<le> pid \<and> pid < 16 then
           Some (case battery_profile_get (sy_bat s) (word_of_int pid) of
               None \<Rightarrow> say ''(empty slot - nothing to modify)'' [] s
             | Some cur \<Rightarrow>
                 (case set_profile_field field val cur of
                    None \<Rightarrow> say ''Unknown field. Valid: name chemistry nominal_voltage rated_capacity_Ah c_rating cutoff_voltage float_voltage charge_efficiency cycle_life_rated min_soc_pct max_soc_pct'' [] s
                  | Some q \<Rightarrow> say ''Profile %u: %s = %s'' [A_int pid, A_str field, A_str val]
                      (on_dev (on_bat (\<lambda>b. snd (battery_profile_set (pl_prefs p) q b))) s)))
         else Some (say ''Usage: battery profile set <id> <field> <value>'' [] s)
     | _ \<Rightarrow> Some (say ''Usage: battery profile set <id> <field> <value>'' [] s))"

definition cli_battery_reset :: "('fs, 'h) cli" where
  "cli_battery_reset p i line s =
    (case sscanf line ''battery reset %d'' of
       [V_int ch] \<Rightarrow>
         if 0 \<le> ch \<and> ch < 16 then
           Some (say ''CH%u battery state reset'' [A_int ch] (on_dev (on_coul (reset_coulomb_counter (word_of_int ch)))
             (on_dev (on_cyc (cycle_counter_reset (pl_prefs p) (word_of_int ch))) s)))
         else Some (say ''Usage: battery reset <ch>'' [] s)
     | _ \<Rightarrow> Some (say ''Usage: battery reset <ch>'' [] s))"

definition cli_cycle_show :: "('fs, 'h) cli" where
  "cli_cycle_show p i line s =
    (case sscanf line ''cycle show %d'' of
       [V_int ch] \<Rightarrow>
         if 0 \<le> ch \<and> ch < 16 then
           let (st, d) = get_cycle (ci_env i) (word_of_int ch) (sy_dev s) in
           Some (say ''CH%u cycles: equiv=%.3f  cum_in=%.2fAh  cum_out=%.2fAh  SoC=%.1f%%''
             [A_int ch, A_float (bs_equivalent_full_cycles st), A_float (bs_cumulative_Ah_in st),
              A_float (bs_cumulative_Ah_out st), A_float (bs_last_SoC_pct st)] (s\<lparr> sy_dev := d \<rparr>))
         else Some (say ''Usage: cycle show <ch>'' [] s)
     | _ \<Rightarrow> Some (say ''Usage: cycle show <ch>'' [] s))"

section \<open>Maintenance\<close>

text \<open>\<open>flush log\<close> pops batches of 512 bytes until none is left; the ring's size and one more passes are enough.\<close>

fun flush_log :: "nat \<Rightarrow> nat \<Rightarrow> 'h logger \<Rightarrow> nat \<times> 'h logger" where
  "flush_log sz 0 lg = (0, lg)"
| "flush_log sz (Suc n) lg =
    (let (bs, lg1) = log_pop_batch sz 512 lg in
     if bs = [] then (0, lg1) else let (k, lg2) = flush_log sz n lg1 in (length bs + k, lg2))"

definition cli_flush_log :: "('fs, 'h) cli" where
  "cli_flush_log p i line s =
    (let (n, lg) = flush_log (pl_ring p) (Suc (pl_ring p)) (sy_log s) in
     Some (say ''Flushed %u bytes from log buffer'' [a_nat n] (s\<lparr> sy_log := lg \<rparr>)))"

definition cli_i2c_scan :: "('fs, 'h) cli" where
  "cli_i2c_scan p i line s =
    (let s1 = say ''I2C scan:'' [] s in
     Some (say ''done'' [] (rows (\<lambda>a. say ''  0x%X'' [a_nat a]) (filter (\<lambda>a. ci_i2c i (of_nat a)) [1..<127]) s1)))"

definition cli_discover_sensors :: "('fs, 'h) cli" where
  "cli_discover_sensors p i line s = Some (on_dev (on_sens (discover_sensors (ce_probe (ci_env i)))) s)"

text \<open>\<open>test all switches\<close> pulses one stored switch after the other and waits for each pulse to end; the console is busy
until then. The command lines the switches up, \<open>test_round\<close> is one turn of its loop.\<close>

definition go_on_testing :: "(nat \<times> bool) list \<Rightarrow> ('fs, 'h) system \<Rightarrow> ('fs, 'h) system" where
  "go_on_testing ks s = (if ks = [] then say ''All switches tested.'' [] (s\<lparr> sy_test := [] \<rparr>) else s\<lparr> sy_test := ks \<rparr>)"

definition cli_test_all :: "('fs, 'h) cli" where
  "cli_test_all p i line s =
    Some (go_on_testing (map (\<lambda>k. (k, False)) [0..<min (unat (settings_load_switch_count (sy_kv s))) 8])
      (say ''Testing all switches in sequence...'' [] s))"

definition test_round :: "cli_in \<Rightarrow> ('fs, 'h) system \<Rightarrow> ('fs, 'h) system" where
  "test_round i s =
    (case sy_test s of
       [] \<Rightarrow> s
     | (k, False) # ks \<Rightarrow>
         (case settings_load_switch (of_nat k) (sy_kv s) of
            Some ch \<Rightarrow> (on_dev (on_sw (switch_pulse (ce_board (ci_env i)) (of_nat k) 1000 (ce_now (ci_env i))))
              (say ''Switch %d (GPIO %d)...'' [a_nat k, A_int (sint (ch_gpio_pin ch))] s))\<lparr> sy_test := (k, True) # ks \<rparr>
          | None \<Rightarrow> go_on_testing ks s)
     | (k, True) # ks \<Rightarrow>
         if switch_pulse_active (sw_of (sy_dev s)) (of_nat k) then s else go_on_testing ks s)"

definition cli_test_all_sensors :: "('fs, 'h) cli" where
  "cli_test_all_sensors p i line s =
    (let s1 = say ''All sensor channels:'' [] (cli_read_sensors p i s); se = dv_sens (sy_dev s1) in
     Some (rows (\<lambda>k. say ''  CH%d: %.3fV  %.3fA'' [a_nat k, A_float (get_channel_voltage se (of_nat k)),
       A_float (get_channel_current se (of_nat k))]) [0, 1, 2] s1))"

definition cli_test_display :: "('fs, 'h) cli" where
  "cli_test_display p i line s =
    (let (t, s1) = cli_snapshot p i (say ''Display test: OLED should show cycling pages'' [] s);
         draw = (\<lambda>k. show_page p (ci_temp i) (ce_now (ci_env i) + of_nat (1000 * k)) t)
     in Some (say ''Display test done.'' [] (fold draw [0..<5] s1)))"

definition cli_auto :: "bool \<Rightarrow> ('fs, 'h) cli" where
  "cli_auto on p i line s =
    Some (say (if on then ''Switch auto-trip ENABLED'' else ''Switch auto-trip DISABLED'') []
      (on_dev (on_sw (switch_set_auto (ce_board (ci_env i)) on)) s))"

definition cli_factory_reset :: "('fs, 'h) cli" where
  "cli_factory_reset p i line s =
    Some (on_dev (\<lambda>d. demit E_restart (on_kv mark_clean_shutdown (device_wipe (ci_env i) d)))
      (say ''Wiping NVS and rebooting...'' [] s))"

text \<open>The baseline calibration itself is compiled out.\<close>

definition cli_calibrate_baseline :: "('fs, 'h) cli" where
  "cli_calibrate_baseline p i line s =
    Some (say ''Baseline recalibration started - collecting new baseline over next 10 ticks'' [] s)"

definition cli_ble_on :: "('fs, 'h) cli" where
  "cli_ble_on p i line s =
    Some (say ''BLE (re-)initialised and advertising'' []
      (on_dev (\<lambda>d. on_ble (start_ble_advertising (pl_adv p)) (on_ble (init_ble_provisioner (pl_adv p)) d)) s))"

definition cli_wifi_show :: "('fs, 'h) cli" where
  "cli_wifi_show p i line s =
    Some (case settings_load_wifi 64 (sy_kv s) of
        Some (ssid, pass) \<Rightarrow> say ''WiFi SSID: %s'' [A_str ssid] s
      | None \<Rightarrow> say ''WiFi: not configured'' [] s)"

definition say_opt :: "string \<Rightarrow> bytes option \<Rightarrow> ('fs, 'h) system \<Rightarrow> ('fs, 'h) system" where
  "say_opt fmt v s = (case v of Some x \<Rightarrow> say fmt [A_str x] s | None \<Rightarrow> s)"

definition cli_supabase_show :: "('fs, 'h) cli" where
  "cli_supabase_show p i line s =
    (let m = sy_kv s; url = settings_load_supabase_url 128 m; anon = settings_load_supabase_anon_key 128 m;
         s1 = (case url of Some x \<Rightarrow> say ''Supabase URL: %s'' [A_str x] s | None \<Rightarrow> say ''Supabase URL: not set'' [] s);
         s2 = say_opt ''Device API key: %s'' (settings_load_supabase_api_key 64 m)
                (say_opt ''Device key: %s'' (settings_load_supabase_device_key 64 m)
                  (say_opt ''Supabase anon key: %s'' anon s1))
     in Some (if url = None \<and> anon = None then say ''Supabase: not configured'' [] s2 else s2))"

definition cli_virtual_channel_show :: "('fs, 'h) cli" where
  "cli_virtual_channel_show p i line s =
    Some (rows (\<lambda>ch s. case settings_load_virtual_channel (word_of_int ch) (sy_kv s) of
        Some vc \<Rightarrow> say ''  CH%d: V=src%d:idx%d I=src%d:idx%d'' (vc_args ch vc) s
      | None \<Rightarrow> say ''  CH%d: not configured'' [A_int ch] s) [0, 1, 2, 3] (say ''Virtual channel configs:'' [] s))"

definition cli_reboot :: "('fs, 'h) cli" where
  "cli_reboot p i line s =
    Some (on_dev (\<lambda>d. demit E_restart (on_kv mark_clean_shutdown d)) (say ''Rebooting...'' [] s))"

definition cli_serial1peek :: "('fs, 'h) cli" where
  "cli_serial1peek p i line s = Some (say ''Serial1 disabled'' [] s)"

definition help_text :: "string list" where
  "help_text = [
     ''Commands:'',
     ''  status              - IP, log entries, coulomb/energy/SoC'',
     ''  mem                 - free heap bytes, CPU temperature'',
     ''  sensors             - all sensor readings'',
     ''  switch/relay status  - switch GPIO states'',
     ''  switch/relay rules N - print parsed rule + conditions'',
     ''  switch/relay N 0/1   - manual override switch N (0=off, 1=on)'',
     ''  test switch/relay N  - pulse switch N for 3s (auto-reset)'',
     ''  test all switches/relays - pulse each switch 1s in sequence'',
     ''  test sensor N       - read sensor CH N once (0-2)'',
     ''  test all sensors    - read all sensor channels'',
     ''  test display        - cycle OLED pages 5x'',
     ''  display page N     - print display page N (0-4)'',
     ''  display all         - print all display pages'',
     ''  switch/relay auto on  - enable auto-trip (off by default)'',
     ''  switch/relay auto off - disable auto-trip'',
     ''  factory_reset       - wipe all NVS settings, reboot'',
     ''  reset coulomb N     - reset coulomb counter CH N'',
     ''  reset energy N      - reset energy counter CH N'',
     ''  battery list        - show channel -> profile binding'',
     ''  battery bind N id   - bind CH N to profile id (or -1 to clear)'',
     ''  battery show N      - show battery state for CH N'',
     ''  battery profile show id   - show chemistry profile id'',
     ''  battery profile set id field value - modify profile field'',
     ''  battery profile reset id  - restore built-in defaults (id 0..3)'',
     ''  battery profile delete id - delete custom profile (id 4..15)'',
     ''  battery reset N     - reset cycle counter for CH N'',
     ''  cycle show N        - show cycle counter for CH N'',
     ''  flush log           - flush RAM log buffer'',
     ''  i2c_scan            - scan I2C bus for devices'',
     ''  discover_sensors    - auto-detect INA226/BL0939 sensors'',
     ''  shunt N ohms        - set shunt resistance for CH N (0 clears)'',
     ''  shunt show          - show current shunt settings'',
     ''  vratio N ratio      - set voltage divider ratio for CH N (0 clears)'',
     ''  vratio show         - show current voltage ratios'',
     ''  resistor N r_high r_low - set R values, ratio auto-computed'',
     ''  resistor show        - show resistor values per channel'',
     ''  cal N type value    - set calibration (type: 0=vo_mv, 1=vg, 2=co_ma, 3=cg)'',
     ''  cal show            - show all channel calibration values'',
     ''  calibrate_baseline  - restart baseline noise calibration (10 ticks)'',
     ''  ble_on              - restart BLE advertising (for re-provisioning)'',
     ''  serial1peek         - dump up to 5 lines from Serial1'',
     ''  wifi_show          - show current WiFi SSID'',
     ''  wifi_ssid <ssid>  - set WiFi SSID'',
     ''  wifi_pass <pass>  - set WiFi password'',
     ''  set_wifi <ssid> <pass> - set both SSID and password'',
     ''  supabase_show     - show Supabase config'',
     ''  supabase <url> <anon_key> <device_api_key> <device_key>'',
     ''     device_api_key = UUID from Supabase devices table (not sb_secret_...)'',
     ''  reboot              - reboot the device'',
     ''  help                - this list'']"

definition cli_help :: "('fs, 'h) cli" where
  "cli_help p i line s = Some (rows (\<lambda>l. say l []) help_text s)"

section \<open>The chain of tests\<close>

datatype test = Starts string | Is string

fun passes :: "bytes \<Rightarrow> test \<Rightarrow> bool" where
  "passes line (Starts w) = (take (length w) line = str_bytes w)"
| "passes line (Is w) = (line = str_bytes w)"

text \<open>The three \<open>strncmp(line, "wifi_ssid ", 9)\<close>-like tests compare as many bytes as their third argument says; the first
leaves out the blank.\<close>

definition cli_table :: "(test list \<times> ('fs, 'h) cli) list" where
  "cli_table = [
     ([Starts ''switch '', Starts ''relay ''], cli_switch), ([Starts ''reset coulomb ''], cli_reset_coulomb),
     ([Starts ''reset energy ''], cli_reset_energy), ([Starts ''test switch '', Starts ''test relay ''], cli_test_switch),
     ([Is ''shunt show''], cli_shunt_show), ([Starts ''shunt ''], cli_shunt), ([Is ''vratio show''], cli_vratio_show),
     ([Starts ''vratio ''], cli_vratio), ([Is ''resistor show''], cli_resistor_show), ([Starts ''resistor ''], cli_resistor),
     ([Is ''cal show''], cli_cal_show), ([Starts ''cal ''], cli_cal), ([Starts ''wifi_ssid''], cli_wifi_ssid),
     ([Starts ''wifi_pass ''], cli_wifi_pass), ([Starts ''set_wifi ''], cli_set_wifi), ([Starts ''supabase ''], cli_supabase),
     ([Starts ''test sensor ''], cli_test_sensor), ([Starts ''virtual_channel ''], cli_virtual_channel),
     ([Starts ''display ''], cli_display), ([Is ''status''], cli_status), ([Is ''mem''], cli_mem), ([Is ''log''], cli_log),
     ([Is ''sensors''], cli_sensors), ([Is ''switch status'', Is ''relay status''], cli_switch_status),
     ([Starts ''switch rules '', Starts ''relay rules ''], cli_switch_rules), ([Is ''battery list''], cli_battery_list),
     ([Starts ''battery bind ''], cli_battery_bind), ([Starts ''battery show ''], cli_battery_show),
     ([Starts ''battery profile show ''], cli_profile_show), ([Starts ''battery profile reset ''], cli_profile_reset),
     ([Starts ''battery profile delete ''], cli_profile_delete), ([Starts ''battery profile set ''], cli_profile_set),
     ([Starts ''battery reset ''], cli_battery_reset), ([Starts ''cycle show ''], cli_cycle_show),
     ([Is ''flush log''], cli_flush_log), ([Is ''i2c_scan''], cli_i2c_scan), ([Is ''discover_sensors''], cli_discover_sensors),
     ([Is ''test all switches'', Is ''test all relays''], cli_test_all), ([Is ''test all sensors''], cli_test_all_sensors),
     ([Is ''test display''], cli_test_display), ([Is ''switch auto on'', Is ''relay auto on''], cli_auto True),
     ([Is ''switch auto off'', Is ''relay auto off''], cli_auto False), ([Is ''factory_reset''], cli_factory_reset),
     ([Is ''calibrate_baseline''], cli_calibrate_baseline), ([Is ''ble_on''], cli_ble_on), ([Is ''wifi_show''], cli_wifi_show),
     ([Is ''supabase_show''], cli_supabase_show), ([Is ''virtual_channel show''], cli_virtual_channel_show),
     ([Is ''reboot''], cli_reboot), ([Is ''serial1peek''], cli_serial1peek), ([Is ''help''], cli_help)]"

fun cli_find :: "(test list \<times> 'a) list \<Rightarrow> bytes \<Rightarrow> 'a option" where
  "cli_find [] line = None"
| "cli_find ((ts, h) # t) line = (if list_ex (passes line) ts then Some h else cli_find t line)"

text \<open>The last branch asks for \<open>len > 0\<close>, and \<open>len\<close> was set to 0 when the line was taken.\<close>

definition run_line :: "('fs, 'h) cli" where
  "run_line p i line s =
    (case cli_find cli_table (c_str line) of
       Some h \<Rightarrow> h p i line s
     | None \<Rightarrow> if sy_line s \<noteq> [] then Some (say ''Unknown command. Type 'help'.'' [] s) else Some s)"

section \<open>The line editor\<close>

abbreviation eol :: "u8 \<Rightarrow> bool" where "eol b \<equiv> b = 10 \<or> b = 13"

text \<open>The bytes available in one pass; the result has those left in the port. A line ends at a line end that is not its
first byte; the line ends behind it are dropped as far as they have already arrived. Anything else is stored, up to 255
bytes.\<close>

function serial_cli ::
  "('fs, 'h) plant \<Rightarrow> cli_in \<Rightarrow> bytes \<Rightarrow> ('fs, 'h) system \<Rightarrow> (bytes \<times> ('fs, 'h) system) option" where
  "serial_cli p i [] s = Some ([], s)"
| "serial_cli p i (c # cs) s =
    (if eol c \<and> sy_line s \<noteq> [] then
       (case run_line p i (sy_line s) (s\<lparr> sy_line := [] \<rparr>) of
          None \<Rightarrow> None
        | Some s1 \<Rightarrow> if sy_test s1 \<noteq> [] then Some (dropWhile eol cs, s1) else serial_cli p i (dropWhile eol cs) s1)
     else serial_cli p i cs (if length (sy_line s) < 255 then s\<lparr> sy_line := sy_line s @ [c] \<rparr> else s))"
  by pat_completeness auto
termination
  by (relation "measure (\<lambda>(p, i, cs, s). length cs)") (auto simp: less_Suc_eq_le length_dropWhile_le)

text \<open>While a test of all switches runs, the call has not returned and the input waits.\<close>

definition handle_serial_cli ::
  "('fs, 'h) plant \<Rightarrow> cli_in \<Rightarrow> bytes \<Rightarrow> ('fs, 'h) system \<Rightarrow> (bytes \<times> ('fs, 'h) system) option" where
  "handle_serial_cli p i cs s = (if sy_test s = [] then serial_cli p i cs s else Some (cs, test_round i s))"

section \<open>What the editor loses\<close>

fun test_word :: "test \<Rightarrow> string" where
  "test_word (Starts w) = w"
| "test_word (Is w) = w"

definition other_start :: "u8 \<Rightarrow> test \<Rightarrow> bool" where
  "other_start b x = (case test_word x of [] \<Rightarrow> False | c # _ \<Rightarrow> str_bytes [c] \<noteq> [b])"

definition no_test_begins :: "u8 \<Rightarrow> test list list \<Rightarrow> bool" where
  "no_test_begins b = list_all (list_all (other_start b))"

lemma passes_head: "passes (b # l) x \<Longrightarrow> \<not> other_start b x"
  by (cases x) (auto simp: str_bytes_def other_start_def split: list.splits)

lemma cli_find_none: "no_test_begins b (map fst t) \<Longrightarrow> cli_find t (b # l) = None"
proof (induction t)
  case (Cons th t)
  have "\<not> list_ex (passes (b # l)) (fst th)"
    using Cons.prems passes_head by (auto simp: no_test_begins_def list_all_iff list_ex_iff)
  then show ?case using Cons by (cases th) (simp add: no_test_begins_def)
qed simp

lemma no_test_begins_eol: "no_test_begins 10 (map fst cli_table)" "no_test_begins 13 (map fst cli_table)"
  by code_simp+

lemma serial_cli_store:
  "list_all (\<lambda>b. \<not> eol b) cmd \<Longrightarrow> length l \<le> 255 \<Longrightarrow>
    serial_cli p i (cmd @ cs) (s\<lparr> sy_line := l \<rparr>) = serial_cli p i cs (s\<lparr> sy_line := take 255 (l @ cmd) \<rparr>)"
proof (induction cmd arbitrary: l)
  case (Cons c cmd)
  show ?case
  proof (cases "length l < 255")
    case True
    then show ?thesis using Cons.prems Cons.IH [of "l @ [c]"] by simp
  next
    case False
    then have "length l = 255" using Cons.prems by simp
    then show ?thesis using Cons.prems Cons.IH [of l] by simp
  qed
qed simp

text \<open>An empty line makes the console lose the next command: after a line end that arrives while the line buffer is
empty (Enter pressed twice, or a line feed that comes later than its carriage return), whatever is typed up to the next
line end is dropped without effect and without a message.\<close>

theorem blank_line_eats_command:
  fixes s :: "('fs, 'h) system"
  assumes "sy_line s = []" "sy_test s = []" "list_all (\<lambda>b. \<not> eol b) cmd" "eol b" "eol b'"
  shows "handle_serial_cli p i (b # cmd @ [b']) s = Some ([], s)"
proof -
  have s: "s\<lparr> sy_line := [] \<rparr> = s" using assms(1) by simp
  have "cli_find (cli_table :: (test list \<times> ('fs, 'h) cli) list) (c_str (b # t)) = None" for t
    using assms(4) cli_find_none [OF no_test_begins_eol(1)] cli_find_none [OF no_test_begins_eol(2)] by (auto simp: c_str_def)
  then have run: "run_line p i (b # t) (s\<lparr> sy_line := [] \<rparr>) = Some (s\<lparr> sy_line := [] \<rparr>)" for t
    by (simp add: run_line_def)
  have "serial_cli p i (b # cmd @ [b']) s = serial_cli p i (cmd @ [b']) (s\<lparr> sy_line := [b] \<rparr>)"
    using assms(1) by simp
  also have "\<dots> = serial_cli p i [b'] (s\<lparr> sy_line := b # take 254 cmd \<rparr>)"
    using serial_cli_store [OF assms(3), of "[b]" p i "[b']" s] by simp
  also have "\<dots> = Some ([], s)"
    using assms(2,5) run [of "take 254 cmd"] s by (auto simp del: run_line_def)
  finally show ?thesis using assms(2) by (simp add: handle_serial_cli_def)
qed

text \<open>A console without state: the first boot's zero state on an empty store, and a plant without a card.\<close>

definition cli_demo_in :: cli_in where
  "cli_demo_in = \<lparr> ci_env = demo_env 0, ci_ina = (\<lambda>_. (0, 0)),
     ci_tele = \<lparr> ti_time = 0, ti_now = 0, ti_rssi = None, ti_ip = [], ti_heap = 0, ti_min_heap = 0, ti_reset = 0,
       ti_mqtt = False, ti_prefs = host_env, ti_mac = [1, 2, 3, 4, 5, 6], ti_ring = 16384 \<rparr>,
     ci_level = (\<lambda>_. False), ci_i2c = (\<lambda>_. False), ci_mem = [], ci_temp = 0 \<rparr>"

definition no_card :: "(unit, unit) sdlib" where
  "no_card = \<lparr> sd_begin = (\<lambda>_. False), sd_exists = (\<lambda>_ _. False), sd_remove = (\<lambda>_ u. (False, u)), sd_mkdir = (\<lambda>_ u. u),
     sd_open_read = (\<lambda>_ _. None), sd_size = (\<lambda>_. 0), sd_read = (\<lambda>h _. ([], h)), sd_open_append = (\<lambda>_ _. None),
     sd_write = (\<lambda>_ _ u. (0, u)), sd_total = (\<lambda>_. 0), sd_used = (\<lambda>_. 0), sd_dir = (\<lambda>_ _. None) \<rparr>"

definition demo_plant :: "(unit, unit) plant" where
  "demo_plant = \<lparr> pl_sd = no_card, pl_ring = 16384, pl_row = (\<lambda>_ _ _. []), pl_path = (\<lambda>_ _ _. []), pl_header = [],
     pl_board = esp32c3, pl_prefs = host_env, pl_ical = (\<lambda>_. \<lparr> ic_volt_ratio = f_one, ic_v_offset = 0, ic_i_gain = f_one \<rparr>),
     pl_bl = (\<lambda>q. q), pl_mac = [1, 2, 3, 4, 5, 6], pl_probe = (\<lambda>_. False), pl_begins = (\<lambda>_. False), pl_adv = True,
     pl_sha256 = (\<lambda>_. []), pl_json = \<lparr> jl_parse = (\<lambda>_. None), jl_print = (\<lambda>_ _. []) \<rparr>, pl_ids = ([], []),
     pl_ui = esp32c3_ui, pl_localtime = (\<lambda>_. None), pl_float_text = (\<lambda>_. []),
     pl_oled = True \<rparr>"

abbreviation demo_system :: "(unit, unit) system" where
  "demo_system \<equiv> blank_system (\<lambda>_. Map.empty) ()"

theorem blank_line_eats_command_witness:
  "handle_serial_cli demo_plant cli_demo_in (10 # str_bytes ''switch 0 0'' @ [10]) demo_system = Some ([], demo_system)"
  by (rule blank_line_eats_command) (simp_all add: blank_system_def, code_simp)

section \<open>Commands no line reaches\<close>

lemma cli_find_nth:
  "n < length t \<Longrightarrow> list_all (\<lambda>ts. \<not> list_ex (passes line) ts) (take n (map fst t)) \<Longrightarrow> list_ex (passes line) (fst (t ! n)) \<Longrightarrow>
    cli_find t line = Some (snd (t ! n))"
proof (induction t arbitrary: n)
  case (Cons th t)
  then show ?case by (cases n; cases th) auto
qed simp

lemma switch_literals:
  "str_bytes ''switch rules '' = [115, 119, 105, 116, 99, 104, 32, 114, 117, 108, 101, 115, 32]"
  "str_bytes ''relay rules '' = [114, 101, 108, 97, 121, 32, 114, 117, 108, 101, 115, 32]"
  "str_bytes ''switch '' = [115, 119, 105, 116, 99, 104, 32]" "str_bytes ''relay '' = [114, 101, 108, 97, 121, 32]"
  "str_bytes ''rules '' = [114, 117, 108, 101, 115, 32]"
  "parse_format (str_bytes ''%7s %d %d'') = [D_str (Some 7), D_space, D_int, D_space, D_int]"
  by code_simp+

lemma sscanf_switch_word:
  "sscanf (str_bytes ''switch rules '' @ n) ''%7s %d %d'' = [V_str [115, 119, 105, 116, 99, 104]]"
  "sscanf (str_bytes ''relay rules '' @ n) ''%7s %d %d'' = [V_str [114, 101, 108, 97, 121]]"
  by (simp_all add: sscanf_def switch_literals c_str_def is_space_def scan_int_def scan_sign_def is_digit_byte_def Let_def)

lemma takes_switch_line: "cli_find cli_table (str_bytes ''switch '' @ l) = Some cli_switch"
  "cli_find cli_table (str_bytes ''relay '' @ l) = Some cli_switch"
  by (simp_all add: cli_table_def switch_literals)

lemma switch_line_without_number:
  assumes "sscanf line ''%7s %d %d'' = [V_str w]" "c_str line = str_bytes ''switch '' @ l \<or> c_str line = str_bytes ''relay '' @ l"
  shows "run_line p i line s = Some s"
  using assms by (auto simp: run_line_def cli_switch_def takes_switch_line)

text \<open>Six documented console commands and the rule listing cannot be reached: the test for \<open>switch N 0/1\<close> comes first
and takes every line that begins with the word, and finds no number. \<open>switch status\<close>, \<open>switch auto on\<close>,
\<open>switch auto off\<close> and \<open>switch rules N\<close>, and the same with \<open>relay\<close>, therefore change nothing and print nothing; the
automatic trip cannot be turned on or off from the console.\<close>

theorem switch_commands_shadowed:
  "run_line p i (str_bytes ''switch status'') s = Some s \<and> run_line p i (str_bytes ''relay status'') s = Some s \<and>
   run_line p i (str_bytes ''switch auto on'') s = Some s \<and> run_line p i (str_bytes ''relay auto on'') s = Some s \<and>
   run_line p i (str_bytes ''switch auto off'') s = Some s \<and> run_line p i (str_bytes ''relay auto off'') s = Some s \<and>
   run_line p i (str_bytes ''switch rules '' @ n) s = Some s \<and> run_line p i (str_bytes ''relay rules '' @ n) s = Some s"
proof -
  have c: "c_str (str_bytes w) = str_bytes v \<Longrightarrow> sscanf (str_bytes w) ''%7s %d %d'' = [V_str x] \<Longrightarrow>
      v = ''switch '' @ y \<or> v = ''relay '' @ y \<Longrightarrow> run_line p i (str_bytes w) s = Some s" for w v x y
    by (rule switch_line_without_number [where l = "str_bytes y"]) (auto simp: str_bytes_def)
  have "run_line p i (str_bytes ''switch status'') s = Some s"
    by (rule c [where x = "str_bytes ''switch''" and y = "''status''", OF _ _ disjI1 [OF refl]]; code_simp)
  moreover have "run_line p i (str_bytes ''relay status'') s = Some s"
    by (rule c [where x = "str_bytes ''relay''" and y = "''status''", OF _ _ disjI2 [OF refl]]; code_simp)
  moreover have "run_line p i (str_bytes ''switch auto on'') s = Some s"
    by (rule c [where x = "str_bytes ''switch''" and y = "''auto on''", OF _ _ disjI1 [OF refl]]; code_simp)
  moreover have "run_line p i (str_bytes ''relay auto on'') s = Some s"
    by (rule c [where x = "str_bytes ''relay''" and y = "''auto on''", OF _ _ disjI2 [OF refl]]; code_simp)
  moreover have "run_line p i (str_bytes ''switch auto off'') s = Some s"
    by (rule c [where x = "str_bytes ''switch''" and y = "''auto off''", OF _ _ disjI1 [OF refl]]; code_simp)
  moreover have "run_line p i (str_bytes ''relay auto off'') s = Some s"
    by (rule c [where x = "str_bytes ''relay''" and y = "''auto off''", OF _ _ disjI2 [OF refl]]; code_simp)
  moreover have "run_line p i (str_bytes ''switch rules '' @ n) s = Some s"
    by (rule switch_line_without_number [OF sscanf_switch_word(1), where l = "str_bytes ''rules '' @ c_str n"])
      (simp add: switch_literals c_str_def)
  moreover have "run_line p i (str_bytes ''relay rules '' @ n) s = Some s"
    by (rule switch_line_without_number [OF sscanf_switch_word(2), where l = "str_bytes ''rules '' @ c_str n"])
      (simp add: switch_literals c_str_def)
  ultimately show ?thesis by blast
qed

section \<open>Words and their buffers\<close>

text \<open>\<open>sane h\<close>: the command writes past no buffer as long as no word of the line has 64 bytes or more.\<close>

definition sane :: "('fs, 'h) cli \<Rightarrow> bool" where
  "sane h = (\<forall>p i line s. short_words 64 (c_str line) \<longrightarrow> h p i line s \<noteq> None)"

lemma sane_plain:
  "sane cli_switch" "sane cli_reset_coulomb" "sane cli_reset_energy" "sane cli_test_switch" "sane cli_shunt_show" "sane cli_shunt"
  "sane cli_vratio_show" "sane cli_vratio" "sane cli_resistor_show" "sane cli_resistor" "sane cli_cal_show" "sane cli_cal"
  by (simp_all add: sane_def cli_switch_def cli_reset_coulomb_def cli_reset_energy_def cli_test_switch_def cli_shunt_show_def
      cli_shunt_def cli_vratio_show_def cli_vratio_def cli_resistor_show_def cli_resistor_def cli_cal_show_def cli_cal_def
      Let_def split: list.split sval.split prod.split)

lemma sane_readings:
  "sane cli_test_sensor" "sane cli_virtual_channel" "sane cli_display" "sane cli_status" "sane cli_mem" "sane cli_log"
  "sane cli_sensors" "sane cli_switch_status" "sane cli_switch_rules"
  by (simp_all add: sane_def cli_test_sensor_def cli_virtual_channel_def cli_display_def cli_status_def cli_mem_def cli_log_def
      cli_sensors_def cli_switch_status_def cli_switch_rules_def Let_def split: list.split sval.split prod.split)

lemma sane_battery:
  "sane cli_battery_list" "sane cli_battery_bind" "sane cli_battery_show" "sane cli_profile_show" "sane cli_profile_reset"
  "sane cli_profile_delete" "sane cli_profile_set" "sane cli_battery_reset" "sane cli_cycle_show"
  by (simp_all add: sane_def cli_battery_list_def cli_battery_bind_def cli_battery_show_def cli_profile_show_def
      cli_profile_reset_def cli_profile_delete_def cli_profile_set_def cli_battery_reset_def cli_cycle_show_def Let_def
      split: list.split sval.split prod.split)

lemma sane_maintenance:
  "sane cli_flush_log" "sane cli_i2c_scan" "sane cli_discover_sensors" "sane cli_test_all" "sane cli_test_all_sensors"
  "sane cli_test_display" "sane (cli_auto on)" "sane cli_factory_reset" "sane cli_calibrate_baseline" "sane cli_ble_on"
  "sane cli_wifi_show" "sane cli_supabase_show" "sane cli_virtual_channel_show" "sane cli_reboot" "sane cli_serial1peek"
  "sane cli_help"
  by (simp_all add: sane_def cli_flush_log_def cli_i2c_scan_def cli_discover_sensors_def cli_test_all_def cli_test_all_sensors_def
      cli_test_display_def cli_auto_def cli_factory_reset_def cli_calibrate_baseline_def cli_ble_on_def cli_wifi_show_def
      cli_supabase_show_def cli_virtual_channel_show_def cli_reboot_def cli_serial1peek_def cli_help_def Let_def
      split: prod.split)

lemma words_fit_short: "\<lbrakk> \<And>v. V_str v \<in> set vs \<Longrightarrow> length v < 64; list_all (\<lambda>n. 64 \<le> n) ns \<rbrakk> \<Longrightarrow> words_fit ns vs"
  by (induction ns vs rule: words_fit.induct) (auto simp: fits_def, fastforce)

lemma sane_words: "sane cli_wifi_ssid" "sane cli_wifi_pass" "sane cli_set_wifi" "sane cli_supabase"
proof -
  have w: "length v < 64" if "short_words 64 (c_str line)" "sscanf line fmt = vs" "V_str v \<in> set vs" for line fmt vs v
    using sscanf_short that by blast
  show "sane cli_wifi_ssid" "sane cli_wifi_pass" "sane cli_set_wifi"
    by (auto simp: sane_def cli_wifi_ssid_def cli_wifi_pass_def cli_set_wifi_def fits_def dest: w split: list.splits sval.splits)
  show "sane cli_supabase"
    using words_fit_short [OF w] by (auto simp: sane_def cli_supabase_def Let_def split: list.splits sval.splits)
qed

lemma handlers_sane: "list_all sane (map snd cli_table)"
  by (simp add: cli_table_def sane_plain sane_readings sane_battery sane_maintenance sane_words)

lemma cli_find_mem: "cli_find t line = Some h \<Longrightarrow> h \<in> set (map snd t)"
  by (induction t line rule: cli_find.induct) (auto split: if_splits)

lemma wifi_ssid_line:
  "cli_find (cli_table :: (test list \<times> ('fs, 'h) cli) list) (str_bytes ''wifi_ssid '' @ replicate 64 65) = Some cli_wifi_ssid"
proof -
  let ?t = "cli_table :: (test list \<times> ('fs, 'h) cli) list"
  have "list_all (\<lambda>ts. \<not> list_ex (passes (str_bytes ''wifi_ssid '' @ replicate 64 65)) ts) (take 12 (map fst ?t))"
    "list_ex (passes (str_bytes ''wifi_ssid '' @ replicate 64 65)) (map fst ?t ! 12)" by code_simp+
  moreover have "12 < length ?t" "snd (?t ! 12) = cli_wifi_ssid" by (simp_all add: cli_table_def)
  ultimately show ?thesis using cli_find_nth [of 12 ?t "str_bytes ''wifi_ssid '' @ replicate 64 65"] by simp
qed

text \<open>C39: A console line overruns a stack buffer only with a word of 64 bytes or more: while every word is shorter, every
command runs to its end; but the line editor takes 255 bytes, and \<open>wifi_ssid\<close> with a 64-byte word writes past the
64-byte buffer that its \<open>%s\<close> fills.\<close>

theorem console_overrun:
  fixes s :: "('fs, 'h) system"
  assumes "short_words 64 (c_str line)"
  shows "run_line p i line s \<noteq> None \<and> run_line p i (str_bytes ''wifi_ssid '' @ replicate 64 65) s = None"
proof -
  have "h p i line s \<noteq> None" if "cli_find (cli_table :: (test list \<times> ('fs, 'h) cli) list) (c_str line) = Some h" for h
    using cli_find_mem [OF that] handlers_sane assms unfolding list_all_iff sane_def by blast
  then have "run_line p i line s \<noteq> None" by (simp add: run_line_def split: option.split)
  moreover have "c_str (str_bytes ''wifi_ssid '' @ replicate 64 65) = str_bytes ''wifi_ssid '' @ replicate 64 65"
    "sscanf (str_bytes ''wifi_ssid '' @ replicate 64 65) ''wifi_ssid %s'' = [V_str (replicate 64 65)]" by code_simp+
  then have "run_line p i (str_bytes ''wifi_ssid '' @ replicate 64 65) s = None"
    by (simp add: run_line_def wifi_ssid_line cli_wifi_ssid_def fits_def)
  ultimately show ?thesis by blast
qed

theorem console_overrun_witness:
  "run_line demo_plant cli_demo_in (str_bytes ''set_wifi home secret'') demo_system \<noteq> None"
proof -
  have "short_words 64 (c_str (str_bytes ''set_wifi home secret''))" by code_simp
  from console_overrun [OF this] show ?thesis by blast
qed

end
