(* ===== verification/System.thy ===== *)
theory System
  imports Serial_Cli
begin

text \<open>
  Runs of the firmware: after \<open>setup()\<close> the rounds of the sensor task, the network task and the UI task, passes of the
  console and BLE events come in any order. In safe mode only the sensor task exists. A restart asked for is an effect
  (\<open>E_restart\<close>); what the firmware would do before it happens is included, the boot after it is a new run.
\<close>

section \<open>Console input\<close>

text \<open>The one value of a console line that the battery registry cannot take: \<open>nan\<close> for a rated capacity passes the check
for a too small one.\<close>

definition calm :: "bytes \<Rightarrow> bool" where
  "calm line = (case sscanf line ''battery profile set %d %23s %31s'' of
     [V_int pid, V_str field, V_str val] \<Rightarrow> field = str_bytes ''rated_capacity_Ah'' \<longrightarrow> \<not> f_isnan (atof val)
   | _ \<Rightarrow> True)"

text \<open>Every line executed in a pass is calm.\<close>

function serial_calm :: "('fs, 'h) plant \<Rightarrow> cli_in \<Rightarrow> bytes \<Rightarrow> ('fs, 'h) system \<Rightarrow> bool" where
  "serial_calm p i [] s = True"
| "serial_calm p i (c # cs) s =
    (if eol c \<and> sy_line s \<noteq> [] then
       calm (sy_line s) \<and>
       (case run_line p i (sy_line s) (s\<lparr> sy_line := [] \<rparr>) of
          None \<Rightarrow> True
        | Some s1 \<Rightarrow> sy_test s1 \<noteq> [] \<or> serial_calm p i (dropWhile eol cs) s1)
     else serial_calm p i cs (if length (sy_line s) < 255 then s\<lparr> sy_line := sy_line s @ [c] \<rparr> else s))"
  by pat_completeness auto
termination
  by (relation "measure (\<lambda>(p, i, cs, s). length cs)") (auto simp: less_Suc_eq_le length_dropWhile_le)

text \<open>What every calm line keeps, the console keeps.\<close>

lemma serial_cli_keeps:
  fixes P :: "('fs, 'h) system \<Rightarrow> bool"
  assumes line: "\<And>line s s'. P s \<Longrightarrow> calm line \<Longrightarrow> run_line p i line s = Some s' \<Longrightarrow> P s'"
    and edit: "\<And>s l. P (s\<lparr> sy_line := l \<rparr>) = P s"
  shows "P s \<Longrightarrow> serial_calm p i cs s \<Longrightarrow> serial_cli p i cs s = Some (rest, s') \<Longrightarrow> P s'"
proof (induction "length cs" arbitrary: cs s rule: less_induct)
  case less
  show ?case
  proof (cases cs)
    case Nil
    then show ?thesis using less.prems by simp
  next
    case (Cons c cs')
    show ?thesis
    proof (cases "eol c \<and> sy_line s \<noteq> []")
      case True
      then obtain s1 where r: "run_line p i (sy_line s) (s\<lparr> sy_line := [] \<rparr>) = Some s1" "calm (sy_line s)"
        using less.prems(2,3) unfolding Cons by (auto split: option.splits)
      have "P s1" using line [OF _ r(2,1)] less.prems(1) edit by blast
      moreover have "length (dropWhile eol cs') < length cs" using Cons by (simp add: less_Suc_eq_le length_dropWhile_le)
      ultimately show ?thesis using less.hyps [of "dropWhile eol cs'" s1] less.prems(2,3) True r Cons by (auto split: if_splits)
    next
      case False
      then show ?thesis using less.hyps [of cs'] less.prems Cons edit by (auto split: if_splits)
    qed
  qed
qed

section \<open>Steps\<close>

datatype ble_event = Connect u32 | Disconnect | Write bytes

fun on_ble_event :: "ble_event \<Rightarrow> device \<Rightarrow> device" where
  "on_ble_event (Connect now) d = on_connect now d"
| "on_ble_event Disconnect d = on_disconnect d"
| "on_ble_event (Write v) d = on_write v d"

definition same_hardware :: "('fs, 'h) plant \<Rightarrow> cmd_env \<Rightarrow> bool" where
  "same_hardware p env = (ce_board env = pl_board p \<and> ce_prefs env = pl_prefs p)"

inductive system_step :: "('fs, 'h) plant \<Rightarrow> ('fs, 'h) system \<Rightarrow> ('fs, 'h) system \<Rightarrow> bool" for p where
  sensor: "system_step p s (sensor_round p i s)"
| network: "\<lbrakk> sy_network_task s; same_hardware p (nr_env i) \<rbrakk> \<Longrightarrow> system_step p s (network_round p i s)"
| panel: "\<lbrakk> sy_network_task s; same_hardware p env \<rbrakk> \<Longrightarrow> system_step p s (ui_round env level s)"
| console: "\<lbrakk> sy_network_task s; same_hardware p (ci_env i); handle_serial_cli p i cs s = Some (rest, s');
    sy_test s = [] \<longrightarrow> serial_calm p i cs s \<rbrakk> \<Longrightarrow> system_step p s s'"
| ble: "\<lbrakk> sy_network_task s; bl_initialized (dv_ble (sy_dev s)) \<rbrakk> \<Longrightarrow> system_step p s (s\<lparr> sy_dev := on_ble_event e (sy_dev s) \<rparr>)"

inductive system_reachable :: "('fs, 'h) plant \<Rightarrow> ('fs, 'h) system \<Rightarrow> bool" for p where
  booted: "system_reachable p (setup_firmware p now ticks level (blank_system n fs))"
| step: "\<lbrakk> system_reachable p s; system_step p s s' \<rbrakk> \<Longrightarrow> system_reachable p s'"

inductive_cases system_stepE: "system_step p s s'"

end
