(* ===== verification/Device_Invariant.thy ===== *)
theory Device_Invariant
  imports Firmware
begin

text \<open>
  One invariant for the whole device: the shapes and bounds every component relies on (array lengths, pod tables, the
  profile registry, the command queue), the update client's invariant, and the reserved pins. Every operation of the
  components lifted to the device and every command of either channel keeps it.
\<close>

section \<open>The invariant\<close>

definition wf_cycle :: "cycle \<Rightarrow> bool" where
  "wf_cycle c = (length (cy_state c) = 16 \<and> length (cy_loaded c) = 16 \<and> length (cy_last_dir c) = 16)"

definition wf_battery :: "battery \<Rightarrow> bool" where
  "wf_battery b = (prof_inv b \<and> length (bt_channel_profile b) = 16)"

definition wf_queue :: "ble \<Rightarrow> bool" where
  "wf_queue b = (case bl_queue b of None \<Rightarrow> True | Some q \<Rightarrow> length q \<le> 4 \<and> (\<forall>m \<in> set q. length m \<le> 1024))"

definition pins_off :: "board \<Rightarrow> sw \<Rightarrow> bool" where
  "pins_off b w = (\<forall>p. \<not> gpio_in_range b p \<longrightarrow> \<not> sw_gpio w p)"

definition device_inv :: "board \<Rightarrow> (bytes \<Rightarrow> bytes) \<Rightarrow> ota_doc set \<Rightarrow> device \<Rightarrow> bool" where
  "device_inv b sha256 docs d = (wf_sensors (dv_sens d) \<and> wf_counter (dv_coul d) \<and> wf_sw (dv_sw d) \<and>
     pins_off b (dv_sw d) \<and> wf_battery (dv_bat d) \<and> wf_cycle (dv_cyc d) \<and> ota_inv sha256 docs (dv_ota d) \<and>
     wf_queue (dv_ble d))"

text \<open>What the JSON library guarantees: a number it parses is not a NaN.\<close>

definition no_nan :: "(bytes \<Rightarrow> json option) \<Rightarrow> bool" where
  "no_nan parse = (\<forall>s doc k. parse s = Some doc \<longrightarrow> \<not> f_isnan (or_float (jget doc k) 0))"

section \<open>Components\<close>

lemma wf_battery_nvs [simp]: "wf_battery (b\<lparr> bt_nvs := n \<rparr>) = wf_battery b"
  by (simp add: wf_battery_def prof_inv_def)

lemma wf_bat_of [simp]: "wf_battery (bat_of d) = wf_battery (dv_bat d)"
  by (simp add: bat_of_def)

lemma sw_kv_simps [simp]: "wf_sw (w\<lparr> sw_kv := m \<rparr>) = wf_sw w" "pins_off b (w\<lparr> sw_kv := m \<rparr>) = pins_off b w"
  by (simp_all add: wf_sw_def pins_off_def)

lemma ota_nvs [simp]: "ota_inv sha256 docs (s\<lparr> ot_nvs := n \<rparr>) = ota_inv sha256 docs s"
  by (cases "ot_state s") (simp_all add: ota_inv_def released_def dl_held_def)

lemma inv_lifts:
  assumes "device_inv b sha256 docs d"
  shows "device_inv b sha256 docs (on_nvs f1 d)" "device_inv b sha256 docs (on_kv f2 d)"
    "device_inv b sha256 docs (on_net f3 d)" "device_inv b sha256 docs (demit e d)"
    "wf_queue (f4 (dv_ble d)) \<Longrightarrow> device_inv b sha256 docs (on_ble f4 d)"
    "wf_sensors (snd (f5 (kv_of d, dv_sens d))) \<Longrightarrow> device_inv b sha256 docs (on_sens f5 d)"
    "wf_counter (snd (f6 (kv_of d, dv_coul d))) \<Longrightarrow> device_inv b sha256 docs (on_coul f6 d)"
    "wf_sw (f7 (sw_of d)) \<Longrightarrow> pins_off b (f7 (sw_of d)) \<Longrightarrow> device_inv b sha256 docs (on_sw f7 d)"
    "wf_battery bt \<Longrightarrow> device_inv b sha256 docs (put_bat bt d)"
    "wf_battery (f8 (bat_of d)) \<Longrightarrow> device_inv b sha256 docs (on_bat f8 d)"
    "wf_battery (fst (f9 (bat_of d, dv_cyc d))) \<Longrightarrow> wf_cycle (snd (f9 (bat_of d, dv_cyc d))) \<Longrightarrow>
      device_inv b sha256 docs (on_cyc f9 d)"
    "ota_inv sha256 docs (f10 (ota_of d)) \<Longrightarrow> device_inv b sha256 docs (on_ota f10 d)"
  using assms
  by (simp_all add: device_inv_def on_nvs_def on_kv_def on_net_def demit_def on_ble_def on_sens_def on_coul_def on_sw_def
    put_bat_def on_bat_def on_cyc_def on_ota_def Let_def)

lemma inv_parts:
  assumes "device_inv b sha256 docs d"
  shows "wf_sensors (dv_sens d)" "wf_counter (dv_coul d)" "wf_sw (dv_sw d)" "pins_off b (dv_sw d)"
    "wf_battery (dv_bat d)" "wf_cycle (dv_cyc d)" "ota_inv sha256 docs (dv_ota d)" "wf_queue (dv_ble d)"
  using assms by (simp_all add: device_inv_def)

subsection \<open>Batteries and cycles\<close>

lemma state_io_wf [simp]:
  "wf_battery (snd (ensure_state_prefs_open env b)) = wf_battery b"
  "wf_battery (snd (ensure_profile_prefs_open env b)) = wf_battery b"
  "wf_battery (snd (state_get_locked env k n b)) = wf_battery b"
  "wf_battery (snd (state_put_locked env k v b)) = wf_battery b"
  "wf_battery (snd (state_put_u8_locked env k u b)) = wf_battery b"
  "wf_battery (snd (state_get_u8_locked env k b)) = wf_battery b"
  "wf_battery (state_remove_locked env k b) = wf_battery b"
  by (simp_all add: ensure_state_prefs_open_def ensure_profile_prefs_open_def state_get_locked_def state_put_locked_def
    state_put_u8_locked_def state_get_u8_locked_def state_remove_locked_def case_prod_beta Let_def wf_battery_def prof_inv_def
    split: option.splits)

lemma state_load_wf [simp]:
  "wf_battery (snd (battery_state_load env ch b)) = wf_battery b"
  "wf_battery (snd (battery_state_save env ch st b)) = wf_battery b"
  "wf_battery (battery_state_reset env ch b) = wf_battery b"
proof -
  show "wf_battery (snd (battery_state_load env ch b)) = wf_battery b"
  proof -
    obtain r b1 where g: "state_get_locked env (make_state_key ch) 45 b = (r, b1)" by force
    then have "wf_battery b1 = wf_battery b" using state_io_wf(3) [of env "make_state_key ch" 45 b] unfolding g by simp
    then show ?thesis by (simp add: battery_state_load_def Let_def g split: option.splits)
  qed
  show "wf_battery (snd (battery_state_save env ch st b)) = wf_battery b" for st
    by (simp add: battery_state_save_def)
  then show "wf_battery (battery_state_reset env ch b) = wf_battery b"
    by (simp add: battery_state_reset_def)
qed

lemma bindings_wf:
  assumes "wf_battery b"
  shows "wf_battery (snd (battery_channel_set_profile env ch pid b))" "wf_battery (battery_channel_clear env ch b)"
proof -
  have u: "wf_battery (b\<lparr> bt_channel_profile := (bt_channel_profile b)[i := p] \<rparr>)" for i p
    using assms by (simp add: wf_battery_def prof_inv_def)
  then have "wf_battery (snd (bind_and_persist env c q b))" for c q
    by (simp add: bind_and_persist_def persist_bindings_locked_def case_prod_beta)
  then show "wf_battery (snd (battery_channel_set_profile env ch pid b))" "wf_battery (battery_channel_clear env ch b)"
    using assms by (simp_all add: battery_channel_set_profile_def battery_channel_clear_def)
qed

lemma persist_bindings_frame [simp]: "bt_channel_profile (snd (persist_profiles_locked env b)) = bt_channel_profile b"
  by (simp add: persist_profiles_locked_def profile_put_locked_def profile_put_u8_locked_def ensure_profile_prefs_open_def
    case_prod_beta Let_def)

lemma profiles_wf:
  assumes "wf_battery b"
  shows "wf_bcp p \<Longrightarrow> \<not> f_isnan (bcp_rated_capacity_Ah p) \<Longrightarrow> wf_battery (snd (battery_profile_set env p b))"
    "wf_battery (snd (battery_profile_delete env i b))"
proof -
  have f: "bt_channel_profile (snd (battery_profile_set env p b)) = bt_channel_profile b"
    "bt_channel_profile (snd (battery_profile_delete env i b)) = bt_channel_profile b"
    by (simp_all add: battery_profile_set_def battery_profile_delete_def Let_def)
  show "wf_bcp p \<Longrightarrow> \<not> f_isnan (bcp_rated_capacity_Ah p) \<Longrightarrow> wf_battery (snd (battery_profile_set env p b))"
    using prof_step_spec [of b "PSet p" env] assms f by (simp add: wf_battery_def)
  show "wf_battery (snd (battery_profile_delete env i b))"
    using prof_step_spec [of b "PDelete i" env] assms f by (simp add: wf_battery_def)
qed

lemma profile_get_wf:
  assumes "wf_battery b" "battery_profile_get b i = Some e"
  shows "wf_bcp e \<and> \<not> f_isnan (bcp_rated_capacity_Ah e)"
proof -
  have n: "\<not> f_isnan x" if "f_gt x y" for x y using that by (auto simp: f_lt_def)
  have v: "e = bt_profiles b ! unat i" "profile_slot_valid e" "i < 16"
    using assms(2) by (auto simp: battery_profile_get_def not_le split: if_splits)
  have "unat i < length (bt_profiles b)" using v(3) assms(1) by (simp add: wf_battery_def prof_inv_def word_less_nat_alt)
  then have "wf_bcp e" using assms(1) v(1) by (simp add: wf_battery_def prof_inv_def list_all_length)
  then show ?thesis using v(2) n unfolding profile_slot_valid_def by blast
qed

lemma merge_wf:
  assumes "wf_battery b" "\<not> f_isnan (or_float (jget doc ''rated_capacity_Ah'') 0)"
  shows "wf_bcp (merge_profile i doc (battery_profile_get b i))"
    "\<not> f_isnan (bcp_rated_capacity_Ah (merge_profile i doc (battery_profile_get b i)))"
proof -
  note profile_get_wf [OF assms(1), of i]
  moreover have "wf_bcp zero_bcp" "\<not> f_isnan (bcp_rated_capacity_Ah zero_bcp)"
    by (simp_all add: zero_bcp_def wf_bcp_def)
  moreover define p where "p = (case battery_profile_get b i of Some e \<Rightarrow> e | None \<Rightarrow> zero_bcp)"
  ultimately have p: "wf_bcp p" "\<not> f_isnan (bcp_rated_capacity_Ah p)" by (auto split: option.splits)
  have m: "bcp_name (merge_profile i doc (battery_profile_get b i)) =
      (if is_str (jget doc ''name'') then strlcpy (bcp_name p) (the_str (jget doc ''name'')) else bcp_name p)"
    "bcp_rated_capacity_Ah (merge_profile i doc (battery_profile_get b i)) =
      or_float (jget doc ''rated_capacity_Ah'') (bcp_rated_capacity_Ah p)"
    by (simp_all add: merge_profile_def Let_def p_def)
  show "wf_bcp (merge_profile i doc (battery_profile_get b i))" using p(1) by (simp add: wf_bcp_def m)
  show "\<not> f_isnan (bcp_rated_capacity_Ah (merge_profile i doc (battery_profile_get b i)))"
    using assms(2) p(2) by (cases "jget doc ''rated_capacity_Ah''") (simp_all add: m or_float_def)
qed

lemma cycle_wf:
  assumes "wf_battery b" "wf_cycle c"
  shows "wf_battery (fst (ensure_loaded env ch (b, c))) \<and> wf_cycle (snd (ensure_loaded env ch (b, c)))"
    "wf_battery (fst (cycle_counter_reset env ch (b, c))) \<and> wf_cycle (snd (cycle_counter_reset env ch (b, c)))"
    "wf_battery (fst (persist_state env ch (b, c))) \<and> wf_cycle (snd (persist_state env ch (b, c)))"
  using assms
  by (simp_all add: ensure_loaded_def cycle_counter_reset_def persist_state_def wf_cycle_def Let_def case_prod_beta)

lemma fold_inv2: "(\<And>i x. P x \<Longrightarrow> P (f i x)) \<Longrightarrow> P x \<Longrightarrow> P (fold f is x)"
  by (induction "is" arbitrary: x) auto

lemma update_channel_wf:
  assumes "wf_battery (fst w) \<and> wf_cycle (snd w)"
  shows "wf_battery (fst (update_channel env m cnt snap dt now ch w)) \<and> wf_cycle (snd (update_channel env m cnt snap dt now ch w))"
proof -
  obtain b c where l: "ensure_loaded env ch w = (b, c)" by force
  have e: "wf_battery b" "wf_cycle c" using cycle_wf(1) [of "fst w" "snd w" env ch] assms l by simp_all
  have u: "wf_cycle (c\<lparr> cy_state := (cy_state c)[i := st], cy_last_dir := (cy_last_dir c)[i := x] \<rparr>)" for i st x
    using e(2) by (simp add: wf_cycle_def)
  show ?thesis
    using assms e cycle_wf(3) [OF e(1) u]
    by (auto simp: update_channel_def Let_def l u split: option.splits prod.splits)
qed

lemma update_cycle_wf:
  assumes "wf_battery b" "wf_cycle c"
  shows "wf_battery (fst (update_cycle_counter env m cnt snap dt now (b, c))) \<and>
    wf_cycle (snd (update_cycle_counter env m cnt snap dt now (b, c)))"
proof -
  define c0 where "c0 = (if cy_initialized c then c else init_cycle_counter now c)"
  define w1 where "w1 = fold (\<lambda>ch. update_channel env m cnt snap dt now (of_nat ch)) [0..<16] (b, c0)"
  define w2 where "w2 = fold (\<lambda>ch x. if cy_loaded (snd x) ! ch then persist_state env (of_nat ch) x else x) [0..<16] w1"
  have "wf_cycle c0" using assms(2) by (simp add: c0_def wf_cycle_def init_cycle_counter_def)
  then have w1: "wf_battery (fst w1) \<and> wf_cycle (snd w1)"
    unfolding w1_def by (intro fold_inv2 [of "\<lambda>w. wf_battery (fst w) \<and> wf_cycle (snd w)"] update_channel_wf)
      (simp_all add: assms)
  have w2: "wf_battery (fst w2) \<and> wf_cycle (snd w2)"
    unfolding w2_def
  proof (rule fold_inv2 [of "\<lambda>w. wf_battery (fst w) \<and> wf_cycle (snd w)", OF _ w1])
    fix ch :: nat and x :: "battery \<times> cycle"
    assume "wf_battery (fst x) \<and> wf_cycle (snd x)"
    then show "wf_battery (fst (if cy_loaded (snd x) ! ch then persist_state env (of_nat ch) x else x)) \<and>
      wf_cycle (snd (if cy_loaded (snd x) ! ch then persist_state env (of_nat ch) x else x))"
      using cycle_wf(3) [of "fst x" "snd x" env "of_nat ch"] by simp
  qed
  have eq: "update_cycle_counter env m cnt snap dt now (b, c) =
      (if 300000 \<le> now - cy_last_persist_ms (snd w1) then (fst w2, (snd w2)\<lparr> cy_last_persist_ms := now \<rparr>) else w1)"
    by (simp only: update_cycle_counter_def Let_def case_prod_conv c0_def [symmetric] w1_def [symmetric] w2_def [symmetric])
  have "wf_cycle ((snd w2)\<lparr> cy_last_persist_ms := now \<rparr>)" using w2 by (simp add: wf_cycle_def)
  then show ?thesis unfolding eq using w1 w2 by simp
qed

lemma cycle_get_wf:
  assumes "wf_battery b" "wf_cycle c"
  shows "wf_battery (fst (snd (cycle_counter_get env ch (b, c)))) \<and> wf_cycle (snd (snd (cycle_counter_get env ch (b, c))))"
  using assms cycle_wf(1) [OF assms, of env ch] by (simp add: cycle_counter_get_def Let_def)

lemma init_battery_wf: "wf_battery (init_battery_bindings env (init_battery_profiles env b))"
proof -
  define b0 where "b0 = init_battery_profiles env b"
  have p: "prof_inv b0" using init_profiles_inv by (simp add: b0_def)
  define b1 where "b1 = snd (state_get_u8_locked env BindVer (b0\<lparr> bt_channel_profile := replicate 16 NO_BINDING \<rparr>))"
  have "wf_battery (b0\<lparr> bt_channel_profile := replicate 16 NO_BINDING \<rparr>)" using p by (simp add: wf_battery_def prof_inv_def)
  then have b1: "wf_battery b1" using state_io_wf(6) by (simp add: b1_def)
  obtain r b2 where g: "state_get_locked env BindKey 16 b1 = (r, b2)" by force
  then have b2: "wf_battery b2" using b1 state_io_wf(3) [of env BindKey 16 b1] unfolding g by simp
  have "length bs = 16" if "r = Some bs" for bs
    using g that by (auto simp: state_get_locked_def case_prod_beta Let_def pf_get_defs split: if_splits option.splits)
  then have "wf_battery (case r of None \<Rightarrow> b2 | Some bs \<Rightarrow> b2\<lparr> bt_channel_profile := bs \<rparr>)"
    using b2 by (auto simp: wf_battery_def prof_inv_def split: option.split)
  then show ?thesis
    unfolding init_battery_bindings_def Let_def case_prod_beta b0_def [symmetric] b1_def [symmetric] g
    using b1 by (cases r) auto
qed

subsection \<open>Switches\<close>

lemma eval_length: "length (sw_states (eval_switch b e now i w)) = length (sw_states w)"
  unfolding eval_switch_def Let_def case_prod_beta by (simp split: option.split)

lemma set_length: "length (sw_states (switch_set b idx v w)) = length (sw_states w)"
  unfolding switch_set_def Let_def by (simp split: option.split)

lemma fold_length:
  "(\<And>i w. length (sw_states (f i w)) = length (sw_states w)) \<Longrightarrow> length (sw_states (fold f js w)) = length (sw_states w)"
  by (induction js arbitrary: w) auto

lemma evaluate_length: "length (sw_states (evaluate_switches b e now w)) = length (sw_states w)"
proof -
  have "length (sw_states (pulse_tick_one b now i w)) = length (sw_states w)" for i w
    by (simp add: pulse_tick_one_def set_length)
  then have "length (sw_states (switch_pulse_tick b now w)) = length (sw_states w)"
    unfolding switch_pulse_tick_def by (rule fold_length)
  then show ?thesis
    by (simp add: evaluate_switches_def Let_def fold_length [of "eval_switch b e now", OF eval_length])
qed

lemma init_length: "length (sw_states (init_switches b w)) = length (sw_states w)"
proof -
  have "length (sw_states (init_default b i w)) = length (sw_states w)" for i w by (simp add: init_default_def Let_def)
  moreover have "length (sw_states (init_stored b i w)) = length (sw_states w)" for i w
    by (simp add: init_stored_def Let_def split: option.split)
  moreover have "length (sw_states (publish_switch_state (of_nat i) (ss_energized (sw_states w ! i)) w)) = length (sw_states w)"
    for i w by simp
  ultimately show ?thesis
    unfolding init_switches_def Let_def
    by (subst fold_length [of "\<lambda>i v. publish_switch_state (of_nat i) (ss_energized (sw_states v ! i)) v"])
      (simp_all add: fold_length [of "init_default b"] fold_length [of "init_stored b"])
qed

lemma pins_off_kept: "\<lbrakk> pins_off b w; pins_kept b w w' \<rbrakk> \<Longrightarrow> pins_off b w'"
  by (simp add: pins_off_def pins_kept_def)

lemma switches_wf:
  assumes "wf_sw w" "pins_off b w"
  shows "wf_sw (evaluate_switches b e now w) \<and> pins_off b (evaluate_switches b e now w)"
    "wf_sw (switch_set b idx v w) \<and> pins_off b (switch_set b idx v w)"
    "wf_sw (init_switches b w) \<and> pins_off b (init_switches b w)"
    "wf_sw (publish_switch_state idx v w) \<and> pins_off b (publish_switch_state idx v w)"
  using assms pins_off_kept [OF assms(2)] pins_kept_evaluate pins_kept_switch_set pins_kept_init
  by (simp_all add: wf_sw_def evaluate_length set_length init_length pins_off_def)

section \<open>Components on the device\<close>

lemma inv_sens_ops:
  assumes "device_inv b sha256 docs d"
  shows "device_inv b sha256 docs (on_sens (discover_sensors probe) d)"
    "device_inv b sha256 docs (on_sens (sensor_set_calibration ch ty x) d)"
    "device_inv b sha256 docs (on_sens (sensor_reset_calibration ch) d)"
    "device_inv b sha256 docs (on_sens (sensor_set_invert_curr ch flag) d)"
    "device_inv b sha256 docs (on_sens (sensor_reset_invert_curr ch) d)"
    "device_inv b sha256 docs (d\<lparr> dv_sens := reinit_sensors m (dv_sens d) \<rparr>)"
  using inv_parts(1) [OF assms] assms
  by (auto intro!: inv_lifts discover_sensors_wf calibration_ops_wf)
    (simp_all add: device_inv_def reinit_sensors_wf sensor_reset_invert_curr_def calibration_ops_wf)

lemma inv_sw_ops:
  assumes "device_inv b sha256 docs d"
  shows "device_inv b sha256 docs (on_sw (publish_switch_state idx v) d)"
    "device_inv b sha256 docs (on_sw (switch_set b idx v) d)"
    "device_inv b sha256 docs (on_sw (evaluate_switches b e now) d)"
    "device_inv b sha256 docs (on_sw (init_switches b) d)"
proof -
  have w: "wf_sw (sw_of d)" "pins_off b (sw_of d)" using inv_parts(3,4) [OF assms] by (simp_all add: sw_of_def)
  have lift: "wf_sw (f (sw_of d)) \<and> pins_off b (f (sw_of d)) \<Longrightarrow> device_inv b sha256 docs (on_sw f d)" for f
    using inv_lifts(8) [OF assms] by blast
  show "device_inv b sha256 docs (on_sw (publish_switch_state idx v) d)"
    "device_inv b sha256 docs (on_sw (switch_set b idx v) d)"
    "device_inv b sha256 docs (on_sw (evaluate_switches b e now) d)"
    "device_inv b sha256 docs (on_sw (init_switches b) d)"
    by (rule lift, rule switches_wf [OF w])+
qed

lemma inv_coul_ops:
  assumes "device_inv b sha256 docs d" shows "device_inv b sha256 docs (on_coul (reset_coulomb_counter ch) d)"
  by (rule inv_lifts(7) [OF assms]) (use inv_parts(2) [OF assms] in \<open>simp add: reset_coulomb_counter_def wf_counter_def\<close>)

lemma inv_bat_ops:
  assumes "device_inv b sha256 docs d"
  shows "device_inv b sha256 docs (on_bat (battery_channel_clear env ch) d)"
    "device_inv b sha256 docs (on_bat (battery_state_reset env ch) d)"
    "device_inv b sha256 docs (put_bat (snd (battery_channel_set_profile env ch pid (bat_of d))) d)"
    "device_inv b sha256 docs (put_bat (snd (battery_profile_delete env i (bat_of d))) d)"
    "\<not> f_isnan (or_float (jget doc ''rated_capacity_Ah'') 0) \<Longrightarrow>
      device_inv b sha256 docs (put_bat (snd (battery_profile_set env (merge_profile i doc (battery_profile_get (bat_of d) i)) (bat_of d))) d)"
    "device_inv b sha256 docs (on_cyc (cycle_counter_reset env ch) d)"
    "device_inv b sha256 docs (snd (get_cycle cenv ch d))"
proof -
  have w: "wf_battery (bat_of d)" "wf_cycle (dv_cyc d)" using inv_parts(5,6) [OF assms] by simp_all
  show "device_inv b sha256 docs (on_bat (battery_channel_clear env ch) d)"
    "device_inv b sha256 docs (on_bat (battery_state_reset env ch) d)"
    "device_inv b sha256 docs (put_bat (snd (battery_channel_set_profile env ch pid (bat_of d))) d)"
    "device_inv b sha256 docs (put_bat (snd (battery_profile_delete env i (bat_of d))) d)"
    "device_inv b sha256 docs (on_cyc (cycle_counter_reset env ch) d)"
    using w cycle_wf(2) [OF w] by (auto intro!: inv_lifts [OF assms] bindings_wf profiles_wf)
  show "\<not> f_isnan (or_float (jget doc ''rated_capacity_Ah'') 0) \<Longrightarrow>
      device_inv b sha256 docs (put_bat (snd (battery_profile_set env (merge_profile i doc (battery_profile_get (bat_of d) i)) (bat_of d))) d)"
    using w merge_wf [OF w(1)] by (intro inv_lifts [OF assms] profiles_wf) simp_all
  have "wf_battery (fst (snd (cycle_counter_get (ce_prefs cenv) ch (bat_of d, dv_cyc d)))) \<and>
      wf_cycle (snd (snd (cycle_counter_get (ce_prefs cenv) ch (bat_of d, dv_cyc d))))"
    by (rule cycle_get_wf [OF w])
  then show "device_inv b sha256 docs (snd (get_cycle cenv ch d))"
    using assms by (simp add: get_cycle_def case_prod_beta device_inv_def put_bat_def)
qed

lemma inv_ota_ops:
  assumes "device_inv b sha256 docs d"
  shows "device_inv b sha256 docs (on_ota ota_trigger_check d)" "device_inv b sha256 docs (on_ota (ota_set_poll_interval v) d)"
proof -
  have "ota_inv sha256 docs (ota_of d)" using inv_parts(7) [OF assms] by (simp add: ota_of_def)
  then have "ota_inv sha256 docs (ota_trigger_check (ota_of d))" "ota_inv sha256 docs (ota_set_poll_interval v (ota_of d))"
    by (auto simp: ota_trigger_check_def ota_set_poll_interval_def ota_inv_def set_ota_state_def released_def dl_held_def
      split: OtaState.splits)
  then show "device_inv b sha256 docs (on_ota ota_trigger_check d)" "device_inv b sha256 docs (on_ota (ota_set_poll_interval v) d)"
    using inv_lifts(12) [OF assms] by blast+
qed

lemma inv_link:
  assumes "device_inv b sha256 docs d"
  shows "device_inv b sha256 docs (send_response j d)" "device_inv b sha256 docs (send_error c e d)"
    "device_inv b sha256 docs (send_ok c m d)" "device_inv b sha256 docs (snd (check_pin now doc d))"
    "device_inv b sha256 docs (snd (check_rate_limit now d))" "device_inv b sha256 docs (device_wipe env d)"
    "device_inv b sha256 docs (apply_settings_posthook env n d)" "device_inv b sha256 docs (save_if_given sv v d)"
proof -
  have link: "device_inv b sha256 docs d'" if "same_but_link d d'" "wf_queue (dv_ble d')" for d'
    using that assms unfolding same_but_link_def device_inv_def by (elim exE conjE) simp
  have q: "wf_queue (dv_ble d)" using inv_parts(8) [OF assms] .
  show "device_inv b sha256 docs (send_response j d)" "device_inv b sha256 docs (send_error c e d)"
    "device_inv b sha256 docs (send_ok c m d)"
    using assms by (auto simp: send_error_def send_ok_def send_response_def intro!: inv_lifts)
  show "device_inv b sha256 docs (snd (check_pin now doc d))" "device_inv b sha256 docs (snd (check_rate_limit now d))"
    by (rule link, simp add: check_pin_link check_rate_limit_link,
      use q in \<open>simp add: check_pin_def check_rate_limit_def wf_queue_def Let_def split: option.splits\<close>)+
  show "device_inv b sha256 docs (device_wipe env d)" using assms by (auto simp: device_wipe_def intro!: inv_lifts)
  show "device_inv b sha256 docs (apply_settings_posthook env n d)"
    using assms by (auto simp: apply_settings_posthook_def intro!: inv_lifts inv_sens_ops split: option.split)
  show "device_inv b sha256 docs (save_if_given sv v d)" using assms by (auto simp: save_if_given_def intro!: inv_lifts)
qed

section \<open>Commands\<close>

text \<open>The rules a handler is taken apart with: the lifts that need no side condition and the operations above.\<close>

lemmas inv_rules = inv_lifts(1-4) inv_sens_ops inv_sw_ops inv_coul_ops inv_bat_ops inv_ota_ops inv_link

definition fine_doc :: "json \<Rightarrow> bool" where
  "fine_doc doc = (\<forall>k. \<not> f_isnan (or_float (jget doc k) 0))"

lemma inv_with_pin:
  "\<lbrakk> \<And>d. device_inv b sha256 docs d \<Longrightarrow> device_inv b sha256 docs (body d); device_inv b sha256 docs d \<rbrakk> \<Longrightarrow>
    device_inv b sha256 docs (with_pin body env doc d)"
  by (simp add: with_pin_def case_prod_beta Let_def inv_link)

lemma inv_get_cycle:
  "\<lbrakk> device_inv b sha256 docs d; get_cycle env ch d = (st, d') \<rbrakk> \<Longrightarrow> device_inv b sha256 docs d'"
  using inv_bat_ops(7) [of b sha256 docs d env ch] by simp

definition keeps_inv :: "board \<Rightarrow> (bytes \<Rightarrow> bytes) \<Rightarrow> ota_doc set \<Rightarrow> handler \<Rightarrow> bool" where
  "keeps_inv b sha256 docs h = (\<forall>env cmd doc d. fine_doc doc \<longrightarrow> device_inv b sha256 docs d \<longrightarrow>
     device_inv b sha256 docs (h env cmd doc d))"

lemma keep_settings:
  "keeps_inv b sha256 docs cmd_set_wifi" "keeps_inv b sha256 docs cmd_set_mqtt" "keeps_inv b sha256 docs cmd_set_http"
  "keeps_inv b sha256 docs cmd_set_shunt" "keeps_inv b sha256 docs cmd_set_volt_ratio"
  "keeps_inv b sha256 docs cmd_set_resistors" "keeps_inv b sha256 docs cmd_set_supabase"
  "keeps_inv b sha256 docs cmd_set_channel_group" "keeps_inv b sha256 docs cmd_set_channel_name"
  "keeps_inv b sha256 docs cmd_set_pin" "keeps_inv b sha256 docs cmd_calibrate_baseline"
  "keeps_inv b sha256 docs cmd_factory_reset" "keeps_inv b sha256 docs cmd_reboot"
  unfolding keeps_inv_def cmd_set_wifi_def cmd_set_mqtt_def cmd_set_http_def cmd_set_shunt_def cmd_set_volt_ratio_def
    cmd_set_resistors_def cmd_set_supabase_def cmd_set_channel_group_def cmd_set_channel_name_def cmd_set_pin_def
    cmd_calibrate_baseline_def cmd_factory_reset_def cmd_reboot_def Let_def
  by (auto intro!: inv_with_pin inv_rules)

lemma keep_switch: "keeps_inv b sha256 docs cmd_set_switch" "keeps_inv b sha256 docs cmd_get_switch"
  unfolding keeps_inv_def cmd_set_switch_def cmd_get_switch_def Let_def
  by (auto intro!: inv_with_pin inv_rules split: option.split)

lemma keep_battery:
  "keeps_inv b sha256 docs cmd_set_battery" "keeps_inv b sha256 docs cmd_set_battery_profile"
  "keeps_inv b sha256 docs cmd_delete_battery_profile" "keeps_inv b sha256 docs cmd_reset_battery"
  "keeps_inv b sha256 docs cmd_get_binding" "keeps_inv b sha256 docs cmd_get_cycle_state"
  unfolding keeps_inv_def cmd_set_battery_def cmd_set_battery_profile_def cmd_delete_battery_profile_def
    cmd_reset_battery_def cmd_get_binding_def cmd_get_cycle_state_def Let_def fine_doc_def
  by (auto intro!: inv_with_pin inv_rules dest: inv_get_cycle split: prod.split)

lemma keep_sensors:
  "keeps_inv b sha256 docs cmd_discover_sensors" "keeps_inv b sha256 docs cmd_reset_coulomb"
  "keeps_inv b sha256 docs cmd_set_calibration" "keeps_inv b sha256 docs cmd_get_calibration"
  "keeps_inv b sha256 docs cmd_reset_calibration" "keeps_inv b sha256 docs cmd_set_invert_curr"
  "keeps_inv b sha256 docs cmd_get_invert_curr" "keeps_inv b sha256 docs cmd_reset_invert_curr"
  "keeps_inv b sha256 docs cmd_set_virtual_channel"
  unfolding keeps_inv_def cmd_discover_sensors_def cmd_reset_coulomb_def cmd_set_calibration_def cmd_get_calibration_def
    cmd_reset_calibration_def cmd_set_invert_curr_def cmd_get_invert_curr_def cmd_reset_invert_curr_def
    cmd_set_virtual_channel_def with_channel3_def Let_def
  by (auto intro!: inv_with_pin inv_rules split: prod.split)

lemma keep_readers:
  "keeps_inv b sha256 docs cmd_get_status" "keeps_inv b sha256 docs cmd_get_battery" "keeps_inv b sha256 docs cmd_get_wifi"
  "keeps_inv b sha256 docs cmd_get_mqtt" "keeps_inv b sha256 docs cmd_get_http" "keeps_inv b sha256 docs cmd_get_supabase"
  "keeps_inv b sha256 docs cmd_get_channel_group" "keeps_inv b sha256 docs cmd_get_battery_profile"
  "keeps_inv b sha256 docs cmd_get_channel_name" "keeps_inv b sha256 docs cmd_get_virtual_channel"
  "keeps_inv b sha256 docs cmd_list_battery_profiles" "keeps_inv b sha256 docs cmd_get_profile_by_id"
  unfolding keeps_inv_def cmd_get_status_def cmd_get_battery_def cmd_get_wifi_def cmd_get_mqtt_def cmd_get_http_def
    cmd_get_supabase_def cmd_get_channel_group_def cmd_get_battery_profile_def cmd_get_channel_name_def
    cmd_get_virtual_channel_def cmd_list_battery_profiles_def cmd_get_profile_by_id_def Let_def case_prod_beta
  by (auto intro!: inv_with_pin inv_rules split: option.split)

lemma keep_ota:
  "keeps_inv b sha256 docs cmd_ota_check" "keeps_inv b sha256 docs cmd_ota_status" "keeps_inv b sha256 docs cmd_ota_set_interval"
  "keeps_inv b sha256 docs cmd_ota_start" "keeps_inv b sha256 docs cmd_ota_set_backend_url"
  unfolding keeps_inv_def cmd_ota_check_def cmd_ota_status_def cmd_ota_set_interval_def cmd_ota_start_def
    cmd_ota_set_backend_url_def Let_def
  by (auto intro!: inv_rules)

lemma handlers_keep: "map_of handlers n = Some h \<Longrightarrow> keeps_inv b sha256 docs h"
proof -
  have "list_all (\<lambda>(n, h). keeps_inv b sha256 docs h) handlers"
    unfolding handlers_def by (simp add: keep_settings keep_switch keep_battery keep_sensors keep_readers keep_ota)
  then show "map_of handlers n = Some h \<Longrightarrow> ?thesis" by (auto simp: list_all_iff dest: map_of_SomeD)
qed

lemma handle_command_inv:
  assumes "no_nan parse" "device_inv b sha256 docs d"
  shows "device_inv b sha256 docs (handle_command parse env txt0 d)"
proof -
  have r: "device_inv b sha256 docs (run_command env doc d1)" if "parse txt0 = Some doc" "device_inv b sha256 docs d1" for doc d1
  proof -
    have "fine_doc doc" using assms(1) that(1) by (auto simp: no_nan_def fine_doc_def)
    then show ?thesis
      using that(2) handlers_keep [of _ _ b sha256 docs] inv_link(2)
      by (auto simp: run_command_def Let_def keeps_inv_def split: option.split)
  qed
  show ?thesis
    using assms(2) by (auto simp: handle_command_def case_prod_beta Let_def intro!: r inv_rules split: option.split)
qed

lemma loop_ble_inv:
  assumes "no_nan parse" "device_inv b sha256 docs d"
  shows "device_inv b sha256 docs (loop_ble_provisioner parse env d)"
proof -
  have q: "wf_queue (f bl)" if "wf_queue bl" "bl_queue (f bl) = bl_queue bl" for f and bl :: ble
    using that by (simp add: wf_queue_def)
  have f: "device_inv b sha256 docs (fold (\<lambda>buf. handle_command parse env (c_str buf)) ms d1)"
    if "device_inv b sha256 docs d1" for ms d1
    using that handle_command_inv [OF assms(1)] by (induction ms arbitrary: d1) simp_all
  have e: "device_inv b sha256 docs (on_ble (\<lambda>x. x\<lparr> bl_queue := Some [] \<rparr>) d)"
    by (rule inv_lifts(5) [OF assms(2)]) (simp add: wf_queue_def)
  have s: "device_inv b sha256 docs (on_ble (\<lambda>x. x\<lparr> bl_last_status := t \<rparr>) d1)" if "device_inv b sha256 docs d1" for t d1
    by (rule inv_lifts(5) [OF that], rule q) (use inv_parts(8) [OF that] in simp_all)
  show ?thesis
    unfolding loop_ble_provisioner_def Let_def
    using assms(2) by (auto intro!: inv_lifts(4) s f e split: option.split)
qed

definition cloud_keeps :: "board \<Rightarrow> (bytes \<Rightarrow> bytes) \<Rightarrow> ota_doc set \<Rightarrow> cloud_handler \<Rightarrow> bool" where
  "cloud_keeps b sha256 docs h = (\<forall>env doc d. fine_doc doc \<longrightarrow> device_inv b sha256 docs d \<longrightarrow>
     device_inv b sha256 docs (snd (h env doc d)))"

lemma cloud_keep_settings:
  "cloud_keeps b sha256 docs cloud_set_wifi" "cloud_keeps b sha256 docs cloud_set_mqtt" "cloud_keeps b sha256 docs cloud_set_http"
  "cloud_keeps b sha256 docs cloud_set_supabase" "cloud_keeps b sha256 docs cloud_set_shunt"
  "cloud_keeps b sha256 docs cloud_set_volt_ratio" "cloud_keeps b sha256 docs cloud_set_resistors"
  "cloud_keeps b sha256 docs cloud_set_switch" "cloud_keeps b sha256 docs cloud_set_battery"
  "cloud_keeps b sha256 docs cloud_set_virtual_channel" "cloud_keeps b sha256 docs cloud_set_channel_group"
  "cloud_keeps b sha256 docs cloud_set_channel_name" "cloud_keeps b sha256 docs cloud_set_pin"
  "cloud_keeps b sha256 docs cloud_calibrate_baseline" "cloud_keeps b sha256 docs cloud_factory_reset"
  "cloud_keeps b sha256 docs cloud_reboot"
  unfolding cloud_keeps_def cloud_set_wifi_def cloud_set_mqtt_def cloud_set_http_def cloud_set_supabase_def cloud_set_shunt_def
    cloud_set_volt_ratio_def cloud_set_resistors_def cloud_set_switch_def cloud_set_battery_def cloud_set_virtual_channel_def
    cloud_set_channel_group_def cloud_set_channel_name_def cloud_set_pin_def cloud_calibrate_baseline_def
    cloud_factory_reset_def cloud_reboot_def cloud_channel_def Let_def
  by (auto intro!: inv_rules)

lemma cloud_keep_rest:
  "cloud_keeps b sha256 docs cloud_set_battery_profile" "cloud_keeps b sha256 docs cloud_delete_battery_profile"
  "cloud_keeps b sha256 docs cloud_reset_battery" "cloud_keeps b sha256 docs cloud_set_calibration"
  "cloud_keeps b sha256 docs cloud_reset_calibration" "cloud_keeps b sha256 docs cloud_set_invert_curr"
  "cloud_keeps b sha256 docs cloud_reset_invert_curr" "cloud_keeps b sha256 docs cloud_reset_coulomb"
  "cloud_keeps b sha256 docs cloud_discover_sensors" "cloud_keeps b sha256 docs cloud_ota_start"
  "cloud_keeps b sha256 docs cloud_ota_check" "cloud_keeps b sha256 docs cloud_ota_status"
  "cloud_keeps b sha256 docs cloud_ota_set_interval" "cloud_keeps b sha256 docs cloud_ota_set_backend_url"
  unfolding cloud_keeps_def cloud_set_battery_profile_def cloud_delete_battery_profile_def cloud_reset_battery_def
    cloud_set_calibration_def cloud_reset_calibration_def cloud_set_invert_curr_def cloud_reset_invert_curr_def
    cloud_reset_coulomb_def cloud_discover_sensors_def cloud_ota_start_def cloud_ota_check_def cloud_ota_status_def
    cloud_ota_set_interval_def cloud_ota_set_backend_url_def cloud_channel_def fine_doc_def Let_def
  by (auto intro!: inv_rules)

lemma cloud_handlers_keep: "map_of cloud_handlers n = Some h \<Longrightarrow> cloud_keeps b sha256 docs h"
proof -
  have "list_all (\<lambda>(n, h). cloud_keeps b sha256 docs h) cloud_handlers"
    unfolding cloud_handlers_def by (simp add: cloud_keep_settings cloud_keep_rest)
  then show "map_of cloud_handlers n = Some h \<Longrightarrow> ?thesis" by (auto simp: list_all_iff dest: map_of_SomeD)
qed

lemma apply_settings_inv:
  assumes "no_nan parse" "device_inv b sha256 docs d"
  shows "device_inv b sha256 docs (snd (apply_settings_command parse env c buf d))"
  using assms cloud_handlers_keep [of _ _ b sha256 docs]
  by (auto simp: apply_settings_command_def cloud_keeps_def fine_doc_def no_nan_def split: option.split)

lemma toggle_relay_inv:
  assumes "device_inv b sha256 docs d" "ce_board env = b"
  shows "device_inv b sha256 docs (toggle_relay env p d)"
  using assms by (auto simp: toggle_relay_def Let_def intro!: inv_rules split: json.split)

lemma run_cloud_inv:
  assumes "no_nan (jl_parse lib)" "device_inv b sha256 docs d" "ce_board env = b"
  shows "device_inv b sha256 docs (snd (run_cloud_command lib env cmd d))"
proof -
  have a: "device_inv b sha256 docs d1" if "apply_settings_command (jl_parse lib) env c buf d = (r, d1)" for c buf r d1
    using apply_settings_inv [OF assms(1,2), of env c buf] that by simp
  show ?thesis
    using assms(2,3) unfolding run_cloud_command_def Let_def
    by (auto intro!: inv_rules toggle_relay_inv dest!: a split: prod.splits option.splits bool.splits)
qed

lemma run_clouds_inv:
  assumes "no_nan (jl_parse lib)" "ce_board env = b"
  shows "device_inv b sha256 docs d \<Longrightarrow> device_inv b sha256 docs (snd (run_cloud_commands lib env cs d))"
proof (induction cs arbitrary: d)
  case (Cons c cs)
  obtain alive d1 where r: "run_cloud_command lib env c d = (alive, d1)" by force
  then have "device_inv b sha256 docs d1" using run_cloud_inv [OF assms(1) Cons.prems assms(2), of c] by simp
  then show ?case using Cons.IH by (cases alive) (simp_all add: r)
qed simp

lemma check_settings_inv:
  assumes "no_nan (jl_parse lib)" "ce_board env = b" "device_inv b sha256 docs d"
  shows "device_inv b sha256 docs (snd (check_settings_commands lib heap_ok env reply d))"
proof -
  have "device_inv b sha256 docs (d\<lparr> dv_last_poll := t \<rparr>)" for t using assms(3) by (simp add: device_inv_def)
  then show ?thesis
    using assms run_clouds_inv [OF assms(1,2)]
    by (auto simp: check_settings_commands_def Let_def split: option.split json.split)
qed

end
