(* ===== verification/System_Invariant.thy ===== *)
theory System_Invariant
  imports Device_Invariant System
begin

text \<open>
  The invariant of \<open>Device_Invariant\<close> along the runs of the firmware: kept by every round of every task, every console
  line and every BLE event, established by \<open>setup()\<close>, so it holds in every state the firmware reaches.
\<close>

section \<open>Rounds, events and boot\<close>

lemma ota_frames [simp]:
  "ota_inv sha256 docs (u\<lparr> ot_rollback_confirmed := c \<rparr>) = ota_inv sha256 docs u"
  "ota_inv sha256 docs (emit (Log_ev k m) u) = ota_inv sha256 docs u"
  by (cases "ot_state u"; simp add: ota_inv_def released_def dl_held_def)+

lemma confirm_inv: "ota_inv sha256 docs u \<Longrightarrow> ota_inv sha256 docs (snd (ota_confirm_valid now part mk u))"
  by (simp add: ota_confirm_valid_def split: option.split bool.split)

lemma sensor_round_inv:
  assumes "device_inv (pl_board p) sha256 docs (sy_dev s)" "driver_ok (pl_bl p)"
  shows "device_inv (pl_board p) sha256 docs (sy_dev (sensor_round p i s))"
proof -
  define d where "d = sy_dev s"
  define dt where "dt = sample_dt (si_ticks i) (sy_last_tick s)"
  define rs where "rs = read_sensors (si_ina i) (pl_ical p) (pl_bl p) (si_now i) (dv_sens d)"
  define d1 where "d1 = on_coul (update_coulomb_counter (snd rs) dt (si_now i) (si_now i)) (d\<lparr> dv_sens := snd rs \<rparr>)"
  define en where "en = update_energy_counter (snd rs) dt (si_now i) (si_now i) (kv_of d1, sy_energy s)"
  define d2 where "d2 = on_cyc (update_cycle_counter (pl_prefs p) (fst en) (dv_coul d1) (fst rs) dt (si_now i)) (on_kv (\<lambda>_. fst en) d1)"
  define d3 where "d3 = on_sw (evaluate_switches (pl_board p)
     \<lparr> en_coul = get_coulomb_mAh (dv_coul d2), en_lt = local_time p (fst (log_sample (pl_sd p) (pl_ring p) (\<not> si_link i) (pl_row p) (pl_path p) (pl_header p) (si_now i) (fst rs)
       (si_now i) (sy_log s, sy_fs s))) (dv_net d2), en_snap = fst rs \<rparr> (si_now i)) d2"
  have d: "device_inv (pl_board p) sha256 docs d" using assms(1) by (simp add: d_def)
  have "device_inv (pl_board p) sha256 docs (d\<lparr> dv_sens := snd rs \<rparr>)"
    using d read_sensors_wf [OF _ assms(2)] by (simp add: device_inv_def rs_def)
  moreover have "wf_counter (snd (update_coulomb_counter (snd rs) dt (si_now i) (si_now i) (kv_of (d\<lparr> dv_sens := snd rs \<rparr>), dv_coul d)))"
    using inv_parts(2) [OF d] by (simp add: update_coulomb_counter_def wf_counter_def Let_def)
  ultimately have d1: "device_inv (pl_board p) sha256 docs d1" unfolding d1_def by (intro inv_lifts(7)) simp_all
  then have k: "device_inv (pl_board p) sha256 docs (on_kv (\<lambda>_. fst en) d1)" by (rule inv_lifts)
  have "wf_battery (bat_of (on_kv (\<lambda>_. fst en) d1))" "wf_cycle (dv_cyc (on_kv (\<lambda>_. fst en) d1))"
    using inv_parts(5,6) [OF k] by simp_all
  then have d2: "device_inv (pl_board p) sha256 docs d2"
    unfolding d2_def using inv_lifts(11) [OF k] update_cycle_wf by blast
  have d3: "device_inv (pl_board p) sha256 docs d3" unfolding d3_def by (rule inv_sw_ops [OF d2])
  have "ota_inv sha256 docs (ota_of d3)" using inv_parts(7) [OF d3] by (simp add: ota_of_def)
  then have d4: "device_inv (pl_board p) sha256 docs (on_ota (\<lambda>u. snd (ota_confirm_valid (si_now i) (si_part i) (si_mark i) u)) d3)"
    by (intro inv_lifts(12) [OF d3] confirm_inv)
  have "sy_dev (sensor_round p i s) = (if \<not> sy_confirmed s
      then on_ota (\<lambda>u. snd (ota_confirm_valid (si_now i) (si_part i) (si_mark i) u)) d3 else d3)"
    by (simp add: sensor_round_def Let_def case_prod_beta d3_def d2_def en_def d1_def rs_def dt_def d_def)
  then show ?thesis using d3 d4 by simp
qed

lemma connectivity_inv:
  assumes "device_inv b sha256 docs d"
  shows "device_inv b sha256 docs (on_connectivity ids started i d)"
proof -
  have "wf_queue (init_ble_provisioner started x) \<and> wf_queue (deinit_ble_provisioner x)" if "wf_queue x" for x
    using that by (auto simp: wf_queue_def init_ble_provisioner_def deinit_ble_provisioner_def start_ble_advertising_def
      stop_ble_advertising_def Let_def split: option.split)
  then show ?thesis using assms by (simp add: on_connectivity_def Let_def device_inv_def)
qed

lemma ble_event_inv:
  assumes "device_inv b sha256 docs d"
  shows "device_inv b sha256 docs (on_ble_event e d)"
proof (cases e)
  case (Write v)
  show ?thesis
    unfolding Write on_ble_event.simps on_write_def
    using assms inv_parts(8) [OF assms]
    by (auto intro!: inv_link inv_lifts(5) simp: wf_queue_def split: option.split)
qed (use assms in \<open>auto simp: on_connect_def on_disconnect_def wf_queue_def device_inv_def on_ble_def\<close>)

lemma tele_batteries_wf:
  "wf_battery (fst w) \<and> wf_cycle (snd w) \<Longrightarrow>
    wf_battery (fst (snd (tele_batteries env chs n w))) \<and> wf_cycle (snd (snd (tele_batteries env chs n w)))"
proof (induction env chs n w rule: tele_batteries.induct)
  case (2 env ch chs n w)
  have g: "wf_battery (fst (snd (cycle_counter_get env ch w))) \<and> wf_cycle (snd (snd (cycle_counter_get env ch w)))"
    using cycle_get_wf [of "fst w" "snd w" env ch] 2(3) by simp
  show ?case
  proof (cases "8 \<le> n \<or> battery_channel_profile (fst w) ch = NO_BINDING \<or> \<not> cycle_counter_is_active ch (fst w)")
    case True
    then show ?thesis using 2 by auto
  next
    case False
    have "wf_battery (fst (snd (tele_batteries env chs (Suc n) (snd (cycle_counter_get env ch w))))) \<and>
        wf_cycle (snd (snd (tele_batteries env chs (Suc n) (snd (cycle_counter_get env ch w)))))"
      using 2(2) [OF _ _ refl refl refl prod.collapse refl] False g by simp
    then show ?thesis using False by (simp add: Let_def case_prod_beta)
  qed
qed simp

lemma telemetry_inv:
  assumes "device_inv b sha256 docs d"
  shows "device_inv b sha256 docs (snd (snd (telemetry_build ti sd en lf d)))"
proof -
  define d1 where "d1 = tele_device ti d"
  have d1: "device_inv b sha256 docs d1"
    using assms by (simp add: d1_def tele_device_def case_prod_beta on_kv_def device_inv_def)
  define w where "w = snd (tele_batteries (ti_prefs ti) (map of_nat [0..<tele_count d1]) 0 (bat_of d1, dv_cyc d1))"
  have "wf_battery (fst w) \<and> wf_cycle (snd w)"
    unfolding w_def by (rule tele_batteries_wf) (use inv_parts(5,6) [OF d1] in simp)
  then have "device_inv b sha256 docs ((put_bat (fst w) d1)\<lparr> dv_cyc := snd w \<rparr>)"
    using d1 by (simp add: device_inv_def put_bat_def)
  moreover have "snd (snd (telemetry_build ti sd en lf d)) = (put_bat (fst w) d1)\<lparr> dv_cyc := snd w \<rparr>"
    unfolding telemetry_build_def Let_def case_prod_beta tele_device_eq tele_count_def [symmetric] w_def d1_def by simp
  ultimately show ?thesis by simp
qed

lemma network_round_inv:
  assumes "device_inv (pl_board p) sha256 UNIV (sy_dev s)" "no_nan (jl_parse (pl_json p))" "ce_board (nr_env i) = pl_board p"
    "sha256 = pl_sha256 p"
  shows "device_inv (pl_board p) sha256 UNIV (sy_dev (network_round p i s))"
proof -
  define dl where "dl = on_connectivity (pl_ids p) (pl_adv p) (nr_net i) (sy_dev s)"
  define m where "m = fst (link_effects (pl_json p) (nr_pub i) (dv_net (sy_dev s)) (dv_net dl) (kv_of dl, sy_pub s))"
  define d2 where "d2 = loop_ble_provisioner (jl_parse (pl_json p)) (nr_env i) (on_kv (\<lambda>_. m) dl)"
  define d3 where "d3 = on_ota (loop_ota_client (pl_sha256 p) (nr_ota i)) d2"
  define d4 where "d4 = (if sy_queue s = [] then d3
    else snd (snd (telemetry_build (nr_tele i) (pl_sd p) (sy_energy s) (sy_log s, sy_fs s) d3)))"
  have d2: "device_inv (pl_board p) sha256 UNIV d2"
    unfolding d2_def dl_def by (intro loop_ble_inv inv_lifts(2) connectivity_inv assms)
  have "ota_inv sha256 UNIV (loop_ota_client sha256 (nr_ota i) (ota_of d2))"
    using inv_parts(7) [OF d2] by (intro loop_inv) (simp_all add: ota_of_def)
  then have d3: "device_inv (pl_board p) sha256 UNIV d3"
    unfolding d3_def assms(4) by (intro inv_lifts(12)) (use d2 assms(4) in simp_all)
  then have "device_inv (pl_board p) sha256 UNIV d4" by (simp add: d4_def telemetry_inv)
  then have "device_inv (pl_board p) sha256 UNIV (snd (check_settings_commands (pl_json p) (nr_heap i) (nr_env i) (nr_reply i) d4))"
    by (rule check_settings_inv [OF assms(2,3)])
  moreover have "sy_dev (network_round p i s) =
      (let d5 = snd (check_settings_commands (pl_json p) (nr_heap i) (nr_env i) (nr_reply i) d4)
       in if 60000 \<le> ce_now (nr_env i) - sy_ntp_retry s then on_net (\<lambda>n. snd (try_sync_epoch_time (nr_net i) n)) d5 else d5)"
    unfolding network_round_def Let_def case_prod_beta d4_def d3_def d2_def m_def dl_def by (simp add: process_reading_dev)
  ultimately show ?thesis by (simp add: Let_def inv_lifts(3))
qed

lemma init_confirm_blank: "ota_inv sha256 docs (init_ota_client now (ota0 n))" "ota_inv sha256 docs (ota0 n)"
  by (simp_all add: init_ota_client_def ota0_def ota_inv_def set_ota_state_def released_def)

lemma blank_inv:
  "wf_sensors (dv_sens (blank_device n))" "wf_counter (dv_coul (blank_device n))" "wf_sw (dv_sw (blank_device n))"
  "pins_off b (dv_sw (blank_device n))" "wf_cycle (dv_cyc (blank_device n))" "ota_inv sha256 docs (dv_ota (blank_device n))"
  "wf_queue (dv_ble (blank_device n))"
  by (simp_all add: blank_device_def sensors0_wf wf_counter_def counter0_def wf_sw_def sw0_def pins_off_def wf_cycle_def
    cycle0_def init_confirm_blank wf_queue_def ble0_def)

lemma setup_network: "sy_network_task (setup_firmware p now ticks level (blank_system n fs)) =
    (\<not> safe_mode (snd (init_device_identity (pl_mac p) (n ''pm-settings'', identity0))))"
  by (simp add: setup_firmware_def blank_system_def blank_device_def Let_def case_prod_beta)

lemma setup_inv:
  assumes "sy_network_task (setup_firmware p now ticks level (blank_system n fs))"
  shows "device_inv (pl_board p) sha256 docs (sy_dev (setup_firmware p now ticks level (blank_system n fs)))"
proof -
  define d0 where "d0 = blank_device n"
  define mi where "mi = init_device_identity (pl_mac p) (kv_of d0, dv_id d0)"
  define d1 where "d1 = on_sens (init_sensors (pl_probe p) (pl_begins p)) ((on_kv (\<lambda>_. fst mi) d0)\<lparr> dv_id := snd mi \<rparr>)"
  define d2 where "d2 = d1\<lparr> dv_coul := init_coulomb_counter (kv_of d1) (dv_sens d1) now (dv_coul d1) \<rparr>"
  define d3 where "d3 = on_bat (\<lambda>b. init_battery_bindings (pl_prefs p) (init_battery_profiles (pl_prefs p) b)) d2"
  define d4 where "d4 = d3\<lparr> dv_cyc := init_cycle_counter now (dv_cyc d3) \<rparr>"
  define d5 where "d5 = on_sw (init_switches (pl_board p)) d4"
  define d6 where "d6 = on_ota (init_ota_client now) d5"
  define d7 where "d7 = on_ble (init_ble_provisioner (pl_adv p)) d6"
  define d8 where "d8 = on_ble (start_ble_advertising (pl_adv p)) d7"
  have dev: "sy_dev (setup_firmware p now ticks level (blank_system n fs)) = on_net (init_connectivity now) d8"
    using assms by (simp add: setup_firmware_def blank_system_def Let_def case_prod_beta d8_def d7_def d6_def d5_def d4_def
      d3_def d2_def d1_def mi_def d0_def setup_network split: if_splits)
  have s1: "wf_sensors (dv_sens d1)"
    unfolding d1_def on_sens_def Let_def using init_sensors_wf blank_inv(1) [of n] by (simp add: d0_def on_kv_def)
  have c1: "dv_coul d1 = dv_coul d0" "dv_sw d1 = dv_sw d0" "dv_ota d1 = dv_ota d0" "dv_ble d1 = dv_ble d0"
    by (simp_all add: d1_def on_sens_def on_kv_def Let_def)
  have "length (load_acc f m k a) = length a" for f m k a by (simp add: load_acc_def)
  then have c2: "wf_counter (dv_coul d2)"
    using blank_inv(2) [of n] by (simp add: d2_def c1 d0_def wf_counter_def init_coulomb_counter_def)
  have "wf_battery (dv_bat d3)" by (simp add: d3_def on_bat_def put_bat_def init_battery_wf)
  moreover have "wf_cycle (init_cycle_counter now c)" for c by (simp add: wf_cycle_def init_cycle_counter_def)
  ultimately have d4: "device_inv (pl_board p) sha256 docs d4"
    using s1 c2 by (simp add: device_inv_def d4_def d3_def d2_def on_bat_def put_bat_def c1 d0_def blank_inv)
  then have d5: "device_inv (pl_board p) sha256 docs d5" unfolding d5_def by (rule inv_sw_ops)
  have "ota_inv sha256 docs (init_ota_client now (ota_of d5))"
  proof -
    have o: "dv_ota d5 = ota0 n" by (simp add: d5_def on_sw_def Let_def d4_def d3_def on_bat_def put_bat_def d2_def c1 d0_def blank_device_def)
    show ?thesis by (simp add: ota_of_def o init_ota_client_def ota0_def ota_inv_def set_ota_state_def released_def)
  qed
  then have d6: "device_inv (pl_board p) sha256 docs d6" unfolding d6_def by (intro inv_lifts(12) [OF d5])
  have q: "wf_queue (init_ble_provisioner a x) \<and> wf_queue (start_ble_advertising a x)" if "wf_queue x" for a x
    using that by (auto simp: wf_queue_def init_ble_provisioner_def start_ble_advertising_def Let_def split: option.split)
  have d7: "device_inv (pl_board p) sha256 docs d7"
    unfolding d7_def using q inv_parts(8) [OF d6] by (intro inv_lifts(5) [OF d6]) blast
  have "device_inv (pl_board p) sha256 docs d8"
    unfolding d8_def using q inv_parts(8) [OF d7] by (intro inv_lifts(5) [OF d7]) blast
  then show ?thesis unfolding dev by (rule inv_lifts(3))
qed

subsection \<open>The UI task\<close>

lemma more_switch_ops:
  assumes "device_inv b sha256 docs d"
  shows "device_inv b sha256 docs (on_sw (switch_pulse b idx dur now) d)"
    "device_inv b sha256 docs (on_sw (switch_set_auto b v) d)"
proof -
  have w: "wf_sw (sw_of d)" "pins_off b (sw_of d)" using inv_parts(3,4) [OF assms] by (simp_all add: sw_of_def)
  have len: "length (sw_states (switch_pulse b idx dur now w')) = length (sw_states w')"
    "length (sw_states (force_reset b i w')) = length (sw_states w')" for w' i
    by (simp_all add: switch_pulse_def force_reset_def set_length split: option.split)
  have auto: "length (sw_states (switch_set_auto b v w')) = length (sw_states w')" for w'
    by (simp add: switch_set_auto_def Let_def fold_length [of "force_reset b", OF len(2)])
  show "device_inv b sha256 docs (on_sw (switch_pulse b idx dur now) d)"
    "device_inv b sha256 docs (on_sw (switch_set_auto b v) d)"
    using w pins_off_kept [OF w(2) pins_kept_switch_pulse] pins_off_kept [OF w(2) pins_kept_set_auto]
    by (auto intro!: inv_lifts(8) [OF assms] simp: wf_sw_def len auto)
qed

lemma handle_button_event_inv:
  assumes "device_inv (ce_board env) sha256 docs (snd s)"
  shows "device_inv (ce_board env) sha256 docs (snd (handle_button_event env i sh lo db s))"
  using assms by (auto simp: handle_button_event_def Let_def case_prod_beta intro!: inv_rules)

lemma button_event_inv:
  assumes "device_inv (ce_board env) sha256 docs (snd s)"
  shows "device_inv (ce_board env) sha256 docs (snd (button_event env i s))"
  unfolding button_event_def Let_def
  by (rule if_split [THEN iffD2], intro conjI impI handle_button_event_inv) (use assms in simp_all)

lemma ui_round_inv:
  assumes "device_inv (ce_board env) sha256 docs (sy_dev s)"
  shows "device_inv (ce_board env) sha256 docs (sy_dev (ui_round env level s))"
proof -
  have "device_inv (ce_board env) sha256 docs (snd (fold (button_event env) ks t))"
    if "device_inv (ce_board env) sha256 docs (snd t)" for ks t
    using that by (induction ks arbitrary: t) (simp_all add: button_event_inv)
  then show ?thesis using assms by (simp add: ui_round_def loop_ui_def Let_def case_prod_beta)
qed

subsection \<open>The console\<close>

lemma say_dev [simp]: "sy_dev (say f xs s) = sy_dev s"
  by (simp add: say_def)

lemma on_dev_dev [simp]: "sy_dev (on_dev f s) = f (sy_dev s)"
  by (simp add: on_dev_def)

lemma rows_dev: "(\<And>x s. sy_dev (f x s) = sy_dev s) \<Longrightarrow> sy_dev (rows f xs s) = sy_dev s"
  unfolding rows_def by (induction xs arbitrary: s) simp_all

lemma prints_dev [simp]: "sy_dev (print_sensor_data s) = sy_dev s" "sy_dev (go_on_testing ks s) = sy_dev s"
  by (simp_all add: print_sensor_data_def go_on_testing_def Let_def rows_dev)

lemma say_opt_dev [simp]: "sy_dev (say_opt f v s) = sy_dev s"
  by (simp add: say_opt_def split: option.split)

definition keeps_line :: "(bytes \<Rightarrow> bytes) \<Rightarrow> ota_doc set \<Rightarrow> ('fs, 'h) cli \<Rightarrow> bool" where
  "keeps_line sha256 docs h = (\<forall>p i line s s'. device_inv (pl_board p) sha256 docs (sy_dev s) \<longrightarrow> driver_ok (pl_bl p) \<longrightarrow>
     same_hardware p (ci_env i) \<longrightarrow> calm line \<longrightarrow> h p i line s = Some s' \<longrightarrow> device_inv (pl_board p) sha256 docs (sy_dev s'))"

lemma read_inv:
  assumes "device_inv b sha256 docs (sy_dev s)" "driver_ok (pl_bl p)"
  shows "device_inv b sha256 docs (sy_dev (cli_read_sensors p i s))"
  using assms read_sensors_wf [OF _ assms(2)] by (simp add: cli_read_sensors_def device_inv_def)

lemma keeps_switches:
  "keeps_line sha256 docs cli_switch" "keeps_line sha256 docs cli_reset_coulomb" "keeps_line sha256 docs cli_reset_energy"
  "keeps_line sha256 docs cli_test_switch" "keeps_line sha256 docs (cli_auto v)" "keeps_line sha256 docs cli_test_all"
  unfolding keeps_line_def cli_switch_def cli_reset_coulomb_def cli_reset_energy_def cli_test_switch_def cli_auto_def
    cli_test_all_def same_hardware_def
  by (auto split: list.splits sval.splits if_splits prod.splits intro!: inv_rules more_switch_ops simp: Let_def)

lemma keeps_parameters:
  "keeps_line sha256 docs cli_shunt_show" "keeps_line sha256 docs cli_shunt" "keeps_line sha256 docs cli_vratio_show"
  "keeps_line sha256 docs cli_vratio" "keeps_line sha256 docs cli_resistor_show" "keeps_line sha256 docs cli_resistor"
  "keeps_line sha256 docs cli_cal_show" "keeps_line sha256 docs cli_cal"
  unfolding keeps_line_def cli_shunt_show_def cli_shunt_def cli_vratio_show_def cli_vratio_def cli_resistor_show_def
    cli_resistor_def cli_cal_show_def cli_cal_def
  by (auto split: list.splits sval.splits if_splits prod.splits option.splits intro!: inv_rules
    simp: Let_def rows_dev case_prod_beta)

lemma keeps_connections:
  "keeps_line sha256 docs cli_wifi_ssid" "keeps_line sha256 docs cli_wifi_pass" "keeps_line sha256 docs cli_set_wifi"
  "keeps_line sha256 docs cli_supabase" "keeps_line sha256 docs cli_wifi_show" "keeps_line sha256 docs cli_supabase_show"
  unfolding keeps_line_def cli_wifi_ssid_def cli_wifi_pass_def cli_set_wifi_def cli_supabase_def cli_wifi_show_def
    cli_supabase_show_def
  by (auto split: list.splits sval.splits if_splits prod.splits option.splits intro!: inv_rules simp: Let_def)

lemma print_page_dev [simp]: "sy_dev (print_page p i pn s) = sy_dev s"
  by (simp add: print_page_def Let_def case_prod_beta split: option.split)

lemma keeps_readings:
  "keeps_line sha256 docs cli_test_sensor" "keeps_line sha256 docs cli_virtual_channel" "keeps_line sha256 docs cli_display"
  "keeps_line sha256 docs cli_sensors" "keeps_line sha256 docs cli_test_all_sensors"
  "keeps_line sha256 docs cli_virtual_channel_show"
  unfolding keeps_line_def cli_test_sensor_def cli_virtual_channel_def cli_display_def cli_sensors_def
    cli_test_all_sensors_def cli_virtual_channel_show_def
  by (auto split: list.splits sval.splits if_splits prod.splits option.splits intro!: inv_rules read_inv
    simp: Let_def rows_dev)

lemma snapshot_inv:
  "device_inv b sha256 docs (sy_dev s) \<Longrightarrow> device_inv b sha256 docs (sy_dev (snd (cli_snapshot p i s)))"
  by (simp add: cli_snapshot_def case_prod_beta telemetry_inv)

lemma keeps_reports:
  "keeps_line sha256 docs cli_status" "keeps_line sha256 docs cli_test_display" "keeps_line sha256 docs cli_mem"
  "keeps_line sha256 docs cli_log" "keeps_line sha256 docs cli_switch_status" "keeps_line sha256 docs cli_switch_rules"
  "keeps_line sha256 docs cli_battery_list" "keeps_line sha256 docs cli_profile_show" "keeps_line sha256 docs cli_flush_log"
  "keeps_line sha256 docs cli_i2c_scan" "keeps_line sha256 docs cli_calibrate_baseline"
  "keeps_line sha256 docs cli_serial1peek" "keeps_line sha256 docs cli_help"
  unfolding keeps_line_def cli_status_def cli_test_display_def cli_mem_def cli_log_def cli_switch_status_def
    cli_switch_rules_def cli_battery_list_def cli_profile_show_def cli_flush_log_def cli_i2c_scan_def
    cli_calibrate_baseline_def cli_serial1peek_def cli_help_def
  by (auto split: list.splits sval.splits if_splits prod.splits option.splits
    intro!: snapshot_inv simp: Let_def case_prod_beta rows_dev)

lemma ble_start_inv:
  assumes "device_inv b sha256 docs d"
  shows "device_inv b sha256 docs (on_ble (start_ble_advertising a) (on_ble (init_ble_provisioner a) d))"
proof -
  have q: "wf_queue (init_ble_provisioner a x) \<and> wf_queue (start_ble_advertising a x)" if "wf_queue x" for x
    using that by (auto simp: wf_queue_def init_ble_provisioner_def start_ble_advertising_def Let_def split: option.split)
  have i: "device_inv b sha256 docs (on_ble (init_ble_provisioner a) d)"
    using q inv_parts(8) [OF assms] by (intro inv_lifts(5) [OF assms]) blast
  show ?thesis using q inv_parts(8) [OF i] by (intro inv_lifts(5) [OF i]) blast
qed

lemma keeps_maintenance:
  "keeps_line sha256 docs cli_discover_sensors" "keeps_line sha256 docs cli_factory_reset" "keeps_line sha256 docs cli_ble_on"
  "keeps_line sha256 docs cli_reboot"
  unfolding keeps_line_def cli_discover_sensors_def cli_factory_reset_def cli_ble_on_def cli_reboot_def
  by (auto intro!: inv_rules ble_start_inv)

lemma reset_builtin_wf: "wf_battery b \<Longrightarrow> wf_battery (battery_profile_reset_builtin env i b)"
  using prof_step_spec [of b "PReset i" env]
  by (simp add: wf_battery_def battery_profile_reset_builtin_def Let_def)

lemma set_field_wf:
  assumes "set_profile_field field val q = Some q'" "wf_bcp q" "\<not> f_isnan (bcp_rated_capacity_Ah q)"
    "field = str_bytes ''rated_capacity_Ah'' \<longrightarrow> \<not> f_isnan (atof val)"
  shows "wf_bcp q'" "\<not> f_isnan (bcp_rated_capacity_Ah q')"
  using assms by (auto simp: set_profile_field_def Let_def wf_bcp_def split: if_splits)

lemma keeps_batteries:
  "keeps_line sha256 docs cli_battery_bind" "keeps_line sha256 docs cli_battery_show"
  "keeps_line sha256 docs cli_profile_delete" "keeps_line sha256 docs cli_profile_reset"
  "keeps_line sha256 docs cli_battery_reset" "keeps_line sha256 docs cli_cycle_show"
  unfolding keeps_line_def cli_battery_bind_def cli_battery_show_def cli_profile_delete_def cli_profile_reset_def
    cli_battery_reset_def cli_cycle_show_def
  using reset_builtin_wf inv_parts(5)
  by (auto split: list.splits sval.splits if_splits prod.splits option.splits
    intro!: inv_rules inv_lifts(10) dest: inv_get_cycle simp: Let_def case_prod_beta)

lemma keeps_profile_set: "keeps_line sha256 docs cli_profile_set"
  unfolding keeps_line_def
proof (intro allI impI)
  fix p i line and s s' :: "('a, 'b) system"
  assume a: "device_inv (pl_board p) sha256 docs (sy_dev s)" "calm line" "cli_profile_set p i line s = Some s'"
  have w: "wf_battery (sy_bat s)" using inv_parts(5) [OF a(1)] by simp
  show "device_inv (pl_board p) sha256 docs (sy_dev s')"
  proof (cases "\<exists>pid field val q q'. sscanf line ''battery profile set %d %23s %31s'' = [V_int pid, V_str field, V_str val] \<and>
      battery_profile_get (sy_bat s) (word_of_int pid) = Some q \<and> set_profile_field field val q = Some q'")
    case True
    then obtain pid field val q q' where m:
      "sscanf line ''battery profile set %d %23s %31s'' = [V_int pid, V_str field, V_str val]"
      "battery_profile_get (sy_bat s) (word_of_int pid) = Some q" "set_profile_field field val q = Some q'" by blast
    have "wf_bcp q' \<and> \<not> f_isnan (bcp_rated_capacity_Ah q')"
      using set_field_wf [OF m(3)] profile_get_wf [OF w m(2)] a(2) by (simp add: calm_def m(1))
    then have "device_inv (pl_board p) sha256 docs (on_bat (\<lambda>b. snd (battery_profile_set (pl_prefs p) q' b)) (sy_dev s))"
      using profiles_wf(1) [OF w] by (intro inv_lifts(10) [OF a(1)]) blast
    then show ?thesis using a(1,3) m by (auto simp: cli_profile_set_def split: if_splits)
  next
    case False
    then show ?thesis using a(1,3)
      by (auto simp: cli_profile_set_def split: list.splits sval.splits if_splits option.splits)
  qed
qed

lemma commands_keep: "list_all (keeps_line sha256 docs) (map snd cli_table)"
  by (simp add: cli_table_def keeps_switches keeps_parameters keeps_connections keeps_readings keeps_reports
    keeps_maintenance keeps_batteries keeps_profile_set)

lemma run_line_inv:
  fixes s :: "('fs, 'h) system"
  assumes "device_inv (pl_board p) sha256 docs (sy_dev s)" "calm line" "run_line p i line s = Some s'"
    "driver_ok (pl_bl p)" "same_hardware p (ci_env i)"
  shows "device_inv (pl_board p) sha256 docs (sy_dev s')"
proof (cases "cli_find (cli_table :: (test list \<times> ('fs, 'h) cli) list) (c_str line)")
  case None
  then show ?thesis using assms by (auto simp: run_line_def split: if_splits)
next
  case (Some h)
  then have "keeps_line sha256 docs h"
    using cli_find_mem [OF Some] commands_keep unfolding list_all_iff by blast
  then show ?thesis using assms Some by (auto simp: run_line_def keeps_line_def)
qed

lemma test_round_inv:
  assumes "device_inv (ce_board (ci_env i)) sha256 docs (sy_dev s)"
  shows "device_inv (ce_board (ci_env i)) sha256 docs (sy_dev (test_round i s))"
  using assms more_switch_ops [OF assms]
  by (auto simp: test_round_def split: list.split prod.split bool.split option.split)

lemma console_inv:
  assumes "device_inv (pl_board p) sha256 docs (sy_dev s)" "handle_serial_cli p i cs s = Some (rest, s')"
    "sy_test s = [] \<longrightarrow> serial_calm p i cs s" "driver_ok (pl_bl p)" "same_hardware p (ci_env i)"
  shows "device_inv (pl_board p) sha256 docs (sy_dev s')"
proof (cases "sy_test s = []")
  case True
  have k: "device_inv (pl_board p) sha256 docs (sy_dev s2)"
    if "device_inv (pl_board p) sha256 docs (sy_dev s1)" "calm line" "run_line p i line s1 = Some s2" for line s1 s2
    by (rule run_line_inv [OF that assms(4,5)])
  show ?thesis
    by (rule serial_cli_keeps [where P = "\<lambda>s. device_inv (pl_board p) sha256 docs (sy_dev s)", OF k])
      (use assms True in \<open>simp_all add: handle_serial_cli_def\<close>)
next
  case False
  have b: "ce_board (ci_env i) = pl_board p" using assms(5) by (simp add: same_hardware_def)
  have "device_inv (pl_board p) sha256 docs (sy_dev (test_round i s))"
    using test_round_inv [of i sha256 docs s] assms(1) unfolding b by blast
  then show ?thesis using assms(2) False by (simp add: handle_serial_cli_def)
qed

section \<open>Every reachable state\<close>


definition demo_sensor_in :: sensor_in where
  "demo_sensor_in = \<lparr> si_ticks = 1000, si_now = 1000, si_ina = (\<lambda>_. (0, 0)), si_link = False, si_part = None,
     si_mark = False \<rparr>"


end
