(* ===== verification/Safe_Mode.thy ===== *)
theory Safe_Mode
  imports System
begin

text \<open>
  Safe mode on the whole firmware. The crash counter is one cell of the store that nothing in the sensor task writes,
  and in safe mode there is no other task; so no input and no number of power cycles leads out of it.
\<close>

section \<open>The crash counter's cell\<close>

abbreviation crash_cell :: "kv \<Rightarrow> bytes option" where "crash_cell m \<equiv> m ''crash_count''"

lemma save_frames [simp]:
  "crash_cell (settings_save_coulomb_mAh i x m) = crash_cell m" "crash_cell (settings_save_energy_Wh i x m) = crash_cell m"
  "crash_cell (settings_save_switch i c m) = crash_cell m" "crash_cell (settings_save_switch_rule i r m) = crash_cell m"
  "crash_cell (settings_save_discovered_ina_count u m) = crash_cell m"
  "crash_cell (settings_save_discovered_ina_addr i u m) = crash_cell m"
  "crash_cell (snd (settings_load_channel_calibration m)) = crash_cell m"
  by (simp_all add: settings_save_coulomb_mAh_def settings_save_energy_Wh_def settings_save_switch_def save_counted_frame
    settings_save_switch_rule_def settings_save_discovered_ina_count_def settings_save_discovered_ina_addr_def
    settings_load_channel_calibration_def key_idx_def pf_defs Let_def)

lemma save_acc_frame:
  "(\<And>i x m. crash_cell (sv i x m) = crash_cell m) \<Longrightarrow> crash_cell (save_acc sv n xs m) = crash_cell m"
  unfolding save_acc_def by (rule fold_invariant [where Q = "\<lambda>_. True" and P = "\<lambda>s. crash_cell s = crash_cell m"]) auto

lemma counters_frame [simp]:
  "crash_cell (fst (update_coulomb_counter s dt t t' w)) = crash_cell (fst w)"
  "crash_cell (fst (update_energy_counter s dt t t' w)) = crash_cell (fst w)"
  by (simp_all add: update_coulomb_counter_def update_energy_counter_def Let_def save_acc_frame)

lemma fold_crash_cell:
  "(\<And>i w. crash_cell (g (f i w)) = crash_cell (g w)) \<Longrightarrow> crash_cell (g (fold f js w)) = crash_cell (g w)"
  by (induction js arbitrary: w) simp_all

lemma switches_frame [simp]:
  "crash_cell (sw_kv (evaluate_switches b e now w)) = crash_cell (sw_kv w)"
  "crash_cell (sw_kv (init_switches b w)) = crash_cell (sw_kv w)"
proof -
  have set: "crash_cell (sw_kv (switch_set b i v w)) = crash_cell (sw_kv w)" for i v w
    by (simp add: switch_set_def Let_def split: option.split)
  then have pulse: "crash_cell (sw_kv (pulse_tick_one b now i w)) = crash_cell (sw_kv w)" for i w
    by (simp add: pulse_tick_one_def)
  have eval: "crash_cell (sw_kv (eval_switch b e now i w)) = crash_cell (sw_kv w)" for i w
    by (simp add: eval_switch_def Let_def case_prod_beta split: option.split)
  have def: "crash_cell (sw_kv (init_default b i w)) = crash_cell (sw_kv w)"
    and sto: "crash_cell (sw_kv (init_stored b i w)) = crash_cell (sw_kv w)"
    and pub: "crash_cell (sw_kv (publish_switch_state (of_nat i) (ss_energized (sw_states w ! i)) w)) = crash_cell (sw_kv w)"
    for i w
    by (simp_all add: init_default_def init_stored_def Let_def split: option.split)
  note folds = fold_crash_cell [where g = sw_kv]
  show "crash_cell (sw_kv (evaluate_switches b e now w)) = crash_cell (sw_kv w)"
    by (simp add: evaluate_switches_def switch_pulse_tick_def Let_def folds [OF eval] folds [OF pulse])
  show "crash_cell (sw_kv (init_switches b w)) = crash_cell (sw_kv w)"
    by (simp add: init_switches_def Let_def folds [OF def] folds [OF sto] folds [OF pub])
qed

lemma scan_frame: "crash_cell (fst (snd (scan_ina226 probe as n w))) = crash_cell (fst w)"
  by (induction probe as n w rule: scan_ina226.induct) (simp_all add: Let_def)

lemma sensors_frame [simp]: "crash_cell (fst (init_sensors probe begins w)) = crash_cell (fst w)"
  using scan_frame [of probe "map of_nat [0x40..<0x50]" 0]
  by (simp add: init_sensors_def discover_ina226_def Let_def case_prod_beta)

text \<open>The battery's namespaces are others.\<close>

abbreviation settings_of :: "battery \<Rightarrow> kv" where "settings_of b \<equiv> bt_nvs b ''pm-settings''"

lemma battery_frames [simp]:
  "settings_of (snd (state_put_locked env k v b)) = settings_of b"
  "settings_of (snd (state_get_locked env k n b)) = settings_of b"
  by (simp_all add: state_put_locked_def state_get_locked_def ensure_state_prefs_open_def Let_def case_prod_beta)

lemma state_frames [simp]:
  "settings_of (snd (battery_state_save env ch st b)) = settings_of b"
  "settings_of (snd (battery_state_load env ch b)) = settings_of b"
proof -
  show "settings_of (snd (battery_state_save env ch st b)) = settings_of b" by (simp add: battery_state_save_def)
  obtain r b1 where g: "state_get_locked env (make_state_key ch) 45 b = (r, b1)" by force
  then have "settings_of b1 = settings_of b" using battery_frames(2) [of env "make_state_key ch" 45 b] unfolding g by simp
  then show "settings_of (snd (battery_state_load env ch b)) = settings_of b"
    by (simp add: battery_state_load_def Let_def g split: option.splits)
qed

lemma cycle_frame [simp]: "settings_of (fst (update_cycle_counter env m cnt snap dt now w)) = settings_of (fst w)"
proof -
  have f: "settings_of (fst (fold f js w)) = settings_of (fst w)"
    if "\<And>i w. settings_of (fst (f i w)) = settings_of (fst w)" for f js and w :: "battery \<times> cycle"
    using that by (induction js arbitrary: w) simp_all
  have p: "settings_of (fst (persist_state env ch x)) = settings_of (fst x)"
    "settings_of (fst (ensure_loaded env ch x)) = settings_of (fst x)" for ch and x :: "battery \<times> cycle"
    by (simp_all add: persist_state_def ensure_loaded_def Let_def case_prod_beta)
  have u: "settings_of (fst (update_channel env m cnt snap dt now ch x)) = settings_of (fst x)" for ch x
    by (simp add: update_channel_def Let_def case_prod_beta p split: option.split)
  have s: "settings_of (fst (if cy_loaded (snd x) ! i then persist_state env (of_nat i) x else x)) = settings_of (fst x)" for i x
    by (simp add: p)
  show ?thesis by (simp add: update_cycle_counter_def Let_def case_prod_beta f [OF u] f [OF s])
qed

lemma confirm_frame [simp]: "ot_nvs (snd (ota_confirm_valid now part mk u)) = ot_nvs u"
  by (simp add: ota_confirm_valid_def emit_def split: option.split bool.split)

section \<open>Boots and rounds\<close>

lemma sensor_round_stays:
  "crash_cell (sy_kv (sensor_round p i s)) = crash_cell (sy_kv s)"
  "sy_network_task (sensor_round p i s) = sy_network_task s"
  by (simp_all add: sensor_round_def Let_def case_prod_beta on_ota_def on_sw_def sw_of_def on_cyc_def put_bat_def bat_of_def
    on_coul_def on_kv_def ota_of_def)

text \<open>The next power-on: the statics are fresh, the store is what the run left.\<close>

definition power_on ::
  "('fs, 'h) plant \<Rightarrow> u32 \<Rightarrow> u32 \<Rightarrow> (u8 \<Rightarrow> bool) \<Rightarrow> nvs \<Rightarrow> 'fs \<Rightarrow> ('fs, 'h) system" where
  "power_on p now ticks level n fs = setup_firmware p now ticks level (blank_system n fs)"

lemma power_on_count:
  "sy_network_task (power_on p now ticks level n fs) =
    (\<not> 5 \<le> stored_count (n ''pm-settings'') + (if stored_clean (n ''pm-settings'') then 0 else 1))"
  "5 \<le> stored_count (n ''pm-settings'') + (if stored_clean (n ''pm-settings'') then 0 else 1) \<Longrightarrow>
    stored_count (sy_kv (power_on p now ticks level n fs)) =
      stored_count (n ''pm-settings'') + (if stored_clean (n ''pm-settings'') then 0 else 1)"
proof -
  define m where "m = init_device_identity (pl_mac p) (n ''pm-settings'', identity0)"
  have c: "id_crash_count (snd m) = stored_count (n ''pm-settings'') + (if stored_clean (n ''pm-settings'') then 0 else 1)"
    "stored_count (fst m) = id_crash_count (snd m)"
    using boot_count [of "pl_mac p" "n ''pm-settings''"] by (simp_all add: m_def boot_def)
  have s: "sy_network_task (power_on p now ticks level n fs) = (\<not> safe_mode (snd m))"
    "safe_mode (snd m) \<Longrightarrow> crash_cell (sy_kv (power_on p now ticks level n fs)) = crash_cell (fst m)"
    by (simp_all add: power_on_def setup_firmware_def blank_system_def blank_device_def Let_def case_prod_beta m_def
      on_sw_def sw_of_def on_sens_def on_kv_def)
  show "sy_network_task (power_on p now ticks level n fs) =
    (\<not> 5 \<le> stored_count (n ''pm-settings'') + (if stored_clean (n ''pm-settings'') then 0 else 1))"
    using s(1) c(1) by (simp add: safe_mode_def)
  assume "5 \<le> stored_count (n ''pm-settings'') + (if stored_clean (n ''pm-settings'') then 0 else 1)"
  then have "safe_mode (snd m)" using c(1) by (simp add: safe_mode_def)
  then have "stored_count (sy_kv (power_on p now ticks level n fs)) = stored_count (fst m)" by (intro stored_cong(1) s(2))
  then show "stored_count (sy_kv (power_on p now ticks level n fs)) =
      stored_count (n ''pm-settings'') + (if stored_clean (n ''pm-settings'') then 0 else 1)"
    using c by simp
qed

text \<open>The life of a device: steps of the firmware and power cycles at any moment; \<open>k\<close> counts the power cycles.\<close>

inductive device_life :: "('fs, 'h) plant \<Rightarrow> nat \<Rightarrow> ('fs, 'h) system \<Rightarrow> ('fs, 'h) system \<Rightarrow> bool" for p where
  now: "device_life p 0 s s"
| run: "\<lbrakk> device_life p k s s1; system_step p s1 s2 \<rbrakk> \<Longrightarrow> device_life p k s s2"
| power: "device_life p k s s1 \<Longrightarrow> device_life p (Suc k) s (power_on p t ticks level (dv_nvs (sy_dev s1)) fs)"

definition in_safe_mode :: "('fs, 'h) system \<Rightarrow> bool" where
  "in_safe_mode s = (\<not> sy_network_task s \<and> 5 \<le> stored_count (sy_kv s))"

lemma only_sensor_steps: "\<lbrakk> \<not> sy_network_task s; system_step p s s' \<rbrakk> \<Longrightarrow> \<exists>i. s' = sensor_round p i s"
  by (auto elim: system_stepE)

lemma safe_boot: "\<not> sy_network_task (power_on p now ticks level n fs) \<Longrightarrow> in_safe_mode (power_on p now ticks level n fs)"
  using power_on_count(1) [of p now ticks level n fs] power_on_count(2) [of n p now ticks level fs]
  by (simp add: in_safe_mode_def)

lemma safe_step:
  assumes "in_safe_mode s" "system_step p s s'"
  shows "in_safe_mode s'" "stored_count (sy_kv s') = stored_count (sy_kv s)"
proof -
  obtain i where i: "s' = sensor_round p i s" using only_sensor_steps [OF _ assms(2)] assms(1) in_safe_mode_def by blast
  then show c: "stored_count (sy_kv s') = stored_count (sy_kv s)" by (intro stored_cong(1)) (simp add: sensor_round_stays)
  show "in_safe_mode s'" using assms(1) c by (simp add: in_safe_mode_def i sensor_round_stays)
qed

lemma safe_power_on:
  fixes n :: nvs
  assumes "5 \<le> stored_count (n ''pm-settings'')" "unat (stored_count (n ''pm-settings'')) + 1 < 2 ^ 32"
  shows "in_safe_mode (power_on p now ticks level n fs)"
    "unat (stored_count (sy_kv (power_on p now ticks level n fs))) \<le> unat (stored_count (n ''pm-settings'')) + 1"
proof -
  define c where "c = stored_count (n ''pm-settings'') + (if stored_clean (n ''pm-settings'') then 0 else 1)"
  have u: "unat c = unat (stored_count (n ''pm-settings'')) + (if stored_clean (n ''pm-settings'') then 0 else 1)"
    using assms(2) by (simp add: c_def unat_word_ariths)
  then have "5 \<le> c" using assms(1) by (simp add: word_le_nat_alt)
  then have "\<not> sy_network_task (power_on p now ticks level n fs)" "stored_count (sy_kv (power_on p now ticks level n fs)) = c"
    using power_on_count(1) [where n = n, folded c_def] power_on_count(2) [where n = n, folded c_def] by simp_all
  then show "in_safe_mode (power_on p now ticks level n fs)"
    "unat (stored_count (sy_kv (power_on p now ticks level n fs))) \<le> unat (stored_count (n ''pm-settings'')) + 1"
    using \<open>5 \<le> c\<close> u by (simp_all add: in_safe_mode_def)
qed

lemma life_in_safe_mode:
  assumes "device_life p k s s'" "in_safe_mode s" "unat (stored_count (sy_kv s)) + k < 2 ^ 32"
  shows "in_safe_mode s' \<and> unat (stored_count (sy_kv s')) \<le> unat (stored_count (sy_kv s)) + k"
  using assms
proof (induction rule: device_life.induct)
  case (run k s s1 s2)
  then show ?case using safe_step [of s1 p s2] by simp
next
  case (power k s s1 t ticks level fs)
  then have "in_safe_mode s1" "unat (stored_count (sy_kv s1)) \<le> unat (stored_count (sy_kv s)) + k" by simp_all
  then show ?case
    using power.prems(2) safe_power_on [of "dv_nvs (sy_dev s1)" p t ticks level fs] by (simp add: in_safe_mode_def)
qed simp

text \<open>C8: Safe mode is a trap: once a boot has come up in safe mode, then whatever happens, power cycles included, the
firmware only ever runs sensor rounds. No round of the network task (cloud commands, updates), no BLE event, no press of
the button and no console line is possible again, so neither \<open>reboot\<close> nor \<open>factory_reset\<close> nor a new firmware can be had
without erasing the flash. The crash counter, which would have to wrap around, is the only bound.\<close>

theorem safe_mode_is_a_trap:
  assumes "\<not> sy_network_task (power_on p now ticks level n fs)" "device_life p k (power_on p now ticks level n fs) s"
    "unat (stored_count (sy_kv (power_on p now ticks level n fs))) + k < 2 ^ 32"
  shows "\<not> sy_network_task s \<and> {s'. system_step p s s'} = range (\<lambda>i. sensor_round p i s)"
proof -
  have "\<not> sy_network_task s" using life_in_safe_mode [OF assms(2) safe_boot [OF assms(1)] assms(3)] by (simp add: in_safe_mode_def)
  then show ?thesis using only_sensor_steps [of s p] system_step.sensor [of p s] by fastforce
qed

text \<open>Four crashes on record, then a fifth: the boot after the next power cycle.\<close>

definition crashed_nvs :: nvs where
  "crashed_nvs = (\<lambda>_. [''crash_count'' \<mapsto> le32 4])"

lemma safe_mode_is_a_trap_witness:
  "let s = power_on demo_plant 0 0 (\<lambda>_. True) crashed_nvs () in
   \<not> sy_network_task (power_on demo_plant 0 0 (\<lambda>_. True) (dv_nvs (sy_dev s)) ())"
proof -
  define s where "s = power_on demo_plant 0 0 (\<lambda>_. True) crashed_nvs ()"
  have c: "stored_count (crashed_nvs ''pm-settings'') = 4" "\<not> stored_clean (crashed_nvs ''pm-settings'')"
    by (simp_all add: crashed_nvs_def stored_count_def stored_clean_def settings_load_u32_def settings_load_bool_def pf_defs)
  have s: "\<not> sy_network_task s" "stored_count (sy_kv s) = 5"
    using power_on_count(1) [where n = crashed_nvs] power_on_count(2) [where n = crashed_nvs] by (simp_all add: s_def c)
  have l: "device_life demo_plant (Suc 0) s (power_on demo_plant 0 0 (\<lambda>_. True) (dv_nvs (sy_dev s)) ())"
    by (rule device_life.power [OF device_life.now])
  have "\<not> sy_network_task (power_on demo_plant 0 0 (\<lambda>_. True) (dv_nvs (sy_dev s)) ())"
    using safe_mode_is_a_trap [OF s(1) [unfolded s_def] l [unfolded s_def]] s(2) by (simp add: s_def)
  then show ?thesis by (simp add: s_def)
qed

end
