(* ===== verification/Ingest.thy ===== *)
theory Ingest
  imports Publishing
begin

text \<open>
  What the backend's ingest worker (\<open>backend/internal/ingest.go\<close>) reads of a published telemetry message: the device
  key in the topic, and the decoding of the payload into the struct of \<open>Process\<close>. \<open>json.Unmarshal\<close> is Go's: a member
  is matched to a field by its tag, without regard to case, an unknown member is skipped, \<open>null\<close> leaves a field as it
  is, an integer field takes integers in its range, a float field any number, and everything else is an error.
\<close>

section \<open>Topics\<close>

fun split_rest :: "bytes \<Rightarrow> bytes \<Rightarrow> bytes list" where
  "split_rest part [] = [part]"
| "split_rest part (c # cs) = (if c = 47 then part # split_rest [] cs else split_rest (part @ [c]) cs)"

definition splitTopic :: "bytes \<Rightarrow> bytes list" where
  "splitTopic topic = split_rest [] topic"

definition ExtractDeviceKey :: "bytes \<Rightarrow> bytes" where
  "ExtractDeviceKey topic = (let parts = splitTopic topic in if 3 \<le> length parts then parts ! 2 else topic)"

section \<open>Payload\<close>

datatype go_type = Go_int int int | Go_string | Go_floats

definition is_number :: "json \<Rightarrow> bool" where
  "is_number v = (case v of JInt _ \<Rightarrow> True | JReal _ \<Rightarrow> True | JNull \<Rightarrow> True | _ \<Rightarrow> False)"

definition go_takes :: "go_type \<Rightarrow> json \<Rightarrow> bool" where
  "go_takes t v =
    (case v of
       JNull \<Rightarrow> True
     | JInt i \<Rightarrow> (case t of Go_int lo hi \<Rightarrow> lo \<le> i \<and> i \<le> hi | _ \<Rightarrow> False)
     | JStr _ \<Rightarrow> t = Go_string
     | JObj ms \<Rightarrow> t = Go_floats \<and> list_all (\<lambda>(k, x). is_number x) ms
     | _ \<Rightarrow> False)"

definition process_fields :: "(string \<times> go_type) list" where
  "process_fields =
    [(''ts'', Go_int (- (2 ^ 63)) (2 ^ 63 - 1)), (''ts_ms'', Go_int (- (2 ^ 63)) (2 ^ 63 - 1)), (''schema'', Go_string),
     (''fw'', Go_string), (''uptime_ms'', Go_int 0 (2 ^ 32 - 1)), (''rssi'', Go_int (- 128) 127),
     (''heap_free'', Go_int 0 (2 ^ 32 - 1)), (''data'', Go_floats)]"

definition ascii_lower :: "char \<Rightarrow> char" where
  "ascii_lower c = (let n = of_char c :: nat in if 65 \<le> n \<and> n \<le> 90 then char_of (n + 32) else c)"

definition go_field :: "string \<Rightarrow> go_type option" where
  "go_field k = map_of process_fields (map ascii_lower k)"

definition member_ok :: "string \<times> json \<Rightarrow> bool" where
  "member_ok kv = (case go_field (fst kv) of None \<Rightarrow> True | Some t \<Rightarrow> go_takes t (snd kv))"

definition process_decodes :: "json \<Rightarrow> bool" where
  "process_decodes doc = (case doc of JObj ms \<Rightarrow> list_all member_ok ms | JNull \<Rightarrow> True | _ \<Rightarrow> False)"

section \<open>The topic names the device\<close>

lemma split_rest_plain: "47 \<notin> set xs \<Longrightarrow> split_rest part xs = [part @ xs]"
  by (induction xs arbitrary: part) auto

lemma split_rest_sep: "47 \<notin> set xs \<Longrightarrow> split_rest part (xs @ 47 # ys) = (part @ xs) # split_rest [] ys"
  by (induction xs arbitrary: part) auto

lemma uuid_byte: "is_valid_uuid s \<Longrightarrow> c \<in> set s \<Longrightarrow> c = 45 \<or> is_xdigit c"
proof -
  assume u: "is_valid_uuid s" and "c \<in> set s"
  then obtain k where "k < length s" "s ! k = c" by (metis in_set_conv_nth)
  moreover have "length s = 36" using u by (auto simp: is_valid_uuid_def split: if_splits)
  moreover from this have "\<forall>j \<in> set [0..<36]. if j = 8 \<or> j = 13 \<or> j = 18 \<or> j = 23 then s ! j = 45 else is_xdigit (s ! j)"
    using u unfolding is_valid_uuid_def list_all_iff by (metis (no_types, lifting))
  ultimately show ?thesis by (metis atLeastLessThan_iff atLeastLessThan_upt le0)
qed

lemma identity_no_slash: "47 \<notin> set mac \<Longrightarrow> 47 \<notin> set (get_mqtt_identity m mac n)"
proof -
  assume mac: "47 \<notin> set mac"
  have sub: "47 \<notin> set xs \<Longrightarrow> 47 \<notin> set (take k xs)" for xs :: bytes and k by (meson in_set_takeD)
  have "47 \<notin> set (str_bytes ''dev-'' @ mac)" using mac by (simp add: str_bytes_def char_byte_def)
  moreover have "is_valid_uuid dk \<Longrightarrow> 47 \<notin> set dk" for dk using uuid_byte [of dk 47] by (auto simp: is_xdigit_def)
  ultimately show ?thesis using sub by (simp add: get_mqtt_identity_def split: option.split)
qed

lemma length_identity: "length (get_mqtt_identity m mac 64) \<le> 63"
  by (simp add: get_mqtt_identity_def split: option.split)

text \<open>The backend finds the device in the topic of its telemetry: the third segment is the device's MQTT identity,
its key when that is a UUID, its MAC otherwise.\<close>

theorem topic_names_device:
  assumes "47 \<notin> set (pi_mac i)"
  shows "ExtractDeviceKey (telemetry_topic i m) = get_mqtt_identity m (pi_mac i) 64"
proof -
  let ?k = "get_mqtt_identity m (pi_mac i) 64"
  have "str_bytes ''telemetry/power_monitor_v2/'' = str_bytes ''telemetry'' @ 47 # str_bytes ''power_monitor_v2'' @ [47]"
    by (simp add: str_bytes_def char_byte_def)
  then have "telemetry_topic i m = str_bytes ''telemetry'' @ 47 # str_bytes ''power_monitor_v2'' @ 47 # ?k"
    using length_identity [of m "pi_mac i"] by (simp add: telemetry_topic_def str_bytes_def)
  moreover have "47 \<notin> set (str_bytes ''telemetry'')" "47 \<notin> set (str_bytes ''power_monitor_v2'')"
    by (simp_all add: str_bytes_def char_byte_def)
  ultimately have "splitTopic (telemetry_topic i m) = [str_bytes ''telemetry'', str_bytes ''power_monitor_v2'', ?k]"
    using split_rest_plain [OF identity_no_slash [OF assms]] by (simp add: splitTopic_def split_rest_sep)
  then show ?thesis by (simp add: ExtractDeviceKey_def Let_def)
qed

lemma topic_names_device_witness:
  "ExtractDeviceKey (telemetry_topic demo_pub Map.empty) = str_bytes ''dev-AABBCC''"
  using topic_names_device [of demo_pub Map.empty]
  by (simp add: demo_pub_def get_mqtt_identity_def settings_load_supabase_device_key_def load_key_string_def pf_isKey_def
      str_bytes_def char_byte_def)

section \<open>The payload is refused\<close>

lemma list_all_numbered: "list_all P (each_numbered f xs) \<longleftrightarrow> (\<forall>i < length xs. list_all P (f i (xs ! i)))"
proof -
  have "list_all P (each_numbered f xs) \<longleftrightarrow> (\<forall>y \<in> set (enumerate 0 xs). list_all P (f (fst y) (snd y)))"
    by (auto simp: each_numbered_def list_all_iff case_prod_beta)
  also have "\<dots> \<longleftrightarrow> (\<forall>i < length xs. list_all P (f i (xs ! i)))"
    by (metis (no_types, lifting) add_0 diff_zero fst_conv in_set_conv_nth length_enumerate nth_enumerate_eq snd_conv)
  finally show ?thesis .
qed

abbreviation numeric :: "string \<times> json \<Rightarrow> bool" where "numeric \<equiv> \<lambda>(k, x). is_number x"

lemma numeric_fields:
  "numeric (flag_member k b)" "numeric (word_member k w)" "\<not> numeric (write_float fmt k v)"
  by (simp_all add: flag_member_def word_member_def write_float_def is_number_def)

lemma data_numeric: "list_all numeric (data_fields fmt s) \<longleftrightarrow> tl_channels s = [] \<and> tl_battery s = []"
proof -
  have "list_all numeric (each_numbered (channel_fields fmt) xs) \<longleftrightarrow> xs = []" for xs
    by (auto simp: list_all_numbered channel_fields_def numeric_fields)
  moreover have "list_all numeric (each_numbered (battery_fields fmt) xs) \<longleftrightarrow> xs = []" for xs
    by (auto simp: list_all_numbered battery_fields_def numeric_fields)
  moreover have "list_all numeric (each_numbered switch_fields xs)" for xs
    by (simp add: list_all_numbered switch_fields_def numeric_fields)
  moreover have "list_all numeric (health_fields s)" by (simp add: health_fields_def numeric_fields)
  ultimately show ?thesis by (simp add: data_fields_def)
qed

lemma envelope_types:
  "go_field ''ts'' = Some (Go_int (- (2 ^ 63)) (2 ^ 63 - 1))"
  "go_field ''ts_ms'' = Some (Go_int (- (2 ^ 63)) (2 ^ 63 - 1))"
  "go_field ''schema'' = Some Go_string"
  "go_field ''fw'' = Some Go_string"
  "go_field ''uptime_ms'' = Some (Go_int 0 (2 ^ 32 - 1))"
  "go_field ''rssi'' = Some (Go_int (- 128) 127)"
  "go_field ''heap_free'' = Some (Go_int 0 (2 ^ 32 - 1))"
  "go_field ''hw_rev'' = None"
  "go_field ''time_source'' = None"
  "go_field ''data'' = Some Go_floats"
  by code_simp+

lemma word_ranges:
  "0 \<le> uint (w :: u32)" "uint (w :: u32) \<le> 4294967295" "0 \<le> uint (v :: u16)" "uint (v :: u16) \<le> 65535"
  "- 128 \<le> sint (b :: i8)" "sint (b :: i8) \<le> 127"
  using uint_bounded [of w] uint_bounded [of v] sint_ge [of b] sint_lt [of b] by simp_all

text \<open>C13: The backend decodes a telemetry document exactly when it reports no channel and no battery: every measured
value is written as a JSON text where the backend declares a number, so with a single channel the whole document is
refused and nothing of it is stored.\<close>

theorem telemetry_refused_by_backend:
  "process_decodes (serialize_telemetry_core fmt synced s) \<longleftrightarrow> tl_channels s = [] \<and> tl_battery s = []"
proof -
  have range: "- 9223372036854775808 \<le> uint (tl_ts s)" "uint (tl_ts s) \<le> 9223372036854775807"
    "- 9223372036854775808 \<le> uint (tl_ts_ms s)" "uint (tl_ts_ms s) \<le> 9223372036854775807"
    using word_ranges(1,2) [of "tl_ts s"] word_ranges(3,4) [of "tl_ts_ms s"] by linarith+
  have "process_decodes (serialize_telemetry_core fmt synced s) \<longleftrightarrow> list_all numeric (data_fields fmt s)"
    using range by (simp add: process_decodes_def serialize_telemetry_core_def member_ok_def word_member_def envelope_types go_takes_def
        word_ranges)
  then show ?thesis by (simp only: data_numeric)
qed

lemma telemetry_refused_by_backend_witness:
  "\<not> process_decodes (serialize_telemetry_core (\<lambda>_. [48]) True demo_snapshot)"
  using telemetry_refused_by_backend [of "\<lambda>_. [48]" True demo_snapshot] by (simp add: demo_snapshot_def)

end
