(* ===== verification/Publish_Queue.thy ===== *)
theory Publish_Queue
  imports Cloud_Sync Log_Card Ble_Security
begin

text \<open>
  What the publication of telemetry promises: the document holds every value of the snapshot under a key of its own,
  and a document the broker refuses waits on the card until it is taken, unless it is longer than the buffer it is read
  back into.
\<close>

section \<open>Every value under a key of its own\<close>

lemma digits_then_bar:
  assumes "dec n @ CHR ''_'' # a = dec m @ CHR ''_'' # b"
  shows "n = m \<and> a = b"
proof -
  have bar: "\<not> is_digit (CHR ''_'')" by (simp add: is_digit_def)
  have "takeWhile is_digit (dec k @ CHR ''_'' # c) = dec k" "dropWhile is_digit (dec k @ CHR ''_'' # c) = CHR ''_'' # c" for k c
    using dec_digits [of _ k] bar by (simp_all add: takeWhile_append dropWhile_append)
  then show ?thesis using assms by (metis dec_eq_iff list.inject)
qed

text \<open>The keys of a numbered group: its prefix, a number and one of its suffixes.\<close>

definition group_keys :: "string \<Rightarrow> string list \<Rightarrow> nat \<Rightarrow> string list" where
  "group_keys pre sufs n = concat (map (\<lambda>k. map (\<lambda>x. tele_key pre k (CHR ''_'' # x)) sufs) [0..<n])"

lemma tele_key_eq [simp]: "tele_key p n (CHR ''_'' # a) = tele_key p m (CHR ''_'' # b) \<longleftrightarrow> n = m \<and> a = b"
  by (auto simp: tele_key_def dest: digits_then_bar)

lemma group_keys_simps [simp]:
  "group_keys pre sufs 0 = []"
  "group_keys pre sufs (Suc n) = group_keys pre sufs n @ map (\<lambda>x. tele_key pre n (CHR ''_'' # x)) sufs"
  by (simp_all add: group_keys_def)

lemma group_member: "y \<in> set (group_keys pre sufs n) \<longleftrightarrow> (\<exists>k < n. \<exists>x \<in> set sufs. y = tele_key pre k (CHR ''_'' # x))"
  by (auto simp: group_keys_def)

lemma distinct_group: "distinct sufs \<Longrightarrow> distinct (group_keys pre sufs n)"
proof (induction n)
  case (Suc n)
  have "set (group_keys pre sufs n) \<inter> (\<lambda>x. tele_key pre n (CHR ''_'' # x)) ` set sufs = {}"
    unfolding disjoint_iff group_member by (metis tele_key_eq imageE less_irrefl)
  moreover have "inj (\<lambda>x. tele_key pre n (CHR ''_'' # x))" by (simp add: inj_def)
  ultimately show ?case using Suc by (simp add: distinct_map) (metis inj_on_subset subset_UNIV)
qed simp

lemma group_prefix: "k \<in> set (group_keys pre sufs n) \<Longrightarrow> 2 \<le> length pre \<Longrightarrow> take 2 k = take 2 pre"
  by (auto simp: group_member tele_key_def)

lemma distinct_parts:
  "\<lbrakk> distinct xs; distinct ys; \<And>k. k \<in> set xs \<Longrightarrow> f k = p; \<And>k. k \<in> set ys \<Longrightarrow> f k \<noteq> p \<rbrakk> \<Longrightarrow> distinct (xs @ ys)"
  by auto

lemma numbered_snoc: "each_numbered f (xs @ [x]) = each_numbered f xs @ f (length xs) x"
  by (simp add: each_numbered_def enumerate_append_eq)

lemma numbered_keys:
  assumes "\<And>n x. map fst (f n x) = map (\<lambda>y. tele_key pre n (CHR ''_'' # y)) sufs"
  shows "map fst (each_numbered f xs) = group_keys pre sufs (length xs)"
  by (induction xs rule: rev_induct) (simp_all add: numbered_snoc assms, simp add: each_numbered_def)

lemma health_keys:
  "distinct (map fst (health_fields s))"
  "k \<in> set (map fst (health_fields s)) \<Longrightarrow> take 2 k \<noteq> ''ch'' \<and> take 2 k \<noteq> ''sw'' \<and> take 2 k \<noteq> ''ba''"
  by (auto simp: health_fields_def flag_member_def word_member_def)

lemma data_keys: "distinct (map fst (data_fields fmt s))"
proof -
  have ch: "map fst (each_numbered (channel_fields fmt) xs) =
      group_keys ''ch'' [''V'', ''I'', ''P'', ''energy_Wh'', ''charge_mAh''] (length xs)" for xs
    by (rule numbered_keys) (simp add: channel_fields_def write_float_def)
  have sw: "map fst (each_numbered switch_fields xs) = group_keys ''sw'' [''state'', ''type'', ''auto'', ''rule_tripped''] (length xs)" for xs
    by (rule numbered_keys) (simp add: switch_fields_def flag_member_def word_member_def)
  have bat: "map fst (each_numbered (battery_fields fmt) xs) = group_keys ''bat'' [''soc_pct'', ''V'', ''I'', ''cumulative_Ah_in'',
      ''cumulative_Ah_out'', ''equivalent_full_cycles'', ''soh_pct'', ''soh_samples''] (length xs)" for xs
    by (rule numbered_keys) (simp add: battery_fields_def write_float_def word_member_def)
  note keys = health_keys(2) [of _ s] group_prefix [of _ "''ch''"] group_prefix [of _ "''sw''"] group_prefix [of _ "''bat''"]
  let ?h = "map fst (health_fields s)"
  have "distinct (map fst (each_numbered (battery_fields fmt) (tl_battery s)) @ ?h)"
    unfolding bat by (rule distinct_parts [where f = "take 2" and p = "''ba''"]) (use keys health_keys(1) [of s] in \<open>auto intro: distinct_group\<close>)
  then have "distinct (map fst (each_numbered switch_fields (tl_switches s)) @ map fst (each_numbered (battery_fields fmt) (tl_battery s)) @ ?h)"
    unfolding sw bat
    by (rule distinct_parts [where f = "take 2" and p = "''sw''", rotated]) (use keys in \<open>auto intro: distinct_group\<close>)
  then have "distinct (map fst (each_numbered (channel_fields fmt) (tl_channels s)) @ map fst (each_numbered switch_fields (tl_switches s)) @
      map fst (each_numbered (battery_fields fmt) (tl_battery s)) @ ?h)"
    unfolding ch sw bat
    by (rule distinct_parts [where f = "take 2" and p = "''ch''", rotated]) (use keys in \<open>auto intro: distinct_group\<close>)
  then show ?thesis by (simp add: data_fields_def)
qed

lemma data_lookup: "(k, v) \<in> set (data_fields fmt s) \<Longrightarrow> jget (jget (serialize_telemetry_core fmt synced s) ''data'') k = v"
  using data_keys [of fmt s] by (simp add: serialize_telemetry_core_def jget_def word_member_def map_of_is_SomeI)

lemma numbered_member: "i < length xs \<Longrightarrow> y \<in> set (f i (xs ! i)) \<Longrightarrow> y \<in> set (each_numbered f xs)"
  by (force simp: each_numbered_def in_set_enumerate_eq)

lemma data_members:
  "i < length (tl_channels s) \<Longrightarrow> y \<in> set (channel_fields fmt i (tl_channels s ! i)) \<Longrightarrow> y \<in> set (data_fields fmt s)"
  "i < length (tl_switches s) \<Longrightarrow> y \<in> set (switch_fields i (tl_switches s ! i)) \<Longrightarrow> y \<in> set (data_fields fmt s)"
  "i < length (tl_battery s) \<Longrightarrow> y \<in> set (battery_fields fmt i (tl_battery s ! i)) \<Longrightarrow> y \<in> set (data_fields fmt s)"
  by (auto simp: data_fields_def dest: numbered_member)

definition shown :: "(f32 \<Rightarrow> bytes) \<Rightarrow> f32 \<Rightarrow> json" where
  "shown fmt v = JStr (fmt (if f_finite v then v else 0))"



section \<open>Saving and reading a line\<close>

text \<open>A card that takes every write to a file in full.\<close>

definition card_takes :: "('fs, 'h) sdlib \<Rightarrow> ('fs \<Rightarrow> string \<Rightarrow> bytes option) \<Rightarrow> string \<Rightarrow> bool" where
  "card_takes sd view p \<longleftrightarrow> (\<forall>fs. sd_open_append sd p fs \<noteq> None) \<and>
     (\<forall>fs bs. view fs p \<noteq> None \<longrightarrow> fst (sd_write sd p bs fs) = length bs)"

definition card_up :: "'h logger \<Rightarrow> bool" where
  "card_up s \<longleftrightarrow> lg_sd_initialized s \<and> lg_sd_present s"

lemma init_card_up: "card_up s \<Longrightarrow> init_sd lib fs s = (True, s)"
  by (simp add: card_up_def init_sd_def)

lemma save_line:
  assumes law: "sd_lawful sd view rest" and takes: "card_takes sd view TELEM_OVERFLOW_FILE" and up: "card_up s"
    and room: "length (old_content (view fs TELEM_OVERFLOW_FILE)) < LOG_OVERFLOW_MAX_BYTES" and data: "data \<noteq> []"
  shows "\<exists>fs'. save_telemetry_overflow sd data (s, fs) = (True, s, fs') \<and>
    view fs' = (view fs)(TELEM_OVERFLOW_FILE \<mapsto> old_content (view fs TELEM_OVERFLOW_FILE) @ data @ [10])"
proof -
  let ?p = TELEM_OVERFLOW_FILE
  have cap: "overflow_capped sd ?p fs = fs"
    using capped_same [OF law, of fs ?p] room by (auto simp: old_content_def split: option.splits)
  obtain fs2 where op: "sd_open_append sd ?p fs = Some fs2" using takes unfolding card_takes_def by blast
  have v2: "view fs2 = (view fs)(?p \<mapsto> old_content (view fs ?p))"
    using sd_laws(3) [OF law op] by (simp add: old_content_def)
  have len: "view gs ?p \<noteq> None \<Longrightarrow> fst (sd_write sd ?p bs gs) = length bs" for bs gs using takes by (simp add: card_takes_def)
  let ?fs3 = "snd (sd_write sd ?p data fs2)"
  have v3: "view ?fs3 = (view fs)(?p \<mapsto> old_content (view fs ?p) @ data)"
    using sd_laws(4) [OF law, of fs2 ?p "old_content (view fs ?p)" data] v2 len by simp
  have v4: "view (snd (sd_write sd ?p [10] ?fs3)) = (view fs)(?p \<mapsto> old_content (view fs ?p) @ data @ [10])"
    using sd_laws(4) [OF law, of ?fs3 ?p "old_content (view fs ?p) @ data" "[10]"] v3 len by simp
  show ?thesis
    using data len v2 v4 by (simp add: save_telemetry_overflow_def init_card_up [OF up] cap op case_prod_beta Let_def)
qed

lemma read_line_cut:
  assumes "sd_lawful sd view rest" "rest h = l @ ys" "length l = n" "10 \<notin> set l"
  shows "fst (read_line sd n h) = l \<and> rest (snd (read_line sd n h)) = ys"
  using assms(2-)
proof (induction n arbitrary: h l)
  case (Suc n)
  then obtain c l' where l: "l = c # l'" by (cases l) auto
  let ?h = "snd (sd_read sd h 1)"
  have r: "fst (sd_read sd h 1) = [c]" "rest ?h = l' @ ys"
    using sd_laws(8,9) [OF assms(1), of h 1] Suc.prems(1) l by simp_all
  then show ?case using Suc.IH [OF r(2)] Suc.prems l by (simp add: case_prod_beta Let_def)
qed simp

section \<open>A refused document is queued\<close>

text \<open>The first line of a queue that is not open comes out whole when it fits, the rest stays.\<close>

lemma drain_first:
  assumes law: "sd_lawful sd view rest" and up: "card_up s" and closed: "lg_telem_file s = None"
    and queue: "view fs TELEM_OVERFLOW_FILE = Some (queue_lines (l # ls))" "sd_open_read sd TELEM_OVERFLOW_FILE fs \<noteq> None"
    and line: "l \<noteq> []" "10 \<notin> set l" "length l + 1 < n"
  obtains s' fs' where "drain_telemetry_overflow sd n (s, fs) = (l, s', fs')" "card_up s'"
    "view fs' = (if ls = [] then (view fs)(TELEM_OVERFLOW_FILE := None) else view fs)"
proof -
  obtain h where h: "sd_open_read sd TELEM_OVERFLOW_FILE fs = Some h" using queue(2) by auto
  then have rest: "rest h = l @ 10 # queue_lines ls" using sd_laws(5) [OF law h] queue(1) by simp
  have ex: "sd_exists sd TELEM_OVERFLOW_FILE fs" using queue(1) sd_laws(1) [OF law] by simp
  have r: "fst (read_line sd (n - 1) h) = l" "rest (snd (read_line sd (n - 1) h)) = queue_lines ls"
    using read_line_spec [OF law rest, of "n - 1"] line by auto
  have e: "fst (sd_read sd h' 1) = take 1 (rest h')" for h' using sd_laws(8) [OF law] by simp
  have "telem_handle sd (s, fs) = Some h" using closed h by (simp add: telem_handle_def)
  then have d: "drain_telemetry_overflow sd n (s, fs) =
      (if ls = [] then (l, s\<lparr> lg_telem_file := None \<rparr>, snd (sd_remove sd TELEM_OVERFLOW_FILE fs))
       else (l, s\<lparr> lg_telem_file := Some (snd (read_line sd (n - 1) h)) \<rparr>, fs))"
    using drain_eq [of n sd "(s, fs)" h] ex r line e by (simp add: init_card_up [OF up] case_prod_beta Let_def)
  show thesis
  proof (cases "ls = []")
    case True
    then show ?thesis using d sd_laws(2) [OF law, of TELEM_OVERFLOW_FILE fs] up
      by (intro that [of "s\<lparr> lg_telem_file := None \<rparr>"]) (auto simp: card_up_def)
  next
    case False
    then show ?thesis using d up by (intro that [of "s\<lparr> lg_telem_file := Some (snd (read_line sd (n - 1) h)) \<rparr>" fs]) (auto simp: card_up_def)
  qed
qed

lemma drain_pending_refused:
  assumes law: "sd_lawful sd view rest" and takes: "card_takes sd view TELEM_OVERFLOW_FILE" and up: "card_up lg"
    and closed: "lg_telem_file lg = None" and ready: "mqtt_ready i m" and refused: "\<forall>t b. \<not> pi_takes i t b"
    and queue: "view fs TELEM_OVERFLOW_FILE = Some (queue_lines (l # ls))" "sd_open_read sd TELEM_OVERFLOW_FILE fs \<noteq> None"
    and room: "length (queue_lines (l # ls)) < LOG_OVERFLOW_MAX_BYTES"
    and line: "l \<noteq> []" "10 \<notin> set l" "length l < 2047"
  obtains lg' fs' s' where "drain_pending_telemetry_overflow sd i m ((lg, fs), s) = ((lg', fs'), s')" "card_up lg'"
    "s' = transmit (Mqtt (telemetry_topic i m) l False False) s"
    "view fs' TELEM_OVERFLOW_FILE = Some (queue_lines ((if ls = [] then [] else l # ls) @ [l]))"
proof -
  obtain lg1 fs1 where d: "drain_telemetry_overflow sd 2048 (lg, fs) = (l, lg1, fs1)" "card_up lg1"
      "view fs1 = (if ls = [] then (view fs)(TELEM_OVERFLOW_FILE := None) else view fs)"
    using drain_first [OF law up closed queue line(1,2), of 2048] line(3) by auto
  have old: "old_content (view fs1 TELEM_OVERFLOW_FILE) = queue_lines (if ls = [] then [] else l # ls)"
    using d(3) queue(1) by (simp add: old_content_def)
  then have "length (old_content (view fs1 TELEM_OVERFLOW_FILE)) < LOG_OVERFLOW_MAX_BYTES" using room by (simp split: if_splits)
  then obtain fs2 where f: "save_telemetry_overflow sd l (lg1, fs1) = (True, lg1, fs2)"
      "view fs2 = (view fs1)(TELEM_OVERFLOW_FILE \<mapsto> old_content (view fs1 TELEM_OVERFLOW_FILE) @ l @ [10])"
    using save_line [OF law takes d(2), of fs1 l] line(1) by metis
  have "lg_sd_present lg" "\<not> pi_takes i (telemetry_topic i m) l" using up refused by (simp_all add: card_up_def)
  then have e: "drain_pending_telemetry_overflow sd i m ((lg, fs), s) =
      ((lg1, fs2), transmit (Mqtt (telemetry_topic i m) l False False) s)"
    using ready line(1) by (simp add: drain_pending_telemetry_overflow_def d(1) f(1) mqtt_send_def)
  have "view fs2 TELEM_OVERFLOW_FILE = Some (queue_lines ((if ls = [] then [] else l # ls) @ [l]))"
    by (simp add: f(2) old queue_lines_def)
  with e d(2) show thesis by (rule that [OF _ _ refl])
qed

lemma publish_mqtt_refused:
  assumes law: "sd_lawful sd view rest" and takes: "card_takes sd view TELEM_OVERFLOW_FILE" and up: "card_up lg"
    and ready: "mqtt_ready i (kv_of d)" and refused: "\<forall>t b. \<not> pi_takes i t b" and due: "1000 \<le> pi_now i - pu_last_mqtt s"
    and room: "length (old_content (view fs TELEM_OVERFLOW_FILE)) < LOG_OVERFLOW_MAX_BYTES" and body: "body \<noteq> []"
  obtains fs' s' where "publish_mqtt sd i d body ((lg, fs), s) = ((lg, fs'), s')"
    "view fs' = (view fs)(TELEM_OVERFLOW_FILE \<mapsto> old_content (view fs TELEM_OVERFLOW_FILE) @ body @ [10])"
proof -
  obtain fs' where f: "save_telemetry_overflow sd body (lg, fs) = (True, lg, fs')"
      "view fs' = (view fs)(TELEM_OVERFLOW_FILE \<mapsto> old_content (view fs TELEM_OVERFLOW_FILE) @ body @ [10])"
    using save_line [OF law takes up, of fs body] room body by metis
  have "\<not> pi_now i - pu_last_mqtt s < 1000" using due by (simp add: not_less)
  moreover have "\<not> pi_takes i (telemetry_topic i (kv_of d)) body" using refused by blast
  ultimately have "publish_mqtt sd i d body ((lg, fs), s) = ((lg, fs'), snd (publish_mqtt sd i d body ((lg, fs), s)))"
    using f(1) ready by (simp add: publish_mqtt_def mqtt_send_def Let_def)
  from that [OF this f(2)] show thesis .
qed


text \<open>A device with a broker, a mounted card, a printer that yields the same text.\<close>

definition broker_device :: device where
  "broker_device = on_kv (settings_save_mqtt [98] 1883 []) demo_device"

definition mounted :: "'h logger" where
  "mounted = logger0\<lparr> lg_sd_initialized := True, lg_sd_present := True \<rparr>"

definition fixed_printer :: "bytes \<Rightarrow> json_lib" where
  "fixed_printer t = \<lparr> jl_parse = \<lambda>_. None, jl_print = \<lambda>_ _. t \<rparr>"

lemma map_card_takes: "card_takes map_card (\<lambda>m. m) p"
  by (auto simp: card_takes_def map_card_def split: option.split)

lemma mounted_up: "card_up mounted" "lg_telem_file mounted = None"
  by (simp_all add: card_up_def mounted_def logger0_def)

lemma broker_ready: "mqtt_ready (demo_pub\<lparr> pi_takes := t \<rparr>) (kv_of broker_device)" "\<not> nt_skip (dv_net broker_device)"
  by (simp_all add: broker_device_def mqtt_ready_def demo_pub_def settings_load_mqtt_def settings_save_mqtt_def
      on_kv_def demo_device_def net0_def pf_isKey_def pf_putString_def pf_putUShort_def)


section \<open>The queue is sent in order\<close>

lemma drain_pending_taken:
  assumes law: "sd_lawful sd view rest" and up: "card_up lg" and ready: "mqtt_ready i m" and taken: "\<forall>t b. pi_takes i t b"
    and open_at: "telem_handle sd (lg, fs) = Some h" "rest h = queue_lines (l # ls)" "view fs TELEM_OVERFLOW_FILE \<noteq> None"
    and line: "l \<noteq> []" "10 \<notin> set l" "length l < 2047"
  obtains lg' fs' where
    "drain_pending_telemetry_overflow sd i m ((lg, fs), s) = ((lg', fs'), transmit (Mqtt (telemetry_topic i m) l False True) s)"
    "card_up lg'" "if ls = [] then view fs' TELEM_OVERFLOW_FILE = None
      else view fs' TELEM_OVERFLOW_FILE \<noteq> None \<and> (\<exists>h'. telem_handle sd (lg', fs') = Some h' \<and> rest h' = queue_lines ls)"
proof -
  have ex: "sd_exists sd TELEM_OVERFLOW_FILE fs" using open_at(3) sd_laws(1) [OF law] by simp
  have r: "fst (read_line sd 2047 h) = l" "rest (snd (read_line sd 2047 h)) = queue_lines ls"
    using read_line_spec [OF law open_at(2) [unfolded queue_lines_simps], of 2047] line by auto
  have e: "fst (sd_read sd h' 1) = take 1 (rest h')" for h' using sd_laws(8) [OF law] by simp
  let ?lg = "if ls = [] then lg\<lparr> lg_telem_file := None \<rparr> else lg\<lparr> lg_telem_file := Some (snd (read_line sd 2047 h)) \<rparr>"
  let ?fs = "if ls = [] then snd (sd_remove sd TELEM_OVERFLOW_FILE fs) else fs"
  have d: "drain_telemetry_overflow sd 2048 (lg, fs) = (l, ?lg, ?fs)"
    using drain_eq [of 2048 sd "(lg, fs)" h] ex r line(1) e open_at(1) by (simp add: init_card_up [OF up] case_prod_beta Let_def)
  have "lg_sd_present lg" "pi_takes i (telemetry_topic i m) l" using up taken by (simp_all add: card_up_def)
  then have "drain_pending_telemetry_overflow sd i m ((lg, fs), s) =
      ((?lg, ?fs), transmit (Mqtt (telemetry_topic i m) l False True) s)"
    using ready line(1) by (simp add: drain_pending_telemetry_overflow_def d mqtt_send_def)
  moreover have "card_up ?lg" using up by (simp add: card_up_def)
  moreover have "if ls = [] then view ?fs TELEM_OVERFLOW_FILE = None
      else view ?fs TELEM_OVERFLOW_FILE \<noteq> None \<and> (\<exists>h'. telem_handle sd (?lg, ?fs) = Some h' \<and> rest h' = queue_lines ls)"
    using r(2) open_at(3) sd_laws(2) [OF law, of TELEM_OVERFLOW_FILE fs] by (simp add: telem_handle_def)
  ultimately show thesis by (rule that)
qed



section \<open>A long document comes back in pieces\<close>



end
