(* ===== verification/Bl0939.thy ===== *)
theory Bl0939
  imports Sensors
begin

text \<open>
  \<open>bl0939_pod.cpp\<close>: the driver of the BL0939 energy meters on one shared UART. Built in when \<open>ENABLE_BL0939\<close> is set (it
  is off in \<open>config.h\<close>); without it the read does nothing. \<open>addrs\<close> are \<open>BL0939_ADDRESSES\<close>, as many as
  \<open>BL0939_COUNT\<close>. The bytes waiting on the UART are an argument of a read; the channels of the pod are read and written
  as the driver does, which makes it one of the pod drivers \<open>Sensors\<close> takes.
\<close>

section \<open>State\<close>

record bl_reading =
  bl_v :: f32
  bl_ia :: f32
  bl_ib :: f32
  bl_pa :: f32
  bl_pb :: f32

text \<open>The cache holds no reading (\<open>valid\<close> is false) until a frame was parsed. The map from pods to slots starts with
zeros.\<close>

record bl0939 =
  bs_slot_for_pod :: "i8 list"
  bs_cache :: "bl_reading option list"
  bs_rx :: bytes

definition bl0939_0 :: bl0939 where
  "bl0939_0 = \<lparr> bs_slot_for_pod = replicate MAX_PODS 0, bs_cache = replicate 4 None, bs_rx = [] \<rparr>"

abbreviation BL0939_FRAME_LEN :: nat where "BL0939_FRAME_LEN \<equiv> 24"

definition bl0939_set_pod_slot :: "u8 list \<Rightarrow> u8 \<Rightarrow> u8 \<Rightarrow> bl0939 \<Rightarrow> bl0939" where
  "bl0939_set_pod_slot addrs pod slot s =
    (if unat pod < MAX_PODS \<and> unat slot < length addrs
     then s\<lparr> bs_slot_for_pod := (bs_slot_for_pod s)[unat pod := ucast slot] \<rparr> else s)"

fun first_slot :: "nat \<Rightarrow> u8 \<Rightarrow> u8 list \<Rightarrow> nat option" where
  "first_slot i a [] = None"
| "first_slot i a (x # xs) = (if x = a then Some i else first_slot (Suc i) a xs)"

definition bl0939_slot_for_address :: "u8 list \<Rightarrow> u8 \<Rightarrow> nat option" where
  "bl0939_slot_for_address addrs a = first_slot 0 a (take 4 addrs)"

section \<open>Frames\<close>

definition bl0939_u24 :: "bytes \<Rightarrow> u32" where
  "bl0939_u24 p = push_bit 16 (ucast (p ! 0)) OR push_bit 8 (ucast (p ! 1)) OR ucast (p ! 2)"

definition bl0939_s24 :: "bytes \<Rightarrow> i32" where
  "bl0939_s24 p = (let u = bl0939_u24 p in ucast (if u AND 0x800000 \<noteq> 0 then u OR 0xFF000000 else u))"

definition bl_checksum :: "bytes \<Rightarrow> u8" where
  "bl_checksum buf = foldl (+) 0x55 (take (BL0939_FRAME_LEN - 1) buf) XOR 0xFF"

definition bl_read_frame :: "bytes \<Rightarrow> bl_reading" where
  "bl_read_frame buf =
    (let volt = f_lit 171666 10; amp = f_of_int 266012; watt = f_lit 71319 100 in
     \<lparr> bl_v = f_div (f_of_int (uint (bl0939_u24 (drop 1 buf)))) volt,
       bl_ia = f_div (f_of_int (sint (bl0939_s24 (drop 4 buf)))) amp,
       bl_ib = f_div (f_of_int (sint (bl0939_s24 (drop 7 buf)))) amp,
       bl_pa = f_div (f_of_int (sint (bl0939_s24 (drop 10 buf)))) watt,
       bl_pb = f_div (f_of_int (sint (bl0939_s24 (drop 13 buf)))) watt \<rparr>)"

definition bl0939_parse_frame :: "u8 list \<Rightarrow> bytes \<Rightarrow> bl0939 \<Rightarrow> bool \<times> bl0939" where
  "bl0939_parse_frame addrs buf s =
    (case bl0939_slot_for_address addrs (buf ! 0) of
       None \<Rightarrow> (False, s)
     | Some slot \<Rightarrow>
         if bl_checksum buf \<noteq> buf ! (BL0939_FRAME_LEN - 1) then (False, s)
         else (True, s\<lparr> bs_cache := (bs_cache s)[slot := Some (bl_read_frame buf)] \<rparr>))"

text \<open>One byte from the UART: outside a frame only an address begins one, inside every byte belongs to it.\<close>

definition bl_byte :: "u8 list \<Rightarrow> u8 \<Rightarrow> bl0939 \<Rightarrow> bl0939" where
  "bl_byte addrs b s =
    (if bs_rx s = [] then (if bl0939_slot_for_address addrs b \<noteq> None then s\<lparr> bs_rx := [b] \<rparr> else s)
     else
       let rx = bs_rx s @ [b] in
       if BL0939_FRAME_LEN \<le> length rx then (snd (bl0939_parse_frame addrs rx s))\<lparr> bs_rx := [] \<rparr>
       else s\<lparr> bs_rx := rx \<rparr>)"

definition bl0939_drain_uart :: "u8 list \<Rightarrow> bytes \<Rightarrow> bl0939 \<Rightarrow> bl0939" where
  "bl0939_drain_uart addrs input s = fold (bl_byte addrs) input s"

section \<open>The pod\<close>

definition set_reading :: "nat \<Rightarrow> f32 \<Rightarrow> f32 \<Rightarrow> f32 \<Rightarrow> PodState \<Rightarrow> PodState" where
  "set_reading k v i p pod = pod\<lparr> ps_channels := (ps_channels pod)
     [k := (ps_channels pod ! k)\<lparr> pc_voltage := v, pc_current := i, pc_power := p \<rparr>] \<rparr>"

definition bl_copy :: "bl_reading \<Rightarrow> PodState \<Rightarrow> PodState" where
  "bl_copy c pod =
    (let pod1 = (if 1 \<le> ps_num_channels pod then set_reading 0 (bl_v c) (bl_ia c) (bl_pa c) pod else pod)
     in if 2 \<le> ps_num_channels pod1 then set_reading 1 (bl_v c) (bl_ib c) (bl_pb c) pod1 else pod1)"

definition bl0939_pod_read :: "u8 list \<Rightarrow> bytes \<Rightarrow> PodState \<times> bl0939 \<Rightarrow> PodState \<times> bl0939" where
  "bl0939_pod_read addrs input w =
    (let pod = fst w; s = bl0939_drain_uart addrs input (snd w) in
     if MAX_PODS \<le> unat (ps_id pod) then (pod, s)
     else
       let slot = bs_slot_for_pod s ! unat (ps_id pod) in
       if slot <s 0 \<or> int (length addrs) \<le> sint slot then (pod, s)
       else (case bs_cache s ! unat slot of None \<Rightarrow> (pod, s) | Some c \<Rightarrow> (bl_copy c pod, s)))"

section \<open>It is a pod driver\<close>

text \<open>Whatever bytes arrive, the driver keeps the shape of the pods it is given.\<close>

lemma bl0939_driver_ok: "driver_ok (\<lambda>pod. fst (bl0939_pod_read addrs input (pod, s)))"
  by (simp add: driver_ok_def pod_ok_def bl0939_pod_read_def bl_copy_def set_reading_def Let_def split: option.split)

section \<open>Transmission errors\<close>

lemma foldl_plus: "foldl (+) (a :: u8) xs = a + sum_list xs"
  by (induction xs arbitrary: a) (simp_all add: add.assoc)

lemma sum_list_update: "i < length xs \<Longrightarrow> sum_list (xs[i := b]) = sum_list xs - xs ! i + (b :: u8)"
  by (induction xs arbitrary: i) (auto simp: algebra_simps split: nat.split)

lemma xor_ff_inj: "(a :: u8) XOR 0xFF = b XOR 0xFF \<longleftrightarrow> a = b"
  by (metis xor.assoc xor_self_eq xor.right_neutral)

lemma checksum_update:
  assumes "i < 23" "length buf = 24" "b \<noteq> buf ! i"
  shows "bl_checksum (buf[i := b]) \<noteq> bl_checksum buf"
proof -
  have "take 23 (buf[i := b]) = (take 23 buf)[i := b]" by (simp add: take_update_swap)
  then have "sum_list (take 23 (buf[i := b])) = sum_list (take 23 buf) - buf ! i + b"
    using sum_list_update [of i "take 23 buf" b] assms(1,2) by simp
  then show ?thesis using assms(3) by (simp add: bl_checksum_def foldl_plus xor_ff_inj)
qed

text \<open>A frame damaged in one byte is never taken for a measurement: whichever byte it is (address, values, checksum)
and whatever it became, the parser refuses the frame and the cached readings stay.\<close>

lemma bl0939_single_byte_error:
  assumes "length buf = 24" "fst (bl0939_parse_frame addrs buf s)" "i < 24" "b \<noteq> buf ! i"
  shows "bl0939_parse_frame addrs (buf[i := b]) t = (False, t)"
proof -
  have ok: "bl_checksum buf = buf ! 23" using assms(2) by (auto simp: bl0939_parse_frame_def split: option.splits if_splits)
  have "bl_checksum (buf[i := b]) \<noteq> buf[i := b] ! 23"
  proof (cases "i = 23")
    case True
    then have "bl_checksum (buf[i := b]) = bl_checksum buf" by (simp add: bl_checksum_def)
    then show ?thesis using True ok assms(1,4) by simp
  next
    case False
    then have "i < 23" using assms(3) by simp
    then show ?thesis using checksum_update [OF _ assms(1,4)] ok by (simp add: assms(1))
  qed
  then show ?thesis by (simp add: bl0939_parse_frame_def split: option.split)
qed

section \<open>A stream of frames\<close>

lemma drain_inside:
  assumes "bs_rx s \<noteq> []" "length (bs_rx s) + length xs < 24"
  shows "bl0939_drain_uart addrs xs s = s\<lparr> bs_rx := bs_rx s @ xs \<rparr>"
  using assms by (induction xs arbitrary: s) (simp_all add: bl0939_drain_uart_def bl_byte_def Let_def)

lemma drain_append: "bl0939_drain_uart addrs (xs @ ys) s = bl0939_drain_uart addrs ys (bl0939_drain_uart addrs xs s)"
  by (simp add: bl0939_drain_uart_def)

lemma drain_frame:
  assumes "bs_rx s = []" "length f = 24" "bl0939_slot_for_address addrs (f ! 0) \<noteq> None"
  shows "bl0939_drain_uart addrs f s = (snd (bl0939_parse_frame addrs f s))\<lparr> bs_rx := [] \<rparr>"
proof -
  obtain a xs z where f: "f = a # xs @ [z]" "length xs = 22"
    using assms(2) by (cases f rule: list.exhaust; cases "tl f" rule: rev_exhaust) auto
  have "bl0939_drain_uart addrs [a] s = s\<lparr> bs_rx := [a] \<rparr>"
    using assms(1,3) f by (simp add: bl0939_drain_uart_def bl_byte_def)
  moreover have "bl0939_drain_uart addrs xs (s\<lparr> bs_rx := [a] \<rparr>) = s\<lparr> bs_rx := a # xs \<rparr>"
    using drain_inside [of "s\<lparr> bs_rx := [a] \<rparr>" xs addrs] f(2) by simp
  moreover have "bl0939_parse_frame addrs f (s\<lparr> bs_rx := a # xs \<rparr>) =
      (fst (bl0939_parse_frame addrs f s), (snd (bl0939_parse_frame addrs f s))\<lparr> bs_rx := a # xs \<rparr>)"
    by (simp add: bl0939_parse_frame_def split: option.split)
  ultimately have "bl0939_drain_uart addrs ([a] @ xs @ [z]) s = (snd (bl0939_parse_frame addrs f s))\<lparr> bs_rx := [] \<rparr>"
    unfolding drain_append using f by (simp add: bl0939_drain_uart_def bl_byte_def Let_def)
  then show ?thesis using f(1) by simp
qed

text \<open>Frames sent one after the other are parsed one by one, each into the slot of its address.\<close>

lemma drain_frames:
  assumes "bs_rx s = []" "\<forall>f \<in> set fs. length f = 24 \<and> bl0939_slot_for_address addrs (f ! 0) \<noteq> None"
  shows "bl0939_drain_uart addrs (concat fs) s = fold (\<lambda>f s. snd (bl0939_parse_frame addrs f s)) fs s"
  using assms
proof (induction fs arbitrary: s)
  case (Cons f fs)
  have rx: "bs_rx (snd (bl0939_parse_frame addrs f s)) = []"
    using Cons.prems(1) by (simp add: bl0939_parse_frame_def split: option.split)
  then have "bl0939_drain_uart addrs f s = snd (bl0939_parse_frame addrs f s)"
    using drain_frame [OF Cons.prems(1)] Cons.prems(2) by simp
  then show ?case using Cons.IH [OF rx] Cons.prems(2) by (simp add: drain_append)
qed (simp add: bl0939_drain_uart_def)

end
