(* ===== verification/Serial1.thy ===== *)
theory Serial1
  imports Prelude
begin

text \<open>
  \<open>serial1_manager.cpp\<close>: the receive ring of the second serial port and its line reader, built in when
  \<open>ENABLE_SERIAL1\<close> is set (it is off in \<open>config.h\<close>, where every function is empty). The bytes waiting on the port are an
  argument. \<open>s1_content\<close> is the queue the ring stands for, and each operation is that of the queue.
\<close>

record serial1 =
  s1_buf :: "nat \<Rightarrow> u8"
  s1_head :: nat
  s1_tail :: nat

abbreviation SERIAL1_BUFFER_SIZE :: nat where "SERIAL1_BUFFER_SIZE \<equiv> 256"

definition init_serial1 :: "serial1 \<Rightarrow> serial1" where
  "init_serial1 s = s\<lparr> s1_head := 0, s1_tail := 0 \<rparr>"

text \<open>What does not fit stays on the port.\<close>

fun loop_serial1 :: "bytes \<Rightarrow> serial1 \<Rightarrow> bytes \<times> serial1" where
  "loop_serial1 [] s = ([], s)"
| "loop_serial1 (c # cs) s =
    (if (s1_head s + 1) mod SERIAL1_BUFFER_SIZE \<noteq> s1_tail s
     then loop_serial1 cs (s\<lparr> s1_buf := (s1_buf s)(s1_head s := c), s1_head := (s1_head s + 1) mod SERIAL1_BUFFER_SIZE \<rparr>)
     else (c # cs, s))"

definition serial1_available :: "serial1 \<Rightarrow> nat" where
  "serial1_available s =
    (if s1_tail s \<le> s1_head s then s1_head s - s1_tail s else SERIAL1_BUFFER_SIZE - s1_tail s + s1_head s)"

text \<open>The loop of the reader runs at most once per byte in the ring.\<close>

fun s1_read :: "nat \<Rightarrow> nat \<Rightarrow> bytes \<Rightarrow> serial1 \<Rightarrow> bytes \<times> serial1" where
  "s1_read 0 len out s = (out, s)"
| "s1_read (Suc n) len out s =
    (if length out < len - 1 then
       (let c = s1_buf s (s1_tail s); s' = s\<lparr> s1_tail := (s1_tail s + 1) mod SERIAL1_BUFFER_SIZE \<rparr> in
        if c = 10 \<or> c = 13 then (if out \<noteq> [] then (out, s') else s1_read n len out s') else s1_read n len (out @ [c]) s')
     else (out, s))"

definition serial1_read_line :: "nat \<Rightarrow> serial1 \<Rightarrow> bool \<times> bytes \<times> serial1" where
  "serial1_read_line len s =
    (if s1_tail s = s1_head s then (False, [], s)
     else let (out, s') = s1_read (serial1_available s) len [] s in (out \<noteq> [], out, s'))"

section \<open>The queue it stands for\<close>

definition s1_inv :: "serial1 \<Rightarrow> bool" where
  "s1_inv s = (s1_head s < 256 \<and> s1_tail s < 256)"

definition s1_content :: "serial1 \<Rightarrow> bytes" where
  "s1_content s = map (\<lambda>k. s1_buf s ((s1_tail s + k) mod 256)) [0..<serial1_available s]"

lemma length_s1_content [simp]: "length (s1_content s) = serial1_available s"
  by (simp add: s1_content_def)

lemma available_step:
  assumes "s1_inv s" "(s1_head s + 1) mod 256 \<noteq> s1_tail s"
  shows "serial1_available (s\<lparr> s1_buf := b, s1_head := (s1_head s + 1) mod 256 \<rparr>) = Suc (serial1_available s)"
    "serial1_available s < 255"
  using assms by (auto simp: serial1_available_def s1_inv_def mod_if split: if_splits)

lemma head_of_content: "s1_inv s \<Longrightarrow> (s1_tail s + serial1_available s) mod 256 = s1_head s"
  by (auto simp: serial1_available_def s1_inv_def mod_if)

lemma position_below:
  assumes "s1_inv s" "serial1_available s < 255" "k < serial1_available s"
  shows "(s1_tail s + k) mod 256 \<noteq> s1_head s"
  using assms by (auto simp: serial1_available_def s1_inv_def mod_if split: if_splits)

text \<open>Receiving appends what fits: the ring holds 255 bytes.\<close>

lemma loop_serial1_queue:
  assumes "s1_inv s"
  shows "let (left, s') = loop_serial1 cs s; n = 255 - serial1_available s in
    s1_inv s' \<and> s1_content s' = s1_content s @ take n cs \<and> left = drop n cs"
  using assms
proof (induction cs arbitrary: s)
  case (Cons c cs)
  show ?case
  proof (cases "(s1_head s + 1) mod 256 = s1_tail s")
    case True
    then have "serial1_available s = 255" using Cons.prems by (auto simp: serial1_available_def s1_inv_def mod_if split: if_splits)
    then show ?thesis using True Cons.prems by simp
  next
    case False
    let ?s = "s\<lparr> s1_buf := (s1_buf s)(s1_head s := c), s1_head := (s1_head s + 1) mod 256 \<rparr>"
    note step = available_step(1) [OF Cons.prems False, of "(s1_buf s)(s1_head s := c)"] available_step(2) [OF Cons.prems False]
    have content: "s1_content ?s = s1_content s @ [c]"
      unfolding s1_content_def step(1) using head_of_content [OF Cons.prems] position_below [OF Cons.prems step(2)] by simp
    have inv: "s1_inv ?s" using Cons.prems by (simp add: s1_inv_def)
    have "take (255 - serial1_available s) (c # cs) = c # take (255 - Suc (serial1_available s)) cs"
      "drop (255 - serial1_available s) (c # cs) = drop (255 - Suc (serial1_available s)) cs"
      using step(2) by (simp_all add: take_Cons' drop_Cons' Suc_diff_Suc)
    then show ?thesis using Cons.IH [OF inv] content step(1) False by (simp add: case_prod_beta Let_def)
  qed
qed simp

text \<open>Reading a line of the queue: line ends before the first character are skipped, one after it is consumed.\<close>

fun line_of :: "nat \<Rightarrow> bytes \<Rightarrow> bytes \<Rightarrow> bytes \<times> bytes" where
  "line_of len out [] = (out, [])"
| "line_of len out (c # cs) =
    (if length out < len - 1 then
       (if c = 10 \<or> c = 13 then (if out \<noteq> [] then (out, cs) else line_of len out cs) else line_of len (out @ [c]) cs)
     else (out, c # cs))"

lemma content_Cons:
  assumes "s1_inv s" "serial1_available s = Suc n"
  shows "let s' = s\<lparr> s1_tail := (s1_tail s + 1) mod 256 \<rparr> in
    s1_inv s' \<and> serial1_available s' = n \<and> s1_content s = s1_buf s (s1_tail s) # s1_content s'"
proof -
  let ?s = "s\<lparr> s1_tail := (s1_tail s + 1) mod 256 \<rparr>"
  have n: "serial1_available ?s = n"
    using assms by (auto simp: serial1_available_def s1_inv_def mod_if split: if_splits)
  have tail: "s1_tail s < 256" using assms(1) by (simp add: s1_inv_def)
  have "[0..<Suc n] = 0 # map Suc [0..<n]" by (simp only: upt_conv_Cons map_Suc_upt zero_less_Suc)
  then have "s1_content s = s1_buf s (s1_tail s) # map (\<lambda>k. s1_buf s ((s1_tail s + Suc k) mod 256)) [0..<n]"
    using tail by (simp add: s1_content_def assms(2) del: upt_Suc)
  moreover have "(s1_tail s + Suc k) mod 256 = ((s1_tail s + 1) mod 256 + k) mod 256" for k
    by (simp add: mod_add_left_eq)
  ultimately show ?thesis using assms(1) n by (simp add: s1_content_def s1_inv_def)
qed

lemma s1_read_queue:
  assumes "s1_inv s" "serial1_available s = n"
  shows "let (out', s') = s1_read n len out s in s1_inv s' \<and> (out', s1_content s') = line_of len out (s1_content s)"
  using assms
proof (induction n arbitrary: out s)
  case 0
  then have "s1_content s = []" using length_s1_content [of s] by (metis length_0_conv)
  then show ?case using 0 by simp
next
  case (Suc n)
  note c = content_Cons [OF Suc.prems, unfolded Let_def]
  let ?s = "s\<lparr> s1_tail := (s1_tail s + 1) mod 256 \<rparr>"
  have ih: "let (out', s') = s1_read n len o' ?s in s1_inv s' \<and> (out', s1_content s') = line_of len o' (s1_content ?s)" for o'
    using Suc.IH [of ?s o'] c by simp
  have "s1_content s = s1_buf s (s1_tail s) # s1_content ?s" "s1_inv ?s" using c by blast+
  then show ?case
    using ih [of out] ih [of "[]"] ih [of "out @ [s1_buf s (s1_tail s)]"] Suc.prems(1) by (auto simp: Let_def case_prod_beta)
qed

lemma serial1_read_line_queue:
  assumes "s1_inv s"
  shows "let (ok, out, s') = serial1_read_line len s in
    s1_inv s' \<and> (out, s1_content s') = line_of len [] (s1_content s) \<and> ok = (out \<noteq> [])"
proof (cases "s1_tail s = s1_head s")
  case True
  then have "s1_content s = []" by (simp add: s1_content_def serial1_available_def)
  then show ?thesis using True assms by (simp add: serial1_read_line_def)
next
  case False
  then show ?thesis using s1_read_queue [OF assms refl, of len "[]"] by (simp add: serial1_read_line_def case_prod_beta Let_def)
qed

text \<open>A line that fits comes out whole, and only it.\<close>

lemma line_of_whole:
  assumes "l \<noteq> [] \<or> out \<noteq> []" "10 \<notin> set l" "13 \<notin> set l" "length out + length l + 1 < len"
  shows "line_of len out (l @ 10 # cs) = (out @ l, cs)"
  using assms by (induction l arbitrary: out) auto

end
