(* ===== verification/Spec2Isabelle.thy ===== *)
theory Spec2Isabelle
  imports Prelude F32 Nvs Layout Settings Sensors Pcf8574 Counters Switches Switch_Engine
    Byte_Ring Data_Logger Log_Card Log_Publish Battery_Store Cycle_Counter
    Event_Rings Device_Identity Ota Json_Doc Wifi
    Device Ble_Link Switch_Command Ble_Commands Ble_Dispatch Ble_Security Cloud_Commands
    Cloud_Safety Switch_Readback Ui Telemetry C_Text Firmware Serial_Cli System
    Device_Invariant System_Invariant Safe_Mode
    Publishing Ingest Cloud_Sync Publish_Queue Display Bl0939 Serial1
begin

text \<open>
  Verification development for the power-monitor firmware (ESP32 boards; C++ under \<open>src/src\<close> and
  \<open>src/include\<close>; paths below are relative to \<open>src/\<close> of the repository).

  \<^bold>\<open>The program.\<close> Three tasks and a console share the device. The sensor task (\<open>main.cpp\<close>, once a second) reads the current and
  voltage pods, pushes a snapshot, integrates charge and energy, counts battery cycles, evaluates the switch rules and
  stores a log entry. The network task (every 10 ms) keeps WiFi, MQTT, the BLE link and the update client going,
  publishes telemetry and the log, and polls the cloud for commands. The UI task reads the buttons; \<open>loop()\<close> serves the
  serial console. Commands arrive over BLE (\<open>handle_command\<close>, 49 commands) and from the backend (\<open>apply_settings_command\<close>), and end in the same component operations. All
  configuration and the battery state live in NVS; the log overflow and the CSV files on an SD card.

  \<^bold>\<open>Theories, bottom up.\<close>
  \<^item> \<open>Prelude\<close>: integer types by name, the fact collections, little-endian byte codecs, lists of fixed length.
    \<open>F32\<close>: IEEE binary32, bit by bit and executable (round to nearest even), with monotonicity and exactness facts.
    \<open>Nvs\<close>: \<open>Preferences\<close> as the host build's stub has it (\<open>sim/hal/preferences_stub.cpp\<close>), a map from keys to bytes.
    \<open>Layout\<close>: the structs stored as raw memory, as byte codecs; a bridge between records and blobs.
  \<^item> \<open>Settings\<close> (\<open>settings_manager.cpp\<close>): one load and one save per setting, with keys, defaults, size checks,
    migrations, factory reset. The key algebra (no two settings collide) is proved once and carries all round trips.
  \<^item> \<open>Sensors\<close> (\<open>sensor_manager.cpp\<close>), \<open>Pcf8574\<close> (\<open>pcf8574at.cpp\<close>), \<open>Counters\<close> (\<open>coulomb_counter.cpp\<close>,
    \<open>energy_counter.cpp\<close>), \<open>Switches\<close> and \<open>Switch_Engine\<close> (\<open>switch_controller.cpp\<close>): measurement and actuation.
  \<^item> \<open>Byte_Ring\<close>, \<open>Data_Logger\<close>, \<open>Log_Card\<close> (\<open>data_logger.cpp\<close>) and \<open>Log_Publish\<close> (the log half of
    \<open>connectivity_manager.cpp\<close>): the delta-encoded log from a sample to the broker.
  \<^item> \<open>Battery_Store\<close> (\<open>battery_nvs.cpp\<close>, \<open>battery_profile.cpp\<close>, \<open>battery_state.cpp\<close>) and \<open>Cycle_Counter\<close>
    (\<open>cycle_counter.cpp\<close>): profiles, bindings and the per-channel battery state.
  \<^item> \<open>Event_Rings\<close> (\<open>event_log.cpp\<close>, \<open>error_reporter.cpp\<close>), \<open>Device_Identity\<close> (\<open>device_identity.cpp\<close>),
    \<open>Ota\<close> (\<open>ota_client.cpp\<close>), \<open>Wifi\<close> (the link half of \<open>connectivity_manager.cpp\<close>).
  \<^item> \<open>Json_Doc\<close>, \<open>Device\<close>, \<open>Ble_Link\<close>, \<open>Switch_Command\<close>, \<open>Ble_Commands\<close>, \<open>Ble_Dispatch\<close>, \<open>Cloud_Commands\<close>
    (\<open>ble_provisioner.cpp\<close>, the command half of \<open>connectivity_manager.cpp\<close>): the two command channels over one
    record of the whole device; \<open>Ble_Security\<close>, \<open>Cloud_Safety\<close>, \<open>Switch_Readback\<close> hold what follows for them.
  \<^item> \<open>Ui\<close> (\<open>ui_manager.cpp\<close>): buttons and LEDs. \<open>Display\<close> (\<open>display_manager.cpp\<close>): the OLED pages.
    \<open>Bl0939\<close> (\<open>bl0939_pod.cpp\<close>) and \<open>Serial1\<close> (\<open>serial1_manager.cpp\<close>): two drivers that are off by default. \<open>Telemetry\<close> (\<open>telemetry.cpp\<close>, \<open>telemetry_pb.cpp\<close>): the
    snapshot every transport publishes, and its protobuf copy. \<open>Publishing\<close>, \<open>Cloud_Sync\<close> (the transport half of
    \<open>connectivity_manager.cpp\<close>): the telemetry document, where it is sent, the queue it waits in, and the syncs of the
    configuration; \<open>Ingest\<close> (\<open>backend/internal/ingest.go\<close>): what the backend reads of it; \<open>Publish_Queue\<close>: what holds
    for them. \<open>C_Text\<close>: \<open>sscanf\<close>, \<open>atof\<close> and \<open>atoi\<close> of the C library
    as far as the console uses them.
  \<^item> \<open>Firmware\<close> (\<open>main.cpp\<close>): the state of the whole firmware, boot, and one round of the sensor, network and UI
    tasks. \<open>Serial_Cli\<close> (\<open>main.cpp\<close>): the serial console, its line editor and 50 commands. \<open>System\<close>: the step
    relation of the firmware and its reachable states. \<open>Device_Invariant\<close> and \<open>System_Invariant\<close>: the invariant of
    every reachable state, operation by operation and along the runs; \<open>Safe_Mode\<close>: what safe mode allows.

  \<^bold>\<open>How the code is read.\<close> A file's static variables are a record, a function a definition that takes and returns it,
  early returns and guards are its branches. Integers keep their width (\<open>'w word\<close>), \<open>float\<close> is \<open>F32.f32\<close>, strings are
  character lists with the truncation of the buffers they pass through. Loops are structural recursions or folds. What
  is outside the repository or below it is an argument: the I2C bus and sensor readings, the card (its library is a
  record of functions, its laws the predicate \<open>sd_lawful\<close>), the broker, HTTP answers, SHA-256, the flash, \<open>localtime\<close>, and
  the random and MAC values; their laws, where a property needs one, are hypotheses of that property. \<open>millis()\<close> is a
  32-bit word that wraps. A critical section is one step; the tasks interleave by rounds.

  \<^bold>\<open>Bounds and fuel.\<close> The drain loop of the publication runs on fuel; one more than the length of the overflow file is
  enough, and the theorem on the publication proves that the fuel never runs out. Pruning the card runs on the
  number of files listed, flushing the log from the console on one more than the ring's size, each pass popping a byte
  at least. Every other loop recurses on the data it walks. Float expressions are evaluated operation by
  operation (no contraction to fused multiply-add, no excess precision), as the C++ types say.

  \<^bold>\<open>Interfaces.\<close> Locales state what one component relies on in another: \<open>cell\<close> and \<open>two_cells\<close> (\<open>Nvs\<close>), a setting
  that is loaded as it was saved and that leaves other keys alone, interpreted on every setting in \<open>Settings\<close>;
  \<open>persisted_counter\<close> (\<open>Counters\<close>), interpreted on the charge and the energy counter; \<open>byte_fifo\<close> (\<open>Byte_Ring\<close>), on
  the ring of the logger; \<open>newest_log\<close> (\<open>Event_Rings\<close>), on the event log and the error ring.

  \<^bold>\<open>What the theorems show.\<close>
  \<^item> Every reachable state: shapes and bounds of all state, reserved pins never driven, safe boot.
  \<^item> Switches: a trip needs its delay and happens after it, pulses end, automatic mode off releases, payload forms agree.
  \<^item> Commands: what the PIN gates on each channel, how guessing it is rationed, and where it is not asked for.
  \<^item> Updates: only a verified image becomes bootable, resources are held exactly while they are used.
  \<^item> Log and telemetry: no byte lost or repeated between a sample and the broker, the snapshot fits its fields, its document
    holds each value once, and a document the broker refuses waits on the card.
  \<^item> Stores: settings, calibration and battery profiles come back after a reboot; the registry is a map, the rings are
    bounded queues.
  \<^item> Console and UI: no overrun below 64-byte words; a factory reset needs a five second hold.
  \<^item> Where the code falls short of what it says (a sustained overcurrent that never trips, commands lost in a burst,
    safe mode that cannot be left, shadowed console commands, telemetry the backend cannot decode), the theorem states what it does.

  \<^bold>\<open>Not modelled.\<close> The
  INA3221 and ADS1115 drivers, the baseline calibration and the protobuf transport, compiled out in every board
  configuration; the JSON printer and parser and the MQTT and HTTP libraries (arguments); the log dump's text; the vendored
  protobuf runtime and generated tables; the host simulation except its NVS stub; the Go backend and the web UI except
  the command table a poll meets and the decoding of a telemetry message. Delays and the watchdog are not represented;
  the heap is an input where the code asks for it.
\<close>

end
